(* ===== verification/Prelude.thy ===== *)
theory Prelude
  imports "HOL-Library.Word" "HOL-Library.List_Lexorder"
begin

unbundle bit_operations_syntax

text \<open>
  The vocabulary the component theories share: names for the machine types, errors as values,
  the combinators that thread a mutable state through Go code that may return an error, byte
  strings, and the arithmetic of 64-bit words read as natural numbers.

  Representation of Go data.
  \<^item> \<open>uint8\<close>, \<open>uint16\<close>, \<open>uint32\<close>, \<open>uint64\<close> are words of that width, so addition wraps as in Go.
  \<^item> A slice \<open>[]byte\<close> is a list of bytes.
  \<^item> An array \<open>[n]byte\<close> is a word of \<open>8n\<close> bits whose most significant byte is the first element
    of the array: \<open>arr_bytes\<close> lists its elements and \<open>arr_of\<close> reads them back, and the two are
    inverse to each other, so equality of words is equality of arrays and the order of words is
    the lexicographic order of arrays.
  \<^item> A function that returns \<open>(x, err)\<close> has a result in \<open>error + 'a\<close>; a panic is an error value of
    its own, which no caller handles.
  \<^item> A function that mutates objects through pointers and returns \<open>err\<close> maps a state to a state
    and an optional error: the state is kept when there is an error, because some callers drop it.
\<close>

section \<open>Types\<close>

type_synonym byte = "8 word"
type_synonym bytes = "8 word list"
type_synonym u8 = "8 word"
type_synonym u16 = "16 word"
type_synonym u32 = "32 word"
type_synonym u64 = "64 word"
type_synonym hash = "256 word"
type_synonym address = "176 word"
type_synonym pubkey = "256 word"
type_synonym signature = "512 word"

datatype error = Err string | Panic string

type_synonym 'a res = "error + 'a"
type_synonym 's outcome = "'s \<times> error option"

section \<open>Control flow\<close>

text \<open>\<open>x, err := f(); if err != nil { return err }\<close> in a function without side effects.\<close>

fun res_bind :: "'a res \<Rightarrow> ('a \<Rightarrow> 'b res) \<Rightarrow> 'b res" where
  "res_bind (Inl e) f = Inl e"
| "res_bind (Inr a) f = f a"

text \<open>The same where the continuation changes the state.\<close>

fun with_res :: "'a res \<Rightarrow> 's \<Rightarrow> ('a \<Rightarrow> 's outcome) \<Rightarrow> 's outcome" where
  "with_res (Inl e) s f = (s, Some e)"
| "with_res (Inr a) s f = f a"

text \<open>\<open>err := op(state); if err != nil { return err }\<close>.\<close>

fun and_then :: "'s outcome \<Rightarrow> ('s \<Rightarrow> 's outcome) \<Rightarrow> 's outcome" where
  "and_then (s, None) f = f s"
| "and_then (s, Some e) f = (s, Some e)"

text \<open>A call whose returned error is dropped: a panic still unwinds.\<close>

fun drop_err :: "'s outcome \<Rightarrow> 's outcome" where
  "drop_err (s, None) = (s, None)"
| "drop_err (s, Some (Err m)) = (s, None)"
| "drop_err (s, Some (Panic m)) = (s, Some (Panic m))"

section \<open>Bytes\<close>

text \<open>Little-endian bytes of a number, and the number of little-endian bytes.\<close>

fun le_bytes :: "nat \<Rightarrow> nat \<Rightarrow> bytes" where
  "le_bytes 0 x = []"
| "le_bytes (Suc n) x = word_of_nat (x mod 256) # le_bytes n (x div 256)"

fun le_val :: "bytes \<Rightarrow> nat" where
  "le_val [] = 0"
| "le_val (b # bs) = unat b + 256 * le_val bs"

definition arr_bytes :: "'a::len word \<Rightarrow> bytes" where
  "arr_bytes w = rev (le_bytes (LENGTH('a) div 8) (unat w))"

definition arr_of :: "bytes \<Rightarrow> 'a::len word" where
  "arr_of bs = word_of_nat (le_val (rev bs))"

section \<open>Collections of facts\<close>

named_theorems outcome_iffs "when a composed operation ends without an error"
named_theorems codec_simps "what a decoder reads from an encoder's output"

section \<open>Lemmas\<close>

subsection \<open>Outcomes\<close>

lemma res_bind_Inr [outcome_iffs]:
  "res_bind r f = Inr b \<longleftrightarrow> (\<exists>a. r = Inr a \<and> f a = Inr b)"
  by (cases r) auto

lemma with_res_None [outcome_iffs]:
  "with_res r s f = (s', None) \<longleftrightarrow> (\<exists>a. r = Inr a \<and> f a = (s', None))"
  by (cases r) auto

lemma and_then_None [outcome_iffs]:
  "and_then r f = (s', None) \<longleftrightarrow> (\<exists>s. r = (s, None) \<and> f s = (s', None))"
  by (cases r; cases "snd r") auto

lemma drop_err_None [outcome_iffs]:
  "drop_err r = (s', None) \<longleftrightarrow> (r = (s', None) \<or> (\<exists>m. r = (s', Some (Err m))))"
  by (cases r rule: drop_err.cases) auto

lemma and_then_assoc: "and_then (and_then r f) g = and_then r (\<lambda>s. and_then (f s) g)"
  by (cases r; cases "snd r") auto

subsection \<open>Words as numbers\<close>

lemma unat_lt64: "unat (x::u64) < 18446744073709551616"
  using unsigned_less [of x, where ?'a = nat] by simp

lemma unat_add64: "unat x + unat y < 2 ^ 64 \<Longrightarrow> unat (x + y :: u64) = unat x + unat y"
  using unat_add_lem [of x y] by simp

lemma add64_wraps_iff: "x + y < (x::u64) \<longleftrightarrow> 2 ^ 64 \<le> unat x + unat y"
proof (cases "unat x + unat y < 2 ^ 64")
  case True
  then show ?thesis by (simp add: word_less_nat_alt unat_add64)
next
  case False
  then have small: "unat x + unat y - 2 ^ 64 < 2 ^ 64"
    using unat_lt64 [of x] unat_lt64 [of y] by simp
  have "unat (x + y) = (unat x + unat y) mod 2 ^ 64"
    by (simp add: unat_word_ariths)
  also have "\<dots> = (unat x + unat y - 2 ^ 64) mod 2 ^ 64"
    using False by (simp add: mod_if [of "unat x + unat y"])
  also have "\<dots> = unat x + unat y - 2 ^ 64"
    by (rule mod_less [OF small])
  finally show ?thesis
    using False unat_lt64 [of y] by (simp add: word_less_nat_alt)
qed

lemma unat_sub64: "y \<le> x \<Longrightarrow> unat (x - y :: u64) = unat x - unat y"
  by (rule unat_sub)

lemma unat_mult64: "unat x * unat y < 2 ^ 64 \<Longrightarrow> unat (x * y :: u64) = unat x * unat y"
  using unat_mult_lem [of x y] by simp

lemma unat_of_nat64: "n < 2 ^ 64 \<Longrightarrow> unat (word_of_nat n :: u64) = n"
  by (simp add: unat_of_nat)

lemma unat_of_nat32: "n < 2 ^ 32 \<Longrightarrow> unat (word_of_nat n :: u32) = n"
  by (simp add: unat_of_nat)

lemma unat_lt256: "unat (b::byte) < 256"
  using unsigned_less [of b, where ?'a = nat] by simp

subsection \<open>Bytes\<close>

lemma length_le_bytes [simp]: "length (le_bytes n x) = n"
  by (induction n arbitrary: x) auto

lemma le_val_le_bytes: "le_val (le_bytes n x) = x mod 256 ^ n"
proof (induction n arbitrary: x)
  case 0
  then show ?case by simp
next
  case (Suc n)
  have "unat (word_of_nat (x mod 256) :: byte) = x mod 256"
    by (simp add: unat_of_nat)
  then show ?case
    by (simp add: Suc.IH mod_mult2_eq ac_simps)
qed

lemma le_val_bound: "le_val bs < 256 ^ length bs"
proof (induction bs)
  case Nil
  then show ?case by simp
next
  case (Cons b bs)
  have "unat b + 256 * le_val bs < 256 + 256 * le_val bs"
    using unat_lt256 [of b] by simp
  also have "\<dots> \<le> 256 * 256 ^ length bs"
    using Cons.IH by (simp add: Suc_le_eq flip: mult_Suc_right)
  finally show ?case by simp
qed

lemma le_bytes_le_val [simp]: "le_bytes (length bs) (le_val bs) = bs"
proof (induction bs)
  case Nil
  then show ?case by simp
next
  case (Cons b bs)
  have "(unat b + 256 * le_val bs) mod 256 = unat b"
    and "(unat b + 256 * le_val bs) div 256 = le_val bs"
    using unat_lt256 [of b] by simp_all
  with Cons show ?case by simp
qed

lemma power256: "(256::nat) ^ n = 2 ^ (8 * n)"
  by (simp add: power_mult)

lemma length_arr_bytes [simp]: "length (arr_bytes (w::'a::len word)) = LENGTH('a) div 8"
  by (simp add: arr_bytes_def)

lemma arr_of_arr_bytes [simp]:
  "8 dvd LENGTH('a) \<Longrightarrow> arr_of (arr_bytes (w::'a::len word)) = w"
  by (simp add: arr_of_def arr_bytes_def le_val_le_bytes power256)

lemma arr_bytes_arr_of:
  assumes "8 * length bs = LENGTH('a)"
  shows "arr_bytes (arr_of bs :: 'a::len word) = bs"
proof -
  have n: "LENGTH('a) div 8 = length (rev bs)" using assms by simp
  have "le_val (rev bs) < 2 ^ LENGTH('a)"
    using le_val_bound [of "rev bs"] assms by (simp add: power256)
  then have "unat (arr_of bs :: 'a word) = le_val (rev bs)"
    by (simp add: arr_of_def unat_of_nat)
  then have "arr_bytes (arr_of bs :: 'a word) = rev (le_bytes (length (rev bs)) (le_val (rev bs)))"
    by (simp only: arr_bytes_def n)
  then show ?thesis
    by (simp only: le_bytes_le_val rev_rev_ident)
qed

lemma arr_bytes_inject:
  "8 dvd LENGTH('a) \<Longrightarrow> arr_bytes (v::'a::len word) = arr_bytes w \<longleftrightarrow> v = w"
  by (metis arr_of_arr_bytes)

subsection \<open>Bits\<close>

lemma nat_or_disjoint:
  fixes a b :: nat
  assumes "a < 2 ^ n" and "2 ^ n dvd b"
  shows "a OR b = a + b"
proof -
  have a: "take_bit n a = a" using assms(1) by (rule take_bit_nat_eq_self)
  obtain k where b: "b = push_bit n k"
    using assms(2) by (auto simp: push_bit_eq_mult mult.commute elim!: dvdE)
  have "a AND b = 0"
    by (rule bit_eqI) (metis a b bit_0_eq bit_and_iff bit_push_bit_iff_nat bit_take_bit_iff bot_apply bot_bool_def linorder_not_le)
  then show ?thesis by (simp add: disjunctive_add_eq_or)
qed

lemma unat_or_disjoint:
  "unat (x::u64) < 2 ^ n \<Longrightarrow> 2 ^ n dvd unat y \<Longrightarrow> unat (x OR y) = unat x + unat y"
  by (simp add: unsigned_or_eq nat_or_disjoint)

lemma unat_push_bit64: "unat (push_bit n x :: u64) = unat x * 2 ^ n mod 2 ^ 64"
  unfolding unsigned_push_bit_eq by (simp add: push_bit_eq_mult take_bit_eq_mod)

lemma unat_drop_bit64: "unat (drop_bit n x :: u64) = unat x div 2 ^ n"
  unfolding unat_drop_bit_eq by (rule drop_bit_eq_div)

lemma word_of_nat_le_bytes64: "word_of_nat (le_val (le_bytes 8 (unat (x :: u64)))) = x"
  using unat_lt64 [of x] by (simp add: le_val_le_bytes power256 mod_less)

section \<open>Counting with filter\<close>

lemma length_filter_mono: "(\<And>x. P x \<Longrightarrow> Q x) \<Longrightarrow> length (filter P xs) \<le> length (filter Q xs)"
  by (induction xs) (auto simp: le_Suc_eq)

lemma distinct_one: "distinct (map fst xs) \<Longrightarrow> length (filter (\<lambda>x. fst x = k) xs) \<le> 1"
proof (induction xs)
  case (Cons x xs)
  have "fst x \<notin> fst ` set xs \<Longrightarrow> filter (\<lambda>y. fst y = fst x) xs = []"
    unfolding filter_empty_conv by (metis image_eqI)
  then show ?case using Cons by auto
qed simp

lemma length_filter_split:
  "length (filter P xs) \<le> length (filter (\<lambda>x. P x \<and> Q x) xs) + length (filter (\<lambda>x. P x \<and> \<not> Q x) xs)"
  by (induction xs) auto

end
