(* ===== verification/Binary.thy ===== *)
theory Binary
  imports Prelude
begin

unbundle bit_operations_syntax

text \<open>
  \<^verbatim>\<open>src/binary/manualser.go\<close> and \<^verbatim>\<open>src/binary/manualdes.go\<close>, with the unsigned varints of Go's
  \<open>encoding/binary\<close>. A serializer only appends, so every \<open>Add\<close> method is the list of bytes that it
  appends and a sequence of calls is their concatenation. A deserializer is the state \<open>Des\<close>: the
  data left and the first error; every \<open>Read\<close> method returns a value and the next state, and a zero
  value once there is an error. \<open>ReadByteSlice\<close> can panic, so it returns a result.

  The locale \<open>codec\<close> is the contract that all serialized types of the program rely on: the reader
  gives back the value written and leaves the data after it. From it follow that encodings are
  injective and prefix free, and that a sequence of encodings is read back.
\<close>

section \<open>Varints of encoding/binary\<close>

function AppendUvarint :: "u64 \<Rightarrow> bytes" where
  "AppendUvarint x =
     (if x \<ge> 0x80 then (ucast x OR 0x80) # AppendUvarint (drop_bit 7 x) else [ucast x])"
  by pat_completeness auto
termination
proof (relation "measure unat")
  fix x :: u64
  assume "x \<ge> 0x80"
  then have "0 < unat x" by (auto simp: word_le_nat_alt)
  then show "(drop_bit 7 x, x) \<in> measure unat"
    by (simp add: unat_drop_bit64)
qed simp

declare AppendUvarint.simps [simp del]

fun uvarint_loop :: "bytes \<Rightarrow> nat \<Rightarrow> u64 \<Rightarrow> nat \<Rightarrow> u64 \<times> int" where
  "uvarint_loop [] i x s = (0, 0)"
| "uvarint_loop (b # bs) i x s =
     (if i = 10 then (0, - (int i + 1))
      else if b < 0x80 then
        (if i = 9 \<and> b > 1 then (0, - (int i + 1))
         else (x OR push_bit s (ucast b), int i + 1))
      else uvarint_loop bs (i + 1) (x OR push_bit s (ucast (b AND 0x7f))) (s + 7))"

definition Uvarint :: "bytes \<Rightarrow> u64 \<times> int" where
  "Uvarint buf = uvarint_loop buf 0 0 0"

section \<open>Serializer\<close>

definition AddUint8 :: "u8 \<Rightarrow> bytes" where
  "AddUint8 n = [n]"

definition AddUint16 :: "u16 \<Rightarrow> bytes" where
  "AddUint16 n = le_bytes 2 (unat n)"

definition AddUint32 :: "u32 \<Rightarrow> bytes" where
  "AddUint32 n = le_bytes 4 (unat n)"

definition AddUint64 :: "u64 \<Rightarrow> bytes" where
  "AddUint64 n = le_bytes 8 (unat n)"

definition AddUvarint :: "u64 \<Rightarrow> bytes" where
  "AddUvarint n = AppendUvarint n"

definition AddFixedByteArray :: "bytes \<Rightarrow> bytes" where
  "AddFixedByteArray a = a"

definition AddByteSlice :: "bytes \<Rightarrow> bytes" where
  "AddByteSlice a = AppendUvarint (word_of_nat (length a)) @ a"

definition AddString :: "bytes \<Rightarrow> bytes" where
  "AddString a = AddByteSlice a"

text \<open>\<open>big.Int.Bytes\<close>: the big-endian bytes of the absolute value without leading zeros.\<close>

function big_Bytes :: "nat \<Rightarrow> bytes" where
  "big_Bytes n = (if n = 0 then [] else big_Bytes (n div 256) @ [word_of_nat (n mod 256)])"
  by pat_completeness auto
termination by (relation "measure id") auto

declare big_Bytes.simps [simp del]

definition AddBigInt :: "int \<Rightarrow> bytes" where
  "AddBigInt n =
     (let bin = big_Bytes (nat \<bar>n\<bar>) in AppendUvarint (word_of_nat (length bin)) @ bin)"

definition AddBool :: "bool \<Rightarrow> bytes" where
  "AddBool b = (if b then [0] else [1])"

section \<open>Deserializer\<close>

record Des =
  des_data :: bytes
  des_err :: "error option"

definition NewDes :: "bytes \<Rightarrow> Des" where
  "NewDes data = \<lparr>des_data = data, des_err = None\<rparr>"

definition RemainingData :: "Des \<Rightarrow> bytes" where
  "RemainingData d = des_data d"

definition des_fail :: "string \<Rightarrow> Des \<Rightarrow> Des" where
  "des_fail m d = d\<lparr>des_err := Some (Err m)\<rparr>"

text \<open>The common shape of the readers of a fixed number of bytes.\<close>

definition des_read :: "nat \<Rightarrow> 'a \<Rightarrow> (bytes \<Rightarrow> 'a) \<Rightarrow> Des \<Rightarrow> 'a \<times> Des" where
  "des_read n z f d =
     (if des_err d \<noteq> None then (z, d)
      else if length (des_data d) < n then (z, des_fail ''invalid length'' d)
      else (f (take n (des_data d)), d\<lparr>des_data := drop n (des_data d)\<rparr>))"

definition ReadUint8 :: "Des \<Rightarrow> u8 \<times> Des" where
  "ReadUint8 d = des_read 1 0 hd d"

definition ReadUint16 :: "Des \<Rightarrow> u16 \<times> Des" where
  "ReadUint16 d = des_read 2 0 (\<lambda>b. word_of_nat (le_val b)) d"

definition ReadUint32 :: "Des \<Rightarrow> u32 \<times> Des" where
  "ReadUint32 d = des_read 4 0 (\<lambda>b. word_of_nat (le_val b)) d"

definition ReadUint64 :: "Des \<Rightarrow> u64 \<times> Des" where
  "ReadUint64 d = des_read 8 0 (\<lambda>b. word_of_nat (le_val b)) d"

definition ReadUvarint :: "Des \<Rightarrow> u64 \<times> Des" where
  "ReadUvarint s =
     (if des_err s \<noteq> None then (0, s)
      else if length (des_data s) < 1 then (0, des_fail ''invalid length'' s)
      else let (d, x) = Uvarint (des_data s)
           in if x < 0 then (0, des_fail ''invalid uvarint'' s)
              else (d, s\<lparr>des_data := drop (nat x) (des_data s)\<rparr>))"

definition ReadFixedByteArray :: "nat \<Rightarrow> Des \<Rightarrow> bytes \<times> Des" where
  "ReadFixedByteArray len d = des_read len (replicate len 0) (\<lambda>b. b) d"

text \<open>\<open>int(length)\<close> is the signed reading of the 64 bits, so a length of \<open>2 ^ 63\<close> or more passes the
  comparison and the slice expression after it panics.\<close>

definition ReadByteSlice :: "Des \<Rightarrow> (bytes \<times> Des) res" where
  "ReadByteSlice s =
     (if des_err s \<noteq> None then Inr ([], s)
      else if length (des_data s) < 1 then Inr ([], des_fail ''invalid length'' s)
      else let (len, rd) = Uvarint (des_data s)
           in if rd < 0 then Inr ([], des_fail ''invalid uvarint length'' s)
              else let s = s\<lparr>des_data := drop (nat rd) (des_data s)\<rparr>
                   in if int (length (des_data s)) < sint len
                      then Inr ([], des_fail ''invalid binary length'' s)
                      else if length (des_data s) < unat len
                      then Inl (Panic ''slice bounds out of range'')
                      else Inr (take (unat len) (des_data s),
                                s\<lparr>des_data := drop (unat len) (des_data s)\<rparr>))"

definition ReadString :: "Des \<Rightarrow> (bytes \<times> Des) res" where
  "ReadString s = ReadByteSlice s"

definition ReadBool :: "Des \<Rightarrow> bool \<times> Des" where
  "ReadBool s =
     (if des_err s \<noteq> None then (False, s)
      else case des_data s of
        [] \<Rightarrow> (False, des_fail ''invalid length'' s)
      | b # rest \<Rightarrow>
          let s = s\<lparr>des_data := rest\<rparr>
          in if b = 1 then (True, s)
             else if b = 2 then (False, s)
             else (False, des_fail ''invalid boolean value'' s))"

definition ReadBigInt :: "Des \<Rightarrow> (int \<times> Des) res" where
  "ReadBigInt s = res_bind (ReadByteSlice s) (\<lambda>(b, s). Inr (int (le_val (rev b)), s))"

text \<open>An array \<open>[n]byte\<close> is read and written through its bytes.\<close>

definition ReadArray :: "Des \<Rightarrow> 'a::len word \<times> Des" where
  "ReadArray d = (let (b, d) = ReadFixedByteArray (LENGTH('a) div 8) d in (arr_of b, d))"

definition AddArray :: "'a::len word \<Rightarrow> bytes" where
  "AddArray w = AddFixedByteArray (arr_bytes w)"

text \<open>A loop that reads a fixed number of elements, stopping at a panic.\<close>

fun read_n :: "(Des \<Rightarrow> ('a \<times> Des) res) \<Rightarrow> nat \<Rightarrow> Des \<Rightarrow> ('a list \<times> Des) res" where
  "read_n f 0 d = Inr ([], d)"
| "read_n f (Suc n) d =
     res_bind (f d) (\<lambda>(x, d). res_bind (read_n f n d) (\<lambda>(xs, d). Inr (x # xs, d)))"

section \<open>Varints\<close>

lemma seven_bits: "((y OR 0x80) AND 0x7f :: 8 word) = take_bit 7 y"
proof -
  have m: "(0x7f :: 8 word) = mask 7" by (simp add: mask_eq_exp_minus_1)
  have "take_bit 7 (0x80 :: 8 word) = 0" by simp
  then have "take_bit 7 (y OR 0x80) = take_bit 7 y" by (simp only: take_bit_or or.right_neutral)
  then show ?thesis by (simp only: m take_bit_eq_mask)
qed

lemma uvarint_bits_step:
  fixes X :: u64
  shows "take_bit s X OR push_bit s (ucast ((ucast (drop_bit s X) OR 0x80 :: 8 word) AND 0x7f))
           = take_bit (s + 7) X"
  unfolding seven_bits
  by (rule bit_word_eqI) (auto simp: bit_simps)

lemma uvarint_bits_last:
  fixes X :: u64
  assumes "drop_bit s X < 0x80"
  shows "take_bit s X OR push_bit s (ucast (ucast (drop_bit s X) :: 8 word)) = X"
proof -
  have "ucast (ucast (drop_bit s X) :: 8 word) = drop_bit s X"
    using assms
    by (simp add: word_unat_eq_iff word_less_nat_alt unsigned_ucast_eq unsigned_take_bit_eq
        take_bit_nat_eq_self)
  then show ?thesis
    by (auto intro!: bit_word_eqI simp: bit_simps)
qed

lemma not_high_bit: "\<not> ((y OR 0x80 :: 8 word) < 0x80)"
proof -
  have "drop_bit 7 (0x80 :: 8 word) = 1" by simp
  then have "drop_bit 7 (y OR 0x80) \<noteq> 0" 
     unfolding drop_bit_or by (metis or_eq_0_iff zero_neq_one)
  then have "unat (y OR 0x80) div 2^7 \<noteq> 0" by (metis unat_drop_bit_eq unsigned_0 drop_bit_eq_div  unsigned_eq_0_iff)
  then show ?thesis by (simp add: word_less_nat_alt div_eq_0_iff)
qed

lemma uvarint_loop_AppendUvarint:
  assumes "i = 0 \<or> drop_bit (7 * i) X \<noteq> 0"
  shows "uvarint_loop (AppendUvarint (drop_bit (7 * i) X) @ rest) i (take_bit (7 * i) X) (7 * i)
           = (X, int i + int (length (AppendUvarint (drop_bit (7 * i) X))))"
  using assms
proof (induction "unat (drop_bit (7 * i) X)" arbitrary: i rule: less_induct)
  case less
  let ?y = "drop_bit (7 * i) X"
  have i: "i < 10"
    using less.prems by (cases "i < 10") (auto simp: drop_bit_word_beyond)
  have i9: "?y \<le> 1" if "i = 9"
    using that unat_lt64 [of X] by (simp add: word_le_nat_alt unat_drop_bit64)
  show ?case
  proof (cases "?y < 0x80")
    case True
    moreover have "(ucast ?y :: u8) < 0x80"
      using True by (simp add: word_less_nat_alt unsigned_ucast_eq take_bit_nat_eq_self)
    moreover have "\<not> (1 < (ucast ?y :: u8))" if "i = 9"
      using i9 [OF that] by (simp add: word_less_nat_alt word_le_nat_alt unsigned_ucast_eq take_bit_nat_eq_self)
    moreover have "AppendUvarint ?y = [ucast ?y]"
      using True by (simp add: AppendUvarint.simps [of ?y] not_le [symmetric])
    ultimately show ?thesis
      using i by (simp add: uvarint_bits_last)
  next
    case False
    have d: "drop_bit 7 ?y = drop_bit (7 * (i + 1)) X" by (simp add: drop_bit_drop_bit add.commute)
    from False have ge: "0x80 \<le> unat ?y" by (simp add: word_less_nat_alt)
    then have "unat (drop_bit 7 ?y) < unat ?y" "0 < unat (drop_bit 7 ?y)"
      unfolding unat_drop_bit64 [of 7 ?y] by (simp_all add: div_greater_zero_iff)
    then have lt: "unat (drop_bit (7 * (i + 1)) X) < unat ?y" and nz: "drop_bit (7 * (i + 1)) X \<noteq> 0"
      unfolding d [symmetric] by (auto simp del: drop_bit_drop_bit)
    note IH = less.hyps [OF lt] 
    have "AppendUvarint ?y = (ucast ?y OR 0x80) # AppendUvarint (drop_bit (7 * (i + 1)) X)"
      using False by (simp add: AppendUvarint.simps [of ?y] not_less d)
    then show ?thesis
      using i not_high_bit [of "ucast ?y"] IH nz
      by (simp add: uvarint_bits_step add.commute)
  qed
qed

lemma Uvarint_AppendUvarint:
  "Uvarint (AppendUvarint x @ rest) = (x, int (length (AppendUvarint x)))"
  using uvarint_loop_AppendUvarint [of 0 x rest] by (simp add: Uvarint_def)

lemma AppendUvarint_nonempty [simp]: "AppendUvarint x \<noteq> []"
  by (subst AppendUvarint.simps) simp

lemma length_AppendUvarint_drop:
  "i \<le> 9 \<Longrightarrow> length (AppendUvarint (drop_bit (7 * i) x)) \<le> 10 - i"
proof (induction "9 - i" arbitrary: i)
  case 0
  then have i: "i = 9" by simp
  have "drop_bit 63 x < 0x80" using unat_lt64 [of x] by (simp add: word_less_nat_alt unat_drop_bit64)
  then show ?case unfolding i by (subst AppendUvarint.simps) (simp add: not_le [symmetric])
next
  case (Suc k)
  have "drop_bit 7 (drop_bit (7 * i) x) = drop_bit (7 * Suc i) x"
    by (simp add: drop_bit_drop_bit add.commute)
  moreover have "length (AppendUvarint (drop_bit (7 * Suc i) x)) \<le> 10 - Suc i"
    using Suc by (intro Suc.hyps) simp_all
  ultimately show ?case using Suc.hyps(2) by (subst AppendUvarint.simps) (simp, linarith?)
qed

lemma length_AppendUvarint: "length (AppendUvarint x) \<le> 10"
  using length_AppendUvarint_drop [of 0 x] by simp

section \<open>The codec contract\<close>

locale codec =
  fixes enc :: "'a \<Rightarrow> bytes"
    and dec :: "Des \<Rightarrow> ('a \<times> Des) res"
    and ok :: "'a \<Rightarrow> bool"
  assumes dec_enc: "ok x \<Longrightarrow> dec (NewDes (enc x @ rest)) = Inr (x, NewDes rest)"
begin

lemma dec_enc_last: "ok x \<Longrightarrow> dec (NewDes (enc x)) = Inr (x, NewDes [])"
  using dec_enc [of x "[]"] by simp

lemma enc_prefix_free:
  assumes "ok x" "ok y" "enc x @ r = enc y @ r'"
  shows "x = y \<and> r = r'"
  using dec_enc [OF assms(1), of r] dec_enc [OF assms(2), of r'] assms(3)
  by (simp add: NewDes_def)

lemma enc_inject: "ok x \<Longrightarrow> ok y \<Longrightarrow> enc x = enc y \<longleftrightarrow> x = y"
  using enc_prefix_free [of x y "[]" "[]"] by auto

lemma read_n_enc:
  "list_all ok xs \<Longrightarrow>
   read_n dec (length xs) (NewDes (concat (map enc xs) @ rest)) = Inr (xs, NewDes rest)"
  by (induction xs) (simp_all add: dec_enc)

lemma enc_list_inject:
  assumes "list_all ok xs" "list_all ok ys" "length xs = length ys"
    and "concat (map enc xs) @ r = concat (map enc ys) @ r'"
  shows "xs = ys \<and> r = r'"
  using read_n_enc [OF assms(1), of r] read_n_enc [OF assms(2), of r'] assms(3,4)
  by (simp add: NewDes_def)

end

section \<open>The readers undo the writers\<close>

lemma word_of_nat_le_bytes:
  fixes x :: "'a::len word"
  assumes "LENGTH('a) = 8 * n"
  shows "word_of_nat (le_val (le_bytes n (unat x))) = x"
  using unsigned_less [of x, where ?'a = nat] assms by (simp add: le_val_le_bytes power256 mod_less)

lemma des_read_NewDes:
  "length b = n \<Longrightarrow> des_read n z f (NewDes (b @ rest)) = (f b, NewDes rest)"
  by (simp add: des_read_def NewDes_def)

lemma ReadUint8_AddUint8 [codec_simps]: "ReadUint8 (NewDes (AddUint8 x @ rest)) = (x, NewDes rest)"
  by (simp add: ReadUint8_def AddUint8_def des_read_NewDes del: append_Cons)

lemma ReadUint16_AddUint16 [codec_simps]:
  "ReadUint16 (NewDes (AddUint16 x @ rest)) = (x, NewDes rest)"
  by (simp add: ReadUint16_def AddUint16_def des_read_NewDes word_of_nat_le_bytes)

lemma ReadUint32_AddUint32 [codec_simps]:
  "ReadUint32 (NewDes (AddUint32 x @ rest)) = (x, NewDes rest)"
  by (simp add: ReadUint32_def AddUint32_def des_read_NewDes word_of_nat_le_bytes)

lemma ReadUint64_AddUint64 [codec_simps]:
  "ReadUint64 (NewDes (AddUint64 x @ rest)) = (x, NewDes rest)"
  by (simp add: ReadUint64_def AddUint64_def des_read_NewDes word_of_nat_le_bytes64)

lemma ReadUvarint_AddUvarint [codec_simps]:
  "ReadUvarint (NewDes (AddUvarint x @ rest)) = (x, NewDes rest)"
  by (simp add: ReadUvarint_def AddUvarint_def NewDes_def Uvarint_AppendUvarint Suc_le_eq)

lemma ReadFixedByteArray_append [codec_simps]:
  "length a = n \<Longrightarrow>
   ReadFixedByteArray n (NewDes (AddFixedByteArray a @ rest)) = (a, NewDes rest)"
  by (simp add: ReadFixedByteArray_def AddFixedByteArray_def des_read_NewDes)

lemma ReadArray_AddArray [codec_simps]:
  fixes w :: "'a::len word"
  assumes "8 dvd LENGTH('a)"
  shows "ReadArray (NewDes (AddArray w @ rest)) = (w, NewDes rest)"
  using assms by (simp add: ReadArray_def AddArray_def codec_simps)

lemma sint_small64:
  assumes "unat (x :: u64) < 2 ^ 63"
  shows "sint x = int (unat x)"
proof -
  have "int (unat x) < int (2 ^ 63)" using assms by (simp only: of_nat_less_iff)
  then have "uint x < 2 ^ 63" by simp
  moreover have "- (2 ^ 63) \<le> uint x" by (rule order_trans [of _ 0]) simp_all
  ultimately have "signed_take_bit 63 (uint x) = uint x" by (rule signed_take_bit_int_eq_self [rotated])
  then show ?thesis by (simp add: sint_uint)
qed

lemma ReadByteSlice_AddByteSlice [codec_simps]:
  assumes "length a < 2 ^ 63"
  shows "ReadByteSlice (NewDes (AddByteSlice a @ rest)) = Inr (a, NewDes rest)"
proof -
  have u: "unat (word_of_nat (length a) :: u64) = length a"
    using assms by (intro unat_of_nat64) simp
  then have "sint (word_of_nat (length a) :: u64) = int (length a)"
    using assms by (simp add: sint_small64)
  with u show ?thesis
    by (simp add: ReadByteSlice_def AddByteSlice_def NewDes_def Uvarint_AppendUvarint Suc_le_eq)
qed

lemma le_val_rev_big_Bytes: "le_val (rev (big_Bytes n)) = n"
  by (induction n rule: big_Bytes.induct) (subst big_Bytes.simps, simp add: unat_of_nat)

lemma ReadBigInt_AddBigInt:
  assumes "0 \<le> n" "length (big_Bytes (nat n)) < 2 ^ 63"
  shows "ReadBigInt (NewDes (AddBigInt n @ rest)) = Inr (n, NewDes rest)"
  using ReadByteSlice_AddByteSlice [OF assms(2), of rest] assms(1)
  by (simp add: ReadBigInt_def AddBigInt_def AddByteSlice_def Let_def le_val_rev_big_Bytes)

interpretation uvarint: codec AddUvarint "\<lambda>d. Inr (ReadUvarint d)" "\<lambda>_. True"
  by unfold_locales (simp add: codec_simps)

interpretation uint64: codec AddUint64 "\<lambda>d. Inr (ReadUint64 d)" "\<lambda>_. True"
  by unfold_locales (simp add: codec_simps)

interpretation hash_array: codec "AddArray :: hash \<Rightarrow> bytes" "\<lambda>d. Inr (ReadArray d)" "\<lambda>_. True"
  by unfold_locales (simp add: codec_simps)

interpretation byte_slice: codec AddByteSlice ReadByteSlice "\<lambda>a. length a < 2 ^ 63"
  by unfold_locales (simp add: codec_simps)

lemma ReadBool_AddBool:
  "ReadBool (NewDes (AddBool True @ rest)) =
     (False, des_fail ''invalid boolean value'' (NewDes rest)) \<and>
   ReadBool (NewDes (AddBool False @ rest)) = (True, NewDes rest)"
  by (simp add: ReadBool_def AddBool_def NewDes_def)

end
