(* ===== verification/Config.thy ===== *)
theory Config
  imports Prelude
begin

text \<open>
  The constants of \<^verbatim>\<open>src/config\<close> in the build of the main network (\<^verbatim>\<open>config.go\<close>,
  \<^verbatim>\<open>advanced.go\<close>, \<^verbatim>\<open>config_mainnet.go\<close>) that the other components use. Go's constants are untyped, so
  the definitions are polymorphic: a use of a constant has the type that its context gives it.
\<close>

named_theorems config_defs "the constants of the configuration"

definition COIN :: "'a::numeral" where [config_defs]: "COIN = 1000000000"
definition FEE_PER_BYTE :: "'a::numeral" where [config_defs]: "FEE_PER_BYTE = 500000"
definition FEE_PER_BYTE_V2 :: "'a::numeral" where [config_defs]: "FEE_PER_BYTE_V2 = 2000000"
definition BLOCK_REWARD :: "'a::{numeral,times}" where [config_defs]: "BLOCK_REWARD = 175 * COIN"
definition TARGET_BLOCK_TIME :: "'a::numeral" where [config_defs]: "TARGET_BLOCK_TIME = 15"
definition FUTURE_TIME_LIMIT :: "'a::numeral" where [config_defs]: "FUTURE_TIME_LIMIT = 10"

text \<open>\<open>60 * 60 * 24 / TARGET_BLOCK_TIME\<close>.\<close>

definition BLOCKS_PER_DAY :: "'a::numeral" where [config_defs]: "BLOCKS_PER_DAY = 5760"

definition REDUCTION_INTERVAL :: "'a::{numeral,times}" where
  [config_defs]: "REDUCTION_INTERVAL = BLOCKS_PER_DAY * 91"

definition MAX_SUPPLY :: "'a::{numeral,times}" where
  [config_defs]: "MAX_SUPPLY =
     REDUCTION_INTERVAL * BLOCK_REWARD * 10 + BLOCK_REWARD * REDUCTION_INTERVAL"

definition P2P_VERSION :: "'a::numeral" where [config_defs]: "P2P_VERSION = 3"
definition P2P_CONNECTIONS :: "'a::numeral" where [config_defs]: "P2P_CONNECTIONS = 16"
definition P2P_PING_INTERVAL :: "'a::numeral" where [config_defs]: "P2P_PING_INTERVAL = 5"
definition P2P_TIMEOUT :: "'a::numeral" where [config_defs]: "P2P_TIMEOUT = 20"
definition MAX_TX_PER_BLOCK :: "'a::numeral" where [config_defs]: "MAX_TX_PER_BLOCK = 1000"
definition MAX_HEIGHT :: "'a::numeral" where [config_defs]: "MAX_HEIGHT = 5000000000"
definition MAX_BLOCK_SIZE :: "'a::{numeral,times}" where [config_defs]: "MAX_BLOCK_SIZE = 64 * 1024"
definition MINIDAG_ANCESTORS :: "'a::numeral" where [config_defs]: "MINIDAG_ANCESTORS = 3"
definition MAX_SIDE_BLOCKS :: "'a::numeral" where [config_defs]: "MAX_SIDE_BLOCKS = 2"
definition MAX_OUTPUTS :: "'a::numeral" where [config_defs]: "MAX_OUTPUTS = 32"
definition DELEGATE_ADDRESS_PREFIX :: string where "DELEGATE_ADDRESS_PREFIX = ''delegate''"

text \<open>Two hours, in seconds.\<close>

definition MEMPOOL_EXPIRATION :: "'a::{numeral,times}" where
  [config_defs]: "MEMPOOL_EXPIRATION = 2 * 60 * 60"

section \<open>Advanced options\<close>

definition MAX_MERGE_MINED_CHAINS :: "'a::numeral" where [config_defs]: "MAX_MERGE_MINED_CHAINS = 16"

definition DEFAULT_CHECKPOINT_INTERVAL :: "'a::numeral" where
  [config_defs]: "DEFAULT_CHECKPOINT_INTERVAL = 32"

definition SEEDHASH_DURATION :: "'a::{numeral,times}" where
  [config_defs]: "SEEDHASH_DURATION = 4 * (60 * 60 * 24)"

definition WALLET_PREFIX :: string where "WALLET_PREFIX = ''v''"
definition PARALLEL_BLOCKS_DOWNLOAD :: "'a::numeral" where
  [config_defs]: "PARALLEL_BLOCKS_DOWNLOAD = 50"
definition BAN_DURATION :: "'a::{numeral,times}" where [config_defs]: "BAN_DURATION = 60 * 60"
definition BLACK_DURATION :: "'a::{numeral,times}" where [config_defs]: "BLACK_DURATION = 60 * 15"

definition STAKE_SIGN_PREFIX :: bytes where
  "STAKE_SIGN_PREFIX = map (\<lambda>c. word_of_nat (of_char c)) ''stakesig.''"

section \<open>The main network\<close>

definition NETWORK_ID :: u64 where [config_defs]: "NETWORK_ID = 0xd38dab1d4676d0c5"
definition MIN_DIFFICULTY :: "'a::numeral" where [config_defs]: "MIN_DIFFICULTY = 100000"
definition DIFFICULTY_N :: "'a::numeral" where [config_defs]: "DIFFICULTY_N = 120"
definition GENESIS_ADDRESS :: string where
  "GENESIS_ADDRESS = ''v139diixrpv0ftmip4mgpuy92u51iq4pnmgjsfn''"
definition GENESIS_TIMESTAMP :: "'a::{numeral,times}" where
  [config_defs]: "GENESIS_TIMESTAMP = 1755522000 * 1000"
definition BLOCK_REWARD_FEE_PERCENT :: "'a::numeral" where
  [config_defs]: "BLOCK_REWARD_FEE_PERCENT = 10"

definition TEAM_STAKE_PUBKEY :: pubkey where
  "TEAM_STAKE_PUBKEY = 0x3959a30cb83649dd38389dd6717cbadab6ceb92cd9e4c4352abfcf168bbf592e"

definition MIN_STAKE_AMOUNT :: "'a::{numeral,times}" where
  [config_defs]: "MIN_STAKE_AMOUNT = 100 * COIN"
definition REGISTER_DELEGATE_BURN :: "'a::{numeral,times}" where
  [config_defs]: "REGISTER_DELEGATE_BURN = 1000 * COIN"

text \<open>\<open>60 * 60 * 24 * 30 * 2 / TARGET_BLOCK_TIME\<close>.\<close>

definition STAKE_UNLOCK_TIME :: "'a::numeral" where [config_defs]: "STAKE_UNLOCK_TIME = 345600"
definition HARDFORK_V2_HEIGHT :: "'a::numeral" where [config_defs]: "HARDFORK_V2_HEIGHT = 100000"
definition HARDFORK_V3_HEIGHT :: "'a::numeral" where [config_defs]: "HARDFORK_V3_HEIGHT = 230500"

lemma derived_constants:
  "BLOCKS_PER_DAY = (60 * 60 * 24 div TARGET_BLOCK_TIME :: nat)"
  "STAKE_UNLOCK_TIME = (60 * 60 * 24 * 30 * 2 div TARGET_BLOCK_TIME :: nat)"
  by (simp_all add: config_defs)

end
