(* ===== verification/Address.thy ===== *)
theory Address
  imports Binary Config
begin

unbundle bit_operations_syntax

text \<open>
  The cryptographic functions of other packages as the record \<open>crypto\<close> that the model takes as an
  argument (blake3, the proof of work hash and the operations of ed25519), the wrappers of
  \<^verbatim>\<open>src/bitcrypto/bitcrypto.go\<close>, and \<^verbatim>\<open>src/address/address.go\<close>: addresses, delegate addresses, and
  the text form of an address with its checksum, in base 36. The lemmas give the delegate part of
  the address space and the round trip through the text form, which holds exactly when the first
  byte of the checksum is not zero.
\<close>

section \<open>Cryptography\<close>

record crypto =
  blake3_Sum256 :: "bytes \<Rightarrow> hash"
  randomvirel_PowHash :: "hash \<Rightarrow> bytes \<Rightarrow> hash"
  ed25519_Verify :: "pubkey \<Rightarrow> bytes \<Rightarrow> signature \<Rightarrow> bool"
  ed25519_Sign :: "512 word \<Rightarrow> bytes \<Rightarrow> signature"

definition BlankSignature :: signature where
  "BlankSignature = 0"

text \<open>The public half of a private key is its second 32 bytes.\<close>

definition Privkey_Public :: "512 word \<Rightarrow> pubkey" where
  "Privkey_Public p = arr_of (drop 32 (arr_bytes p))"

definition Sign :: "'x crypto_scheme \<Rightarrow> bytes \<Rightarrow> 512 word \<Rightarrow> signature" where
  "Sign c message key = ed25519_Sign c key message"

definition VerifySignature :: "'x crypto_scheme \<Rightarrow> pubkey \<Rightarrow> bytes \<Rightarrow> signature \<Rightarrow> bool" where
  "VerifySignature c sender data sig = ed25519_Verify c sender data sig"

section \<open>Addresses\<close>

definition SIZE :: nat where
  "SIZE = 22"

definition NewDelegateAddress :: "u64 \<Rightarrow> address" where
  "NewDelegateAddress did = arr_of (replicate (SIZE - 8) 0 @ rev (le_bytes 8 (unat did)))"

definition INVALID_ADDRESS :: address where
  "INVALID_ADDRESS = 0"

definition FromPubKey :: "'x crypto_scheme \<Rightarrow> pubkey \<Rightarrow> address" where
  "FromPubKey c p = arr_of (take SIZE (arr_bytes (blake3_Sum256 c (arr_bytes p))))"

definition IsDelegate :: "address \<Rightarrow> bool" where
  "IsDelegate a \<longleftrightarrow> list_all (\<lambda>v. v = 0) (take (SIZE - 8) (arr_bytes a))"

definition DecodeDelegateId :: "address \<Rightarrow> u64" where
  "DecodeDelegateId a = word_of_nat (le_val (rev (drop (SIZE - 8) (arr_bytes a))))"

datatype Integrated = Integrated (Addr: address) (PaymentId: u64)

section \<open>Text\<close>

text \<open>\<open>crc32.ChecksumIEEE\<close>: the reflected polynomial, initial value and final complement.\<close>

fun crc32_bits :: "nat \<Rightarrow> u32 \<Rightarrow> u32" where
  "crc32_bits 0 c = c"
| "crc32_bits (Suc n) c =
     crc32_bits n (if bit c 0 then 0xEDB88320 XOR drop_bit 1 c else drop_bit 1 c)"

definition crc32_ChecksumIEEE :: "bytes \<Rightarrow> u32" where
  "crc32_ChecksumIEEE bs = NOT (foldl (\<lambda>c b. crc32_bits 8 (c XOR ucast b)) (NOT 0) bs)"

definition checksum :: "bytes \<Rightarrow> bytes" where
  "checksum a = le_bytes 2 (unat (crc32_ChecksumIEEE a AND 0xffff))"

text \<open>Digits of \<open>strconv\<close> and \<open>math/big\<close>: a number in a base of at most 36, in lower case.\<close>

definition digit_char :: "nat \<Rightarrow> char" where
  "digit_char d = ''0123456789abcdefghijklmnopqrstuvwxyz'' ! d"

function text_base :: "nat \<Rightarrow> nat \<Rightarrow> string" where
  "text_base b n =
     (if n < b \<or> b < 2 then [digit_char n] else text_base b (n div b) @ [digit_char (n mod b)])"
  by pat_completeness auto
termination by (relation "measure snd") auto

declare text_base.simps [simp del]

definition char_digit :: "char \<Rightarrow> nat option" where
  "char_digit c =
     (let n = of_char c :: nat
      in if 48 \<le> n \<and> n \<le> 57 then Some (n - 48)
         else if 97 \<le> n \<and> n \<le> 122 then Some (n - 97 + 10)
         else if 65 \<le> n \<and> n \<le> 90 then Some (n - 65 + 10)
         else None)"

fun parse_digits :: "nat \<Rightarrow> nat \<Rightarrow> string \<Rightarrow> nat option" where
  "parse_digits b acc [] = Some acc"
| "parse_digits b acc (c # cs) =
     (case char_digit c of
        None \<Rightarrow> None
      | Some d \<Rightarrow> if d < b then parse_digits b (acc * b + d) cs else None)"

definition strconv_ParseUint :: "string \<Rightarrow> u64 res" where
  "strconv_ParseUint p =
     (case (if p = [] then None else parse_digits 10 0 p) of
        None \<Rightarrow> Inl (Err ''invalid syntax'')
      | Some n \<Rightarrow> if n < 2 ^ 64 then Inr (word_of_nat n) else Inl (Err ''value out of range''))"

text \<open>The number that \<open>ParseUint\<close> returns together with an error: the greatest one when the text is out of range.\<close>

definition ParseUint_value :: "string \<Rightarrow> u64" where
  "ParseUint_value p =
     (case strconv_ParseUint p of Inr n \<Rightarrow> n | Inl err \<Rightarrow> if err = Err ''value out of range'' then - 1 else 0)"

fun strings_Split :: "char \<Rightarrow> string \<Rightarrow> string list" where
  "strings_Split sep [] = [[]]"
| "strings_Split sep (c # cs) =
     (let r = strings_Split sep cs in if c = sep then [] # r else (c # hd r) # tl r)"

definition strings_TrimPrefix :: "string \<Rightarrow> string \<Rightarrow> string" where
  "strings_TrimPrefix s prefix = (if take (length prefix) s = prefix then drop (length prefix) s else s)"

text \<open>\<open>big.Int.SetString(p, 36)\<close> takes an optional sign; \<open>Bytes\<close> reads the absolute value.\<close>

definition big_SetString36 :: "string \<Rightarrow> nat option" where
  "big_SetString36 p =
     (let p = (case p of c # cs \<Rightarrow> if c = CHR ''-'' \<or> c = CHR ''+'' then cs else p | [] \<Rightarrow> p)
      in if p = [] then None else parse_digits 36 0 p)"

fun strip_zeros :: "bytes \<Rightarrow> bytes" where
  "strip_zeros [] = []"
| "strip_zeros (b # bs) = (if b = 0 then strip_zeros bs else b # bs)"

definition Uint64ToCompactLittleEndian :: "u64 \<Rightarrow> bytes" where
  "Uint64ToCompactLittleEndian n =
     (if n = 0 then [] else rev (strip_zeros (rev (le_bytes 8 (unat n)))))"

definition Integrated_bytes :: "Integrated \<Rightarrow> bytes" where
  "Integrated_bytes a =
     (let b = arr_bytes (Addr a) @ Uint64ToCompactLittleEndian (PaymentId a)
      in checksum b @ b)"

definition Integrated_String :: "Integrated \<Rightarrow> string" where
  "Integrated_String a =
     (if Addr a = INVALID_ADDRESS then ''burnaddress''
      else if IsDelegate (Addr a) then
        DELEGATE_ADDRESS_PREFIX @ text_base 10 (unat (DecodeDelegateId (Addr a)))
      else WALLET_PREFIX @ text_base 36 (le_val (rev (Integrated_bytes a))))"

definition Address_Integrated :: "address \<Rightarrow> Integrated" where
  "Address_Integrated a = Integrated a 0"

definition Address_String :: "address \<Rightarrow> string" where
  "Address_String a = Integrated_String (Address_Integrated a)"

definition FromString :: "string \<Rightarrow> Integrated res" where
  "FromString p =
     (if p = ''burnaddress'' then Inr (Address_Integrated INVALID_ADDRESS)
      else if take (length DELEGATE_ADDRESS_PREFIX) p = DELEGATE_ADDRESS_PREFIX then
        (if length p < length DELEGATE_ADDRESS_PREFIX + 1
         then Inl (Err ''delegate address is too short'')
         else res_bind (strconv_ParseUint (drop (length DELEGATE_ADDRESS_PREFIX) p))
                (\<lambda>num. Inr (Address_Integrated (NewDelegateAddress num))))
      else if length p < 4 \<or> hd p \<noteq> hd WALLET_PREFIX then Inl (Err ''invalid address prefix'')
      else case big_SetString36 (tl p) of
        None \<Rightarrow> Inl (Err ''invalid address base36 encoding'')
      | Some bigi \<Rightarrow>
          let data = big_Bytes bigi
          in if length data < SIZE + 2 then Inl (Err ''invalid address size'')
             else let sum = checksum (drop 2 data)
                  in if data ! 0 \<noteq> sum ! 0 \<or> data ! 1 \<noteq> sum ! 1
                     then Inl (Err ''invalid address checksum'')
                     else let subaddr =
                            (if length data > SIZE + 2
                             then word_of_nat (le_val (take 8 (drop (SIZE + 2) data @ replicate 8 0)))
                             else 0)
                          in Inr (Integrated (arr_of (take SIZE (drop 2 data))) subaddr))"

text \<open>JSON: the text between quotes.\<close>

definition Integrated_MarshalJSON :: "Integrated \<Rightarrow> string" where
  "Integrated_MarshalJSON a = [CHR 0x22] @ Integrated_String a @ [CHR 0x22]"

definition Integrated_UnmarshalJSON :: "string \<Rightarrow> Integrated res" where
  "Integrated_UnmarshalJSON c =
     (if length c < 2 then Inl (Err ''value is too short'')
      else if c ! 0 \<noteq> CHR 0x22 \<or> c ! (length c - 1) \<noteq> CHR 0x22
      then Inl (Err ''invalid string literal'')
      else FromString (take (length c - 2) (drop 1 c)))"

definition Address_MarshalJSON :: "address \<Rightarrow> string" where
  "Address_MarshalJSON a = [CHR 0x22] @ Address_String a @ [CHR 0x22]"

definition Address_UnmarshalJSON :: "string \<Rightarrow> address res" where
  "Address_UnmarshalJSON c = res_bind (Integrated_UnmarshalJSON c) (\<lambda>a. Inr (Addr a))"

text \<open>\<open>init\<close> parses the configured address and panics when it cannot.\<close>

definition GenesisAddress :: address where
  "GenesisAddress = (case FromString GENESIS_ADDRESS of Inr i \<Rightarrow> Addr i | Inl _ \<Rightarrow> 0)"

section \<open>Delegate addresses\<close>

lemma arr_bytes_NewDelegateAddress:
  "arr_bytes (NewDelegateAddress did) = replicate (SIZE - 8) 0 @ rev (le_bytes 8 (unat did))"
  unfolding NewDelegateAddress_def by (rule arr_bytes_arr_of) (simp add: SIZE_def)

lemma DecodeDelegateId_New [simp]: "DecodeDelegateId (NewDelegateAddress did) = did"
  by (simp add: DecodeDelegateId_def arr_bytes_NewDelegateAddress word_of_nat_le_bytes64)

lemma IsDelegate_New [simp]: "IsDelegate (NewDelegateAddress did)"
  by (simp add: IsDelegate_def arr_bytes_NewDelegateAddress list_all_iff)

lemma NewDelegateAddress_inject [simp]: "NewDelegateAddress i = NewDelegateAddress j \<longleftrightarrow> i = j"
  by (metis DecodeDelegateId_New)

lemma le_bytes_le_val_rev:
  assumes "length xs = 8"
  shows "rev (le_bytes 8 (unat (word_of_nat (le_val (rev xs)) :: u64))) = xs"
proof -
  have "le_val (rev xs) < 2 ^ 64" using le_val_bound [of "rev xs"] assms by (simp add: power256)
  then have "unat (word_of_nat (le_val (rev xs)) :: u64) = le_val (rev xs)"
    by (rule unat_of_nat64)
  then show ?thesis using le_bytes_le_val [of "rev xs"] assms by simp
qed

lemma NewDelegateAddress_Decode: "IsDelegate a \<Longrightarrow> NewDelegateAddress (DecodeDelegateId a) = a"
proof -
  assume d: "IsDelegate a"
  have "take (SIZE - 8) (arr_bytes a) = replicate (SIZE - 8) 0"
    using d by (intro replicate_eqI) (auto simp: IsDelegate_def SIZE_def list_all_iff)
  moreover have "rev (le_bytes 8 (unat (DecodeDelegateId a))) = drop (SIZE - 8) (arr_bytes a)"
    unfolding DecodeDelegateId_def by (rule le_bytes_le_val_rev) (simp add: SIZE_def)
  ultimately have "arr_bytes (NewDelegateAddress (DecodeDelegateId a)) = arr_bytes a"
    by (metis arr_bytes_NewDelegateAddress append_take_drop_id)
  then show ?thesis by (simp add: arr_bytes_inject)
qed

lemma NewDelegateAddress_0: "NewDelegateAddress 0 = INVALID_ADDRESS"
proof -
  have z: "le_val (replicate n 0) = 0" for n by (induction n) simp_all
  have "le_bytes n 0 = replicate n 0" for n by (induction n) simp_all
  then show ?thesis
    by (simp add: NewDelegateAddress_def INVALID_ADDRESS_def arr_of_def z flip: replicate_add)
qed

lemma IsDelegate_iff: "IsDelegate a \<longleftrightarrow> (\<exists>did. a = NewDelegateAddress did)"
  by (metis IsDelegate_New NewDelegateAddress_Decode)

lemma not_delegate_ne_invalid: "\<not> IsDelegate a \<Longrightarrow> a \<noteq> INVALID_ADDRESS"
  by (metis IsDelegate_New NewDelegateAddress_0)

section \<open>Numbers as text\<close>

lemma char_digit_digit_char: "d < 36 \<Longrightarrow> char_digit (digit_char d) = Some d"
proof -
  have "list_all (\<lambda>d. char_digit (digit_char d) = Some d) [0..<36]"
    by (simp add: upt_rec [of _ 36] char_digit_def digit_char_def)
  then show "d < 36 \<Longrightarrow> ?thesis" by (simp add: list_all_iff)
qed

lemma parse_digits_append:
  "parse_digits b acc (xs @ ys) = Option.bind (parse_digits b acc xs) (\<lambda>acc. parse_digits b acc ys)"
  by (induction xs arbitrary: acc) (auto split: option.split)

lemma parse_text_base:
  assumes "2 \<le> b" "b \<le> 36"
  shows "parse_digits b 0 (text_base b n) = Some n"
  using assms
proof (induction b n rule: text_base.induct)
  case (1 b n)
  show ?case
  proof (cases "n < b")
    case True
    then show ?thesis
      using 1 by (subst text_base.simps) (simp add: char_digit_digit_char)
  next
    case False
    have "n mod b < b" using 1 by simp
    with 1 have "char_digit (digit_char (n mod b)) = Some (n mod b)"
      by (intro char_digit_digit_char) linarith
    then show ?thesis
      using 1 False \<open>n mod b < b\<close>
      by (subst text_base.simps) (simp add: parse_digits_append)
  qed
qed

lemma text_base_nonempty [simp]: "text_base b n \<noteq> []"
  by (subst text_base.simps) simp

lemma text_base_bound: "2 \<le> b \<Longrightarrow> n < b ^ length (text_base b n)"
proof (induction b n rule: text_base.induct)
  case (1 b n)
  show ?case
  proof (cases "n < b")
    case True
    then show ?thesis by (subst text_base.simps) simp
  next
    case False
    have "n div b < b ^ length (text_base b (n div b))" using 1 False by simp
    then have "n < b * b ^ length (text_base b (n div b))"
      using 1 by (simp add: div_less_iff_less_mult mult.commute)
    then show ?thesis using 1 False by (subst text_base.simps) simp
  qed
qed

lemma text_base_digits: "2 \<le> b \<Longrightarrow> set (text_base b n) \<subseteq> digit_char ` {..<b}"
proof (induction b n rule: text_base.induct)
  case (1 b n)
  then show ?case
    by (subst text_base.simps) (auto simp: not_less)
qed

lemma hd_text_base_36: "hd (text_base 36 n) \<noteq> CHR ''-''" "hd (text_base 36 n) \<noteq> CHR ''+''"
proof -
  obtain d where "hd (text_base 36 n) = digit_char d" "d < 36"
    using subsetD [OF text_base_digits hd_in_set [OF text_base_nonempty], of 36 n] by auto
  moreover have "char_digit (CHR ''-'') = None" "char_digit (CHR ''+'') = None"
    by (simp_all add: char_digit_def)
  ultimately show "hd (text_base 36 n) \<noteq> CHR ''-''" "hd (text_base 36 n) \<noteq> CHR ''+''"
    using char_digit_digit_char by (metis option.distinct(1))+
qed

lemma big_SetString36_text [simp]: "big_SetString36 (text_base 36 n) = Some n"
  using hd_text_base_36 [of n] parse_text_base [of 36 n]
  by (cases "text_base 36 n") (simp_all add: big_SetString36_def)

lemma strconv_ParseUint_text [simp]: "strconv_ParseUint (text_base 10 (unat x)) = Inr x"
  using unat_lt64 [of x] by (simp add: strconv_ParseUint_def parse_text_base)

section \<open>The text form of an address\<close>

lemma le_val_zeros [simp]: "le_val (xs @ replicate n 0) = le_val xs"
proof -
  have "le_val (replicate n 0) = 0" by (induction n) simp_all
  then show ?thesis by (induction xs) simp_all
qed

lemma le_val_snoc: "le_val (xs @ [b]) = le_val xs + 256 ^ length xs * unat b"
  by (induction xs) (simp_all add: algebra_simps)

lemma strip_zeros_suffix: "\<exists>n. xs = replicate n 0 @ strip_zeros xs"
proof (induction xs)
  case (Cons b bs)
  then obtain n where "bs = replicate n 0 @ strip_zeros bs" by blast
  then have "b = 0 \<Longrightarrow> b # bs = replicate (Suc n) 0 @ strip_zeros (b # bs)" by simp
  moreover have "b \<noteq> 0 \<Longrightarrow> b # bs = replicate 0 0 @ strip_zeros (b # bs)" by simp
  ultimately show ?case by blast
qed simp

lemma strip_zeros_eq_Nil: "strip_zeros xs = [] \<longleftrightarrow> (\<forall>b\<in>set xs. b = 0)"
  by (induction xs) auto

lemma length_strip_zeros: "length (strip_zeros xs) \<le> length xs"
  by (induction xs) auto

lemma le_val_rev_strip_zeros [simp]: "le_val (rev (strip_zeros xs)) = le_val (rev xs)"
proof -
  obtain n where n: "xs = replicate n 0 @ strip_zeros xs" using strip_zeros_suffix by blast
  show ?thesis by (subst (2) n) simp
qed

lemma big_Bytes_le_val: "big_Bytes (le_val (rev bs)) = strip_zeros bs"
proof (induction "rev bs" arbitrary: bs)
  case Nil
  then show ?case by (simp add: big_Bytes.simps)
next
  case (Cons c cs)
  then have bs: "bs = rev cs @ [c]" by (metis rev.simps(2) rev_rev_ident)
  let ?n = "le_val (c # cs)"
  have m: "?n div 256 = le_val (rev (rev cs))" "?n mod 256 = unat c"
    using unat_lt256 [of c] by simp_all
  show ?case
  proof (cases "?n = 0")
    case True
    then have "le_val cs = 0" "c = 0" by (simp_all add: unat_eq_0)
    moreover have "\<forall>b\<in>set cs. b = 0" if "le_val cs = 0"
      using that by (induction cs) (auto simp: unat_eq_0)
    ultimately show ?thesis using True bs
      by (simp add: big_Bytes.simps strip_zeros_eq_Nil [THEN iffD2])
  next
    case False
    have "big_Bytes ?n = strip_zeros (rev cs) @ [c]"
      using False Cons.hyps(1) [of "rev cs"] m by (subst big_Bytes.simps) simp
    moreover have "strip_zeros (rev cs @ [c]) = strip_zeros (rev cs) @ [c]"
    proof -
      have app: "strip_zeros (xs @ ys) = strip_zeros xs @ ys" if "strip_zeros xs \<noteq> []" for xs ys
        using that by (induction xs) auto
      have z: "strip_zeros (xs @ [c]) = [c]" if "strip_zeros xs = []" "c \<noteq> 0" for xs
        using that by (induction xs) (auto split: if_splits)
      show ?thesis
      proof (cases "strip_zeros (rev cs) = []")
        case True
        then have "le_val (rev (strip_zeros (rev cs))) = 0" by simp
        then have "le_val cs = 0" by (simp only: le_val_rev_strip_zeros rev_rev_ident)
        with False have "c \<noteq> 0" by auto
        with True show ?thesis by (simp add: z)
      qed (simp add: app)
    qed
    ultimately show ?thesis by (simp add: bs)
  qed
qed

lemma compact_le_val: "le_val (Uint64ToCompactLittleEndian n) = unat n"
  using unat_lt64 [of n]
  by (simp add: Uint64ToCompactLittleEndian_def le_val_le_bytes power256 mod_less)

lemma length_compact: "length (Uint64ToCompactLittleEndian n) \<le> 8"
  using length_strip_zeros [of "rev (le_bytes 8 (unat n))"]
  by (simp add: Uint64ToCompactLittleEndian_def)

lemma compact_Nil: "Uint64ToCompactLittleEndian n = [] \<longleftrightarrow> n = 0"
proof
  assume "Uint64ToCompactLittleEndian n = []"
  then show "n = 0" using compact_le_val [of n] by (simp add: unat_eq_0)
qed (simp add: Uint64ToCompactLittleEndian_def)

lemma compact_take:
  "word_of_nat (le_val (take 8 (Uint64ToCompactLittleEndian n))) = n"
  using length_compact [of n] by (simp add: compact_le_val)

lemma checksum_cases:
  obtains x y where "checksum b = [x, y]"
  by (simp add: checksum_def numeral_2_eq_2)

lemma wallet_value_large:
  assumes "\<not> IsDelegate (Addr a)"
  shows "36 ^ 3 \<le> le_val (rev (Integrated_bytes a))"
proof -
  let ?xs = "arr_bytes (Addr a)"
  obtain i where i: "i < 14" "?xs ! i \<noteq> 0"
    using assms by (auto simp: IsDelegate_def SIZE_def list_all_length)
  define pre where "pre = checksum (?xs @ Uint64ToCompactLittleEndian (PaymentId a)) @ take i ?xs"
  define post where "post = drop (Suc i) ?xs @ Uint64ToCompactLittleEndian (PaymentId a)"
  have "Integrated_bytes a = pre @ ?xs ! i # post"
    using i(1) by (simp add: Integrated_bytes_def Let_def pre_def post_def id_take_nth_drop)
  moreover have "8 \<le> length post" using i(1) by (simp add: post_def)
  moreover have "256 ^ length ys \<le> le_val (ys @ b # zs)" if "b \<noteq> 0" for ys zs and b :: byte
  proof -
    have "0 < unat b" using that by (simp add: unat_gt_0)
    then have "256 ^ length ys * 1 \<le> (256 ^ length ys * unat b :: nat)" by (intro mult_left_mono) simp_all
    then show ?thesis by (induction ys) simp_all
  qed
  from this [OF i(2), of "rev post" "rev pre"] 
  have "256 ^ length post \<le> le_val (rev (pre @ ?xs ! i # post))" by simp
  moreover have "(36::nat) ^ 3 \<le> 256 ^ 8" by simp
  moreover have "(256::nat) ^ 8 \<le> 256 ^ length post" using calculation(2) by (intro power_increasing) simp_all
  ultimately show ?thesis by (metis order_trans)
qed

lemma FromString_wallet:
  assumes nd: "\<not> IsDelegate (Addr a)"
  shows "FromString (Integrated_String a) =
    (let data = strip_zeros (Integrated_bytes a)
     in if length data < SIZE + 2 then Inl (Err ''invalid address size'')
        else let sum = checksum (drop 2 data)
             in if data ! 0 \<noteq> sum ! 0 \<or> data ! 1 \<noteq> sum ! 1
                then Inl (Err ''invalid address checksum'')
                else let subaddr =
                       (if length data > SIZE + 2
                        then word_of_nat (le_val (take 8 (drop (SIZE + 2) data @ replicate 8 0)))
                        else 0)
                     in Inr (Integrated (arr_of (take SIZE (drop 2 data))) subaddr))"
proof -
  let ?t = "text_base 36 (le_val (rev (Integrated_bytes a)))"
  have str: "Integrated_String a = CHR ''v'' # ?t"
    using nd not_delegate_ne_invalid [OF nd] by (simp add: Integrated_String_def WALLET_PREFIX_def)
  have "\<not> length ?t < 3"
  proof
    assume "length ?t < 3"
    then have "(36::nat) ^ length ?t \<le> 36 ^ 3" by (intro power_increasing) simp_all
    then show False
      using text_base_bound [of 36 "le_val (rev (Integrated_bytes a))"] wallet_value_large [OF nd] by simp
  qed
  then have "4 \<le> length (CHR ''v'' # ?t)" by simp
  then show ?thesis
    unfolding FromString_def str
    by (simp add: DELEGATE_ADDRESS_PREFIX_def WALLET_PREFIX_def big_Bytes_le_val del: length_Cons)
qed

lemma FromString_String_ok:
  assumes nd: "\<not> IsDelegate (Addr a)" and c: "hd (Integrated_bytes a) \<noteq> 0"
  shows "FromString (Integrated_String a) = Inr a"
proof -
  let ?b = "arr_bytes (Addr a) @ Uint64ToCompactLittleEndian (PaymentId a)"
  obtain x y where xy: "checksum ?b = [x, y]" by (rule checksum_cases)
  then have data: "strip_zeros (Integrated_bytes a) = [x, y] @ ?b"
    using c by (simp add: Integrated_bytes_def)
  show ?thesis
    using xy compact_Nil [of "PaymentId a"] compact_take [of "PaymentId a"]
    by (auto simp: FromString_wallet [OF nd] data SIZE_def Integrated.expand)
qed

lemma FromString_String_leading_zero:
  assumes nd: "\<not> IsDelegate a" and c: "hd (checksum (arr_bytes a)) = 0"
  shows "FromString (Address_String a) = Inl (Err ''invalid address size'')"
proof -
  obtain x y where xy: "checksum (arr_bytes a) = [x, y]" by (rule checksum_cases)
  have "length (strip_zeros ([y] @ arr_bytes a)) \<le> length ([y] @ arr_bytes a)"
    by (rule length_strip_zeros)
  then have "length (strip_zeros (Integrated_bytes (Address_Integrated a))) < SIZE + 2"
    using c xy by (simp add: Integrated_bytes_def Address_Integrated_def SIZE_def
        Uint64ToCompactLittleEndian_def)
  then show ?thesis
    using nd by (simp add: Address_String_def FromString_wallet Address_Integrated_def)
qed

lemma FromString_delegate:
  assumes "did \<noteq> 0"
  shows "FromString (Address_String (NewDelegateAddress did)) =
           Inr (Address_Integrated (NewDelegateAddress did))"
proof -
  have "NewDelegateAddress did \<noteq> INVALID_ADDRESS"
    using assms by (simp flip: NewDelegateAddress_0)
  then show ?thesis
    by (simp add: Address_String_def Integrated_String_def Address_Integrated_def FromString_def
        DELEGATE_ADDRESS_PREFIX_def Suc_le_eq)
qed

end
