(* ===== verification/Transactions.thy ===== *)
theory Transactions
  imports Address
begin

text \<open>
  \<^verbatim>\<open>src/transaction\<close>: outputs (\<^verbatim>\<open>inout.go\<close>), the five kinds of transaction data
  (\<^verbatim>\<open>tx_data.go\<close>) and transactions (\<^verbatim>\<open>transaction.go\<close>). The interface \<open>TransactionData\<close> is a datatype
  with one constructor per implementation, and each method is a function by cases on it.

  The comments of the interface promise that the inputs of a transaction pay for its outputs and its
  fee; the locale \<open>transaction_data\<close> states that promise and it is interpreted on the methods of the
  model. The second group of lemmas is the round trip of the encoding.
\<close>

section \<open>Inputs and outputs\<close>

record Output =
  Recipient :: address
  PaymentId :: u64
  Amount :: u64

definition Output_Serialize :: "Output \<Rightarrow> bytes" where
  "Output_Serialize o1 =
     AddArray (Recipient o1) @ AddUvarint (PaymentId o1) @ AddUvarint (Amount o1)"

definition Output_Deserialize :: "Des \<Rightarrow> Output \<times> Des" where
  "Output_Deserialize d =
     (let (r, d) = ReadArray d; (p, d) = ReadUvarint d; (a, d) = ReadUvarint d
      in (\<lparr>Recipient = r, PaymentId = p, Amount = a\<rparr>, d))"

datatype StateInputType = IN_NORMAL | IN_UNSTAKE

record StateInput =
  si_Amount :: u64
  si_Sender :: address
  si_Type :: StateInputType
  si_ExtraData :: u64

datatype StateOutputType =
    OUT_NORMAL | OUT_COINBASE_DEV | OUT_COINBASE_POW | OUT_COINBASE_POS | OUT_COINBASE_BURN | OUT_STAKE

record StateOutput =
  so_Type :: StateOutputType
  so_Amount :: u64
  so_Recipient :: address
  so_PaymentId :: u64
  so_ExtraData :: u64

section \<open>Transaction data\<close>

definition TX_VERSION_TRANSFER :: "'a::numeral" where "TX_VERSION_TRANSFER = 1"
definition TX_VERSION_REGISTER_DELEGATE :: "'a::numeral" where "TX_VERSION_REGISTER_DELEGATE = 2"
definition TX_VERSION_SET_DELEGATE :: "'a::numeral" where "TX_VERSION_SET_DELEGATE = 3"
definition TX_VERSION_STAKE :: "'a::numeral" where "TX_VERSION_STAKE = 4"
definition TX_VERSION_UNSTAKE :: "'a::numeral" where "TX_VERSION_UNSTAKE = 5"
definition MAX_TX_VERSION :: "'a::numeral" where "MAX_TX_VERSION = TX_VERSION_UNSTAKE"

lemmas tx_versions = TX_VERSION_TRANSFER_def TX_VERSION_REGISTER_DELEGATE_def
  TX_VERSION_SET_DELEGATE_def TX_VERSION_STAKE_def TX_VERSION_UNSTAKE_def MAX_TX_VERSION_def

datatype TransactionData =
    Transfer (Outputs: "Output list")
  | RegisterDelegate (rd_Name: bytes) (rd_Id: u64)
  | SetDelegate (sd_DelegateId: u64) (sd_PreviousDelegate: u64)
  | Stake (st_Amount: u64) (st_DelegateId: u64) (st_PrevUnlock: u64)
  | Unstake (un_Amount: u64) (un_DelegateId: u64)

record Transaction =
  tx_Version :: u8
  tx_Signer :: pubkey
  tx_Signature :: signature
  tx_Data :: TransactionData
  tx_Nonce :: u64
  tx_Fee :: u64

fun AssociatedTransactionVersion :: "TransactionData \<Rightarrow> u8" where
  "AssociatedTransactionVersion (Transfer _) = TX_VERSION_TRANSFER"
| "AssociatedTransactionVersion (RegisterDelegate _ _) = TX_VERSION_REGISTER_DELEGATE"
| "AssociatedTransactionVersion (SetDelegate _ _) = TX_VERSION_SET_DELEGATE"
| "AssociatedTransactionVersion (Stake _ _ _) = TX_VERSION_STAKE"
| "AssociatedTransactionVersion (Unstake _ _) = TX_VERSION_UNSTAKE"

definition Transfer_Serialize :: "Output list \<Rightarrow> bytes" where
  "Transfer_Serialize outs =
     AddUvarint (word_of_nat (length outs)) @ concat (map Output_Serialize outs)"

definition RegisterDelegate_Serialize :: "bytes \<Rightarrow> u64 \<Rightarrow> bytes" where
  "RegisterDelegate_Serialize name did = AddByteSlice name @ AddUvarint did"

definition SetDelegate_Serialize :: "u64 \<Rightarrow> u64 \<Rightarrow> bytes" where
  "SetDelegate_Serialize did prev = AddUvarint did @ AddUvarint prev"

definition Stake_Serialize :: "u64 \<Rightarrow> u64 \<Rightarrow> u64 \<Rightarrow> bytes" where
  "Stake_Serialize amount did prev = AddUvarint amount @ AddUvarint did @ AddUvarint prev"

definition Unstake_Serialize :: "u64 \<Rightarrow> u64 \<Rightarrow> bytes" where
  "Unstake_Serialize amount did = AddUvarint amount @ AddUvarint did"

lemmas Serialize_methods [simp] =
  Transfer_Serialize_def RegisterDelegate_Serialize_def SetDelegate_Serialize_def
  Stake_Serialize_def Unstake_Serialize_def

fun Data_Serialize :: "TransactionData \<Rightarrow> bytes" where
  "Data_Serialize (Transfer outs) = Transfer_Serialize outs"
| "Data_Serialize (RegisterDelegate name did) = RegisterDelegate_Serialize name did"
| "Data_Serialize (SetDelegate did prev) = SetDelegate_Serialize did prev"
| "Data_Serialize (Stake amount did prev) = Stake_Serialize amount did prev"
| "Data_Serialize (Unstake amount did) = Unstake_Serialize amount did"

text \<open>\<open>v.Deserialize(d)\<close> in the loop over the outputs returns the error of the deserializer.\<close>

definition Des_checked :: "('a \<times> Des) \<Rightarrow> ('a \<times> Des) res" where
  "Des_checked r = (case des_err (snd r) of None \<Rightarrow> Inr r | Some e \<Rightarrow> Inl e)"

definition Transfer_Deserialize :: "Des \<Rightarrow> (TransactionData \<times> Des) res" where
  "Transfer_Deserialize d =
     (let (numOutputs, d) = ReadUvarint d
      in if numOutputs > MAX_OUTPUTS \<or> numOutputs = 0 then Inl (Err ''too many outputs'')
         else res_bind (read_n (\<lambda>d. Des_checked (Output_Deserialize d)) (unat numOutputs) d)
                (\<lambda>(outs, d). Des_checked (Transfer outs, d)))"

definition RegisterDelegate_Deserialize :: "Des \<Rightarrow> (TransactionData \<times> Des) res" where
  "RegisterDelegate_Deserialize d =
     res_bind (ReadByteSlice d) (\<lambda>(name, d).
       let (did, d) = ReadUvarint d in Des_checked (RegisterDelegate name did, d))"

definition SetDelegate_Deserialize :: "Des \<Rightarrow> (TransactionData \<times> Des) res" where
  "SetDelegate_Deserialize d =
     (let (did, d) = ReadUvarint d; (prev, d) = ReadUvarint d
      in Des_checked (SetDelegate did prev, d))"

definition Stake_Deserialize :: "Des \<Rightarrow> (TransactionData \<times> Des) res" where
  "Stake_Deserialize d =
     (let (amount, d) = ReadUvarint d; (did, d) = ReadUvarint d; (prev, d) = ReadUvarint d
      in Des_checked (Stake amount did prev, d))"

definition Unstake_Deserialize :: "Des \<Rightarrow> (TransactionData \<times> Des) res" where
  "Unstake_Deserialize d =
     (let (amount, d) = ReadUvarint d; (did, d) = ReadUvarint d
      in Des_checked (Unstake amount did, d))"

definition output_overhead :: u64 where
  "output_overhead = word_of_nat SIZE + 1 + 1"

definition Transfer_VSize :: "Output list \<Rightarrow> u64" where
  "Transfer_VSize outs = word_of_nat (length outs) * output_overhead"

definition RegisterDelegate_VSize :: "bytes \<Rightarrow> u64 \<Rightarrow> u64" where
  "RegisterDelegate_VSize name did = 16 + word_of_nat (length name)"

definition SetDelegate_VSize :: "u64 \<Rightarrow> u64 \<Rightarrow> u64" where
  "SetDelegate_VSize did prev = MAX_TX_PER_BLOCK"

definition Stake_VSize :: "u64 \<Rightarrow> u64 \<Rightarrow> u64 \<Rightarrow> u64" where
  "Stake_VSize amount did prev = 256"

definition Unstake_VSize :: "u64 \<Rightarrow> u64 \<Rightarrow> u64" where
  "Unstake_VSize amount did = 8"

lemmas VSize_methods [simp] =
  Transfer_VSize_def RegisterDelegate_VSize_def SetDelegate_VSize_def
  Stake_VSize_def Unstake_VSize_def

fun VSize :: "TransactionData \<Rightarrow> u64" where
  "VSize (Transfer outs) = Transfer_VSize outs"
| "VSize (RegisterDelegate name did) = RegisterDelegate_VSize name did"
| "VSize (SetDelegate did prev) = SetDelegate_VSize did prev"
| "VSize (Stake amount did prev) = Stake_VSize amount did prev"
| "VSize (Unstake amount did) = Unstake_VSize amount did"

text \<open>The sum of the outputs, refused when it wraps.\<close>

fun outputs_total :: "u64 \<Rightarrow> Output list \<Rightarrow> u64 res" where
  "outputs_total s [] = Inr s"
| "outputs_total s (v # vs) =
     (let prev = s; s = s + Amount v
      in if prev > s then Inl (Err ''overflow on output'') else outputs_total s vs)"

definition Transfer_TotalAmount :: "Output list \<Rightarrow> Transaction \<Rightarrow> u64 res" where
  "Transfer_TotalAmount outs tx = outputs_total 0 outs"

definition RegisterDelegate_TotalAmount :: "bytes \<Rightarrow> u64 \<Rightarrow> Transaction \<Rightarrow> u64 res" where
  "RegisterDelegate_TotalAmount name did tx = Inr REGISTER_DELEGATE_BURN"

definition SetDelegate_TotalAmount :: "u64 \<Rightarrow> u64 \<Rightarrow> Transaction \<Rightarrow> u64 res" where
  "SetDelegate_TotalAmount did prev tx = Inr 0"

definition Stake_TotalAmount :: "u64 \<Rightarrow> u64 \<Rightarrow> u64 \<Rightarrow> Transaction \<Rightarrow> u64 res" where
  "Stake_TotalAmount amount did prev tx = Inr amount"

definition Unstake_TotalAmount :: "u64 \<Rightarrow> u64 \<Rightarrow> Transaction \<Rightarrow> u64 res" where
  "Unstake_TotalAmount amount did tx =
     (if amount < tx_Fee tx then Inl (Err ''amount < tx fee'') else Inr (amount - tx_Fee tx))"

lemmas TotalAmount_methods [simp] =
  Transfer_TotalAmount_def RegisterDelegate_TotalAmount_def SetDelegate_TotalAmount_def
  Stake_TotalAmount_def Unstake_TotalAmount_def

fun Data_TotalAmount :: "TransactionData \<Rightarrow> Transaction \<Rightarrow> u64 res" where
  "Data_TotalAmount (Transfer outs) tx = Transfer_TotalAmount outs tx"
| "Data_TotalAmount (RegisterDelegate name did) tx = RegisterDelegate_TotalAmount name did tx"
| "Data_TotalAmount (SetDelegate did prev) tx = SetDelegate_TotalAmount did prev tx"
| "Data_TotalAmount (Stake amount did prev) tx = Stake_TotalAmount amount did prev tx"
| "Data_TotalAmount (Unstake amount did) tx = Unstake_TotalAmount amount did tx"

definition Transfer_Prevalidate :: "Output list \<Rightarrow> Transaction \<Rightarrow> error option" where
  "Transfer_Prevalidate outs tx =
     (if length outs = 0 \<or> length outs > MAX_OUTPUTS then Some (Err ''invalid output count'') else None)"

definition RegisterDelegate_Prevalidate :: "bytes \<Rightarrow> u64 \<Rightarrow> Transaction \<Rightarrow> error option" where
  "RegisterDelegate_Prevalidate name did tx =
     (if length name > 16 then Some (Err ''RegisterDelegate name is too long'')
      else if did = 0 then Some (Err ''delegate id 0 is not valid'')
      else if did = 1 \<and> tx_Signer tx \<noteq> TEAM_STAKE_PUBKEY then Some (Err ''delegate id 1 is reserved'')
      else None)"

definition SetDelegate_Prevalidate :: "u64 \<Rightarrow> u64 \<Rightarrow> Transaction \<Rightarrow> error option" where
  "SetDelegate_Prevalidate did prev tx = None"

definition Stake_Prevalidate :: "u64 \<Rightarrow> u64 \<Rightarrow> u64 \<Rightarrow> Transaction \<Rightarrow> error option" where
  "Stake_Prevalidate amount did prev tx =
     (if amount < MIN_STAKE_AMOUNT then Some (Err ''could not stake'') else None)"

definition Unstake_Prevalidate :: "u64 \<Rightarrow> u64 \<Rightarrow> Transaction \<Rightarrow> error option" where
  "Unstake_Prevalidate amount did tx =
     (if tx_Fee tx > amount
      then Some (Err ''transaction fee is bigger than the staked amount'') else None)"

lemmas Prevalidate_methods [simp] =
  Transfer_Prevalidate_def RegisterDelegate_Prevalidate_def SetDelegate_Prevalidate_def
  Stake_Prevalidate_def Unstake_Prevalidate_def

fun Data_Prevalidate :: "TransactionData \<Rightarrow> Transaction \<Rightarrow> error option" where
  "Data_Prevalidate (Transfer outs) tx = Transfer_Prevalidate outs tx"
| "Data_Prevalidate (RegisterDelegate name did) tx = RegisterDelegate_Prevalidate name did tx"
| "Data_Prevalidate (SetDelegate did prev) tx = SetDelegate_Prevalidate did prev tx"
| "Data_Prevalidate (Stake amount did prev) tx = Stake_Prevalidate amount did prev tx"
| "Data_Prevalidate (Unstake amount did) tx = Unstake_Prevalidate amount did tx"

text \<open>\<open>totamt, _ := t.TotalAmount(tx)\<close>: with an error the value is zero.\<close>

definition value_or_zero :: "u64 res \<Rightarrow> u64" where
  "value_or_zero r = (case r of Inl _ \<Rightarrow> 0 | Inr x \<Rightarrow> x)"

definition Transfer_StateInputs :: "'x crypto_scheme \<Rightarrow> Output list \<Rightarrow> Transaction \<Rightarrow> address \<Rightarrow> StateInput list" where
  "Transfer_StateInputs c outs tx sender =
     [\<lparr>si_Amount = value_or_zero (Transfer_TotalAmount outs tx) + tx_Fee tx,
       si_Sender = sender, si_Type = IN_NORMAL, si_ExtraData = 0\<rparr>]"

definition RegisterDelegate_StateInputs :: "'x crypto_scheme \<Rightarrow> bytes \<Rightarrow> u64 \<Rightarrow> Transaction \<Rightarrow> address \<Rightarrow> StateInput list" where
  "RegisterDelegate_StateInputs c name did tx sender =
     [\<lparr>si_Amount = tx_Fee tx + REGISTER_DELEGATE_BURN, si_Sender = sender,
       si_Type = IN_NORMAL, si_ExtraData = 0\<rparr>]"

definition SetDelegate_StateInputs :: "'x crypto_scheme \<Rightarrow> u64 \<Rightarrow> u64 \<Rightarrow> Transaction \<Rightarrow> address \<Rightarrow> StateInput list" where
  "SetDelegate_StateInputs c did prev tx sender =
     [\<lparr>si_Amount = tx_Fee tx, si_Sender = sender, si_Type = IN_NORMAL, si_ExtraData = 0\<rparr>]"

definition Stake_StateInputs :: "'x crypto_scheme \<Rightarrow> u64 \<Rightarrow> u64 \<Rightarrow> u64 \<Rightarrow> Transaction \<Rightarrow> address \<Rightarrow> StateInput list" where
  "Stake_StateInputs c amount did prev tx sender =
     [\<lparr>si_Amount = amount + tx_Fee tx, si_Sender = FromPubKey c (tx_Signer tx),
       si_Type = IN_NORMAL, si_ExtraData = 0\<rparr>]"

definition Unstake_StateInputs :: "'x crypto_scheme \<Rightarrow> u64 \<Rightarrow> u64 \<Rightarrow> Transaction \<Rightarrow> address \<Rightarrow> StateInput list" where
  "Unstake_StateInputs c amount did tx sender =
     [\<lparr>si_Amount = amount, si_Sender = NewDelegateAddress did, si_Type = IN_UNSTAKE,
       si_ExtraData = did\<rparr>]"

lemmas StateInputs_methods [simp] =
  Transfer_StateInputs_def RegisterDelegate_StateInputs_def SetDelegate_StateInputs_def
  Stake_StateInputs_def Unstake_StateInputs_def

fun StateInputs :: "'x crypto_scheme \<Rightarrow> TransactionData \<Rightarrow> Transaction \<Rightarrow> address \<Rightarrow> StateInput list"
where
  "StateInputs c (Transfer outs) tx sender = Transfer_StateInputs c outs tx sender"
| "StateInputs c (RegisterDelegate name did) tx sender = RegisterDelegate_StateInputs c name did tx sender"
| "StateInputs c (SetDelegate did prev) tx sender = SetDelegate_StateInputs c did prev tx sender"
| "StateInputs c (Stake amount did prev) tx sender = Stake_StateInputs c amount did prev tx sender"
| "StateInputs c (Unstake amount did) tx sender = Unstake_StateInputs c amount did tx sender"

definition normal_output :: "Output \<Rightarrow> StateOutput" where
  "normal_output v =
     \<lparr>so_Type = OUT_NORMAL, so_Amount = Amount v, so_Recipient = Recipient v,
      so_PaymentId = PaymentId v, so_ExtraData = 0\<rparr>"

definition Transfer_StateOutputs :: "Output list \<Rightarrow> Transaction \<Rightarrow> address \<Rightarrow> StateOutput list res" where
  "Transfer_StateOutputs outs tx sender = Inr (map normal_output outs)"

definition RegisterDelegate_StateOutputs :: "bytes \<Rightarrow> u64 \<Rightarrow> Transaction \<Rightarrow> address \<Rightarrow> StateOutput list res" where
  "RegisterDelegate_StateOutputs name did tx sender =
     Inr [\<lparr>so_Type = OUT_NORMAL, so_Amount = REGISTER_DELEGATE_BURN, so_Recipient = INVALID_ADDRESS,
           so_PaymentId = 0, so_ExtraData = 0\<rparr>]"

definition SetDelegate_StateOutputs :: "u64 \<Rightarrow> u64 \<Rightarrow> Transaction \<Rightarrow> address \<Rightarrow> StateOutput list res" where
  "SetDelegate_StateOutputs did prev tx sender = Inr []"

definition Stake_StateOutputs :: "u64 \<Rightarrow> u64 \<Rightarrow> u64 \<Rightarrow> Transaction \<Rightarrow> address \<Rightarrow> StateOutput list res" where
  "Stake_StateOutputs amount did prev tx sender =
     Inr [\<lparr>so_Type = OUT_STAKE, so_Amount = amount, so_Recipient = NewDelegateAddress did,
           so_PaymentId = 0, so_ExtraData = did\<rparr>]"

definition Unstake_StateOutputs :: "u64 \<Rightarrow> u64 \<Rightarrow> Transaction \<Rightarrow> address \<Rightarrow> StateOutput list res" where
  "Unstake_StateOutputs amount did tx sender =
     (if tx_Fee tx > amount then Inl (Panic ''unstake: fee > amount'')
      else Inr [\<lparr>so_Type = OUT_NORMAL, so_Amount = amount - tx_Fee tx, so_Recipient = sender,
                 so_PaymentId = 0, so_ExtraData = 0\<rparr>])"

lemmas StateOutputs_methods [simp] =
  Transfer_StateOutputs_def RegisterDelegate_StateOutputs_def SetDelegate_StateOutputs_def
  Stake_StateOutputs_def Unstake_StateOutputs_def

fun StateOutputs :: "TransactionData \<Rightarrow> Transaction \<Rightarrow> address \<Rightarrow> StateOutput list res" where
  "StateOutputs (Transfer outs) tx sender = Transfer_StateOutputs outs tx sender"
| "StateOutputs (RegisterDelegate name did) tx sender = RegisterDelegate_StateOutputs name did tx sender"
| "StateOutputs (SetDelegate did prev) tx sender = SetDelegate_StateOutputs did prev tx sender"
| "StateOutputs (Stake amount did prev) tx sender = Stake_StateOutputs amount did prev tx sender"
| "StateOutputs (Unstake amount did) tx sender = Unstake_StateOutputs amount did tx sender"

section \<open>Transactions\<close>

definition Tx_Serialize :: "Transaction \<Rightarrow> bytes" where
  "Tx_Serialize t =
     (if tx_Version t \<noteq> 0 then AddUint8 (AssociatedTransactionVersion (tx_Data t)) else []) @
     AddArray (tx_Signer t) @ AddArray (tx_Signature t) @
     Data_Serialize (tx_Data t) @ AddUvarint (tx_Nonce t) @ AddUvarint (tx_Fee t)"

definition Tx_read_version :: "bool \<Rightarrow> Des \<Rightarrow> (u8 \<times> Des) res" where
  "Tx_read_version hasVersion d =
     (if hasVersion then
        let (v, d) = ReadUint8 d
        in if v > MAX_TX_VERSION \<or> v = 0 then Inl (Err ''invalid transaction version'') else Inr (v, d)
      else Inr (0, d))"

definition Data_Deserialize :: "u8 \<Rightarrow> Des \<Rightarrow> (TransactionData \<times> Des) res" where
  "Data_Deserialize version d =
     (if version = 0 \<or> version = TX_VERSION_TRANSFER then Transfer_Deserialize d
      else if version = TX_VERSION_REGISTER_DELEGATE then RegisterDelegate_Deserialize d
      else if version = TX_VERSION_SET_DELEGATE then SetDelegate_Deserialize d
      else if version = TX_VERSION_STAKE then Stake_Deserialize d
      else if version = TX_VERSION_UNSTAKE then Unstake_Deserialize d
      else Inl (Err ''unknown transaction version''))"

definition Tx_Deserialize :: "bytes \<Rightarrow> bool \<Rightarrow> Transaction res" where
  "Tx_Deserialize data hasVersion =
     res_bind (Tx_read_version hasVersion (NewDes data)) (\<lambda>(version, d).
       let (signer, d) = ReadArray d; (sig, d) = ReadArray d
       in res_bind (Data_Deserialize version d) (\<lambda>(dat, d).
            let (nonce, d) = ReadUvarint d; (fee, d) = ReadUvarint d
            in case des_err d of
                 Some _ \<Rightarrow> Inl (Err ''transaction encountered deserialization error'')
               | None \<Rightarrow> Inr \<lparr>tx_Version = version, tx_Signer = signer, tx_Signature = sig,
                              tx_Data = dat, tx_Nonce = nonce, tx_Fee = fee\<rparr>))"

definition Tx_Hash :: "'x crypto_scheme \<Rightarrow> Transaction \<Rightarrow> hash" where
  "Tx_Hash c t = blake3_Sum256 c (Tx_Serialize t)"

definition Tx_TotalAmount :: "Transaction \<Rightarrow> u64 res" where
  "Tx_TotalAmount t =
     (let s = tx_Fee t
      in res_bind (Data_TotalAmount (tx_Data t) t) (\<lambda>amt.
           if amt + s < amt then Inl (Err ''overflow on output'') else Inr (amt + s)))"

definition base_overhead :: u64 where
  "base_overhead = 32 + 64 + 1 + 1 + 1"

definition max_tx_size :: u64 where
  "max_tx_size = 2048"

definition GetVirtualSize :: "Transaction \<Rightarrow> u64" where
  "GetVirtualSize t = base_overhead + VSize (tx_Data t)"

text \<open>The network id is written into the signature on other networks; here it stays blank.\<close>

definition SignatureData :: "Transaction \<Rightarrow> bytes" where
  "SignatureData t =
     (let sig = (if NETWORK_ID \<noteq> 0xd38dab1d4676d0c5
                 then arr_of (le_bytes 8 (unat NETWORK_ID) @ replicate 56 0) else 0)
      in Tx_Serialize (t\<lparr>tx_Signature := sig\<rparr>))"

definition Tx_Sign :: "'x crypto_scheme \<Rightarrow> Transaction \<Rightarrow> 512 word \<Rightarrow> Transaction" where
  "Tx_Sign c t pk = t\<lparr>tx_Signature := Sign c (SignatureData t) pk\<rparr>"

definition version_error :: "u64 \<Rightarrow> u8 \<Rightarrow> error option" where
  "version_error height version =
     (if height < HARDFORK_V2_HEIGHT then
        (if version \<noteq> 0 then Some (Err ''invalid version, expected 0'') else None)
      else if height < HARDFORK_V3_HEIGHT then
        (if version \<noteq> 1 then Some (Err ''invalid version, expected 1'') else None)
      else if version \<noteq> TX_VERSION_TRANSFER \<and> version \<noteq> TX_VERSION_REGISTER_DELEGATE \<and>
              version \<noteq> TX_VERSION_SET_DELEGATE \<and> version \<noteq> TX_VERSION_STAKE \<and>
              version \<noteq> TX_VERSION_UNSTAKE
        then Some (Err ''invalid version, expected 1-5'')
      else None)"

definition Tx_Prevalidate :: "'x crypto_scheme \<Rightarrow> Transaction \<Rightarrow> u64 \<Rightarrow> error option" where
  "Tx_Prevalidate c t height =
     (let vsize = GetVirtualSize t
      in if vsize > max_tx_size then Some (Err ''invalid vsize'')
         else case version_error height (tx_Version t) of Some err \<Rightarrow> Some err | None \<Rightarrow>
           let senderAddr = FromPubKey c (tx_Signer t)
           in if senderAddr = INVALID_ADDRESS then Some (Err ''invalid sender public key'')
              else let fee_per_byte =
                         (if height \<ge> HARDFORK_V3_HEIGHT then FEE_PER_BYTE_V2 else FEE_PER_BYTE)
                   in if tx_Fee t < fee_per_byte * vsize then Some (Err ''invalid transaction fee'')
                      else if \<not> VerifySignature c (tx_Signer t) (SignatureData t) (tx_Signature t)
                      then Some (Err ''invalid signature'')
                      else case Data_Prevalidate (tx_Data t) t of Some err \<Rightarrow> Some err | None \<Rightarrow>
                        (case Tx_TotalAmount t of Inl err \<Rightarrow> Some err | Inr totamt \<Rightarrow>
                          (case StateOutputs (tx_Data t) t senderAddr of Inl err \<Rightarrow> Some err
                           | Inr atsd \<Rightarrow>
                               let stateSum = foldl (\<lambda>s v. s + so_Amount v) (tx_Fee t) atsd
                               in if stateSum \<noteq> totamt
                                  then Some (Err ''sum of transaction outputs, total amount'')
                                  else None)))"

section \<open>The encoding\<close>

lemma des_err_NewDes [simp]: "des_err (NewDes d) = None"
  by (simp add: NewDes_def)

lemma Des_checked_NewDes [codec_simps]: "Des_checked (x, NewDes d) = Inr (x, NewDes d)"
  by (simp add: Des_checked_def)

lemma Output_Deserialize_Serialize [codec_simps]:
  "Output_Deserialize (NewDes (Output_Serialize v @ rest)) = (v, NewDes rest)"
  by (simp add: Output_Deserialize_def Output_Serialize_def codec_simps)

interpretation output_codec: codec Output_Serialize "\<lambda>d. Des_checked (Output_Deserialize d)" "\<lambda>_. True"
  by unfold_locales (simp add: codec_simps)

text \<open>What the decoder accepts of transaction data: one to 32 outputs, and a name that fits a slice.\<close>

fun data_wf :: "TransactionData \<Rightarrow> bool" where
  "data_wf (Transfer outs) \<longleftrightarrow> outs \<noteq> [] \<and> length outs \<le> MAX_OUTPUTS"
| "data_wf (RegisterDelegate name _) \<longleftrightarrow> length name < 2 ^ 63"
| "data_wf _ \<longleftrightarrow> True"

definition tx_matches :: "Transaction \<Rightarrow> bool" where
  "tx_matches t \<longleftrightarrow>
     (if tx_Version t = 0 then is_Transfer (tx_Data t)
      else tx_Version t = AssociatedTransactionVersion (tx_Data t))"

lemma Transfer_codec:
  assumes "data_wf (Transfer outs)"
  shows "Transfer_Deserialize (NewDes (Data_Serialize (Transfer outs) @ rest))
           = Inr (Transfer outs, NewDes rest)"
proof -
  have "unat (word_of_nat (length outs) :: u64) = length outs"
    using assms by (intro unat_of_nat64) (simp add: config_defs)
  moreover have "\<not> (word_of_nat (length outs) :: u64) > MAX_OUTPUTS"
    using assms calculation by (simp add: word_less_nat_alt config_defs)
  moreover have "(word_of_nat (length outs) :: u64) \<noteq> 0"
    using assms calculation by (metis data_wf.simps(1) length_0_conv unat_0)
  ultimately show ?thesis
    using output_codec.read_n_enc [of outs rest]
    by (simp add: Transfer_Deserialize_def codec_simps list_all_iff)
qed

lemma Data_codec:
  assumes "data_wf d" "tx_matches \<lparr>tx_Version = v, tx_Signer = s, tx_Signature = g, tx_Data = d,
      tx_Nonce = n, tx_Fee = f\<rparr>"
  shows "Data_Deserialize v (NewDes (Data_Serialize d @ rest)) = Inr (d, NewDes rest)"
  using assms
  by (cases d) (auto simp: Data_Deserialize_def tx_matches_def tx_versions Transfer_codec
      RegisterDelegate_Deserialize_def SetDelegate_Deserialize_def Stake_Deserialize_def
      Unstake_Deserialize_def codec_simps simp del: Data_Serialize.simps(1) split: if_splits)

lemma ReadUvarint_last [codec_simps]: "ReadUvarint (NewDes (AddUvarint x)) = (x, NewDes [])"
  using ReadUvarint_AddUvarint [of x "[]"] by simp

lemma AssociatedTransactionVersion_range:
  "AssociatedTransactionVersion d \<noteq> 0" "\<not> AssociatedTransactionVersion d > MAX_TX_VERSION"
  by (cases d; simp add: tx_versions)+

lemma Tx_read_version_Serialize:
  assumes "tx_matches t"
  shows "Tx_read_version (tx_Version t \<noteq> 0) (NewDes (Tx_Serialize t)) =
    Inr (tx_Version t, NewDes (AddArray (tx_Signer t) @ AddArray (tx_Signature t) @
     Data_Serialize (tx_Data t) @ AddUvarint (tx_Nonce t) @ AddUvarint (tx_Fee t)))"
  using assms AssociatedTransactionVersion_range [of "tx_Data t"]
  by (cases "tx_Version t = 0")
    (simp_all add: Tx_read_version_def Tx_Serialize_def tx_matches_def codec_simps)

lemma Tx_codec:
  assumes "data_wf (tx_Data t)" "tx_matches t"
  shows "Tx_Deserialize (Tx_Serialize t) (tx_Version t \<noteq> 0) = Inr t"
proof -
  have "Data_Deserialize (tx_Version t) (NewDes (Data_Serialize (tx_Data t) @ rest))
          = Inr (tx_Data t, NewDes rest)" for rest
    using assms by (cases t) (auto intro!: Data_codec)
  then show ?thesis
    unfolding Tx_Deserialize_def Tx_read_version_Serialize [OF assms(2)]
    by (simp add: codec_simps)
qed

text \<open>Everything the decoder returns has data of the kind its version names.\<close>

lemma Des_checked_Inr: "Des_checked r = Inr r' \<longleftrightarrow> r' = r \<and> des_err (snd r) = None"
  by (auto simp: Des_checked_def split: option.splits)

lemma Data_Deserialize_kind:
  assumes "Data_Deserialize v d = Inr (dat, d')"
  shows "if v = 0 then is_Transfer dat else v = AssociatedTransactionVersion dat"
  using assms
  by (auto simp: Data_Deserialize_def tx_versions Transfer_Deserialize_def
      RegisterDelegate_Deserialize_def SetDelegate_Deserialize_def Stake_Deserialize_def
      Unstake_Deserialize_def Let_def outcome_iffs Des_checked_Inr case_prod_unfold
      split: if_splits)

lemma Tx_Deserialize_matches:
  assumes "Tx_Deserialize data hv = Inr t"
  shows "tx_matches t"
  using assms
  by (auto simp: Tx_Deserialize_def tx_matches_def Let_def outcome_iffs case_prod_unfold
      dest!: Data_Deserialize_kind split: option.splits)

section \<open>Amounts\<close>

definition inputs_sum :: "StateInput list \<Rightarrow> nat" where
  "inputs_sum xs = (\<Sum>x\<leftarrow>xs. unat (si_Amount x))"

definition outputs_sum :: "StateOutput list \<Rightarrow> nat" where
  "outputs_sum xs = (\<Sum>x\<leftarrow>xs. unat (so_Amount x))"

lemma outputs_total_sum:
  "outputs_total s outs =
     (if unat s + (\<Sum>v\<leftarrow>outs. unat (Amount v)) < 2 ^ 64
      then Inr (word_of_nat (unat s + (\<Sum>v\<leftarrow>outs. unat (Amount v))))
      else Inl (Err ''overflow on output''))"
proof (induction outs arbitrary: s)
  case (Cons v vs)
  have iff: "s + Amount v < s \<longleftrightarrow> \<not> unat s + unat (Amount v) < 2 ^ 64"
    using add64_wraps_iff [of s "Amount v"] by (simp add: not_less)
  show ?case
  proof (cases "unat s + unat (Amount v) < 2 ^ 64")
    case True
    then show ?thesis using iff by (simp add: Cons.IH unat_add64 add.assoc)
  next
    case False
    then have "\<not> unat s + (unat (Amount v) + (\<Sum>v\<leftarrow>vs. unat (Amount v))) < 2 ^ 64" by simp
    with False iff show ?thesis by (simp del: of_nat_add)
  qed
qed (use unat_lt64 in simp)

lemma foldl_add_outputs:
  "unat s + outputs_sum outs < 2 ^ 64 \<Longrightarrow>
   unat (foldl (\<lambda>s v. s + so_Amount v) s outs) = unat s + outputs_sum outs"
proof (induction outs arbitrary: s)
  case (Cons v vs)
  then have "unat (s + so_Amount v) = unat s + unat (so_Amount v)"
    by (intro unat_add64) (simp add: outputs_sum_def)
  with Cons show ?case by (simp add: outputs_sum_def)
qed (simp add: outputs_sum_def)

text \<open>
  What the interface \<open>TransactionData\<close> promises: the outputs sum to the total amount and the inputs
  to the total amount and the fee, as long as that sum fits 64 bits.
\<close>

locale transaction_data =
  fixes total :: "Transaction \<Rightarrow> u64 res"
    and ins :: "Transaction \<Rightarrow> address \<Rightarrow> StateInput list"
    and outs :: "Transaction \<Rightarrow> address \<Rightarrow> StateOutput list res"
  assumes outs_total: "total tx = Inr a \<Longrightarrow> \<exists>os. outs tx s = Inr os \<and> outputs_sum os = unat a"
    and ins_total: "total tx = Inr a \<Longrightarrow> unat a + unat (tx_Fee tx) < 2 ^ 64 \<Longrightarrow>
      inputs_sum (ins tx s) = unat a + unat (tx_Fee tx)"
begin

lemma balanced:
  assumes "total tx = Inr a" "unat a + unat (tx_Fee tx) < 2 ^ 64"
  obtains os where "outs tx s = Inr os"
    "inputs_sum (ins tx s) = outputs_sum os + unat (tx_Fee tx)"
  using outs_total [OF assms(1), of s] ins_total [OF assms, of s] by auto

end

interpretation transfer: transaction_data
  "Data_TotalAmount (Transfer os)" "StateInputs c (Transfer os)" "StateOutputs (Transfer os)"
proof unfold_locales
  fix tx a s
  assume t: "Data_TotalAmount (Transfer os) tx = Inr a"
  then have a: "unat a = (\<Sum>v\<leftarrow>os. unat (Amount v))"
    by (auto simp: outputs_total_sum unat_of_nat64 split: if_splits)
  then show "\<exists>os'. StateOutputs (Transfer os) tx s = Inr os' \<and> outputs_sum os' = unat a"
    by (simp add: outputs_sum_def normal_output_def comp_def)
  assume "unat a + unat (tx_Fee tx) < 2 ^ 64"
  with t show "inputs_sum (StateInputs c (Transfer os) tx s) = unat a + unat (tx_Fee tx)"
    by (simp add: inputs_sum_def value_or_zero_def unat_add64)
qed

interpretation register_delegate: transaction_data
  "Data_TotalAmount (RegisterDelegate name did)" "StateInputs c (RegisterDelegate name did)"
  "StateOutputs (RegisterDelegate name did)"
  by unfold_locales (auto simp: outputs_sum_def inputs_sum_def unat_add64 add.commute)

interpretation set_delegate: transaction_data
  "Data_TotalAmount (SetDelegate did prev)" "StateInputs c (SetDelegate did prev)"
  "StateOutputs (SetDelegate did prev)"
  by unfold_locales (auto simp: outputs_sum_def inputs_sum_def)

interpretation stake: transaction_data
  "Data_TotalAmount (Stake amount did prev)" "StateInputs c (Stake amount did prev)"
  "StateOutputs (Stake amount did prev)"
  by unfold_locales (auto simp: outputs_sum_def inputs_sum_def unat_add64)

interpretation unstake: transaction_data
  "Data_TotalAmount (Unstake amount did)" "StateInputs c (Unstake amount did)"
  "StateOutputs (Unstake amount did)"
  by unfold_locales
    (auto simp: outputs_sum_def inputs_sum_def unat_sub64 word_le_nat_alt not_less split: if_splits)

interpretation data: transaction_data
  "Data_TotalAmount d" "StateInputs c d" "StateOutputs d"
proof unfold_locales
  fix tx a s
  assume t: "Data_TotalAmount d tx = Inr a"
  show "\<exists>os. StateOutputs d tx s = Inr os \<and> outputs_sum os = unat a"
    using t
  proof (cases d)
    case (Transfer os)
    show ?thesis using t unfolding Transfer by (rule transfer.outs_total)
  next
    case (Unstake amount did)
    show ?thesis using t unfolding Unstake by (rule unstake.outs_total)
  qed (simp_all add: outputs_sum_def)
  assume "unat a + unat (tx_Fee tx) < 2 ^ 64"
  with t show "inputs_sum (StateInputs c d tx s) = unat a + unat (tx_Fee tx)"
    by (cases d) (blast dest: transfer.ins_total register_delegate.ins_total
        set_delegate.ins_total stake.ins_total unstake.ins_total)+
qed

lemma Tx_TotalAmount_Inr:
  "Tx_TotalAmount t = Inr tot \<longleftrightarrow>
     (\<exists>amt. Data_TotalAmount (tx_Data t) t = Inr amt \<and> unat amt + unat (tx_Fee t) < 2 ^ 64 \<and>
            tot = amt + tx_Fee t)"
  by (cases "Data_TotalAmount (tx_Data t) t")
    (auto simp: Tx_TotalAmount_def Let_def add64_wraps_iff)

lemma Tx_balanced:
  assumes "Tx_TotalAmount t = Inr tot"
  obtains os where "StateOutputs (tx_Data t) t s = Inr os"
    and "inputs_sum (StateInputs c (tx_Data t) t s) = unat tot"
    and "outputs_sum os + unat (tx_Fee t) = unat tot"
proof -
  obtain amt where amt: "Data_TotalAmount (tx_Data t) t = Inr amt"
      "unat amt + unat (tx_Fee t) < 2 ^ 64" "tot = amt + tx_Fee t"
    using assms by (auto simp: Tx_TotalAmount_Inr)
  obtain os where os: "StateOutputs (tx_Data t) t s = Inr os" "outputs_sum os = unat amt"
    using data.outs_total [OF amt(1)] by blast
  show thesis
    using data.ins_total [OF amt(1,2), of c s] os(2) amt(2,3)
    by (intro that [OF os(1)]) (simp_all add: unat_add64)
qed

section \<open>Prevalidation\<close>

lemma prevalidate_sum_agrees:
  assumes "Tx_TotalAmount t = Inr tot" "StateOutputs (tx_Data t) t s = Inr atsd"
  shows "foldl (\<lambda>s v. s + so_Amount v) (tx_Fee t) atsd = tot"
proof -
  have sum: "outputs_sum atsd + unat (tx_Fee t) = unat tot"
    using Tx_balanced [OF assms(1), of s undefined] assms(2) by auto
  then have "unat (foldl (\<lambda>s v. s + so_Amount v) (tx_Fee t) atsd) = unat tot"
    using unat_lt64 [of tot] by (subst foldl_add_outputs) simp_all
  then show ?thesis by (simp only: word_unat_eq_iff)
qed

lemma Tx_Prevalidate_None:
  "Tx_Prevalidate c t height = None \<longleftrightarrow>
     GetVirtualSize t \<le> max_tx_size \<and>
     version_error height (tx_Version t) = None \<and>
     FromPubKey c (tx_Signer t) \<noteq> INVALID_ADDRESS \<and>
     (if height \<ge> HARDFORK_V3_HEIGHT then FEE_PER_BYTE_V2 else FEE_PER_BYTE) * GetVirtualSize t
       \<le> tx_Fee t \<and>
     VerifySignature c (tx_Signer t) (SignatureData t) (tx_Signature t) \<and>
     Data_Prevalidate (tx_Data t) t = None \<and>
     (\<exists>tot. Tx_TotalAmount t = Inr tot)"
proof (cases "Tx_TotalAmount t")
  case (Inr tot)
  obtain os where os: "StateOutputs (tx_Data t) t (FromPubKey c (tx_Signer t)) = Inr os"
    using Tx_balanced [OF Inr] by blast
  show ?thesis
    using prevalidate_sum_agrees [OF Inr os]
    unfolding not_less [symmetric]
    by (auto simp: Tx_Prevalidate_def Let_def Inr os split: option.split)
qed (auto simp: Tx_Prevalidate_def Let_def split: option.splits if_splits)

end
