(* ===== verification/ChainTypes.thy ===== *)
theory ChainTypes
  imports Transactions "HOL-Library.Multiset"
begin

text \<open>
  \<^verbatim>\<open>src/chaintype\<close>: the state of an address (\<^verbatim>\<open>state.go\<close>) and a delegate with the funds that are
  staked with it (\<^verbatim>\<open>delegate.go\<close>), and the two helpers of \<^verbatim>\<open>src/util/util.go\<close> that the accounting uses.
  The lemmas are the round trips of the two encodings and the arithmetic of \<open>TotalAmount\<close>.
\<close>

section \<open>Checked addition\<close>

definition SafeAdd :: "u64 \<Rightarrow> u64 \<Rightarrow> u64 res" where
  "SafeAdd a b = (if a + b < a then Inl (Err ''overflow'') else Inr (a + b))"

lemma SafeAdd_Inr [outcome_iffs]:
  "SafeAdd a b = Inr s \<longleftrightarrow> unat a + unat b < 2 ^ 64 \<and> s = a + b"
  by (auto simp: SafeAdd_def add64_wraps_iff)

section \<open>The state of an address\<close>

record State =
  Balance :: u64
  LastNonce :: u64
  LastIncoming :: u64
  st_DelegateId :: u64

definition State_zero :: State where
  "State_zero = \<lparr>Balance = 0, LastNonce = 0, LastIncoming = 0, st_DelegateId = 0\<rparr>"

definition State_Serialize :: "State \<Rightarrow> bytes" where
  "State_Serialize x =
     AddUvarint (Balance x) @ AddUvarint (LastNonce x) @ AddUvarint (LastIncoming x) @
     AddUint8 1 @ AddUvarint (st_DelegateId x)"

text \<open>The value is what the decoder has filled in when it returns, with or without an error. The
  branch with a version returns no error even when the delegate id cannot be read.\<close>

definition State_Deserialize :: "bytes \<Rightarrow> State \<times> error option" where
  "State_Deserialize b =
     (let (balance, s) = ReadUvarint (NewDes b);
          (nonce, s) = ReadUvarint s;
          (incoming, s) = ReadUvarint s;
          x = \<lparr>Balance = balance, LastNonce = nonce, LastIncoming = incoming, st_DelegateId = 0\<rparr>
      in if length (RemainingData s) > 0 then
           let (v, s) = ReadUint8 s
           in if v \<noteq> 1 then (x, Some (Err ''invalid state version''))
              else let (did, s) = ReadUvarint s in (x\<lparr>st_DelegateId := did\<rparr>, None)
         else (x, des_err s))"

lemma State_codec [simp]: "State_Deserialize (State_Serialize x) = (x, None)"
proof -
  have "RemainingData (NewDes (AddUint8 1 @ r)) \<noteq> []" for r
    by (simp add: RemainingData_def NewDes_def AddUint8_def)
  then show ?thesis by (simp add: State_Deserialize_def State_Serialize_def codec_simps)
qed

lemma State_Serialize_nonempty [simp]: "State_Serialize x \<noteq> []"
  by (simp add: State_Serialize_def AddUint8_def)

section \<open>Delegates\<close>

record DelegatedFund =
  df_Owner :: address
  df_Amount :: u64
  df_Unlock :: u64

record Delegate =
  d_Id :: u64
  d_Owner :: pubkey
  d_Name :: bytes
  d_Funds :: "DelegatedFund list"

fun funds_total :: "u64 \<Rightarrow> DelegatedFund list \<Rightarrow> u64 res" where
  "funds_total t [] = Inr t"
| "funds_total oldt (v # vs) =
     (let t = oldt + df_Amount v
      in if oldt > t then Inl (Panic ''Delegate TotalAmount overflow'') else funds_total t vs)"

definition Delegate_TotalAmount :: "Delegate \<Rightarrow> u64 res" where
  "Delegate_TotalAmount d = funds_total 0 (d_Funds d)"

text \<open>The stable sort by the bytes of the owner, which is the order of the words.\<close>

definition SortFunds :: "Delegate \<Rightarrow> Delegate res" where
  "SortFunds d =
     (if \<not> distinct (map df_Owner (d_Funds d)) then Inl (Err ''fund is duplicate'')
      else Inr (d\<lparr>d_Funds := sort_key df_Owner (d_Funds d)\<rparr>))"

definition OwnerAddress :: "'x crypto_scheme \<Rightarrow> Delegate \<Rightarrow> address" where
  "OwnerAddress c d = FromPubKey c (d_Owner d)"

definition Fund_Serialize :: "DelegatedFund \<Rightarrow> bytes" where
  "Fund_Serialize v =
     AddArray (df_Owner v) @ AddUvarint (df_Amount v) @ AddUvarint (df_Unlock v)"

definition Delegate_Serialize :: "Delegate \<Rightarrow> bytes" where
  "Delegate_Serialize g =
     AddUint8 0 @ AddUvarint (d_Id g) @ AddArray (d_Owner g) @ AddByteSlice (d_Name g) @
     AddUvarint (word_of_nat (length (d_Funds g))) @ concat (map Fund_Serialize (d_Funds g))"

definition Fund_Deserialize :: "Des \<Rightarrow> DelegatedFund \<times> Des" where
  "Fund_Deserialize d =
     (let (owner, d) = ReadArray d; (amount, d) = ReadUvarint d; (unlock, d) = ReadUvarint d
      in (\<lparr>df_Owner = owner, df_Amount = amount, df_Unlock = unlock\<rparr>, d))"

definition Delegate_Deserialize :: "bytes \<Rightarrow> Delegate res" where
  "Delegate_Deserialize b =
     (let (v, d) = ReadUint8 (NewDes b)
      in if v \<noteq> 0 then Inl (Err ''invalid delegate blob version'')
         else let (did, d) = ReadUvarint d; (owner, d) = ReadArray d
              in res_bind (ReadByteSlice d) (\<lambda>(name, d).
                   let (numFunds, d) = ReadUvarint d
                   in if unat numFunds > length (RemainingData d) div 20
                      then Inl (Err ''too many funds'')
                      else res_bind (read_n (\<lambda>d. Inr (Fund_Deserialize d)) (unat numFunds) d)
                             (\<lambda>(funds, d). case des_err d of
                                Some err \<Rightarrow> Inl err
                              | None \<Rightarrow> Inr \<lparr>d_Id = did, d_Owner = owner, d_Name = name,
                                             d_Funds = funds\<rparr>)))"

text \<open>The decoder reads a delegate whose name and whose number of funds fit their length fields.\<close>

definition delegate_wf :: "Delegate \<Rightarrow> bool" where
  "delegate_wf g \<longleftrightarrow> length (d_Name g) < 2 ^ 63 \<and> length (d_Funds g) < 2 ^ 64"

lemma Fund_codec [codec_simps]:
  "Fund_Deserialize (NewDes (Fund_Serialize v @ rest)) = (v, NewDes rest)"
  by (simp add: Fund_Deserialize_def Fund_Serialize_def codec_simps)

interpretation fund_codec: codec Fund_Serialize "\<lambda>d. Inr (Fund_Deserialize d)" "\<lambda>_. True"
  by unfold_locales (simp add: codec_simps)

lemma length_Fund_Serialize: "24 \<le> length (Fund_Serialize v)"
proof -
  have "1 \<le> length (AppendUvarint x)" for x by (simp add: Suc_le_eq)
  from this [of "df_Amount v"] this [of "df_Unlock v"] show ?thesis
    by (simp add: Fund_Serialize_def AddArray_def AddFixedByteArray_def AddUvarint_def)
qed

lemma length_Funds_Serialize: "24 * length fs \<le> length (concat (map Fund_Serialize fs))"
proof (induction fs)
  case (Cons v vs)
  then show ?case using length_Fund_Serialize [of v] by simp
qed simp

lemma Delegate_codec:
  assumes "delegate_wf g"
  shows "Delegate_Deserialize (Delegate_Serialize g) = Inr g"
proof -
  have n: "unat (word_of_nat (length (d_Funds g)) :: u64) = length (d_Funds g)"
    using assms by (intro unat_of_nat64) (simp add: delegate_wf_def)
  have few: "\<not> length (d_Funds g) > length (concat (map Fund_Serialize (d_Funds g))) div 20"
    using length_Funds_Serialize [of "d_Funds g"] by linarith
  have "read_n (\<lambda>d. Inr (Fund_Deserialize d)) (length (d_Funds g))
      (NewDes (concat (map Fund_Serialize (d_Funds g)))) = Inr (d_Funds g, NewDes [])"
    using fund_codec.read_n_enc [of "d_Funds g" "[]"] by (simp add: list_all_iff)
  with n few assms show ?thesis
    by (simp add: Delegate_Deserialize_def Delegate_Serialize_def codec_simps delegate_wf_def
        RemainingData_def [of "NewDes _"] NewDes_def [THEN arg_cong, of des_data])
qed

lemma Delegate_Serialize_nonempty [simp]: "Delegate_Serialize g \<noteq> []"
  by (simp add: Delegate_Serialize_def AddUint8_def)

section \<open>Sums of funds\<close>

definition funds_sum :: "DelegatedFund list \<Rightarrow> nat" where
  "funds_sum fs = (\<Sum>f\<leftarrow>fs. unat (df_Amount f))"

lemma funds_sum_simps [simp]:
  "funds_sum [] = 0" "funds_sum (f # fs) = unat (df_Amount f) + funds_sum fs"
  "funds_sum (fs @ gs) = funds_sum fs + funds_sum gs"
  by (simp_all add: funds_sum_def)

lemma funds_total_val:
  "funds_total t fs =
     (if unat t + funds_sum fs < 2 ^ 64 then Inr (word_of_nat (unat t + funds_sum fs))
      else Inl (Panic ''Delegate TotalAmount overflow''))"
proof (induction fs arbitrary: t)
  case (Cons v vs)
  have iff: "t + df_Amount v < t \<longleftrightarrow> \<not> unat t + unat (df_Amount v) < 2 ^ 64"
    using add64_wraps_iff [of t "df_Amount v"] by (simp add: not_less)
  show ?case
  proof (cases "unat t + unat (df_Amount v) < 2 ^ 64")
    case True
    then show ?thesis using iff by (simp add: Cons.IH unat_add64 add.assoc)
  next
    case False
    then have "\<not> unat t + (unat (df_Amount v) + funds_sum vs) < 2 ^ 64" by simp
    with False iff show ?thesis by (simp del: of_nat_add)
  qed
qed (use unat_lt64 in simp)

lemma Delegate_TotalAmount_Inr [outcome_iffs]:
  "Delegate_TotalAmount d = Inr t \<longleftrightarrow> funds_sum (d_Funds d) = unat t"
  using unat_lt64 [of t]
  by (auto simp: Delegate_TotalAmount_def funds_total_val unat_of_nat64)

lemma SortFunds_ok:
  assumes "distinct (map df_Owner (d_Funds d))"
  obtains d' where "SortFunds d = Inr d'" "sorted (map df_Owner (d_Funds d'))"
    "mset (d_Funds d') = mset (d_Funds d)" "Delegate_TotalAmount d' = Delegate_TotalAmount d"
proof -
  let ?d' = "d\<lparr>d_Funds := sort_key df_Owner (d_Funds d)\<rparr>"
  have "funds_sum (d_Funds ?d') = funds_sum (d_Funds d)"
    unfolding funds_sum_def sum_mset_sum_list [symmetric] mset_map by simp
  then show thesis
    using assms by (intro that [of ?d'])
      (auto simp: SortFunds_def Delegate_TotalAmount_def funds_total_val)
qed

end
