(* ===== verification/Uint128.thy ===== *)
theory Uint128
  imports Prelude
begin

unbundle bit_operations_syntax

text \<open>
  \<^verbatim>\<open>src/util/uint128/uint128.go\<close>: 128-bit unsigned numbers as two 64-bit halves, built on the
  operations of Go's \<open>math/bits\<close>. The code carries difficulties, cumulative difficulties, proof of
  work targets and the distribution of staking rewards. Operations that panic return an error.
  \<open>val128\<close> reads a pair as a natural number; the lemmas give every operation as the operation on
  that number, the long division by a trial quotient included. The order of the type is the one of
  \<open>Cmp\<close>.
\<close>

section \<open>Operations of math/bits\<close>

definition bits_Add64 :: "u64 \<Rightarrow> u64 \<Rightarrow> u64 \<Rightarrow> u64 \<times> u64" where
  "bits_Add64 x y carry =
     (x + y + carry, if unat x + unat y + unat carry < 2 ^ 64 then 0 else 1)"

definition bits_Sub64 :: "u64 \<Rightarrow> u64 \<Rightarrow> u64 \<Rightarrow> u64 \<times> u64" where
  "bits_Sub64 x y borrow =
     (x - y - borrow, if unat x < unat y + unat borrow then 1 else 0)"

definition bits_Mul64 :: "u64 \<Rightarrow> u64 \<Rightarrow> u64 \<times> u64" where
  "bits_Mul64 x y =
     (word_of_nat (unat x * unat y div 2 ^ 64), word_of_nat (unat x * unat y mod 2 ^ 64))"

definition bits_Div64 :: "u64 \<Rightarrow> u64 \<Rightarrow> u64 \<Rightarrow> (u64 \<times> u64) res" where
  "bits_Div64 hi lo y =
     (if y = 0 then Inl (Panic ''integer divide by zero'')
      else if y \<le> hi then Inl (Panic ''integer overflow'')
      else let n = unat hi * 2 ^ 64 + unat lo
           in Inr (word_of_nat (n div unat y), word_of_nat (n mod unat y)))"

fun nat_len :: "nat \<Rightarrow> nat" where
  "nat_len n = (if n = 0 then 0 else Suc (nat_len (n div 2)))"

declare nat_len.simps [simp del]

definition bits_LeadingZeros64 :: "u64 \<Rightarrow> nat" where
  "bits_LeadingZeros64 x = 64 - nat_len (unat x)"

definition bits_TrailingZeros64 :: "u64 \<Rightarrow> nat" where
  "bits_TrailingZeros64 x = length (takeWhile (\<lambda>i. \<not> bit x i) [0..<64])"

definition bits_OnesCount64 :: "u64 \<Rightarrow> nat" where
  "bits_OnesCount64 x = length (filter (bit x) [0..<64])"

definition bits_Reverse64 :: "u64 \<Rightarrow> u64" where
  "bits_Reverse64 x = word_reverse x"

definition bits_ReverseBytes64 :: "u64 \<Rightarrow> u64" where
  "bits_ReverseBytes64 x = word_of_nat (le_val (rev (le_bytes 8 (unat x))))"

section \<open>The type and its operations\<close>

datatype Uint128 = Uint128 (Lo: u64) (Hi: u64)

definition U128_New :: "u64 \<Rightarrow> u64 \<Rightarrow> Uint128" where
  "U128_New lo hi = Uint128 lo hi"

definition U128_Zero :: Uint128 where
  "U128_Zero = Uint128 0 0"

definition U128_Max :: Uint128 where
  "U128_Max = U128_New 18446744073709551615 18446744073709551615"

definition U128_From64 :: "u64 \<Rightarrow> Uint128" where
  "U128_From64 v = U128_New v 0"

definition U128_IsZero :: "Uint128 \<Rightarrow> bool" where
  "U128_IsZero u \<longleftrightarrow> u = Uint128 0 0"

definition U128_Equals :: "Uint128 \<Rightarrow> Uint128 \<Rightarrow> bool" where
  "U128_Equals u v \<longleftrightarrow> u = v"

definition U128_Equals64 :: "Uint128 \<Rightarrow> u64 \<Rightarrow> bool" where
  "U128_Equals64 u v \<longleftrightarrow> Lo u = v \<and> Hi u = 0"

definition U128_Cmp :: "Uint128 \<Rightarrow> Uint128 \<Rightarrow> int" where
  "U128_Cmp u v =
     (if u = v then 0
      else if Hi u < Hi v \<or> (Hi u = Hi v \<and> Lo u < Lo v) then -1
      else 1)"

definition U128_Cmp64 :: "Uint128 \<Rightarrow> u64 \<Rightarrow> int" where
  "U128_Cmp64 u v =
     (if Hi u = 0 \<and> Lo u = v then 0
      else if Hi u = 0 \<and> Lo u < v then -1
      else 1)"

definition U128_And :: "Uint128 \<Rightarrow> Uint128 \<Rightarrow> Uint128" where
  "U128_And u v = Uint128 (Lo u AND Lo v) (Hi u AND Hi v)"

definition U128_And64 :: "Uint128 \<Rightarrow> u64 \<Rightarrow> Uint128" where
  "U128_And64 u v = Uint128 (Lo u AND v) 0"

definition U128_Or :: "Uint128 \<Rightarrow> Uint128 \<Rightarrow> Uint128" where
  "U128_Or u v = Uint128 (Lo u OR Lo v) (Hi u OR Hi v)"

definition U128_Or64 :: "Uint128 \<Rightarrow> u64 \<Rightarrow> Uint128" where
  "U128_Or64 u v = Uint128 (Lo u OR v) (Hi u)"

definition U128_Xor :: "Uint128 \<Rightarrow> Uint128 \<Rightarrow> Uint128" where
  "U128_Xor u v = Uint128 (Lo u XOR Lo v) (Hi u XOR Hi v)"

definition U128_Xor64 :: "Uint128 \<Rightarrow> u64 \<Rightarrow> Uint128" where
  "U128_Xor64 u v = Uint128 (Lo u XOR v) (Hi u)"

definition U128_Add :: "Uint128 \<Rightarrow> Uint128 \<Rightarrow> Uint128 res" where
  "U128_Add u v =
     (let (lo, carry) = bits_Add64 (Lo u) (Lo v) 0;
          (hi, carry) = bits_Add64 (Hi u) (Hi v) carry
      in if carry \<noteq> 0 then Inl (Panic ''overflow'') else Inr (Uint128 lo hi))"

definition U128_AddWrap :: "Uint128 \<Rightarrow> Uint128 \<Rightarrow> Uint128" where
  "U128_AddWrap u v =
     (let (lo, carry) = bits_Add64 (Lo u) (Lo v) 0;
          (hi, _) = bits_Add64 (Hi u) (Hi v) carry
      in Uint128 lo hi)"

definition U128_Add64 :: "Uint128 \<Rightarrow> u64 \<Rightarrow> Uint128 res" where
  "U128_Add64 u v =
     (let (lo, carry) = bits_Add64 (Lo u) v 0;
          (hi, carry) = bits_Add64 (Hi u) 0 carry
      in if carry \<noteq> 0 then Inl (Panic ''overflow'') else Inr (Uint128 lo hi))"

definition U128_AddWrap64 :: "Uint128 \<Rightarrow> u64 \<Rightarrow> Uint128" where
  "U128_AddWrap64 u v =
     (let (lo, carry) = bits_Add64 (Lo u) v 0; hi = Hi u + carry in Uint128 lo hi)"

definition U128_Sub :: "Uint128 \<Rightarrow> Uint128 \<Rightarrow> Uint128 res" where
  "U128_Sub u v =
     (let (lo, borrow) = bits_Sub64 (Lo u) (Lo v) 0;
          (hi, borrow) = bits_Sub64 (Hi u) (Hi v) borrow
      in if borrow \<noteq> 0 then Inl (Panic ''underflow'') else Inr (Uint128 lo hi))"

definition U128_SubWrap :: "Uint128 \<Rightarrow> Uint128 \<Rightarrow> Uint128" where
  "U128_SubWrap u v =
     (let (lo, borrow) = bits_Sub64 (Lo u) (Lo v) 0;
          (hi, _) = bits_Sub64 (Hi u) (Hi v) borrow
      in Uint128 lo hi)"

definition U128_Sub64 :: "Uint128 \<Rightarrow> u64 \<Rightarrow> Uint128 res" where
  "U128_Sub64 u v =
     (let (lo, borrow) = bits_Sub64 (Lo u) v 0;
          (hi, borrow) = bits_Sub64 (Hi u) 0 borrow
      in if borrow \<noteq> 0 then Inl (Panic ''underflow'') else Inr (Uint128 lo hi))"

definition U128_SubWrap64 :: "Uint128 \<Rightarrow> u64 \<Rightarrow> Uint128" where
  "U128_SubWrap64 u v =
     (let (lo, borrow) = bits_Sub64 (Lo u) v 0; hi = Hi u - borrow in Uint128 lo hi)"

definition U128_Mul :: "Uint128 \<Rightarrow> Uint128 \<Rightarrow> Uint128 res" where
  "U128_Mul u v =
     (let (hi, lo) = bits_Mul64 (Lo u) (Lo v);
          (p0, p1) = bits_Mul64 (Hi u) (Lo v);
          (p2, p3) = bits_Mul64 (Lo u) (Hi v);
          (hi, c0) = bits_Add64 hi p1 0;
          (hi, c1) = bits_Add64 hi p3 c0
      in if (Hi u \<noteq> 0 \<and> Hi v \<noteq> 0) \<or> p0 \<noteq> 0 \<or> p2 \<noteq> 0 \<or> c1 \<noteq> 0
         then Inl (Panic ''overflow'') else Inr (Uint128 lo hi))"

definition U128_MulWrap :: "Uint128 \<Rightarrow> Uint128 \<Rightarrow> Uint128" where
  "U128_MulWrap u v =
     (let (hi, lo) = bits_Mul64 (Lo u) (Lo v);
          hi = hi + (Hi u * Lo v + Lo u * Hi v)
      in Uint128 lo hi)"

definition U128_Mul64 :: "Uint128 \<Rightarrow> u64 \<Rightarrow> Uint128 res" where
  "U128_Mul64 u v =
     (let (hi, lo) = bits_Mul64 (Lo u) v;
          (p0, p1) = bits_Mul64 (Hi u) v;
          (hi, c0) = bits_Add64 hi p1 0
      in if p0 \<noteq> 0 \<or> c0 \<noteq> 0 then Inl (Panic ''overflow'') else Inr (Uint128 lo hi))"

definition U128_MulWrap64 :: "Uint128 \<Rightarrow> u64 \<Rightarrow> Uint128" where
  "U128_MulWrap64 u v =
     (let (hi, lo) = bits_Mul64 (Lo u) v; hi = hi + Hi u * v in Uint128 lo hi)"

definition U128_Lsh :: "Uint128 \<Rightarrow> nat \<Rightarrow> Uint128" where
  "U128_Lsh u n =
     (if n > 64 then Uint128 0 (push_bit (n - 64) (Lo u))
      else Uint128 (push_bit n (Lo u)) (push_bit n (Hi u) OR drop_bit (64 - n) (Lo u)))"

definition U128_Rsh :: "Uint128 \<Rightarrow> nat \<Rightarrow> Uint128" where
  "U128_Rsh u n =
     (if n > 64 then Uint128 (drop_bit (n - 64) (Hi u)) 0
      else Uint128 (drop_bit n (Lo u) OR push_bit (64 - n) (Hi u)) (drop_bit n (Hi u)))"

definition U128_QuoRem64 :: "Uint128 \<Rightarrow> u64 \<Rightarrow> (Uint128 \<times> u64) res" where
  "U128_QuoRem64 u v =
     (if Hi u < v then
        res_bind (bits_Div64 (Hi u) (Lo u) v) (\<lambda>(qlo, r). Inr (Uint128 qlo 0, r))
      else
        res_bind (bits_Div64 0 (Hi u) v) (\<lambda>(qhi, r).
        res_bind (bits_Div64 r (Lo u) v) (\<lambda>(qlo, r). Inr (Uint128 qlo qhi, r))))"

definition U128_QuoRem :: "Uint128 \<Rightarrow> Uint128 \<Rightarrow> (Uint128 \<times> Uint128) res" where
  "U128_QuoRem u v =
     (if Hi v = 0 then
        res_bind (U128_QuoRem64 u (Lo v)) (\<lambda>(q, r64). Inr (q, U128_From64 r64))
      else
        let n = bits_LeadingZeros64 (Hi v);
            v1 = U128_Lsh v n;
            u1 = U128_Rsh u 1
        in res_bind (bits_Div64 (Hi u1) (Lo u1) (Hi v1)) (\<lambda>(tq, _).
           let tq = drop_bit (63 - n) tq;
               tq = (if tq \<noteq> 0 then tq - 1 else tq);
               q = U128_From64 tq
           in res_bind (U128_Mul64 v tq) (\<lambda>vtq.
              res_bind (U128_Sub u vtq) (\<lambda>r.
              if U128_Cmp r v \<ge> 0 then
                res_bind (U128_Add64 q 1) (\<lambda>q.
                res_bind (U128_Sub r v) (\<lambda>r. Inr (q, r)))
              else Inr (q, r)))))"

definition U128_Div :: "Uint128 \<Rightarrow> Uint128 \<Rightarrow> Uint128 res" where
  "U128_Div u v = res_bind (U128_QuoRem u v) (\<lambda>(q, _). Inr q)"

definition U128_Div64 :: "Uint128 \<Rightarrow> u64 \<Rightarrow> Uint128 res" where
  "U128_Div64 u v = res_bind (U128_QuoRem64 u v) (\<lambda>(q, _). Inr q)"

definition U128_Mod :: "Uint128 \<Rightarrow> Uint128 \<Rightarrow> Uint128 res" where
  "U128_Mod u v = res_bind (U128_QuoRem u v) (\<lambda>(_, r). Inr r)"

definition U128_Mod64 :: "Uint128 \<Rightarrow> u64 \<Rightarrow> u64 res" where
  "U128_Mod64 u v = res_bind (U128_QuoRem64 u v) (\<lambda>(_, r). Inr r)"

definition U128_LeadingZeros :: "Uint128 \<Rightarrow> nat" where
  "U128_LeadingZeros u =
     (if Hi u > 0 then bits_LeadingZeros64 (Hi u) else 64 + bits_LeadingZeros64 (Lo u))"

definition U128_TrailingZeros :: "Uint128 \<Rightarrow> nat" where
  "U128_TrailingZeros u =
     (if Lo u > 0 then bits_TrailingZeros64 (Lo u) else 64 + bits_TrailingZeros64 (Hi u))"

definition U128_OnesCount :: "Uint128 \<Rightarrow> nat" where
  "U128_OnesCount u = bits_OnesCount64 (Hi u) + bits_OnesCount64 (Lo u)"

text \<open>\<open>uint(k) & 127\<close> of a Go \<open>int\<close> is its remainder modulo 128, also for a negative \<open>k\<close>.\<close>

definition U128_RotateLeft :: "Uint128 \<Rightarrow> int \<Rightarrow> Uint128" where
  "U128_RotateLeft u k =
     (let n = 128; s = nat (k mod 128) in U128_Or (U128_Lsh u s) (U128_Rsh u (n - s)))"

definition U128_RotateRight :: "Uint128 \<Rightarrow> int \<Rightarrow> Uint128" where
  "U128_RotateRight u k = U128_RotateLeft u (- k)"

definition U128_Reverse :: "Uint128 \<Rightarrow> Uint128" where
  "U128_Reverse u = Uint128 (bits_Reverse64 (Hi u)) (bits_Reverse64 (Lo u))"

definition U128_ReverseBytes :: "Uint128 \<Rightarrow> Uint128" where
  "U128_ReverseBytes u = Uint128 (bits_ReverseBytes64 (Hi u)) (bits_ReverseBytes64 (Lo u))"

definition U128_Len :: "Uint128 \<Rightarrow> nat" where
  "U128_Len u = 128 - U128_LeadingZeros u"

text \<open>\<open>PutBytes\<close> and \<open>PutBytesBE\<close> fill a buffer of 16 bytes; the model returns its contents.\<close>

definition U128_PutBytes :: "Uint128 \<Rightarrow> bytes" where
  "U128_PutBytes u = le_bytes 8 (unat (Lo u)) @ le_bytes 8 (unat (Hi u))"

definition U128_PutBytesBE :: "Uint128 \<Rightarrow> bytes" where
  "U128_PutBytesBE u = rev (le_bytes 8 (unat (Hi u))) @ rev (le_bytes 8 (unat (Lo u)))"

text \<open>The first eight bytes and the eight after them; a shorter buffer panics.\<close>

definition U128_FromBytes :: "bytes \<Rightarrow> Uint128 res" where
  "U128_FromBytes b =
     (if length b < 16 then Inl (Panic ''slice bounds out of range'')
      else Inr (U128_New (word_of_nat (le_val (take 8 b)))
                         (word_of_nat (le_val (take 8 (drop 8 b))))))"

definition U128_FromBytesBE :: "bytes \<Rightarrow> Uint128 res" where
  "U128_FromBytesBE b =
     (if length b < 16 then Inl (Panic ''slice bounds out of range'')
      else Inr (U128_New (word_of_nat (le_val (rev (take 8 (drop 8 b)))))
                         (word_of_nat (le_val (rev (take 8 b))))))"

text \<open>Conversions to and from \<open>big.Int\<close>, an unbounded integer.\<close>

definition U128_Big :: "Uint128 \<Rightarrow> int" where
  "U128_Big u = (push_bit 64 (uint (Hi u))) XOR uint (Lo u)"

definition U128_FromBig :: "int \<Rightarrow> Uint128 res" where
  "U128_FromBig i =
     (if i < 0 then Inl (Panic ''value cannot be negative'')
      else if nat_len (nat i) > 128 then Inl (Panic ''value overflows Uint128'')
      else Inr (Uint128 (word_of_int i) (word_of_int (drop_bit 64 i))))"

section \<open>Abstraction\<close>

definition val128 :: "Uint128 \<Rightarrow> nat" where
  "val128 u = unat (Lo u) + 2 ^ 64 * unat (Hi u)"

definition of128 :: "nat \<Rightarrow> Uint128" where
  "of128 n = Uint128 (word_of_nat n) (word_of_nat (n div 2 ^ 64))"

instantiation Uint128 :: linorder
begin

definition less_eq_Uint128 :: "Uint128 \<Rightarrow> Uint128 \<Rightarrow> bool" where
  "less_eq_Uint128 u v \<longleftrightarrow> U128_Cmp u v \<le> 0"

definition less_Uint128 :: "Uint128 \<Rightarrow> Uint128 \<Rightarrow> bool" where
  "less_Uint128 u v \<longleftrightarrow> U128_Cmp u v < 0"

instance
proof
  fix x y z :: Uint128
  show "x < y \<longleftrightarrow> x \<le> y \<and> \<not> y \<le> x"
    by (auto simp: less_eq_Uint128_def less_Uint128_def U128_Cmp_def Uint128.expand)
  show "x \<le> x"
    by (simp add: less_eq_Uint128_def U128_Cmp_def)
  show "x \<le> y \<Longrightarrow> y \<le> z \<Longrightarrow> x \<le> z"
    by (auto simp: less_eq_Uint128_def U128_Cmp_def split: if_splits)
  show "x \<le> y \<Longrightarrow> y \<le> x \<Longrightarrow> x = y"
    by (auto simp: less_eq_Uint128_def U128_Cmp_def split: if_splits)
  show "x \<le> y \<or> y \<le> x"
    by (auto simp: less_eq_Uint128_def U128_Cmp_def Uint128.expand split: if_splits)
qed

end

section \<open>Lemmas\<close>

subsection \<open>Numbers and pairs of words\<close>

lemma val128_bound: "val128 u < 2 ^ 128"
  using unat_lt64 [of "Lo u"] unat_lt64 [of "Hi u"] by (simp add: val128_def)

lemma of128_val128 [simp]: "of128 (val128 u) = u"
proof -
  have "unat (word_of_nat (unat (Lo u) + 2 ^ 64 * unat (Hi u)) :: u64) = unat (Lo u)"
    unfolding unat_of_nat using unat_lt64 [of "Lo u"] by simp
  then have "word_of_nat (unat (Lo u) + 2 ^ 64 * unat (Hi u)) = Lo u"
    by (simp only: word_unat_eq_iff)
  moreover have "(unat (Lo u) + 2 ^ 64 * unat (Hi u)) div 2 ^ 64 = unat (Hi u)"
    using unat_lt64 [of "Lo u"] by simp
  ultimately show ?thesis by (simp add: of128_def val128_def)
qed

lemma val128_of128: "val128 (of128 n) = n mod 2 ^ 128"
proof -
  have "unat (word_of_nat n :: u64) = n mod 2 ^ 64"
    and "unat (word_of_nat (n div 2 ^ 64) :: u64) = n div 2 ^ 64 mod 2 ^ 64"
    by (simp_all add: unat_of_nat)
  moreover have "n mod (2 ^ 64 * 2 ^ 64) = 2 ^ 64 * (n div 2 ^ 64 mod 2 ^ 64) + n mod 2 ^ 64"
    by (rule mod_mult2_eq)
  ultimately show ?thesis by (simp add: of128_def val128_def)
qed

lemma val128_of128_id [simp]: "n < 2 ^ 128 \<Longrightarrow> val128 (of128 n) = n"
  by (simp add: val128_of128)

lemma val128_inject: "val128 u = val128 v \<longleftrightarrow> u = v"
  by (metis of128_val128)

lemma val128_eqI: "val128 u = n \<Longrightarrow> u = of128 n"
  by auto

lemma val128_From64 [simp]: "val128 (U128_From64 v) = unat v"
  by (simp add: val128_def U128_From64_def U128_New_def)

lemma val128_Max: "val128 U128_Max = 2 ^ 128 - 1"
  by (simp add: val128_def U128_Max_def U128_New_def)

lemma val128_zero_iff: "val128 u = 0 \<longleftrightarrow> u = Uint128 0 0"
  by (cases u) (simp add: val128_def unat_eq_0)

lemma val128_less_iff:
  "val128 u < val128 v \<longleftrightarrow> Hi u < Hi v \<or> (Hi u = Hi v \<and> Lo u < Lo v)"
  using unat_lt64 [of "Lo u"] unat_lt64 [of "Lo v"]
  by (auto simp: val128_def word_less_nat_alt word_unat_eq_iff)

lemma U128_Cmp_val:
  "U128_Cmp u v = (if val128 u = val128 v then 0 else if val128 u < val128 v then -1 else 1)"
  by (simp add: U128_Cmp_def val128_less_iff val128_inject)

lemma less_eq_val128: "u \<le> v \<longleftrightarrow> val128 u \<le> val128 v"
  by (auto simp: less_eq_Uint128_def U128_Cmp_val)

lemma less_val128: "u < v \<longleftrightarrow> val128 u < val128 v"
  by (auto simp: less_Uint128_def U128_Cmp_val)

lemma U128_Cmp64_val:
  "U128_Cmp64 u v = (if val128 u = unat v then 0 else if val128 u < unat v then -1 else 1)"
  using U128_Cmp_val [of u "U128_From64 v"]
  by (cases u) (auto simp: U128_Cmp64_def U128_Cmp_def U128_From64_def U128_New_def val128_def word_less_nat_alt)

subsection \<open>Carries\<close>

lemma bits_Add64_sum:
  assumes "bits_Add64 x y c = (s, k)" and "unat c \<le> 1"
  shows "unat s + 2 ^ 64 * unat k = unat x + unat y + unat c" and "unat k \<le> 1"
proof -
  let ?n = "unat x + unat y + unat c"
  have s: "unat s = ?n mod 2 ^ 64"
    using assms(1) by (auto simp: bits_Add64_def unat_word_ariths mod_simps)
  have k: "unat k = (if ?n < 2 ^ 64 then 0 else 1)"
    using assms(1) by (auto simp: bits_Add64_def)
  have "?n < 2 ^ 64 + 2 ^ 64"
    using assms(2) unat_lt64 [of x] unat_lt64 [of y] by simp
  then show "unat s + 2 ^ 64 * unat k = ?n"
    by (cases "?n < 2 ^ 64") (simp_all add: s k mod_if [of ?n])
  show "unat k \<le> 1" by (simp add: k)
qed

lemma bits_Sub64_diff:
  assumes "bits_Sub64 x y b = (d, k)" and "unat b \<le> 1"
  shows "unat d + unat y + unat b = unat x + 2 ^ 64 * unat k" and "unat k \<le> 1"
proof -
  have k: "unat k = (if unat x < unat y + unat b then 1 else 0)"
    using assms(1) by (auto simp: bits_Sub64_def)
  have d: "d + (y + b) = x"
    using assms(1) by (auto simp: bits_Sub64_def)
  let ?n = "unat d + unat y + unat b"
  have "unat (d + (y + b)) = ?n mod 2 ^ 64"
    by (simp add: unat_word_ariths mod_simps add.assoc)
  then have x: "?n mod 2 ^ 64 = unat x"
    by (simp only: d)
  have n: "?n < 2 ^ 64 + 2 ^ 64"
    using assms(2) unat_lt64 [of d] unat_lt64 [of y] by simp
  show "?n = unat x + 2 ^ 64 * unat k"
  proof (cases "?n < 2 ^ 64")
    case True
    with x show ?thesis by (simp add: k)
  next
    case False
    with x n have "unat x = ?n - 2 ^ 64" by (simp add: mod_if [of ?n])
    moreover from this have "unat k = 1"
      using False unat_lt64 [of d] by (simp add: k)
    ultimately show ?thesis using False by simp
  qed
  show "unat k \<le> 1" by (simp add: k)
qed

lemma bits_Mul64_prod:
  assumes "bits_Mul64 x y = (h, l)"
  shows "unat l + 2 ^ 64 * unat h = unat x * unat y"
proof -
  have "unat x * unat y < 2 ^ 64 * 2 ^ 64"
    using unat_lt64 [of x] unat_lt64 [of y] by (intro mult_strict_mono) simp_all
  then have "unat x * unat y div 2 ^ 64 < 2 ^ 64"
    by (simp add: div_less_iff_less_mult)
  then show ?thesis
    using assms by (auto simp: bits_Mul64_def unat_of_nat)
qed

subsection \<open>Addition, subtraction and multiplication\<close>

lemma U128_Add_val:
  "U128_Add u v =
     (if val128 u + val128 v < 2 ^ 128 then Inr (of128 (val128 u + val128 v))
      else Inl (Panic ''overflow''))"
proof -
  obtain lo c where l: "bits_Add64 (Lo u) (Lo v) 0 = (lo, c)" by force
  obtain hi d where h: "bits_Add64 (Hi u) (Hi v) c = (hi, d)" by force
  note cl = bits_Add64_sum [OF l]
  note ch = bits_Add64_sum [OF h]
  have sum: "val128 (Uint128 lo hi) + 2 ^ 128 * unat d = val128 u + val128 v"
    using cl ch by (simp add: val128_def)
  show ?thesis
  proof (cases "d = 0")
    case True
    with sum have eq: "val128 (Uint128 lo hi) = val128 u + val128 v" by simp
    then show ?thesis
      using val128_bound [of "Uint128 lo hi"]
      by (simp add: U128_Add_def l h True val128_eqI [OF eq, symmetric])
  next
    case False
    with sum have "2 ^ 128 \<le> val128 u + val128 v"
      by (cases "unat d") (simp_all add: unat_eq_0)
    with False show ?thesis by (simp add: U128_Add_def l h)
  qed
qed

lemma U128_Add64_val:
  "U128_Add64 u v =
     (if val128 u + unat v < 2 ^ 128 then Inr (of128 (val128 u + unat v))
      else Inl (Panic ''overflow''))"
  using U128_Add_val [of u "U128_From64 v"]
  by (simp add: U128_Add64_def U128_Add_def U128_From64_def U128_New_def)
     (simp add: val128_def)

lemma U128_Sub_val:
  "U128_Sub u v =
     (if val128 v \<le> val128 u then Inr (of128 (val128 u - val128 v))
      else Inl (Panic ''underflow''))"
proof -
  obtain lo c where l: "bits_Sub64 (Lo u) (Lo v) 0 = (lo, c)" by force
  obtain hi d where h: "bits_Sub64 (Hi u) (Hi v) c = (hi, d)" by force
  note cl = bits_Sub64_diff [OF l]
  note ch = bits_Sub64_diff [OF h]
  have diff: "val128 (Uint128 lo hi) + val128 v = val128 u + 2 ^ 128 * unat d"
    using cl ch by (simp add: val128_def)
  show ?thesis
  proof (cases "d = 0")
    case True
    with diff have eq: "val128 (Uint128 lo hi) = val128 u - val128 v" and "val128 v \<le> val128 u"
      by simp_all
    then show ?thesis
      by (simp add: U128_Sub_def l h True val128_eqI [OF eq, symmetric])
  next
    case False
    then have "1 \<le> unat d" by (simp add: Suc_leI unat_gt_0)
    with diff have "val128 u < val128 v"
      using val128_bound [of "Uint128 lo hi"] by simp
    with False show ?thesis by (simp add: U128_Sub_def l h)
  qed
qed

lemma U128_Mul64_val:
  "U128_Mul64 u v =
     (if val128 u * unat v < 2 ^ 128 then Inr (of128 (val128 u * unat v))
      else Inl (Panic ''overflow''))"
proof -
  obtain h0 lo where m0: "bits_Mul64 (Lo u) v = (h0, lo)" by force
  obtain p0 p1 where m1: "bits_Mul64 (Hi u) v = (p0, p1)" by force
  obtain hi c0 where a: "bits_Add64 h0 p1 0 = (hi, c0)" by force
  note e0 = bits_Mul64_prod [OF m0]
  note e1 = bits_Mul64_prod [OF m1]
  note ea = bits_Add64_sum [OF a]
  have "val128 u * unat v = unat (Lo u) * unat v + 2 ^ 64 * (unat (Hi u) * unat v)"
    by (simp add: val128_def algebra_simps)
  also have "\<dots> = val128 (Uint128 lo hi) + 2 ^ 128 * (unat p0 + unat c0)"
    using e0 e1 ea by (simp add: val128_def flip: e0 e1)
  finally have prod: "val128 u * unat v = val128 (Uint128 lo hi) + 2 ^ 128 * (unat p0 + unat c0)" .
  show ?thesis
  proof (cases "p0 = 0 \<and> c0 = 0")
    case True
    with prod have eq: "val128 (Uint128 lo hi) = val128 u * unat v" by simp
    then show ?thesis
      using val128_bound [of "Uint128 lo hi"]
      by (simp add: U128_Mul64_def m0 m1 a True val128_eqI [OF eq, symmetric])
  next
    case False
    then have "1 \<le> unat p0 + unat c0"
      by (metis One_nat_def Suc_leI add_gr_0 unat_gt_0)
    with prod have "2 ^ 128 \<le> val128 u * unat v" by simp
    with False show ?thesis by (auto simp: U128_Mul64_def m0 m1 a)
  qed
qed

subsection \<open>Shifts and division\<close>


lemma val128_Rsh:
  assumes "n \<le> 64"
  shows "val128 (U128_Rsh u n) = val128 u div 2 ^ n"
proof -
  let ?h = "unat (Hi u)" and ?l = "unat (Lo u)"
  have p: "(2::nat) ^ 64 = 2 ^ n * 2 ^ (64 - n)"
    using assms by (simp flip: power_add)
  have hd: "unat (push_bit (64 - n) (Hi u)) = 2 ^ (64 - n) * (?h mod 2 ^ n)"
    unfolding unat_push_bit64 p by (simp add: mult.commute [of _ "2 ^ n"] mod_mult_mult2 mult.commute)
  have ld: "unat (drop_bit n (Lo u)) = ?l div 2 ^ n"
    by (rule unat_drop_bit64)
  have "?l div 2 ^ n < 2 ^ (64 - n)"
    using unat_lt64 [of "Lo u"] p by (simp add: div_less_iff_less_mult mult.commute)
  then have "unat (drop_bit n (Lo u) OR push_bit (64 - n) (Hi u)) = ?l div 2 ^ n + 2 ^ (64 - n) * (?h mod 2 ^ n)"
    using hd ld by (subst unat_or_disjoint [where n = "64 - n"]) simp_all
  then have "val128 (U128_Rsh u n) = ?l div 2 ^ n + 2 ^ (64 - n) * (?h mod 2 ^ n) + 2 ^ 64 * (?h div 2 ^ n)"
    using assms by (simp add: U128_Rsh_def val128_def unat_drop_bit64)
  also have "\<dots> = ?l div 2 ^ n + 2 ^ (64 - n) * (?h mod 2 ^ n + 2 ^ n * (?h div 2 ^ n))"
    unfolding p by (simp only: distrib_left ac_simps)
  also have "\<dots> = ?l div 2 ^ n + 2 ^ (64 - n) * ?h"
    by simp
  also have "\<dots> = (?l + 2 ^ n * (2 ^ (64 - n) * ?h)) div 2 ^ n"
    by simp
  also have "\<dots> = val128 u div 2 ^ n"
    unfolding val128_def p by (simp add: mult.assoc)
  finally show ?thesis .
qed

lemma val128_Lsh:
  assumes "n \<le> 64" and "val128 u * 2 ^ n < 2 ^ 128"
  shows "val128 (U128_Lsh u n) = val128 u * 2 ^ n"
proof -
  let ?h = "unat (Hi u)" and ?l = "unat (Lo u)"
  have p: "(2::nat) ^ 64 = 2 ^ n * 2 ^ (64 - n)"
    using assms by (simp flip: power_add)
  have "2 ^ 64 * (?h * 2 ^ n) \<le> val128 u * 2 ^ n"
    by (simp add: val128_def algebra_simps)
  with assms(2) have "2 ^ 64 * (?h * 2 ^ n) < 2 ^ 128" by (rule le_less_trans [rotated])
  then have "?h * 2 ^ n < 2 ^ 64" by simp
  then have hp: "unat (push_bit n (Hi u)) = ?h * 2 ^ n"
    by (simp add: unat_push_bit64)
  have ld: "unat (drop_bit (64 - n) (Lo u)) = ?l div 2 ^ (64 - n)"
    by (rule unat_drop_bit64)
  have "?l div 2 ^ (64 - n) < 2 ^ n"
    using unat_lt64 [of "Lo u"] p by (simp add: div_less_iff_less_mult mult.commute)
  then have hi: "unat (push_bit n (Hi u) OR drop_bit (64 - n) (Lo u)) = ?l div 2 ^ (64 - n) + ?h * 2 ^ n"
    using hp ld by (subst or.commute, subst unat_or_disjoint [where n = n]) simp_all
  have lo: "unat (push_bit n (Lo u)) = 2 ^ n * (?l mod 2 ^ (64 - n))"
    unfolding unat_push_bit64 p by (simp add: mult.commute [of _ "2 ^ n"] mod_mult_mult1)
  have "val128 (U128_Lsh u n) = 2 ^ n * (?l mod 2 ^ (64 - n)) + 2 ^ 64 * (?l div 2 ^ (64 - n) + ?h * 2 ^ n)"
    using assms(1) lo hi by (simp add: U128_Lsh_def val128_def)
  also have "\<dots> = 2 ^ n * (?l mod 2 ^ (64 - n) + 2 ^ (64 - n) * (?l div 2 ^ (64 - n))) + 2 ^ 64 * (?h * 2 ^ n)"
    unfolding p by (simp only: distrib_left ac_simps)
  also have "\<dots> = 2 ^ n * ?l + 2 ^ 64 * (?h * 2 ^ n)"
    by (simp only: mod_mult_div_eq)
  also have "\<dots> = val128 u * 2 ^ n"
    by (simp add: val128_def algebra_simps)
  finally show ?thesis .
qed

subsection \<open>Division\<close>

lemma nat_len_upper: "n < 2 ^ nat_len n"
proof (induction n rule: nat_len.induct)
  case (1 n)
  show ?case
  proof (cases "n = 0")
    case False
    with 1 have "n div 2 < 2 ^ nat_len (n div 2)" by simp
    with False show ?thesis by (simp add: nat_len.simps [of n])
  qed (simp add: nat_len.simps)
qed

lemma nat_len_lower: "0 < n \<Longrightarrow> 2 ^ nat_len n \<le> 2 * n"
proof (induction n rule: nat_len.induct)
  case (1 n)
  show ?case
  proof (cases "n div 2 = 0")
    case True
    with 1 show ?thesis by (simp add: nat_len.simps [of n] nat_len.simps [of 0])
  next
    case False
    with 1 have "2 ^ nat_len (n div 2) \<le> 2 * (n div 2)" by simp
    also have "\<dots> \<le> n" by simp
    finally show ?thesis using 1 by (simp add: nat_len.simps [of n])
  qed
qed

lemma leading_zeros_normalise:
  assumes "x \<noteq> (0::u64)"
  defines "n \<equiv> bits_LeadingZeros64 x"
  shows "n \<le> 63" and "2 ^ 63 \<le> unat x * 2 ^ n" and "unat x * 2 ^ n < 2 ^ 64"
proof -
  let ?k = "nat_len (unat x)"
  have pos: "0 < unat x" using assms(1) by (simp add: unat_gt_0)
  have "(2::nat) ^ ?k \<le> 2 * unat x" using pos by (rule nat_len_lower)
  also have "\<dots> < 2 ^ 65" using unat_lt64 [of x] by simp
  finally have "?k < 65" by (rule power_less_imp_less_exp [rotated]) simp
  then have k: "?k \<le> 64" by simp
  have "1 \<le> ?k" using pos by (simp add: nat_len.simps [of "unat x"])
  then show "n \<le> 63" by (simp add: n_def bits_LeadingZeros64_def)
  have kn: "(2::nat) ^ ?k * 2 ^ n = 2 ^ 64"
    using k by (simp add: n_def bits_LeadingZeros64_def flip: power_add)
  have "2 * 2 ^ 63 = (2::nat) ^ ?k * 2 ^ n" using kn by simp
  also have "\<dots> \<le> 2 * unat x * 2 ^ n" using nat_len_lower [OF pos] by (rule mult_right_mono) simp
  finally show "2 ^ 63 \<le> unat x * 2 ^ n" by simp
  have "unat x * 2 ^ n < 2 ^ ?k * 2 ^ n" using nat_len_upper [of "unat x"] by simp
  then show "unat x * 2 ^ n < 2 ^ 64" using kn by simp
qed

lemma bits_Div64_ok:
  assumes "hi < y"
  shows "bits_Div64 hi lo y =
           Inr (word_of_nat ((unat hi * 2 ^ 64 + unat lo) div unat y),
                word_of_nat ((unat hi * 2 ^ 64 + unat lo) mod unat y))"
    and "(unat hi * 2 ^ 64 + unat lo) div unat y < 2 ^ 64"
proof -
  have y: "0 < unat y" and h: "unat hi + 1 \<le> unat y"
    using assms by (simp_all add: word_less_nat_alt)
  show "bits_Div64 hi lo y =
           Inr (word_of_nat ((unat hi * 2 ^ 64 + unat lo) div unat y),
                word_of_nat ((unat hi * 2 ^ 64 + unat lo) mod unat y))"
    using assms y by (auto simp: bits_Div64_def Let_def)
  have "unat hi * 2 ^ 64 + unat lo < (unat hi + 1) * 2 ^ 64"
    using unat_lt64 [of lo] by simp
  also have "\<dots> \<le> unat y * 2 ^ 64" using h by (rule mult_right_mono) simp
  finally show "(unat hi * 2 ^ 64 + unat lo) div unat y < 2 ^ 64"
    using y by (simp add: div_less_iff_less_mult mult.commute)
qed

lemma of128_small: "n < 2 ^ 64 \<Longrightarrow> of128 n = Uint128 (word_of_nat n) 0"
  by (simp add: of128_def)

lemma of128_pair:
  assumes "a < 2 ^ 64"
  shows "of128 (b * 2 ^ 64 + a) = Uint128 (word_of_nat a) (word_of_nat b)"
proof -
  have "unat (word_of_nat (b * 2 ^ 64 + a) :: u64) = unat (word_of_nat a :: u64)"
    unfolding unat_of_nat by simp
  then have "word_of_nat (b * 2 ^ 64 + a) = (word_of_nat a :: u64)"
    by (simp only: word_unat_eq_iff)
  moreover have "(b * 2 ^ 64 + a) div 2 ^ 64 = b" using assms by simp
  ultimately show ?thesis by (simp only: of128_def)
qed

lemma U128_QuoRem64_val:
  assumes "v \<noteq> 0"
  shows "U128_QuoRem64 u v =
           Inr (of128 (val128 u div unat v), word_of_nat (val128 u mod unat v))"
proof (cases "Hi u < v")
  case True
  have val: "unat (Hi u) * 2 ^ 64 + unat (Lo u) = val128 u" by (simp add: val128_def)
  show ?thesis
    using bits_Div64_ok [OF True, of "Lo u", unfolded val] True
    by (simp add: U128_QuoRem64_def of128_small)
next
  case False
  let ?v = "unat v" and ?h = "unat (Hi u)" and ?l = "unat (Lo u)"
  have v: "0 < ?v" and v0: "0 < v" using assms by (simp_all add: unat_gt_0 word_greater_zero_iff)
  have h: "?h div ?v < 2 ^ 64" and rl: "?h mod ?v < 2 ^ 64"
    using unat_lt64 [of "Hi u"] by (simp_all add: le_less_trans [OF div_le_dividend] le_less_trans [OF mod_less_eq_dividend])
  define r where "r = (word_of_nat (?h mod ?v) :: u64)"
  have r: "unat r = ?h mod ?v" using rl by (simp add: r_def unat_of_nat64)
  then have rv: "r < v" using v by (simp add: word_less_nat_alt)
  let ?m = "unat r * 2 ^ 64 + ?l"
  have val: "val128 u = ?v * (?h div ?v * 2 ^ 64) + ?m"
  proof -
    have "val128 u = ?l + 2 ^ 64 * (?v * (?h div ?v) + ?h mod ?v)"
      by (simp add: val128_def)
    then show ?thesis by (simp only: r distrib_left ac_simps)
  qed
  have q: "val128 u div ?v = ?h div ?v * 2 ^ 64 + ?m div ?v"
    and m: "val128 u mod ?v = ?m mod ?v"
    unfolding val using v by simp_all
  have small: "?m div ?v < 2 ^ 64" by (rule bits_Div64_ok(2) [OF rv])
  then have "of128 (val128 u div ?v) = Uint128 (word_of_nat (?m div ?v)) (word_of_nat (?h div ?v))"
    unfolding q by (rule of128_pair)
  then show ?thesis
    using False bits_Div64_ok(1) [OF v0, of "Hi u"] bits_Div64_ok(1) [OF rv, of "Lo u"]
    by (simp add: U128_QuoRem64_def m r_def)
qed

lemma trial_quotient:
  fixes u v h e n :: nat
  assumes v: "v = h * 2 ^ (64 - n) + e" and e: "e < 2 ^ (64 - n)" and n: "n \<le> 63"
    and h: "2 ^ 63 \<le> h" and u: "u < 2 ^ 128"
  shows "u div v \<le> u div (h * 2 ^ (64 - n))"
    and "u div (h * 2 ^ (64 - n)) \<le> u div v + 1"
proof -
  let ?d = "h * 2 ^ (64 - n)" and ?q = "u div v"
  have hd: "(2::nat) ^ (127 - n) \<le> ?d"
  proof -
    have "127 - n = 63 + (64 - n)" using n by simp
    then have "(2::nat) ^ (127 - n) = 2 ^ 63 * 2 ^ (64 - n)"
      by (simp only: power_add)
    also have "\<dots> \<le> ?d" using h by (rule mult_right_mono) simp
    finally show ?thesis .
  qed
  then have d: "0 < ?d" by (metis le_zero_eq not_gr_zero power_not_zero zero_neq_numeral)
  show "?q \<le> u div ?d"
    using v d by (intro div_le_mono2) simp_all
  have "?q * 2 ^ (127 - n) \<le> ?q * v" using hd v by (intro mult_left_mono) simp_all
  also have "\<dots> \<le> u" by simp
  finally have "?q * 2 ^ (127 - n) < 2 ^ 128" using u by simp
  also have "(2::nat) ^ 128 = 2 ^ (n + 1) * 2 ^ (127 - n)"
    using n by (simp flip: power_add)
  finally have q: "?q + 1 \<le> 2 ^ (n + 1)" by simp
  have qe: "(?q + 1) * e \<le> ?d"
  proof (cases "n = 63")
    case True
    then have "e \<le> 1" using e by simp
    then have "(?q + 1) * e \<le> (?q + 1) * 1" by (rule mult_left_mono) simp
    then have "(?q + 1) * e \<le> ?q + 1" by simp
    also have "\<dots> \<le> 2 ^ 64" using q True by simp
    also have "\<dots> \<le> ?d" using hd True by simp
    finally show ?thesis .
  next
    case False
    have "(?q + 1) * e \<le> 2 ^ (n + 1) * 2 ^ (64 - n)"
      using q e by (intro mult_mono) simp_all
    also have "\<dots> = 2 ^ 65" using n by (simp flip: power_add)
    also have "\<dots> \<le> 2 ^ (127 - n)" using n False by (intro power_increasing) simp_all
    also have "\<dots> \<le> ?d" by (rule hd)
    finally show ?thesis .
  qed
  have "u < (?q + 1) * v"
    using d v by (metis add_gr_0 dividend_less_div_times mult.commute mult_Suc Suc_eq_plus1)
  also have "\<dots> = (?q + 1) * ?d + (?q + 1) * e" by (simp add: v distrib_left)
  also have "\<dots> \<le> (?q + 2) * ?d" using qe by simp
  finally have "u div ?d < ?q + 2" using d by (simp add: div_less_iff_less_mult)
  then show "u div ?d \<le> ?q + 1" by simp
qed


text \<open>The normalised divisor: the trial quotient is the quotient or one more.\<close>

lemma U128_trial_quotient:
  assumes v: "Hi v \<noteq> 0"
  defines "n \<equiv> bits_LeadingZeros64 (Hi v)"
  obtains tq where
    "bits_Div64 (Hi (U128_Rsh u 1)) (Lo (U128_Rsh u 1)) (Hi (U128_Lsh v n)) = Inr tq"
    and "unat (drop_bit (63 - n) (fst tq)) = val128 u div val128 v \<or>
         unat (drop_bit (63 - n) (fst tq)) = val128 u div val128 v + 1"
proof -
  note norm = leading_zeros_normalise [OF v, folded n_def]
  let ?v1 = "U128_Lsh v n" and ?u1 = "U128_Rsh u 1"
  have "val128 v < (unat (Hi v) + 1) * 2 ^ 64"
    using unat_lt64 [of "Lo v"] by (simp add: val128_def)
  then have "val128 v * 2 ^ n < (unat (Hi v) + 1) * 2 ^ 64 * 2 ^ n" by simp
  also have "\<dots> = (unat (Hi v) * 2 ^ n + 2 ^ n) * 2 ^ 64" by (simp add: algebra_simps)
  also have "\<dots> \<le> 2 ^ 64 * 2 ^ 64"
  proof (rule mult_right_mono)
    have "(2::nat) ^ 64 = 2 ^ n * 2 ^ (64 - n)" using norm(1) by (simp flip: power_add)
    with norm(3) have "unat (Hi v) * 2 ^ n < 2 ^ (64 - n) * 2 ^ n"
      by (simp only: mult.commute)
    then have "unat (Hi v) < 2 ^ (64 - n)" by simp
    then have "(unat (Hi v) + 1) * 2 ^ n \<le> 2 ^ (64 - n) * 2 ^ n" by (intro mult_right_mono) simp_all
    also have "\<dots> = 2 ^ 64" using norm(1) by (simp flip: power_add)
    finally show "unat (Hi v) * 2 ^ n + 2 ^ n \<le> 2 ^ 64" by simp
  qed simp
  finally have "val128 v * 2 ^ n < 2 ^ 128" by simp
  then have v1: "val128 ?v1 = val128 v * 2 ^ n"
    using norm(1) by (intro val128_Lsh) simp_all
  define h where "h = unat (Hi ?v1)"
  define e where "e = val128 v - h * 2 ^ (64 - n)"
  have h_div: "h = val128 v * 2 ^ n div 2 ^ 64"
    using unat_lt64 [of "Lo ?v1"] unfolding h_def v1 [symmetric]
    by (subst val128_def) (simp add: div_add1_eq)
  have "(2::nat) ^ 64 = 2 ^ n * 2 ^ (64 - n)" using norm(1) by (simp flip: power_add)
  with h_div have "h = (2 ^ n * val128 v) div (2 ^ n * 2 ^ (64 - n))"
    by (simp only: mult.commute)
  then have h_div2: "h = val128 v div 2 ^ (64 - n)" by simp
  have ve: "val128 v = h * 2 ^ (64 - n) + e"
    unfolding e_def h_div2 by simp
  have e_lt: "e < 2 ^ (64 - n)"
    unfolding e_def h_div2 by (simp add: minus_div_mult_eq_mod)
  have "unat (Hi v) * 2 ^ 64 \<le> val128 v" by (simp add: val128_def)
  then have "unat (Hi v) * 2 ^ n * 2 ^ 64 \<le> val128 v * 2 ^ n" by (simp add: mult.commute mult.left_commute)
  then have "unat (Hi v) * 2 ^ n \<le> h" unfolding h_div by (simp add: less_eq_div_iff_mult_less_eq)
  with norm(2) have h63: "2 ^ 63 \<le> h" by (rule order_trans)
  have u1: "val128 ?u1 = val128 u div 2" using val128_Rsh [of 1 u] by simp
  have "unat (Hi ?u1) * 2 ^ 64 \<le> val128 ?u1" by (simp add: val128_def)
  also have "\<dots> < 2 ^ 127" unfolding u1 using val128_bound [of u] by simp
  finally have "unat (Hi ?u1) < 2 ^ 63" by simp
  with h63 have lt: "Hi ?u1 < Hi ?v1" by (simp add: word_less_nat_alt h_def)
  have val_u1: "unat (Hi ?u1) * 2 ^ 64 + unat (Lo ?u1) = val128 u div 2"
    unfolding u1 [symmetric] by (simp add: val128_def)
  note div = bits_Div64_ok [OF lt, of "Lo ?u1", unfolded val_u1, folded h_def]
  have "unat (drop_bit (63 - n) (word_of_nat (val128 u div 2 div h) :: u64))
          = val128 u div 2 div h div 2 ^ (63 - n)"
    using div(2) by (simp only: unat_drop_bit64 unat_of_nat64)
  also have "\<dots> = val128 u div (2 * (h * 2 ^ (63 - n)))"
    by (simp only: div_mult2_eq)
  also have "2 * (h * 2 ^ (63 - n)) = h * 2 ^ (64 - n)"
  proof -
    have "64 - n = Suc (63 - n)" using norm(1) by simp
    then show ?thesis by simp
  qed
  finally have tq: "unat (drop_bit (63 - n) (word_of_nat (val128 u div 2 div h) :: u64))
          = val128 u div (h * 2 ^ (64 - n))" .
  show thesis
    using trial_quotient [OF ve e_lt norm(1) h63 val128_bound [of u]]
    by (intro that [OF div(1)]) (simp add: tq, linarith)
qed

lemma U128_QuoRem_val:
  assumes "val128 v \<noteq> 0"
  shows "U128_QuoRem u v = Inr (of128 (val128 u div val128 v), of128 (val128 u mod val128 v))"
proof (cases "Hi v = 0")
  case True
  then have vv: "val128 v = unat (Lo v)" by (simp add: val128_def)
  with assms have "Lo v \<noteq> 0" by (simp add: unat_eq_0)
  moreover have "val128 u mod unat (Lo v) < 2 ^ 64"
  proof -
    have "val128 u mod unat (Lo v) < unat (Lo v)"
      using calculation by (intro mod_less_divisor) (simp add: unat_gt_0)
    then show ?thesis using unat_lt64 [of "Lo v"] by simp
  qed
  ultimately show ?thesis
    using True by (simp add: U128_QuoRem_def U128_QuoRem64_val vv of128_small U128_From64_def U128_New_def)
next
  case False
  let ?n = "bits_LeadingZeros64 (Hi v)" and ?u = "val128 u" and ?v = "val128 v"
  let ?q = "?u div ?v"
  obtain t s where
    d: "bits_Div64 (Hi (U128_Rsh u 1)) (Lo (U128_Rsh u 1)) (Hi (U128_Lsh v ?n)) = Inr (t, s)"
    and t: "unat (drop_bit (63 - ?n) t) = ?q \<or> unat (drop_bit (63 - ?n) t) = ?q + 1"
    using U128_trial_quotient [OF False, of u] by (metis prod.collapse)
  define tq where "tq = (let t = drop_bit (63 - ?n) t in if t \<noteq> 0 then t - 1 else t)"
  have tq_if: "(if drop_bit (63 - ?n) t \<noteq> 0 then drop_bit (63 - ?n) t - 1
      else drop_bit (63 - ?n) t) = tq"
    by (simp add: tq_def Let_def)
  have tq: "unat tq = ?q \<or> unat tq + 1 = ?q"
    using t by (auto simp: tq_def Let_def unat_minus_one unat_eq_0)
  have vu: "?v * ?q \<le> ?u" by simp
  have mul_le: "?v * unat tq \<le> ?u"
    using tq vu by (metis add_leD1 distrib_left le_trans order_refl)
  then have mul: "U128_Mul64 v tq = Inr (of128 (?v * unat tq))"
    using val128_bound [of u] by (simp add: U128_Mul64_val)
  have vm: "val128 (of128 (?v * unat tq)) = ?v * unat tq"
    using mul_le val128_bound [of u] by simp
  define r where "r = of128 (?u - ?v * unat tq)"
  have sub: "U128_Sub u (of128 (?v * unat tq)) = Inr r"
    using mul_le by (simp add: U128_Sub_val vm r_def)
  have r: "val128 r = ?u - ?v * unat tq"
    using val128_bound [of u] by (simp add: r_def)
  have start: "U128_QuoRem u v =
      (if U128_Cmp r v \<ge> 0 then
         res_bind (U128_Add64 (U128_From64 tq) 1) (\<lambda>q. res_bind (U128_Sub r v) (\<lambda>r. Inr (q, r)))
       else Inr (U128_From64 tq, r))"
    using False
    by (simp add: U128_QuoRem_def d [simplified] Let_def tq_if mul sub)
  show ?thesis
  proof (cases "unat tq = ?q")
    case True
    then have rm: "val128 r = ?u mod ?v" by (simp add: r minus_mult_div_eq_mod)
    moreover have "?u mod ?v < ?v" using assms by (intro mod_less_divisor) simp
    ultimately have "\<not> U128_Cmp r v \<ge> 0" by (simp add: U128_Cmp_val)
    then show ?thesis
      using True rm by (simp add: start U128_From64_def U128_New_def of128_small unat_lt64
          flip: True val128_eqI [OF rm])
  next
    case False
    then have tq1: "?q = unat tq + 1" using tq by simp
    have rm: "val128 r = ?v + ?u mod ?v"
      using mod_mult_div_eq [of ?u ?v] unfolding r tq1 by (simp add: algebra_simps)
    then have cmp: "U128_Cmp r v \<ge> 0" by (simp add: U128_Cmp_val)
    have "unat tq + 1 < 2 ^ 128" using unat_lt64 [of tq] by simp
    then have "U128_Add64 (U128_From64 tq) 1 = Inr (of128 ?q)"
      by (simp add: U128_Add64_val tq1)
    moreover have "U128_Sub r v = Inr (of128 (?u mod ?v))"
      by (simp add: U128_Sub_val rm)
    ultimately show ?thesis using cmp by (simp add: start)
  qed
qed

lemma U128_QuoRem_zero: "U128_QuoRem u (Uint128 0 0) = Inl (Panic ''integer divide by zero'')"
  by (simp add: U128_QuoRem_def U128_QuoRem64_def bits_Div64_def)

lemma U128_Div64_val:
  "v \<noteq> 0 \<Longrightarrow> U128_Div64 u v = Inr (of128 (val128 u div unat v))"
  by (simp add: U128_Div64_def U128_QuoRem64_val)

lemma U128_Div_val:
  "val128 v \<noteq> 0 \<Longrightarrow> U128_Div u v = Inr (of128 (val128 u div val128 v))"
  by (simp add: U128_Div_def U128_QuoRem_val)

lemma U128_Mod64_val:
  "v \<noteq> 0 \<Longrightarrow> U128_Mod64 u v = Inr (word_of_nat (val128 u mod unat v))"
  by (simp add: U128_Mod64_def U128_QuoRem64_val)

lemma U128_FromBytes_PutBytes: "U128_FromBytes (U128_PutBytes u) = Inr u"
  by (simp add: U128_FromBytes_def U128_PutBytes_def U128_New_def word_of_nat_le_bytes64)

lemma U128_FromBytesBE_PutBytesBE: "U128_FromBytesBE (U128_PutBytesBE u) = Inr u"
  by (simp add: U128_FromBytesBE_def U128_PutBytesBE_def U128_New_def word_of_nat_le_bytes64)

end
