(* ===== verification/Blocks.thy ===== *)
theory Blocks
  imports ChainTypes Uint128
begin

text \<open>
  \<^verbatim>\<open>src/block\<close>: ancestors (\<^verbatim>\<open>ancestors.go\<close>), the reward schedule (\<^verbatim>\<open>reward.go\<close>), the blob that is
  mined (\<^verbatim>\<open>miningblob.go\<close>), commitments (\<^verbatim>\<open>commitment.go\<close>), blocks (\<^verbatim>\<open>block.go\<close>) and the coinbase
  outputs (\<^verbatim>\<open>coinbase.go\<close>), with the targets of \<^verbatim>\<open>src/util/util.go\<close>. A block is a record that extends its
  header, as the Go struct embeds it. The array of ancestors is a list; \<open>MINIDAG_ANCESTORS\<close> is its
  length in every well formed value.
\<close>

section \<open>Ancestors\<close>

type_synonym Ancestors = "hash list"

definition AddHash :: "Ancestors \<Rightarrow> hash \<Rightarrow> Ancestors" where
  "AddHash a h = h # take (length a - 1) a"

fun index_of :: "hash \<Rightarrow> int \<Rightarrow> Ancestors \<Rightarrow> int option" where
  "index_of x i [] = None"
| "index_of x i (y # ys) = (if x = y then Some i else index_of x (i + 1) ys)"

fun FindCommon :: "Ancestors \<Rightarrow> Ancestors \<Rightarrow> int" where
  "FindCommon [] b = -1"
| "FindCommon (hashA # as) b =
     (case index_of hashA 0 b of Some idxB \<Rightarrow> idxB | None \<Rightarrow> FindCommon as b)"

section \<open>Reward schedule\<close>

function reduce :: "u64 \<Rightarrow> u64 \<Rightarrow> u64" where
  "reduce n cnt = (if cnt = 0 then n else reduce (n * 9 div 10) (cnt - 1))"
  by pat_completeness auto
termination
  by (relation "measure (\<lambda>(n, cnt). unat cnt)") (auto simp: unat_minus_one unat_gt_0)

declare reduce.simps [simp del]

definition Reward :: "u64 \<Rightarrow> u64" where
  "Reward height =
     (let reductions = height div REDUCTION_INTERVAL
      in if reductions = 0 then BLOCK_REWARD else reduce BLOCK_REWARD (reductions - 1))"

function supply_loop :: "u64 \<Rightarrow> u64 \<Rightarrow> u64" where
  "supply_loop supply reductions =
     (if reductions > 0 then
        supply_loop (supply + Reward (REDUCTION_INTERVAL * reductions - 1) * REDUCTION_INTERVAL)
          (reductions - 1)
      else supply)"
  by pat_completeness auto
termination
  by (relation "measure (\<lambda>(n, cnt). unat cnt)")
    (auto simp: unat_minus_one unat_gt_0 word_neq_0_conv)

declare supply_loop.simps [simp del]

definition supplyAtPhase :: "u64 \<Rightarrow> u64" where
  "supplyAtPhase reductions = supply_loop 0 reductions"

definition GetSupplyAtHeight :: "u64 \<Rightarrow> u64" where
  "GetSupplyAtHeight height =
     (let reductions = height div REDUCTION_INTERVAL;
          reductionBlocks = height mod REDUCTION_INTERVAL + 1;
          phaseSupply = supplyAtPhase reductions
      in phaseSupply + Reward height * reductionBlocks)"

section \<open>Mining blob\<close>

record HashingID =
  NetworkID :: u64
  hid_Hash :: hash

record MiningBlob =
  mb_Timestamp :: u64
  mb_Nonce :: u32
  mb_NonceExtra :: "128 word"
  mb_Chains :: "HashingID list"

definition id_entropy :: bytes where
  "id_entropy = [0x31, 0xab, 0xce, 0x87, 0xfe, 0xe4, 0xcc]"

definition HashingID_Serialize :: "HashingID \<Rightarrow> bytes" where
  "HashingID_Serialize v = AddUint64 (NetworkID v) @ AddArray (hid_Hash v)"

definition HashingID_Deserialize :: "Des \<Rightarrow> HashingID \<times> Des" where
  "HashingID_Deserialize d =
     (let (n, d) = ReadUint64 d; (h, d) = ReadArray d in (\<lparr>NetworkID = n, hid_Hash = h\<rparr>, d))"

definition MiningBlob_Serialize :: "MiningBlob \<Rightarrow> bytes" where
  "MiningBlob_Serialize m =
     AddUint64 (mb_Timestamp m) @ AddArray (mb_NonceExtra m) @
     AddUint64 (word_of_nat (length (mb_Chains m))) @ AddFixedByteArray id_entropy @
     AddUint32 (mb_Nonce m) @ concat (map HashingID_Serialize (mb_Chains m))"

definition MiningBlob_Deserialize :: "bytes \<Rightarrow> MiningBlob res" where
  "MiningBlob_Deserialize b =
     (let (ts, s) = ReadUint64 (NewDes b);
          (extra, s) = ReadArray s;
          (numChains, s) = ReadUint64 s;
          (idEntropy, s) = ReadFixedByteArray 7 s
      in case des_err s of Some err \<Rightarrow> Inl err | None \<Rightarrow>
         if numChains = 0 \<or> numChains > MAX_MERGE_MINED_CHAINS
         then Inl (Err ''invalid number of chains'')
         else if idEntropy \<noteq> id_entropy then Inl (Err ''invalid identifier'')
         else let (nonce, s) = ReadUint32 s
              in res_bind (read_n (\<lambda>d. Inr (HashingID_Deserialize d)) (unat numChains) s)
                   (\<lambda>(chains, s). case des_err s of Some err \<Rightarrow> Inl err | None \<Rightarrow>
                      if length (RemainingData s) \<noteq> 0 then Inl (Err ''unexpected remaining data'')
                      else Inr \<lparr>mb_Timestamp = ts, mb_Nonce = nonce, mb_NonceExtra = extra,
                                mb_Chains = chains\<rparr>))"

definition GetSeedhashId :: "u64 \<Rightarrow> u64" where
  "GetSeedhashId time = time div (SEEDHASH_DURATION * 1000)"

definition GetSeed :: "'x crypto_scheme \<Rightarrow> MiningBlob \<Rightarrow> hash" where
  "GetSeed c m = blake3_Sum256 c (le_bytes 8 (unat (GetSeedhashId (mb_Timestamp m))))"

section \<open>Commitments\<close>

record Commitment =
  cm_BaseHash :: hash
  cm_Ancestors :: Ancestors
  cm_Timestamp :: u64
  cm_Nonce :: u32
  cm_NonceExtra :: "128 word"
  cm_OtherChains :: "HashingID list"

definition Commitment_HashingID :: "'x crypto_scheme \<Rightarrow> Commitment \<Rightarrow> HashingID" where
  "Commitment_HashingID c m =
     \<lparr>NetworkID = NETWORK_ID,
      hid_Hash = blake3_Sum256 c (arr_bytes (cm_BaseHash m) @ concat (map arr_bytes (cm_Ancestors m)))\<rparr>"

definition Commitment_Equals :: "Commitment \<Rightarrow> Commitment \<Rightarrow> bool" where
  "Commitment_Equals a b \<longleftrightarrow>
     cm_BaseHash a = cm_BaseHash b \<and> cm_Timestamp a = cm_Timestamp b \<and> cm_Nonce a = cm_Nonce b \<and>
     cm_NonceExtra a = cm_NonceExtra b"

definition Commitment_Serialize :: "Commitment \<Rightarrow> bytes" where
  "Commitment_Serialize m =
     AddArray (cm_BaseHash m) @ concat (map AddArray (cm_Ancestors m)) @
     AddUvarint (cm_Timestamp m) @ AddUint32 (cm_Nonce m) @ AddArray (cm_NonceExtra m) @
     AddUvarint (word_of_nat (length (cm_OtherChains m))) @
     concat (map HashingID_Serialize (cm_OtherChains m))"

text \<open>The loops over a number of hashing ids check the error of the deserializer before each read.\<close>

fun read_chains :: "nat \<Rightarrow> Des \<Rightarrow> (HashingID list \<times> Des) res" where
  "read_chains 0 d = Inr ([], d)"
| "read_chains (Suc n) d =
     (case des_err d of Some err \<Rightarrow> Inl err | None \<Rightarrow>
        let (h, d) = HashingID_Deserialize d
        in res_bind (read_chains n d) (\<lambda>(hs, d). Inr (h # hs, d)))"

definition Commitment_Deserialize :: "Des \<Rightarrow> (Commitment \<times> Des) res" where
  "Commitment_Deserialize d =
     (let (baseh, d) = ReadArray d
      in res_bind (read_n (\<lambda>d. Inr (ReadArray d)) MINIDAG_ANCESTORS d) (\<lambda>(ancs, d).
         let (ts, d) = ReadUvarint d; (nonce, d) = ReadUint32 d; (extra, d) = ReadArray d;
             (numChains, d) = ReadUvarint d
         in if sint numChains < 0 \<or> sint numChains > MAX_MERGE_MINED_CHAINS - 1
            then Inl (Err ''commitment numChains exceed limit'')
            else res_bind (read_chains (unat numChains) d) (\<lambda>(chains, d).
                   Des_checked
                     (\<lparr>cm_BaseHash = baseh, cm_Ancestors = ancs, cm_Timestamp = ts, cm_Nonce = nonce,
                       cm_NonceExtra = extra, cm_OtherChains = chains\<rparr>, d))))"

text \<open>The comparison of the sort panics on two equal network ids; a sort compares neighbours of its
  result, so it panics exactly when an id occurs twice.\<close>

definition sort_chains :: "HashingID list \<Rightarrow> HashingID list res" where
  "sort_chains cs =
     (if distinct (map NetworkID cs) then Inr (sort_key NetworkID cs)
      else Inl (Panic ''possible duplicate value in OtherChains''))"

definition Commitment_MiningBlob :: "'x crypto_scheme \<Rightarrow> Commitment \<Rightarrow> MiningBlob res" where
  "Commitment_MiningBlob c m =
     res_bind (sort_chains (cm_OtherChains m @ [Commitment_HashingID c m])) (\<lambda>chains.
       Inr \<lparr>mb_Timestamp = cm_Timestamp m, mb_Nonce = cm_Nonce m, mb_NonceExtra = cm_NonceExtra m,
            mb_Chains = chains\<rparr>)"

section \<open>Blocks\<close>

record BlockHeader =
  Version :: u8
  Height :: u64
  Timestamp :: u64
  Nonce :: u32
  NonceExtra :: "128 word"
  OtherChains :: "HashingID list"
  bl_Recipient :: address
  bl_Ancestors :: Ancestors
  SideBlocks :: "Commitment list"
  bl_DelegateId :: u64
  NextDelegateId :: u64
  StakeSignature :: signature

record Block = BlockHeader +
  Difficulty :: Uint128
  bl_CumulativeDiff :: Uint128
  bl_Transactions :: "hash list"

definition BlockStakedHash :: "'b BlockHeader_scheme \<Rightarrow> hash" where
  "BlockStakedHash b = bl_Ancestors b ! (length (bl_Ancestors b) - 1)"

definition PrevHash :: "'b BlockHeader_scheme \<Rightarrow> hash" where
  "PrevHash b = bl_Ancestors b ! 0"

definition SortOtherChains :: "Block \<Rightarrow> Block res" where
  "SortOtherChains b =
     res_bind (sort_chains (OtherChains b)) (\<lambda>cs. Inr (b\<lparr>OtherChains := cs\<rparr>))"

text \<open>The loop of \<open>setMiningBlob\<close>: it returns without an error after the first other chain.\<close>

fun set_chains :: "bool \<Rightarrow> Block \<Rightarrow> HashingID list \<Rightarrow> Block outcome" where
  "set_chains containsNetworkID b [] =
     (if \<not> containsNetworkID then (b, Some (Err ''mining blob does not contain current network id''))
      else (b, None))"
| "set_chains containsNetworkID b (v # vs) =
     (if NetworkID v \<noteq> NETWORK_ID then
        (if NetworkID v \<le> 0 then (b, Some (Err ''mining blob is not sorted correctly''))
         else if list_ex (\<lambda>oc. hid_Hash oc = hid_Hash v \<or> NetworkID oc = NetworkID v) (OtherChains b)
         then (b, Some (Err ''duplicate hashing id''))
         else (b\<lparr>OtherChains := OtherChains b @ [v]\<rparr>, None))
      else if containsNetworkID then (b, Some (Err ''mining blob has duplicate network id''))
      else set_chains True b vs)"

definition setMiningBlob :: "Block \<Rightarrow> MiningBlob \<Rightarrow> Block outcome" where
  "setMiningBlob b m =
     set_chains False
       (b\<lparr>Timestamp := mb_Timestamp m, Nonce := mb_Nonce m, NonceExtra := mb_NonceExtra m,
          OtherChains := []\<rparr>) (mb_Chains m)"

definition IS_MASTERCHAIN :: bool where
  "IS_MASTERCHAIN \<longleftrightarrow> NETWORK_ID = 0xd38dab1d4676d0c5"

definition SetMiningBlob :: "Block \<Rightarrow> MiningBlob \<Rightarrow> Block outcome" where
  "SetMiningBlob b m =
     (if IS_MASTERCHAIN then (b, Some (Panic ''SetMiningBlob should never be called in masterchain''))
      else setMiningBlob b m)"

definition BlockHeader_Serialize :: "'b BlockHeader_scheme \<Rightarrow> bytes" where
  "BlockHeader_Serialize b =
     AddUint8 (Version b) @ AddUvarint (Height b) @ AddUvarint (Timestamp b) @
     AddUint32 (Nonce b) @ AddArray (NonceExtra b) @ AddArray (bl_Recipient b) @
     concat (map AddArray (bl_Ancestors b)) @
     AddUvarint (word_of_nat (length (OtherChains b))) @
     concat (map HashingID_Serialize (OtherChains b)) @
     AddUvarint (word_of_nat (length (SideBlocks b))) @
     concat (map (\<lambda>v. AddFixedByteArray (Commitment_Serialize v)) (SideBlocks b)) @
     (if Version b > 0
      then AddUvarint (bl_DelegateId b) @ AddUvarint (NextDelegateId b) @ AddArray (StakeSignature b)
      else [])"

fun read_side_blocks :: "nat \<Rightarrow> Des \<Rightarrow> (Commitment list \<times> Des) res" where
  "read_side_blocks 0 d = Inr ([], d)"
| "read_side_blocks (Suc n) d =
     (case des_err d of Some err \<Rightarrow> Inl err | None \<Rightarrow>
        res_bind (Commitment_Deserialize d) (\<lambda>(s, d).
        res_bind (read_side_blocks n d) (\<lambda>(ss, d). Inr (s # ss, d))))"

definition BlockHeader_Deserialize :: "bytes \<Rightarrow> (BlockHeader \<times> bytes) res" where
  "BlockHeader_Deserialize data =
     (let (version, d) = ReadUint8 (NewDes data);
          (height, d) = ReadUvarint d;
          (ts, d) = ReadUvarint d;
          (nonce, d) = ReadUint32 d;
          (extra, d) = ReadArray d;
          (recipient, d) = ReadArray d
      in res_bind (read_n (\<lambda>d. Inr (ReadArray d)) MINIDAG_ANCESTORS d) (\<lambda>(ancs, d).
         case des_err d of Some err \<Rightarrow> Inl err | None \<Rightarrow>
         let (numChains, d) = ReadUvarint d
         in if sint numChains < 0 \<or> sint numChains > MAX_MERGE_MINED_CHAINS - 1
            then Inl (Err ''OtherChains exceed limit'')
            else res_bind (read_chains (unat numChains) d) (\<lambda>(cs, d).
            let (numSideBlocks, d) = ReadUvarint d
            in if sint numSideBlocks < 0 \<or> sint numSideBlocks > MAX_SIDE_BLOCKS
               then Inl (Err ''side blocks exceed limit'')
               else res_bind (read_side_blocks (unat numSideBlocks) d) (\<lambda>(sides, d).
               let b = \<lparr>Version = version, Height = height, Timestamp = ts, Nonce = nonce,
                        NonceExtra = extra, OtherChains = cs, bl_Recipient = recipient,
                        bl_Ancestors = ancs, SideBlocks = sides, bl_DelegateId = 0,
                        NextDelegateId = 0, StakeSignature = 0\<rparr>;
                   (b, d) =
                     (if version > 0 then
                        let (did, d) = ReadUvarint d; (nextd, d) = ReadUvarint d; (sig, d) = ReadArray d
                        in (b\<lparr>bl_DelegateId := did, NextDelegateId := nextd, StakeSignature := sig\<rparr>, d)
                      else (b, d))
               in case des_err d of Some err \<Rightarrow> Inl err | None \<Rightarrow> Inr (b, RemainingData d)))))"

text \<open>A 128-bit number as little-endian bytes without the zero bytes at the end.\<close>

definition diff_bytes :: "Uint128 \<Rightarrow> bytes" where
  "diff_bytes u = rev (strip_zeros (rev (U128_PutBytes u)))"

text \<open>\<open>copy\<close> into a buffer of sixteen zero bytes.\<close>

definition copy16 :: "bytes \<Rightarrow> bytes" where
  "copy16 b = take 16 (b @ replicate 16 0)"

definition Block_Serialize :: "Block \<Rightarrow> bytes" where
  "Block_Serialize b =
     (if U128_IsZero (Difficulty b) then []
      else BlockHeader_Serialize b @ AddByteSlice (diff_bytes (Difficulty b)) @
           AddByteSlice (diff_bytes (bl_CumulativeDiff b)) @
           AddUvarint (word_of_nat (length (bl_Transactions b))) @
           concat (map AddArray (bl_Transactions b)))"

definition header_block ::
  "BlockHeader \<Rightarrow> Uint128 \<Rightarrow> Uint128 \<Rightarrow> hash list \<Rightarrow> Block" where
  "header_block h diff cdiff txs =
     BlockHeader.extend h \<lparr>Difficulty = diff, bl_CumulativeDiff = cdiff, bl_Transactions = txs\<rparr>"

text \<open>The loop over the transaction ids returns the error of each read.\<close>

definition Block_Deserialize :: "bytes \<Rightarrow> Block res" where
  "Block_Deserialize data =
     res_bind (BlockHeader_Deserialize data) (\<lambda>(h, data).
     res_bind (ReadByteSlice (NewDes data)) (\<lambda>(sl, d).
     res_bind (U128_FromBytes (copy16 sl)) (\<lambda>diff.
     res_bind (ReadByteSlice d) (\<lambda>(sl, d).
     res_bind (U128_FromBytes (copy16 sl)) (\<lambda>cdiff.
     case des_err d of Some err \<Rightarrow> Inl err | None \<Rightarrow>
     let (numTx, d) = ReadUvarint d
     in case des_err d of Some err \<Rightarrow> Inl err | None \<Rightarrow>
        if numTx > MAX_TX_PER_BLOCK then Inl (Err ''block has too many transactions'')
        else res_bind (read_n (\<lambda>d. Des_checked (ReadArray d)) (unat numTx) d) (\<lambda>(txs, d).
             case des_err d of Some err \<Rightarrow> Inl err | None \<Rightarrow>
               Inr (header_block h diff cdiff txs)))))))"

text \<open>The block with its transactions, as peers send it.\<close>

definition read_tx :: "bool \<Rightarrow> Des \<Rightarrow> (Transaction \<times> Des) res" where
  "read_tx hasVersion d =
     res_bind (ReadByteSlice d) (\<lambda>(sl, d).
     res_bind (Tx_Deserialize sl hasVersion) (\<lambda>tx. Inr (tx, d)))"

definition Block_DeserializeFull ::
  "'x crypto_scheme \<Rightarrow> bytes \<Rightarrow> (Block \<times> Transaction list) res" where
  "Block_DeserializeFull c data =
     res_bind (BlockHeader_Deserialize data) (\<lambda>(h, data).
     res_bind (ReadByteSlice (NewDes data)) (\<lambda>(sl, d).
     res_bind (U128_FromBytes (copy16 sl)) (\<lambda>diff.
     res_bind (ReadByteSlice d) (\<lambda>(sl, d).
     res_bind (U128_FromBytes (copy16 sl)) (\<lambda>cdiff.
     let (numTx, d) = ReadUvarint d
     in case des_err d of Some err \<Rightarrow> Inl err | None \<Rightarrow>
        if numTx > MAX_TX_PER_BLOCK then Inl (Err ''block has too many transactions'')
        else res_bind (read_n (read_tx (Height h \<ge> HARDFORK_V2_HEIGHT)) (unat numTx) d) (\<lambda>(txs, d).
             case des_err d of Some err \<Rightarrow> Inl err | None \<Rightarrow>
               Inr (header_block h diff cdiff (map (Tx_Hash c) txs), txs)))))))"

definition ContributionToCumulativeDiff :: "Block \<Rightarrow> Uint128 res" where
  "ContributionToCumulativeDiff bl =
     res_bind (U128_Mul64 (Difficulty bl) (2 * word_of_nat (length (SideBlocks bl)))) (\<lambda>x.
     res_bind (U128_Div64 x 3) (\<lambda>sideDiff.
     res_bind (U128_Add (Difficulty bl) sideDiff) (\<lambda>y.
       if Version bl > 0 \<and> StakeSignature bl = BlankSignature then U128_Div64 y 2 else Inr y)))"

definition Block_Hash :: "'x crypto_scheme \<Rightarrow> Block \<Rightarrow> hash" where
  "Block_Hash c b = blake3_Sum256 c (Block_Serialize b)"

definition ValidPowValue :: "Uint128 \<Rightarrow> Uint128 \<Rightarrow> bool res" where
  "ValidPowValue v diff = res_bind (U128_Div U128_Max diff) (\<lambda>t. Inr (U128_Cmp v t \<le> 0))"

definition ValidPowHash :: "128 word \<Rightarrow> Uint128 \<Rightarrow> bool res" where
  "ValidPowHash h diff = res_bind (U128_FromBytes (arr_bytes h)) (\<lambda>v.
     res_bind (U128_Div U128_Max diff) (\<lambda>t. Inr (U128_Cmp v t \<le> 0)))"

definition Block_ValidPowHash :: "Block \<Rightarrow> 128 word \<Rightarrow> bool res" where
  "Block_ValidPowHash b h = res_bind (U128_FromBytes (arr_bytes h)) (\<lambda>v.
     res_bind (U128_Div U128_Max (Difficulty b)) (\<lambda>t. Inr (U128_Cmp v t \<le> 0)))"

definition HashToVal :: "hash \<Rightarrow> Uint128 res" where
  "HashToVal h = U128_FromBytes (drop 16 (arr_bytes h))"

definition ValidPowHash32 :: "hash \<Rightarrow> Uint128 \<Rightarrow> bool res" where
  "ValidPowHash32 h diff = res_bind (HashToVal h) (\<lambda>v.
     res_bind (U128_Div U128_Max diff) (\<lambda>t. Inr (U128_Cmp v t \<le> 0)))"

definition BaseHash :: "'x crypto_scheme \<Rightarrow> Block \<Rightarrow> hash" where
  "BaseHash c b =
     Block_Hash c (b\<lparr>Timestamp := 0, Nonce := 0, NonceExtra := 0, StakeSignature := 0,
                     NextDelegateId := 0, OtherChains := []\<rparr>)"

definition Block_Commitment :: "'x crypto_scheme \<Rightarrow> Block \<Rightarrow> Commitment" where
  "Block_Commitment c b =
     \<lparr>cm_BaseHash = BaseHash c b, cm_Ancestors = bl_Ancestors b, cm_Timestamp = Timestamp b,
      cm_Nonce = Nonce b, cm_NonceExtra = NonceExtra b, cm_OtherChains = OtherChains b\<rparr>"

section \<open>Coinbase\<close>

record CoinbaseOutput =
  co_Recipient :: address
  co_Amount :: u64
  co_DelegateId :: u64
  co_Type :: StateOutputType

definition Block_Reward :: "Block \<Rightarrow> u64" where
  "Block_Reward b = Reward (Height b)"

definition CoinbaseTransaction :: "Block \<Rightarrow> u64 \<Rightarrow> CoinbaseOutput list res" where
  "CoinbaseTransaction b totalReward =
     (if Version b = 0 then
        let governanceReward = totalReward * BLOCK_REWARD_FEE_PERCENT div 100;
            powReward = totalReward - governanceReward
        in Inr [\<lparr>co_Recipient = GenesisAddress, co_Amount = governanceReward, co_DelegateId = 0,
                 co_Type = OUT_COINBASE_DEV\<rparr>,
                \<lparr>co_Recipient = bl_Recipient b, co_Amount = powReward, co_DelegateId = 0,
                 co_Type = OUT_COINBASE_POW\<rparr>]
      else if Version b = 1 then
        let governanceReward = totalReward * BLOCK_REWARD_FEE_PERCENT div 100;
            powReward = totalReward div 2;
            posReward = totalReward - powReward - governanceReward;
            burnReward = 0;
            (powReward, posReward, burnReward) =
              (if StakeSignature b = BlankSignature then
                 let powReward = powReward * 3 div 4
                 in (powReward, 0, totalReward - governanceReward - powReward)
               else (powReward, posReward, burnReward))
        in Inr ([\<lparr>co_Recipient = GenesisAddress, co_Amount = governanceReward, co_DelegateId = 0,
                  co_Type = OUT_COINBASE_DEV\<rparr>,
                 \<lparr>co_Recipient = bl_Recipient b, co_Amount = powReward, co_DelegateId = 0,
                  co_Type = OUT_COINBASE_POW\<rparr>] @
                (if posReward \<noteq> 0
                 then [\<lparr>co_Recipient = NewDelegateAddress (bl_DelegateId b), co_Amount = posReward,
                        co_DelegateId = bl_DelegateId b, co_Type = OUT_COINBASE_POS\<rparr>] else []) @
                (if burnReward \<noteq> 0
                 then [\<lparr>co_Recipient = INVALID_ADDRESS, co_Amount = burnReward, co_DelegateId = 0,
                        co_Type = OUT_COINBASE_BURN\<rparr>] else []))
      else Inl (Panic ''unexpected block version''))"

section \<open>Targets\<close>

definition GetTarget :: "Uint128 \<Rightarrow> u64 res" where
  "GetTarget n =
     (if Lo n = 0 then Inl (Panic ''integer divide by zero'')
      else Inr (0xffffffffffffffff div Lo n))"

definition GetTargetBytes :: "Uint128 \<Rightarrow> bytes res" where
  "GetTargetBytes n = res_bind (GetTarget n) (\<lambda>target. Inr (le_bytes 8 (unat target)))"

definition TargetToDiff64 :: "u64 \<Rightarrow> Uint128 res" where
  "TargetToDiff64 t =
     (if t = 0 then Inr (Uint128 1 0) else U128_Div64 (U128_New 0xffffffffffffffff 0) t)"

definition TargetToDiff :: "Uint128 \<Rightarrow> Uint128 res" where
  "TargetToDiff t =
     (if Lo t = 0 \<and> Hi t = 0 then Inr (Uint128 1 0)
      else U128_Div (U128_New 0xffffffffffffffff 0xffffffffffffffff) t)"

definition ByteTargetToDiff :: "bytes \<Rightarrow> Uint128 res" where
  "ByteTargetToDiff t =
     (if length t = 16 then res_bind (U128_FromBytes t) TargetToDiff
      else if length t = 8 then TargetToDiff64 (word_of_nat (le_val t))
      else if length t = 4 then TargetToDiff64 (word_of_nat (le_val t))
      else Inl (Panic ''invalid target size supplied''))"

section \<open>Rewards and supply\<close>

lemma unat_numeral64: "numeral k < (2::nat) ^ 64 \<Longrightarrow> unat (numeral k :: u64) = numeral k"
  by (metis of_nat_numeral unat_of_nat64)

definition reward_step :: "nat \<Rightarrow> nat" where
  "reward_step x = x * 9 div 10"

text \<open>The reward of a block as a number: flat for two intervals, then nine tenths of the previous
  interval's.\<close>

definition reward_at :: "nat \<Rightarrow> nat" where
  "reward_at h = (reward_step ^^ (h div REDUCTION_INTERVAL - 1)) BLOCK_REWARD"

lemma reward_step_le: "reward_step x \<le> x"
  by (simp add: reward_step_def)

lemma reward_step_iter_le: "(reward_step ^^ k) x \<le> x"
proof (induction k)
  case (Suc k)
  then show ?case using order_trans [OF reward_step_le] by simp
qed simp

lemma unat_reduce:
  "unat n \<le> 175000000000 \<Longrightarrow> unat (reduce n c) = (reward_step ^^ unat c) (unat n)"
proof (induction n c rule: reduce.induct)
  case (1 n c)
  show ?case
  proof (cases "c = 0")
    case False
    have "unat (n * 9) = unat n * 9"
      using 1(2) by (subst unat_mult64) simp_all
    then have step: "unat (n * 9 div 10) = reward_step (unat n)"
      by (simp add: unat_div reward_step_def)
    moreover have "unat (n * 9 div 10) \<le> 175000000000"
      using 1(2) reward_step_le [of "unat n"] step by simp
    moreover have "unat c = Suc (unat (c - 1))" using False by (simp add: unat_minus_one unat_gt_0)
    ultimately show ?thesis
      using 1 False by (simp add: reduce.simps [of n c] funpow_swap1)
  qed (simp add: reduce.simps)
qed

lemma unat_Reward: "unat (Reward h) = reward_at (unat h)"
proof -
  have i: "unat (h div REDUCTION_INTERVAL) = unat h div REDUCTION_INTERVAL"
    by (simp add: unat_div config_defs)
  show ?thesis
  proof (cases "h div REDUCTION_INTERVAL = 0")
    case True
    then have "unat h div REDUCTION_INTERVAL = 0" using i by simp
    then show ?thesis using True by (simp add: Reward_def reward_at_def config_defs)
  next
    case False
    then have "unat (h div REDUCTION_INTERVAL - 1) = unat h div REDUCTION_INTERVAL - 1"
      using i by (simp add: unat_minus_one)
    then show ?thesis
      using False by (simp add: Reward_def reward_at_def unat_reduce config_defs)
  qed
qed

lemma reward_at_le: "reward_at h \<le> BLOCK_REWARD"
  unfolding reward_at_def by (rule reward_step_iter_le)

lemma Reward_le: "Reward h \<le> BLOCK_REWARD"
  using reward_at_le [of "unat h"] by (simp add: word_le_nat_alt unat_Reward config_defs)

lemma reward_phases_sum:
  "(\<Sum>k<n. (reward_step ^^ k) x) + 10 * (reward_step ^^ n) x \<le> 10 * x"
proof (induction n)
  case (Suc n)
  have "10 * reward_step ((reward_step ^^ n) x) \<le> 9 * (reward_step ^^ n) x"
    by (simp add: reward_step_def)
  with Suc show ?case by simp
qed simp

text \<open>The total of the rewards of all blocks up to a height.\<close>

definition supply_at :: "nat \<Rightarrow> nat" where
  "supply_at h = (\<Sum>i\<le>h. reward_at i)"

lemma interval_nat: "REDUCTION_INTERVAL = (524160::nat)"
  by (simp add: config_defs)

lemma reward_at_phase:
  "p * REDUCTION_INTERVAL \<le> i \<Longrightarrow> i < Suc p * REDUCTION_INTERVAL \<Longrightarrow>
   reward_at i = (reward_step ^^ (p - 1)) BLOCK_REWARD"
proof -
  assume "p * REDUCTION_INTERVAL \<le> i" "i < Suc p * REDUCTION_INTERVAL"
  then have "i div REDUCTION_INTERVAL = p"
    by (intro div_nat_eqI) (simp_all add: mult.commute)
  then show ?thesis by (simp add: reward_at_def)
qed

lemma supply_phases:
  "(\<Sum>i<p * REDUCTION_INTERVAL. reward_at i) =
     (\<Sum>k<p. (reward_step ^^ (k - 1)) BLOCK_REWARD * REDUCTION_INTERVAL)"
proof (induction p)
  case (Suc p)
  have "{..<Suc p * REDUCTION_INTERVAL} =
      {..<p * REDUCTION_INTERVAL} \<union> {p * REDUCTION_INTERVAL..<Suc p * REDUCTION_INTERVAL :: nat}"
    by (auto simp: interval_nat)
  then have "(\<Sum>i<Suc p * REDUCTION_INTERVAL. reward_at i) =
      (\<Sum>i<p * REDUCTION_INTERVAL. reward_at i) +
      (\<Sum>i\<in>{p * REDUCTION_INTERVAL..<Suc p * REDUCTION_INTERVAL}. reward_at i)"
    by (simp add: sum.union_disjoint ivl_disj_int)
  also have "(\<Sum>i\<in>{p * REDUCTION_INTERVAL..<Suc p * REDUCTION_INTERVAL}. reward_at i) =
      (\<Sum>i\<in>{p * REDUCTION_INTERVAL..<Suc p * REDUCTION_INTERVAL}. (reward_step ^^ (p - 1)) BLOCK_REWARD)"
    by (intro sum.cong refl reward_at_phase) auto
  finally show ?case using Suc by (simp add: mult.commute)
qed simp

lemma phases_bound: "(\<Sum>k<p. (reward_step ^^ (k - 1)) x) \<le> 11 * x"
proof (cases p)
  case (Suc q)
  have "(\<Sum>k<Suc q. (reward_step ^^ (k - 1)) x) = x + (\<Sum>k<q. (reward_step ^^ k) x)"
    by (subst sum.lessThan_Suc_shift) simp
  then show ?thesis using reward_phases_sum [of x q] Suc by simp
qed simp

lemma supply_prefix_bound:
  "(\<Sum>k<p. (reward_step ^^ (k - 1)) BLOCK_REWARD * REDUCTION_INTERVAL) \<le> (MAX_SUPPLY :: nat)"
proof -
  have "(\<Sum>k<p. (reward_step ^^ (k - 1)) BLOCK_REWARD) * REDUCTION_INTERVAL
      \<le> 11 * BLOCK_REWARD * (REDUCTION_INTERVAL :: nat)"
    by (intro mult_right_mono phases_bound) simp
  then show ?thesis by (simp add: sum_distrib_right [symmetric] config_defs)
qed

lemma supply_at_bound: "supply_at h \<le> MAX_SUPPLY"
proof -
  let ?p = "Suc (h div REDUCTION_INTERVAL)"
  have "h < ?p * REDUCTION_INTERVAL" by (simp add: interval_nat)
  then have "supply_at h \<le> (\<Sum>i<?p * REDUCTION_INTERVAL. reward_at i)"
    unfolding supply_at_def by (intro sum_mono2) auto
  also have "\<dots> \<le> MAX_SUPPLY" unfolding supply_phases by (rule supply_prefix_bound)
  finally show ?thesis .
qed

lemma supply_loop_val:
  assumes "unat s + (\<Sum>k<unat r. (reward_step ^^ (k - 1)) BLOCK_REWARD * REDUCTION_INTERVAL) < 2 ^ 64"
    and "unat r * REDUCTION_INTERVAL < 2 ^ 64"
  shows "unat (supply_loop s r) =
    unat s + (\<Sum>k<unat r. (reward_step ^^ (k - 1)) BLOCK_REWARD * REDUCTION_INTERVAL)"
  using assms
proof (induction s r rule: supply_loop.induct)
  case (1 s r)
  show ?case
  proof (cases "r = 0")
    case False
    then have r: "unat r = Suc (unat (r - 1))" by (simp add: unat_minus_one unat_gt_0)
    let ?x = "(reward_step ^^ (unat (r - 1) - 1)) BLOCK_REWARD :: nat"
    have "unat (REDUCTION_INTERVAL * r) = REDUCTION_INTERVAL * unat r"
      using 1(3) by (subst unat_mult64) (simp_all add: config_defs mult.commute)
    then have "unat (REDUCTION_INTERVAL * r - 1) = REDUCTION_INTERVAL * unat r - 1"
      by (metis False interval_nat mult_is_0 unat_0 unat_minus_one unat_eq_0 zero_neq_numeral)
    then have rw: "unat (Reward (REDUCTION_INTERVAL * r - 1)) = ?x"
      using r by (subst unat_Reward, subst reward_at_phase [of "unat (r - 1)"])
        (simp_all add: interval_nat)
    have small: "unat s + ?x * REDUCTION_INTERVAL < 2 ^ 64" using 1(2) unfolding r by simp
    then have "unat (Reward (REDUCTION_INTERVAL * r - 1) * REDUCTION_INTERVAL) = ?x * REDUCTION_INTERVAL"
      using rw by (subst unat_mult64) (simp_all add: interval_nat config_defs)
    then have "unat (s + Reward (REDUCTION_INTERVAL * r - 1) * REDUCTION_INTERVAL) =
        unat s + ?x * REDUCTION_INTERVAL"
      using small by (subst unat_add64) simp_all
    then show ?thesis
      using 1 False r by (subst supply_loop.simps) (simp add: word_neq_0_conv)
  qed (simp add: supply_loop.simps)
qed

lemma GetSupplyAtHeight_val: "unat (GetSupplyAtHeight h) = supply_at (unat h)"
proof -
  let ?R = "REDUCTION_INTERVAL :: nat"
  let ?p = "unat h div ?R" and ?m = "unat h mod ?R"
  have w: "unat (h div REDUCTION_INTERVAL) = ?p" "unat (h mod REDUCTION_INTERVAL) = ?m"
    by (simp_all add: unat_div unat_mod config_defs)
  have m1: "unat (h mod REDUCTION_INTERVAL + 1) = ?m + 1"
    using w(2) by (subst unat_add64) (simp_all add: interval_nat)
  have split: "supply_at (unat h) = (\<Sum>i<?p * ?R. reward_at i) + (?m + 1) * reward_at (unat h)"
  proof -
    have "unat h = ?p * ?R + ?m" by simp
    have "{..unat h} = {..<a} \<union> {a..unat h}" if "a \<le> unat h" for a
      using that by auto
    from this [OF div_times_less_eq_dividend]
    have "{..unat h} = {..<?p * ?R} \<union> {?p * ?R..unat h}" .
    then have "supply_at (unat h) = (\<Sum>i<?p * ?R. reward_at i) + (\<Sum>i\<in>{?p * ?R..unat h}. reward_at i)"
      unfolding supply_at_def by (simp only:) (subst sum.union_disjoint, auto)
    also have "(\<Sum>i\<in>{?p * ?R..unat h}. reward_at i) = (\<Sum>i\<in>{?p * ?R..unat h}. reward_at (unat h))"
    proof (rule sum.cong [OF refl])
      fix i assume i: "i \<in> {?p * ?R..unat h}"
      have "unat h < Suc ?p * ?R" by (simp add: interval_nat)
      with i have "reward_at i = (reward_step ^^ (?p - 1)) BLOCK_REWARD"
        by (intro reward_at_phase) simp_all
      then show "reward_at i = reward_at (unat h)" by (simp only: reward_at_def [of "unat h"])
    qed
    also have "\<dots> = (?m + 1) * reward_at (unat h)"
    proof -
      have "card {?p * ?R..unat h} = ?m + 1"
        unfolding card_atLeastAtMost by (subst (1) \<open>unat h = ?p * ?R + ?m\<close>) 
          (simp only: Suc_eq_plus1 add.assoc diff_add_inverse)
      then show ?thesis by simp
    qed
    finally show ?thesis .
  qed
  have b: "supply_at (unat h) < 2 ^ 64"
    using supply_at_bound [of "unat h"] by (simp add: config_defs)
  have ph: "unat (supplyAtPhase (h div REDUCTION_INTERVAL)) = (\<Sum>i<?p * ?R. reward_at i)"
  proof -
    have "?p * ?R < 2 ^ 64"
      using le_less_trans [OF div_times_less_eq_dividend unat_lt64] by simp
    then show ?thesis
      using b split unfolding supply_phases supplyAtPhase_def
      by (subst supply_loop_val) (simp_all add: w(1))
  qed
  have "unat (Reward h * (h mod REDUCTION_INTERVAL + 1)) = (?m + 1) * reward_at (unat h)"
    using b split by (subst unat_mult64) (simp_all add: unat_Reward m1 mult.commute)
  then show ?thesis
    using b ph split by (simp add: GetSupplyAtHeight_def Let_def unat_add64)
qed

section \<open>Coinbase\<close>

definition coinbase_sum :: "CoinbaseOutput list \<Rightarrow> nat" where
  "coinbase_sum outs = (\<Sum>x\<leftarrow>outs. unat (co_Amount x))"

lemma unat_governance:
  "unat ((r :: u64) * BLOCK_REWARD_FEE_PERCENT div 100) \<le> unat r div 10"
proof -
  have "unat (r * 10) \<le> unat r * 10" by (simp add: unat_word_ariths)
  then have "unat (r * 10) div 100 \<le> unat r * 10 div 100" by (rule div_le_mono)
  also have "\<dots> = unat r div 10" using div_mult2_eq [of "unat r * 10" 10 10] by simp
  finally show ?thesis by (simp add: unat_div config_defs)
qed

lemma unat_three_quarters: "unat ((x :: u64) * 3 div 4) \<le> unat x"
proof -
  have "unat (x * 3) \<le> unat x * 3" by (simp add: unat_word_ariths)
  then show ?thesis by (simp add: unat_div)
qed

lemma CoinbaseTransaction_sum:
  assumes "CoinbaseTransaction b r = Inr outs"
  shows "coinbase_sum outs = unat r"
proof -
  define g where "g = r * BLOCK_REWARD_FEE_PERCENT div 100"
  define p where "p = r div 2"
  define q where "q = p * 3 div 4"
  have g: "unat g \<le> unat r div 10" unfolding g_def by (rule unat_governance)
  have p: "unat p = unat r div 2" by (simp add: p_def unat_div)
  have q: "unat q \<le> unat p" unfolding q_def by (rule unat_three_quarters)
  have v0: "unat (r - g) = unat r - unat g"
    using g by (intro unat_sub64) (simp add: word_le_nat_alt)
  have rp: "unat (r - p) = unat r - unat p"
    using p by (intro unat_sub64) (simp add: word_le_nat_alt)
  have rpg: "unat (r - p - g) = unat r - unat p - unat g"
    using g p rp by (subst unat_sub64) (simp_all add: word_le_nat_alt)
  have rgq: "unat (r - g - q) = unat r - unat g - unat q"
    using g p q v0 by (subst unat_sub64) (simp_all add: word_le_nat_alt)
  have "unat g + unat p \<le> unat r" using g p by linarith
  then show ?thesis
    using assms g p q v0 rpg rgq
    by (auto simp: CoinbaseTransaction_def Let_def coinbase_sum_def simp flip: g_def p_def q_def
        split: if_splits)
qed

lemma CoinbaseTransaction_panics: "(\<exists>outs. CoinbaseTransaction b r = Inr outs) \<longleftrightarrow> Version b \<le> 1"
proof -
  have "Version b \<le> 1 \<longleftrightarrow> Version b = 0 \<or> Version b = 1"
    by (simp add: word_le_nat_alt word_unat_eq_iff le_Suc_eq)
  then show ?thesis by (simp add: CoinbaseTransaction_def Let_def split: prod.split)
qed

section \<open>Encodings\<close>

lemma HashingID_codec [codec_simps]:
  "HashingID_Deserialize (NewDes (HashingID_Serialize v @ rest)) = (v, NewDes rest)"
  by (simp add: HashingID_Deserialize_def HashingID_Serialize_def codec_simps)

interpretation hashing_id_codec: codec HashingID_Serialize "\<lambda>d. Inr (HashingID_Deserialize d)" "\<lambda>_. True"
  by unfold_locales (simp add: codec_simps)

lemma read_chains_Serialize [codec_simps]:
  "read_chains (length cs) (NewDes (concat (map HashingID_Serialize cs) @ rest)) = Inr (cs, NewDes rest)"
  by (induction cs) (simp_all add: codec_simps)

lemma read_ancestors [codec_simps]:
  "length as = MINIDAG_ANCESTORS \<Longrightarrow>
   read_n (\<lambda>d. Inr (ReadArray d)) MINIDAG_ANCESTORS
     (NewDes (concat (map AddArray (as :: hash list)) @ rest)) = Inr (as, NewDes rest)"
  using hash_array.read_n_enc [of as rest] by (simp add: list_all_iff)

lemma unat_length64: "length xs < 2 ^ 63 \<Longrightarrow> unat (word_of_nat (length xs) :: u64) = length xs"
  by (intro unat_of_nat64) simp

lemma sint_length64: "length xs < 2 ^ 63 \<Longrightarrow> sint (word_of_nat (length xs) :: u64) = int (length xs)"
  using unat_length64 [of xs] by (simp add: sint_small64)

definition miningblob_wf :: "MiningBlob \<Rightarrow> bool" where
  "miningblob_wf m \<longleftrightarrow> mb_Chains m \<noteq> [] \<and> length (mb_Chains m) \<le> MAX_MERGE_MINED_CHAINS"

lemma NewDes_data [simp]: "RemainingData (NewDes d) = d"
  by (simp add: RemainingData_def NewDes_def)

lemma MiningBlob_codec:
  assumes "miningblob_wf m"
  shows "MiningBlob_Deserialize (MiningBlob_Serialize m) = Inr m"
proof -
  have n: "unat (word_of_nat (length (mb_Chains m)) :: u64) = length (mb_Chains m)"
    using assms by (intro unat_length64) (simp add: miningblob_wf_def config_defs)
  then have "(word_of_nat (length (mb_Chains m)) :: u64) \<noteq> 0"
    using assms by (metis miningblob_wf_def length_0_conv unat_0)
  moreover have "\<not> (word_of_nat (length (mb_Chains m)) :: u64) > MAX_MERGE_MINED_CHAINS"
    using assms n by (simp add: word_less_nat_alt miningblob_wf_def config_defs)
  moreover have "length id_entropy = 7" by (simp add: id_entropy_def)
  moreover have "read_n (\<lambda>d. Inr (HashingID_Deserialize d)) (length (mb_Chains m))
      (NewDes (concat (map HashingID_Serialize (mb_Chains m)))) = Inr (mb_Chains m, NewDes [])"
    using hashing_id_codec.read_n_enc [of "mb_Chains m" "[]"] by (simp add: list_all_iff)
  ultimately show ?thesis
    by (simp add: MiningBlob_Deserialize_def MiningBlob_Serialize_def codec_simps n)
qed

definition commitment_wf :: "Commitment \<Rightarrow> bool" where
  "commitment_wf m \<longleftrightarrow> length (cm_Ancestors m) = MINIDAG_ANCESTORS \<and>
     length (cm_OtherChains m) < MAX_MERGE_MINED_CHAINS"

lemma Commitment_codec [codec_simps]:
  assumes "commitment_wf m"
  shows "Commitment_Deserialize (NewDes (Commitment_Serialize m @ rest)) = Inr (m, NewDes rest)"
proof -
  have "length (cm_OtherChains m) < 2 ^ 63"
    using assms by (simp add: commitment_wf_def config_defs)
  note n = unat_length64 [OF this] sint_length64 [OF this]
  have "\<not> int (length (cm_OtherChains m)) > MAX_MERGE_MINED_CHAINS - 1"
    using assms by (simp add: commitment_wf_def config_defs)
  with n assms show ?thesis
    by (simp add: Commitment_Deserialize_def Commitment_Serialize_def codec_simps commitment_wf_def)
qed

interpretation commitment_codec: codec Commitment_Serialize Commitment_Deserialize commitment_wf
  by unfold_locales (rule Commitment_codec)

lemma read_side_blocks_Serialize [codec_simps]:
  "list_all commitment_wf ss \<Longrightarrow>
   read_side_blocks (length ss) (NewDes (concat (map Commitment_Serialize ss) @ rest))
     = Inr (ss, NewDes rest)"
  by (induction ss) (simp_all add: codec_simps)

lemma tx_hash_codec [codec_simps]:
  "Des_checked (ReadArray (NewDes (AddArray (h :: hash) @ rest))) = Inr (h, NewDes rest)"
  by (simp add: codec_simps)

interpretation tx_hash: codec "AddArray :: hash \<Rightarrow> bytes" "\<lambda>d. Des_checked (ReadArray d)" "\<lambda>_. True"
  by unfold_locales (simp add: codec_simps)

text \<open>Headers of version zero carry no stake.\<close>

definition header_wf :: "'b BlockHeader_scheme \<Rightarrow> bool" where
  "header_wf b \<longleftrightarrow>
     length (bl_Ancestors b) = MINIDAG_ANCESTORS \<and>
     length (OtherChains b) < MAX_MERGE_MINED_CHAINS \<and>
     length (SideBlocks b) \<le> MAX_SIDE_BLOCKS \<and> list_all commitment_wf (SideBlocks b) \<and>
     (Version b = 0 \<longrightarrow> bl_DelegateId b = 0 \<and> NextDelegateId b = 0 \<and> StakeSignature b = 0)"

lemma BlockHeader_codec:
  fixes b :: BlockHeader
  assumes "header_wf b"
  shows "BlockHeader_Deserialize (BlockHeader_Serialize b @ rest) = Inr (b, rest)"
proof -
  have l: "length (OtherChains b) < 2 ^ 63" "length (SideBlocks b) < 2 ^ 63"
    using assms by (simp_all add: header_wf_def config_defs)
  note n = unat_length64 [OF l(1)] sint_length64 [OF l(1)] unat_length64 [OF l(2)] sint_length64 [OF l(2)]
  have lim: "\<not> int (length (OtherChains b)) > MAX_MERGE_MINED_CHAINS - 1"
      "\<not> int (length (SideBlocks b)) > MAX_SIDE_BLOCKS"
    using assms by (simp_all add: header_wf_def config_defs)
  show ?thesis
  proof (cases "Version b = 0")
    case True
    then show ?thesis
      using n lim assms
      by (simp add: BlockHeader_Deserialize_def BlockHeader_Serialize_def codec_simps header_wf_def
          AddFixedByteArray_def)
  next
    case False
    then show ?thesis
      using n lim assms
      by (simp add: BlockHeader_Deserialize_def BlockHeader_Serialize_def codec_simps header_wf_def
          AddFixedByteArray_def word_neq_0_conv)
  qed
qed

lemma copy16_diff_bytes: "U128_FromBytes (copy16 (diff_bytes u)) = Inr u"
proof -
  obtain n where n: "rev (U128_PutBytes u) = replicate n 0 @ strip_zeros (rev (U128_PutBytes u))"
    using strip_zeros_suffix by blast
  then have pb: "U128_PutBytes u = diff_bytes u @ replicate n 0"
    unfolding diff_bytes_def by (metis rev_append rev_replicate rev_rev_ident)
  moreover have "length (U128_PutBytes u) = 16" by (simp add: U128_PutBytes_def)
  ultimately have len: "length (diff_bytes u) + n = 16" by simp
  have "copy16 (diff_bytes u) = diff_bytes u @ replicate n 0"
    using len by (simp add: copy16_def)
  then show ?thesis using pb U128_FromBytes_PutBytes [of u] by simp
qed

lemma length_diff_bytes: "length (diff_bytes u) \<le> 16"
  using length_strip_zeros [of "rev (U128_PutBytes u)"] by (simp add: diff_bytes_def U128_PutBytes_def)

lemma BlockHeader_Serialize_truncate:
  "BlockHeader_Serialize (BlockHeader.truncate b) = BlockHeader_Serialize b"
  by (simp add: BlockHeader_Serialize_def BlockHeader.truncate_def)

lemma header_wf_truncate: "header_wf (BlockHeader.truncate b) = header_wf b"
  by (simp add: header_wf_def BlockHeader.truncate_def)

lemma header_block_truncate:
  "header_block (BlockHeader.truncate b) (Difficulty b) (bl_CumulativeDiff b) (bl_Transactions b) = b"
  by (simp add: header_block_def BlockHeader.truncate_def BlockHeader.extend_def)

definition block_wf :: "Block \<Rightarrow> bool" where
  "block_wf b \<longleftrightarrow> header_wf b \<and> \<not> U128_IsZero (Difficulty b) \<and>
     length (bl_Transactions b) \<le> MAX_TX_PER_BLOCK"

lemma Block_codec:
  assumes "block_wf b"
  shows "Block_Deserialize (Block_Serialize b) = Inr b"
proof -
  let ?h = "BlockHeader.truncate b" and ?txs = "bl_Transactions b"
  have h: "BlockHeader_Deserialize (BlockHeader_Serialize b @ rest) = Inr (?h, rest)" for rest
    using assms BlockHeader_codec [of ?h rest]
    by (simp add: BlockHeader_Serialize_truncate header_wf_truncate block_wf_def)
  have len: "length ?txs < 2 ^ 63" using assms by (simp add: block_wf_def config_defs)
  then have n: "unat (word_of_nat (length ?txs) :: u64) = length ?txs" by (rule unat_length64)
  have lim: "\<not> (word_of_nat (length ?txs) :: u64) > MAX_TX_PER_BLOCK"
    using assms n by (simp add: word_less_nat_alt block_wf_def config_defs)
  have d: "length (diff_bytes u) < 2 ^ 63" for u
    using length_diff_bytes [of u] by simp
  note rb = ReadByteSlice_AddByteSlice [OF d]
  have "read_n (\<lambda>d. Des_checked (ReadArray d)) (length ?txs) (NewDes (concat (map AddArray ?txs)))
      = Inr (?txs, NewDes [])"
    using tx_hash.read_n_enc [of ?txs "[]"] by (simp add: list_all_iff)
  then show ?thesis
    using assms n lim
    by (simp add: Block_Deserialize_def Block_Serialize_def block_wf_def h codec_simps rb
        copy16_diff_bytes header_block_truncate)
qed

section \<open>Proof of work and difficulty\<close>

lemma U128_Cmp_le: "U128_Cmp u v \<le> 0 \<longleftrightarrow> val128 u \<le> val128 v"
  by (simp add: U128_Cmp_val)

lemma ValidPowHash32_iff:
  assumes "val128 diff \<noteq> 0"
  shows "ValidPowHash32 h diff =
    Inr (le_val (drop 16 (arr_bytes h)) * val128 diff \<le> 2 ^ 128 - 1)"
proof -
  let ?b = "drop 16 (arr_bytes h)"
  have len: "length ?b = 16" by simp
  have spl: "le_val ?b = le_val (take 8 ?b) + 2 ^ 64 * le_val (drop 8 ?b)"
  proof -
    have "le_val (xs @ ys) = le_val xs + 256 ^ length xs * le_val ys" for xs ys
      by (induction xs) (simp_all add: algebra_simps)
    from this [of "take 8 ?b" "drop 8 ?b"] show ?thesis
      unfolding append_take_drop_id by (simp add: len)
  qed
  have b8: "le_val xs < 2 ^ 64" if "length xs = 8" for xs
    using le_val_bound [of xs] that by (simp add: power256)
  have d8: "take 8 (drop 8 ?b) = drop 8 ?b" using len by simp
  obtain v where v: "HashToVal h = Inr v" "val128 v = le_val ?b"
  proof
    show "HashToVal h = Inr (Uint128 (word_of_nat (le_val (take 8 ?b))) (word_of_nat (le_val (drop 8 ?b))))"
      using len d8 by (simp add: HashToVal_def U128_FromBytes_def U128_New_def del: drop_drop)
    show "val128 (Uint128 (word_of_nat (le_val (take 8 ?b))) (word_of_nat (le_val (drop 8 ?b)))) = le_val ?b"
      using b8 [of "take 8 ?b"] b8 [of "drop 8 ?b"] len
      by (simp add: val128_def spl unat_of_nat64 del: drop_drop)
  qed
  have "val128 U128_Max div val128 diff < 2 ^ 128"
    using val128_bound [of U128_Max] div_le_dividend le_less_trans by blast
  then have "val128 (of128 (val128 U128_Max div val128 diff)) = val128 U128_Max div val128 diff"
    by simp
  then show ?thesis
    using assms v
    by (simp add: ValidPowHash32_def U128_Div_val U128_Cmp_le val128_Max less_eq_div_iff_mult_less_eq)
qed

text \<open>A staked block counts with its difficulty and two thirds of it for each side block; a block
  that is not staked counts half of that.\<close>

definition contribution :: "Block \<Rightarrow> nat" where
  "contribution b =
     (let d = val128 (Difficulty b);
          total = d + d * (2 * length (SideBlocks b)) div 3
      in if Version b > 0 \<and> StakeSignature b = BlankSignature then total div 2 else total)"

lemma ContributionToCumulativeDiff_val:
  assumes "length (SideBlocks b) \<le> MAX_SIDE_BLOCKS" "4 * val128 (Difficulty b) < 2 ^ 128"
  shows "ContributionToCumulativeDiff b = Inr (of128 (contribution b))"
proof -
  let ?n = "length (SideBlocks b)" and ?d = "val128 (Difficulty b)"
  have n: "?n \<le> 2" using assms(1) by (simp add: config_defs)
  then have u: "unat (2 * word_of_nat ?n :: u64) = 2 * ?n"
    by (subst unat_mult64) (simp_all add: unat_of_nat64)
  have "?d * (2 * ?n) \<le> ?d * 4" using n by (intro mult_left_mono) simp_all
  moreover have "?d * 4 < 2 ^ 128" using assms(2) by (simp only: mult.commute)
  ultimately have m: "?d * (2 * ?n) < 2 ^ 128" by (rule le_less_trans)
  have dv: "?d * (2 * ?n) div 3 < 2 ^ 128" using m div_le_dividend le_less_trans by blast
  have sum: "?d + ?d * (2 * ?n) div 3 < 2 ^ 128"
    using div_le_mono [OF \<open>?d * (2 * ?n) \<le> ?d * 4\<close>, of 3] assms(2) by linarith
  have c3: "unat (3 :: u64) = 3" "unat (2 :: u64) = 2" by simp_all
  show ?thesis
    using m dv sum
    by (simp add: ContributionToCumulativeDiff_def U128_Mul64_val u U128_Div64_val U128_Add_val c3
        contribution_def Let_def)
qed

section \<open>Ancestors\<close>

lemma AddHash_wf: "length a = MINIDAG_ANCESTORS \<Longrightarrow> length (AddHash a h) = MINIDAG_ANCESTORS"
  by (simp add: AddHash_def config_defs)

lemma AddHash_nth:
  "i < length a \<Longrightarrow> AddHash a h ! i = (if i = 0 then h else a ! (i - 1))"
  by (cases i) (simp_all add: AddHash_def)

lemma index_of_Some:
  "index_of x i ys = Some j \<Longrightarrow> i \<le> j \<and> nat (j - i) < length ys \<and> ys ! nat (j - i) = x"
proof (induction ys arbitrary: i)
  case (Cons y ys)
  show ?case
  proof (cases "x = y")
    case False
    with Cons have "i + 1 \<le> j \<and> nat (j - (i + 1)) < length ys \<and> ys ! nat (j - (i + 1)) = x" by simp
    moreover from this have "nat (j - i) = Suc (nat (j - (i + 1)))" by linarith
    ultimately show ?thesis by simp
  qed (use Cons in simp)
qed simp

lemma index_of_None: "index_of x i ys = None \<longleftrightarrow> x \<notin> set ys"
  by (induction ys arbitrary: i) auto

lemma FindCommon_cases:
  obtains "FindCommon a b = -1" "set a \<inter> set b = {}"
  | k where "FindCommon a b = int k" "k < length b" "b ! k \<in> set a"
proof (induction a arbitrary: thesis)
  case (Cons x xs)
  show ?case
  proof (cases "index_of x 0 b")
    case None
    then have "x \<notin> set b" by (simp add: index_of_None)
    moreover have "FindCommon (x # xs) b = FindCommon xs b" using None by simp
    ultimately show ?thesis
      using Cons.prems by (cases rule: Cons.IH) auto
  next
    case (Some j)
    with index_of_Some [OF Some] show ?thesis by (intro Cons.prems(2) [of "nat j"]) auto
  qed
qed simp

lemma FindCommon_none: "FindCommon a b = -1 \<longleftrightarrow> set a \<inter> set b = {}"
  by (cases rule: FindCommon_cases [of a b]) (auto dest: nth_mem)

end
