(* ===== verification/Adb.thy ===== *)
theory Adb
  imports Blocks
begin

text \<open>
  The database of the node: the operations of the interface \<open>Txn\<close> of \<^verbatim>\<open>src/adb/adb.go\<close>, the ten
  indices of \<open>Blockchain.Index\<close>, and the two records of \<^verbatim>\<open>src/blockchain/bc-stats.go\<close> that the node
  keeps in the index \<open>info\<close> in Go's gob encoding. The storage engines behind the interface and gob are
  not part of the program: their operations are fields of the record \<open>ext\<close>, which also carries the
  cryptographic functions and which the definitions of the node take as an argument.

  The locale \<open>adb_txn\<close> states what the node relies on: a lookup after a put or a delete, that a
  successful put is the only effect, that iteration visits every key once and in key order, and that
  gob decodes what it encoded. The sums over an index that the accounting theorems speak about are
  computed inside it.
\<close>

section \<open>Indices and statistics\<close>

datatype index =
    IdxInfo | IdxBlock | IdxTopo | IdxState | IdxTx | IdxInTx | IdxOutTx | IdxDelegate | IdxStakeSig
  | IdxDelegateHistory

record AltchainTip =
  tip_Hash :: hash
  tip_Height :: u64
  tip_CumulativeDiff :: Uint128

record Orphan =
  or_Hash :: hash
  or_PrevHash :: hash

text \<open>The maps of the statistics are association lists: Go iterates over a map in an arbitrary order,
  here the order of the list.\<close>

record Stats =
  TopHash :: hash
  TopHeight :: u64
  CumulativeDiff :: Uint128
  Tips :: "(hash \<times> AltchainTip) list"
  Orphans :: "(hash \<times> Orphan) list"
  StakedAmount :: u64

definition Stats_Staked :: "Stats \<Rightarrow> u64 \<Rightarrow> Stats outcome" where
  "Stats_Staked s amount =
     (if StakedAmount s + amount < StakedAmount s then (s, Some (Err ''add overflow''))
      else (s\<lparr>StakedAmount := StakedAmount s + amount\<rparr>, None))"

definition Stats_Unstaked :: "Stats \<Rightarrow> u64 \<Rightarrow> Stats outcome" where
  "Stats_Unstaked s amount =
     (if StakedAmount s - amount > StakedAmount s then (s, Some (Err ''sub overflow''))
      else (s\<lparr>StakedAmount := StakedAmount s - amount\<rparr>, None))"

record MempoolEntry =
  me_TXID :: hash
  me_TxVersion :: u8
  me_Size :: u64
  me_Fee :: u64
  me_Expires :: int
  me_Signer :: address
  me_Inputs :: "StateInput list"
  me_Outputs :: "Output list"

type_synonym Mempool = "MempoolEntry list"

text \<open>\<open>Mempool.Serialize\<close> drops the entries that have expired before it encodes the rest.\<close>

definition Mempool_expire :: "int \<Rightarrow> Mempool \<Rightarrow> Mempool" where
  "Mempool_expire now entries = filter (\<lambda>v. me_Expires v \<ge> now) entries"

definition GetEntry :: "Mempool \<Rightarrow> hash \<Rightarrow> MempoolEntry option" where
  "GetEntry m h = find (\<lambda>v. me_TXID v = h) m"

fun DeleteEntry :: "Mempool \<Rightarrow> hash \<Rightarrow> Mempool" where
  "DeleteEntry [] h = []"
| "DeleteEntry (v # vs) h = (if me_TXID v = h then vs else v # DeleteEntry vs h)"

section \<open>What is outside the program\<close>

record 't ext = crypto +
  kvGet :: "'t \<Rightarrow> index \<Rightarrow> bytes \<Rightarrow> bytes option"
  kvPut :: "'t \<Rightarrow> index \<Rightarrow> bytes \<Rightarrow> bytes \<Rightarrow> 't outcome"
  kvDel :: "'t \<Rightarrow> index \<Rightarrow> bytes \<Rightarrow> 't outcome"
  kvForEach :: "'t \<Rightarrow> index \<Rightarrow> (bytes \<times> bytes) list"
  gob_encode_Stats :: "Stats \<Rightarrow> bytes"
  gob_decode_Stats :: "bytes \<Rightarrow> Stats option"
  gob_encode_Mempool :: "Mempool \<Rightarrow> bytes"
  gob_decode_Mempool :: "bytes \<Rightarrow> Mempool option"

text \<open>\<open>DB.Update\<close> keeps the changes of its function only when it returns without an error.\<close>

definition DB_Update :: "('t \<Rightarrow> 't outcome) \<Rightarrow> 't \<Rightarrow> 't outcome" where
  "DB_Update f t = (case f t of (t', None) \<Rightarrow> (t', None) | (t', Some err) \<Rightarrow> (t, Some err))"

section \<open>The contract of a database transaction\<close>

locale adb_txn =
  fixes e :: "('t, 'x) ext_scheme"
  assumes put_ok: "snd (kvPut e t i k v) = None"
    and get_put: "kvGet e (fst (kvPut e t i k v)) j l = (if j = i \<and> l = k then Some v else kvGet e t j l)"
    and get_del: "snd (kvDel e t i k) = None \<Longrightarrow>
      kvGet e (fst (kvDel e t i k)) j l = (if j = i \<and> l = k then None else kvGet e t j l)"
    and del_err: "snd (kvDel e t i k) \<noteq> None \<Longrightarrow> fst (kvDel e t i k) = t"
    and foreach_sorted: "sorted_wrt (<) (map fst (kvForEach e t i))"
    and foreach_get: "map_of (kvForEach e t i) k = kvGet e t i k"
    and gob_Stats: "gob_decode_Stats e (gob_encode_Stats e s) = Some s"
    and gob_Stats_nonempty: "gob_encode_Stats e s \<noteq> []"
    and gob_Mempool: "gob_decode_Mempool e (gob_encode_Mempool e m) = Some m"
begin

lemma put_cases:
  obtains t' where "kvPut e t i k v = (t', None)"
    "\<And>j l. kvGet e t' j l = (if j = i \<and> l = k then Some v else kvGet e t j l)"
  using put_ok [of t i k v] get_put [of t i k v] by (metis prod.collapse)

lemma foreach_distinct: "distinct (map fst (kvForEach e t i))"
  using foreach_sorted [of t i] by (simp add: strict_sorted_iff)

lemma dom_get: "dom (kvGet e t i) = fst ` set (kvForEach e t i)"
  by (metis dom_map_of_conv_image_fst foreach_get ext)

lemma finite_dom [simp]: "finite (dom (kvGet e t i))"
  by (simp add: dom_get)

lemma foreach_in: "(k, v) \<in> set (kvForEach e t i) \<longleftrightarrow> kvGet e t i k = Some v"
  by (metis foreach_distinct foreach_get map_of_eq_Some_iff)

end

text \<open>The sum of a measure over the entries of an index, in the order of the iteration.\<close>

definition kv_sum :: "('t, 'x) ext_scheme \<Rightarrow> 't \<Rightarrow> index \<Rightarrow> (bytes \<Rightarrow> nat) \<Rightarrow> nat" where
  "kv_sum e t i f = (\<Sum>(k, v)\<leftarrow>kvForEach e t i. f v)"

context adb_txn
begin

lemma kv_sum_dom: "kv_sum e t i f = (\<Sum>k\<in>dom (kvGet e t i). f (the (kvGet e t i k)))"
proof -
  have "kv_sum e t i f = (\<Sum>p\<in>set (kvForEach e t i). f (snd p))"
    using foreach_distinct [of t i]
    by (simp add: kv_sum_def sum_list_distinct_conv_sum_set distinct_map case_prod_unfold)
  also have "\<dots> = (\<Sum>k\<in>fst ` set (kvForEach e t i). f (the (kvGet e t i k)))"
    using foreach_distinct [of t i]
    by (subst sum.reindex) (auto simp: distinct_map foreach_in intro!: sum.cong)
  finally show ?thesis by (simp add: dom_get)
qed

lemma kv_sum_cong: "(\<And>k. kvGet e t' i k = kvGet e t i k) \<Longrightarrow> kv_sum e t' i f = kv_sum e t i f"
  by (simp add: kv_sum_dom dom_def)

lemma kv_sum_update:
  assumes "\<And>l. kvGet e t' i l = (if l = k then Some v else kvGet e t i l)"
  shows "kv_sum e t' i f + (case kvGet e t i k of None \<Rightarrow> 0 | Some w \<Rightarrow> f w) = kv_sum e t i f + f v"
proof -
  let ?g = "\<lambda>t. \<Sum>l\<in>dom (kvGet e t i) - {k}. f (the (kvGet e t i l))"
  have d: "dom (kvGet e t' i) = insert k (dom (kvGet e t i))" using assms by auto
  have "kv_sum e t' i f = f v + ?g t'"
    unfolding kv_sum_dom using assms [of k]
    by (subst sum.remove [of _ k]) (simp_all add: d domIff)
  moreover have "?g t' = ?g t" by (intro sum.cong) (auto simp: d assms)
  moreover have "kv_sum e t i f = (case kvGet e t i k of None \<Rightarrow> 0 | Some w \<Rightarrow> f w) + ?g t"
  proof (cases "kvGet e t i k")
    case None
    then have "dom (kvGet e t i) - {k} = dom (kvGet e t i)" by auto
    with None show ?thesis by (simp add: kv_sum_dom)
  next
    case (Some w)
    then show ?thesis
      unfolding kv_sum_dom by (subst sum.remove [of _ k]) (simp_all add: domI)
  qed
  ultimately show ?thesis by simp
qed

lemma kv_sum_ge: "kvGet e t i k = Some v \<Longrightarrow> f v \<le> kv_sum e t i f"
  unfolding kv_sum_dom
  by (metis (no_types, lifting) domI finite_dom member_le_sum option.sel zero_le)

end

end
