(* ===== verification/AdbMem.thy ===== *)
theory AdbMem
  imports Adb "HOL-Library.RBT"
begin

text \<open>
  A database transaction in memory: one red-black tree per index, and an encoding of the statistics
  and of the mempool written with the serializer of the program in the place of gob. It satisfies the
  contract \<open>adb_txn\<close>, so the theorems about the node have an instance that computes.
\<close>

section \<open>Encodings for the index info\<close>

definition put_list :: "('a \<Rightarrow> bytes) \<Rightarrow> 'a list \<Rightarrow> bytes" where
  "put_list f xs = concat (map (\<lambda>x. AddUint8 1 @ f x) xs) @ AddUint8 0"

text \<open>Lists are terminated by a marker, so that the reader needs no length; \<open>fuel\<close> bounds the number
  of elements by the number of bytes.\<close>

fun get_list :: "(Des \<Rightarrow> 'a \<times> Des) \<Rightarrow> nat \<Rightarrow> Des \<Rightarrow> 'a list \<times> Des" where
  "get_list f 0 d = ([], d)"
| "get_list f (Suc n) d =
     (let (m, d) = ReadUint8 d
      in if m = 1 then let (x, d) = f d; (xs, d) = get_list f n d in (x # xs, d) else ([], d))"

definition get_all :: "(Des \<Rightarrow> 'a \<times> Des) \<Rightarrow> Des \<Rightarrow> 'a list \<times> Des" where
  "get_all f d = get_list f (length (RemainingData d)) d"

lemma get_list_put_list:
  assumes "\<And>x rest. f (NewDes (g x @ rest)) = (x, NewDes rest)"
  shows "length xs < n \<Longrightarrow> get_list f n (NewDes (put_list g xs @ rest)) = (xs, NewDes rest)"
proof (induction xs arbitrary: n)
  case Nil
  then show ?case by (cases n) (simp_all add: put_list_def codec_simps)
next
  case (Cons x xs)
  then obtain m where m: "n = Suc m" "length xs < m" by (cases n) auto
  have "put_list g (x # xs) @ rest = AddUint8 1 @ g x @ put_list g xs @ rest"
    by (simp add: put_list_def)
  with m show ?case by (simp add: codec_simps assms Cons.IH)
qed

lemma length_put_list: "length xs < length (put_list g xs)"
  by (induction xs) (simp_all add: put_list_def AddUint8_def)

lemma get_all_put_list:
  assumes "\<And>x rest. f (NewDes (g x @ rest)) = (x, NewDes rest)"
  shows "get_all f (NewDes (put_list g xs @ rest)) = (xs, NewDes rest)"
  using get_list_put_list [OF assms] length_put_list [of xs g] by (simp add: get_all_def)

definition put_tip :: "hash \<times> AltchainTip \<Rightarrow> bytes" where
  "put_tip = (\<lambda>(k, v). AddArray k @ AddArray (tip_Hash v) @ AddUint64 (tip_Height v) @
     AddUint64 (Lo (tip_CumulativeDiff v)) @ AddUint64 (Hi (tip_CumulativeDiff v)))"

definition get_tip :: "Des \<Rightarrow> (hash \<times> AltchainTip) \<times> Des" where
  "get_tip d =
     (let (k, d) = ReadArray d; (h, d) = ReadArray d; (n, d) = ReadUint64 d; (lo, d) = ReadUint64 d;
          (hi, d) = ReadUint64 d
      in ((k, \<lparr>tip_Hash = h, tip_Height = n, tip_CumulativeDiff = Uint128 lo hi\<rparr>), d))"

definition put_orphan :: "hash \<times> Orphan \<Rightarrow> bytes" where
  "put_orphan = (\<lambda>(k, v). AddArray k @ AddArray (or_Hash v) @ AddArray (or_PrevHash v))"

definition get_orphan :: "Des \<Rightarrow> (hash \<times> Orphan) \<times> Des" where
  "get_orphan d =
     (let (k, d) = ReadArray d; (h, d) = ReadArray d; (p, d) = ReadArray d
      in ((k, \<lparr>or_Hash = h, or_PrevHash = p\<rparr>), d))"

definition put_Stats :: "Stats \<Rightarrow> bytes" where
  "put_Stats s =
     AddArray (TopHash s) @ AddUint64 (TopHeight s) @ AddUint64 (Lo (CumulativeDiff s)) @
     AddUint64 (Hi (CumulativeDiff s)) @ put_list put_tip (Tips s) @
     put_list put_orphan (Orphans s) @ AddUint64 (StakedAmount s)"

definition get_Stats :: "bytes \<Rightarrow> Stats option" where
  "get_Stats b =
     (let (h, d) = ReadArray (NewDes b); (n, d) = ReadUint64 d; (lo, d) = ReadUint64 d;
          (hi, d) = ReadUint64 d; (tips, d) = get_all get_tip d; (orphs, d) = get_all get_orphan d;
          (st, d) = ReadUint64 d
      in if des_err d \<noteq> None then None
         else Some \<lparr>TopHash = h, TopHeight = n, CumulativeDiff = Uint128 lo hi, Tips = tips,
                    Orphans = orphs, StakedAmount = st\<rparr>)"

lemma get_tip_put_tip: "get_tip (NewDes (put_tip x @ rest)) = (x, NewDes rest)"
  by (cases x) (simp add: get_tip_def put_tip_def codec_simps)

lemma get_orphan_put_orphan: "get_orphan (NewDes (put_orphan x @ rest)) = (x, NewDes rest)"
  by (cases x) (simp add: get_orphan_def put_orphan_def codec_simps)

lemma ReadUint64_last [codec_simps]: "ReadUint64 (NewDes (AddUint64 x)) = (x, NewDes [])"
  using ReadUint64_AddUint64 [of x "[]"] by simp

lemma get_Stats_put_Stats: "get_Stats (put_Stats s) = Some s"
  by (simp add: get_Stats_def put_Stats_def codec_simps get_all_put_list [OF get_tip_put_tip]
      get_all_put_list [OF get_orphan_put_orphan])

definition put_input :: "StateInput \<Rightarrow> bytes" where
  "put_input v = AddUint64 (si_Amount v) @ AddArray (si_Sender v) @
     AddUint8 (case si_Type v of IN_NORMAL \<Rightarrow> 0 | IN_UNSTAKE \<Rightarrow> 1) @ AddUint64 (si_ExtraData v)"

definition get_input :: "Des \<Rightarrow> StateInput \<times> Des" where
  "get_input d =
     (let (a, d) = ReadUint64 d; (s, d) = ReadArray d; (ty, d) = ReadUint8 d; (x, d) = ReadUint64 d
      in (\<lparr>si_Amount = a, si_Sender = s, si_Type = (if ty = 0 then IN_NORMAL else IN_UNSTAKE),
           si_ExtraData = x\<rparr>, d))"

lemma get_input_put_input: "get_input (NewDes (put_input x @ rest)) = (x, NewDes rest)"
  by (simp add: get_input_def put_input_def codec_simps split: StateInputType.split)

text \<open>A signed number as its sign and the bytes of its magnitude.\<close>

definition put_int :: "int \<Rightarrow> bytes" where
  "put_int n = AddUint8 (if n < 0 then 1 else 0) @ put_list (\<lambda>b. [b]) (big_Bytes (nat \<bar>n\<bar>))"

definition get_int :: "Des \<Rightarrow> int \<times> Des" where
  "get_int d =
     (let (s, d) = ReadUint8 d; (b, d) = get_all ReadUint8 d
      in (if s = 1 then - int (le_val (rev b)) else int (le_val (rev b)), d))"

lemma get_int_put_int: "get_int (NewDes (put_int n @ rest)) = (n, NewDes rest)"
proof -
  have "ReadUint8 (NewDes ([b] @ rest)) = (b, NewDes rest)" for b rest
    using ReadUint8_AddUint8 [of b rest] by (simp add: AddUint8_def)
  from get_all_put_list [OF this] show ?thesis
    by (simp add: get_int_def put_int_def codec_simps le_val_rev_big_Bytes)
qed

definition put_entry :: "MempoolEntry \<Rightarrow> bytes" where
  "put_entry v = AddArray (me_TXID v) @ AddUint8 (me_TxVersion v) @ AddUint64 (me_Size v) @
     AddUint64 (me_Fee v) @ put_int (me_Expires v) @ AddArray (me_Signer v) @
     put_list put_input (me_Inputs v) @ put_list Output_Serialize (me_Outputs v)"

definition get_entry :: "Des \<Rightarrow> MempoolEntry \<times> Des" where
  "get_entry d =
     (let (h, d) = ReadArray d; (ver, d) = ReadUint8 d; (sz, d) = ReadUint64 d; (fee, d) = ReadUint64 d;
          (ex, d) = get_int d; (sg, d) = ReadArray d; (ins, d) = get_all get_input d;
          (outs, d) = get_all Output_Deserialize d
      in (\<lparr>me_TXID = h, me_TxVersion = ver, me_Size = sz, me_Fee = fee, me_Expires = ex,
           me_Signer = sg, me_Inputs = ins, me_Outputs = outs\<rparr>, d))"

lemma get_entry_put_entry: "get_entry (NewDes (put_entry x @ rest)) = (x, NewDes rest)"
  by (simp add: get_entry_def put_entry_def codec_simps get_int_put_int
      get_all_put_list [OF get_input_put_input] get_all_put_list [OF Output_Deserialize_Serialize])

definition get_Mempool :: "bytes \<Rightarrow> Mempool option" where
  "get_Mempool b =
     (let (m, d) = get_all get_entry (NewDes b) in if des_err d \<noteq> None then None else Some m)"

lemma get_Mempool_put: "get_Mempool (put_list put_entry m) = Some m"
  using get_all_put_list [OF get_entry_put_entry, of m "[]"] by (simp add: get_Mempool_def)

section \<open>Transactions in memory\<close>

type_synonym mem = "index \<Rightarrow> (bytes, bytes) RBT.rbt"

definition mem_empty :: mem where
  "mem_empty = (\<lambda>i. RBT.empty)"

definition mem_ext :: "crypto \<Rightarrow> mem ext" where
  "mem_ext c = crypto.extend c
     \<lparr>kvGet = (\<lambda>t i k. RBT.lookup (t i) k),
      kvPut = (\<lambda>t i k v. (t(i := RBT.insert k v (t i)), None)),
      kvDel = (\<lambda>t i k.
        if RBT.lookup (t i) k = None then (t, Some (Err ''not found''))
        else (t(i := RBT.delete k (t i)), None)),
      kvForEach = (\<lambda>t i. RBT.entries (t i)),
      gob_encode_Stats = put_Stats, gob_decode_Stats = get_Stats,
      gob_encode_Mempool = put_list put_entry, gob_decode_Mempool = get_Mempool\<rparr>"

lemma mem_ext_simps [simp]:
  "kvGet (mem_ext c) t i k = RBT.lookup (t i) k"
  "kvPut (mem_ext c) t i k v = (t(i := RBT.insert k v (t i)), None)"
  "kvDel (mem_ext c) t i k =
     (if RBT.lookup (t i) k = None then (t, Some (Err ''not found''))
      else (t(i := RBT.delete k (t i)), None))"
  "kvForEach (mem_ext c) t i = RBT.entries (t i)"
  "gob_encode_Stats (mem_ext c) = put_Stats" "gob_decode_Stats (mem_ext c) = get_Stats"
  "gob_encode_Mempool (mem_ext c) = put_list put_entry"
  "gob_decode_Mempool (mem_ext c) = get_Mempool"
  "blake3_Sum256 (mem_ext c) = blake3_Sum256 c"
  "randomvirel_PowHash (mem_ext c) = randomvirel_PowHash c"
  "ed25519_Verify (mem_ext c) = ed25519_Verify c"
  "ed25519_Sign (mem_ext c) = ed25519_Sign c"
  by (simp_all add: mem_ext_def crypto.extend_def)

lemma put_Stats_nonempty: "put_Stats s \<noteq> []"
  by (simp add: put_Stats_def AddArray_def AddFixedByteArray_def flip: length_0_conv)

interpretation mem: adb_txn "mem_ext c"
proof unfold_locales
  fix t :: mem and i
  show "sorted_wrt (<) (map fst (kvForEach (mem_ext c) t i))"
    using RBT.sorted_entries [of "t i"] RBT.distinct_entries [of "t i"]
    by (simp add: strict_sorted_iff)
qed (auto simp: RBT.map_of_entries get_Stats_put_Stats get_Mempool_put put_Stats_nonempty
       split: if_splits)

text \<open>Concrete functions in the place of the cryptography, for evaluations: the hash adds up the
  bytes of its input with their positions, and every signature is accepted.\<close>

definition toy_hash :: "bytes \<Rightarrow> hash" where
  "toy_hash bs = foldl (\<lambda>h b. 31 * h + ucast b + 1) 7 bs"

definition toy_crypto :: crypto where
  "toy_crypto = \<lparr>blake3_Sum256 = toy_hash, randomvirel_PowHash = (\<lambda>s b. toy_hash b),
     ed25519_Verify = (\<lambda>p m s. True), ed25519_Sign = (\<lambda>k m. ucast (toy_hash m))\<rparr>"

end
