(* ===== verification/Packets.thy ===== *)
theory Packets
  imports Blocks
begin

text \<open>
  The packets of \<^verbatim>\<open>src/p2p/packet/packdata.go\<close>: the statistics of a peer, a request for blocks and a
  stake signature, with the round trips of their encodings.
\<close>

record PacketStats =
  ps_Height :: u64
  ps_CumulativeDiff :: Uint128
  ps_Hash :: hash

definition PacketStats_Serialize :: "PacketStats \<Rightarrow> bytes" where
  "PacketStats_Serialize p =
     AddUvarint (ps_Height p) @ AddByteSlice (diff_bytes (ps_CumulativeDiff p)) @ AddArray (ps_Hash p)"

definition PacketStats_Deserialize :: "bytes \<Rightarrow> PacketStats res" where
  "PacketStats_Deserialize data =
     (let (height, d) = ReadUvarint (NewDes data)
      in res_bind (ReadByteSlice d) (\<lambda>(sl, d).
         res_bind (U128_FromBytes (copy16 sl)) (\<lambda>diff.
           let (h, d) = ReadArray d
           in case des_err d of Some err \<Rightarrow> Inl err
              | None \<Rightarrow> Inr \<lparr>ps_Height = height, ps_CumulativeDiff = diff, ps_Hash = h\<rparr>)))"

record PacketBlockRequest =
  br_Height :: u64
  br_Hash :: hash
  br_Count :: u8

definition PacketBlockRequest_Serialize :: "PacketBlockRequest \<Rightarrow> bytes" where
  "PacketBlockRequest_Serialize p =
     AddUvarint (br_Height p) @
     (if br_Height p = 0 then AddArray (br_Hash p) else AddUint8 (br_Count p))"

definition PacketBlockRequest_Deserialize :: "bytes \<Rightarrow> PacketBlockRequest res" where
  "PacketBlockRequest_Deserialize data =
     (let (height, s) = ReadUvarint (NewDes data);
          (h, cnt, s) =
            (if height = 0 then let (h, s) = ReadArray s in (h, 0, s)
             else let (c, s) = ReadUint8 s in (0, c, s))
      in case des_err s of Some err \<Rightarrow> Inl err
         | None \<Rightarrow> Inr \<lparr>br_Height = height, br_Hash = h, br_Count = cnt\<rparr>)"

record PacketStakeSignature =
  ss_DelegateId :: u64
  ss_Hash :: hash
  ss_Signature :: signature

definition PacketStakeSignature_Serialize :: "PacketStakeSignature \<Rightarrow> bytes" where
  "PacketStakeSignature_Serialize p =
     AddUvarint (ss_DelegateId p) @ AddArray (ss_Hash p) @ AddArray (ss_Signature p)"

definition PacketStakeSignature_Deserialize :: "bytes \<Rightarrow> PacketStakeSignature res" where
  "PacketStakeSignature_Deserialize data =
     (let (did, s) = ReadUvarint (NewDes data); (h, s) = ReadArray s; (sig, s) = ReadArray s
      in case des_err s of Some err \<Rightarrow> Inl err
         | None \<Rightarrow> Inr \<lparr>ss_DelegateId = did, ss_Hash = h, ss_Signature = sig\<rparr>)"

section \<open>Round trips\<close>

lemma ReadArray_last [codec_simps]:
  fixes w :: "'a::len word"
  assumes "8 dvd LENGTH('a)"
  shows "ReadArray (NewDes (AddArray w)) = (w, NewDes [])"
  using ReadArray_AddArray [OF assms, of w "[]"] by simp

lemma ReadUint8_last [codec_simps]: "ReadUint8 (NewDes (AddUint8 x)) = (x, NewDes [])"
  using ReadUint8_AddUint8 [of x "[]"] by simp

lemma PacketStats_codec: "PacketStats_Deserialize (PacketStats_Serialize p) = Inr p"
proof -
  have "length (diff_bytes u) < 2 ^ 63" for u using length_diff_bytes [of u] by simp
  note rb = ReadByteSlice_AddByteSlice [OF this]
  show ?thesis
    by (simp add: PacketStats_Deserialize_def PacketStats_Serialize_def codec_simps rb copy16_diff_bytes)
qed

text \<open>A request by height carries no hash and a request by hash no count.\<close>

lemma PacketBlockRequest_codec:
  assumes "if br_Height p = 0 then br_Count p = 0 else br_Hash p = 0"
  shows "PacketBlockRequest_Deserialize (PacketBlockRequest_Serialize p) = Inr p"
  using assms
  by (simp add: PacketBlockRequest_Deserialize_def PacketBlockRequest_Serialize_def codec_simps
      split: if_splits)

lemma PacketStakeSignature_codec:
  "PacketStakeSignature_Deserialize (PacketStakeSignature_Serialize p) = Inr p"
  by (simp add: PacketStakeSignature_Deserialize_def PacketStakeSignature_Serialize_def codec_simps)

end
