(* ===== verification/ChainStore.thy ===== *)
theory ChainStore
  imports AdbMem Packets
begin

text \<open>
  The accessors of \<^verbatim>\<open>src/blockchain\<close>: states, statistics, mempool, blocks, topology, transactions,
  delegates and stake signatures, as the node reads and writes them through a database transaction.
  Inside the contract of the database, a value that was written is read back, and an accessor of one
  index leaves the others as they are.
\<close>

section \<open>States, statistics and the mempool\<close>

definition GetState :: "('t, 'x) ext_scheme \<Rightarrow> 't \<Rightarrow> address \<Rightarrow> State res" where
  "GetState e tx addr =
     (case kvGet e tx IdxState (arr_bytes addr) of
        None \<Rightarrow> Inl (Err ''not in state'')
      | Some bin \<Rightarrow> (case State_Deserialize bin of (s, None) \<Rightarrow> Inr s | (s, Some err) \<Rightarrow> Inl err))"

definition SetState :: "('t, 'x) ext_scheme \<Rightarrow> 't \<Rightarrow> address \<Rightarrow> State \<Rightarrow> 't outcome" where
  "SetState e tx addr state = kvPut e tx IdxState (arr_bytes addr) (State_Serialize state)"

definition info_key :: "string \<Rightarrow> bytes" where
  "info_key s = map (\<lambda>c. word_of_nat (of_char c)) s"

text \<open>\<open>Log.Fatal\<close> ends the program.\<close>

definition GetStats :: "('t, 'x) ext_scheme \<Rightarrow> 't \<Rightarrow> Stats res" where
  "GetStats e txn =
     (case kvGet e txn IdxInfo (info_key ''stats'') of
        None \<Rightarrow> Inl (Panic ''stats are empty'')
      | Some d \<Rightarrow> if d = [] then Inl (Panic ''stats are empty'')
                  else case gob_decode_Stats e d of
                         None \<Rightarrow> Inl (Panic ''cannot decode stats'')
                       | Some s \<Rightarrow> Inr s)"

definition setStatsNoBroadcast :: "('t, 'x) ext_scheme \<Rightarrow> 't \<Rightarrow> Stats \<Rightarrow> 't outcome" where
  "setStatsNoBroadcast e tx s = kvPut e tx IdxInfo (info_key ''stats'') (gob_encode_Stats e s)"

text \<open>\<open>SetStats\<close> also sends the statistics to the peers, in another thread.\<close>

definition SetStats :: "('t, 'x) ext_scheme \<Rightarrow> 't \<Rightarrow> Stats \<Rightarrow> 't outcome" where
  "SetStats e tx s = setStatsNoBroadcast e tx s"

definition GetMempool :: "('t, 'x) ext_scheme \<Rightarrow> 't \<Rightarrow> Mempool res" where
  "GetMempool e tx =
     (case kvGet e tx IdxInfo (info_key ''mempool'') of
        None \<Rightarrow> Inl (Panic ''cannot decode mempool'')
      | Some d \<Rightarrow> (case gob_decode_Mempool e d of
                     None \<Rightarrow> Inl (Panic ''cannot decode mempool'')
                   | Some m \<Rightarrow> Inr m))"

definition SetMempool :: "('t, 'x) ext_scheme \<Rightarrow> int \<Rightarrow> 't \<Rightarrow> Mempool \<Rightarrow> 't outcome" where
  "SetMempool e now tx s =
     kvPut e tx IdxInfo (info_key ''mempool'') (gob_encode_Mempool e (Mempool_expire now s))"

section \<open>Blocks\<close>

definition u64_key :: "u64 \<Rightarrow> bytes" where
  "u64_key n = le_bytes 8 (unat n)"

definition insertBlockMain :: "('t, 'x) ext_scheme \<Rightarrow> 't \<Rightarrow> Block \<Rightarrow> 't outcome" where
  "insertBlockMain e tx bl =
     (let h = Block_Hash e bl
      in and_then (kvPut e tx IdxBlock (arr_bytes h) (Block_Serialize bl)) (\<lambda>tx.
           kvPut e tx IdxTopo (u64_key (Height bl)) (arr_bytes h)))"

definition insertBlock :: "('t, 'x) ext_scheme \<Rightarrow> 't \<Rightarrow> Block \<Rightarrow> hash \<Rightarrow> 't outcome" where
  "insertBlock e tx bl h = kvPut e tx IdxBlock (arr_bytes h) (Block_Serialize bl)"

definition GetBlock :: "('t, 'x) ext_scheme \<Rightarrow> 't \<Rightarrow> hash \<Rightarrow> Block res" where
  "GetBlock e tx h =
     (case kvGet e tx IdxBlock (arr_bytes h) of
        None \<Rightarrow> Inl (Err ''block not found'')
      | Some blbin \<Rightarrow> if blbin = [] then Inl (Err ''block not found'') else Block_Deserialize blbin)"

definition GetTopo :: "('t, 'x) ext_scheme \<Rightarrow> 't \<Rightarrow> u64 \<Rightarrow> hash res" where
  "GetTopo e tx height =
     (case kvGet e tx IdxTopo (u64_key height) of
        None \<Rightarrow> Inl (Err ''unknown block at height'')
      | Some topoHash \<Rightarrow> if length topoHash \<noteq> 32 then Inl (Err ''unknown block at height'')
                         else Inr (arr_of topoHash))"

definition DelTopo :: "('t, 'x) ext_scheme \<Rightarrow> 't \<Rightarrow> u64 \<Rightarrow> 't outcome" where
  "DelTopo e txn height = kvDel e txn IdxTopo (u64_key height)"

definition GetBlockByHeight :: "('t, 'x) ext_scheme \<Rightarrow> 't \<Rightarrow> u64 \<Rightarrow> Block res" where
  "GetBlockByHeight e tx height = res_bind (GetTopo e tx height) (\<lambda>h. GetBlock e tx h)"

section \<open>Transactions\<close>

definition topo_key :: "address \<Rightarrow> u64 \<Rightarrow> bytes" where
  "topo_key addr n = arr_bytes addr @ AppendUvarint n"

definition SetTxTopoInc ::
  "('t, 'x) ext_scheme \<Rightarrow> 't \<Rightarrow> hash \<Rightarrow> address \<Rightarrow> u64 \<Rightarrow> 't outcome" where
  "SetTxTopoInc e tx txid addr incid = kvPut e tx IdxInTx (topo_key addr incid) (arr_bytes txid)"

definition SetTxTopoOut ::
  "('t, 'x) ext_scheme \<Rightarrow> 't \<Rightarrow> hash \<Rightarrow> address \<Rightarrow> u64 \<Rightarrow> 't outcome" where
  "SetTxTopoOut e tx txid addr outid = kvPut e tx IdxOutTx (topo_key addr outid) (arr_bytes txid)"

definition GetTxTopoInc :: "('t, 'x) ext_scheme \<Rightarrow> 't \<Rightarrow> address \<Rightarrow> u64 \<Rightarrow> hash res" where
  "GetTxTopoInc e tx addr incid =
     (case kvGet e tx IdxInTx (topo_key addr incid) of
        None \<Rightarrow> Inl (Err ''unknown tx topo inc'')
      | Some bin \<Rightarrow> if length bin \<noteq> 32 then Inl (Err ''unknown tx topo inc'') else Inr (arr_of bin))"

definition GetTxTopoOut :: "('t, 'x) ext_scheme \<Rightarrow> 't \<Rightarrow> address \<Rightarrow> u64 \<Rightarrow> hash res" where
  "GetTxTopoOut e tx addr outid =
     (case kvGet e tx IdxOutTx (topo_key addr outid) of
        None \<Rightarrow> Inl (Err ''unknown tx topo out'')
      | Some bin \<Rightarrow> if length bin \<noteq> 32 then Inl (Err ''unknown tx topo out'') else Inr (arr_of bin))"

text \<open>A transaction that is in no block yet is decoded with the encoding that its height suggests, and
  with the other one when that fails.\<close>

definition decode_either :: "bytes \<Rightarrow> bool \<Rightarrow> Transaction res" where
  "decode_either b first =
     (case Tx_Deserialize b first of
        Inr tx \<Rightarrow> Inr tx
      | Inl (Panic m) \<Rightarrow> Inl (Panic m)
      | Inl (Err m) \<Rightarrow> Tx_Deserialize b (\<not> first))"

definition GetTx :: "('t, 'x) ext_scheme \<Rightarrow> 't \<Rightarrow> hash \<Rightarrow> u64 \<Rightarrow> (Transaction \<times> u64) res" where
  "GetTx e txn h topheight =
     (case kvGet e txn IdxTx (arr_bytes h) of
        None \<Rightarrow> Inl (Err ''transaction not found'')
      | Some txbin \<Rightarrow>
          if txbin = [] then Inl (Err ''transaction not found'')
          else let (includedIn, des) = ReadUint64 (NewDes txbin)
               in if des_err des \<noteq> None then Inl (Err ''failed to deserialize transaction'')
                  else res_bind
                    (if includedIn = 0
                     then decode_either (RemainingData des) (topheight > HARDFORK_V2_HEIGHT)
                     else Tx_Deserialize (RemainingData des) (includedIn \<ge> HARDFORK_V2_HEIGHT))
                    (\<lambda>tx. Inr (tx, includedIn)))"

definition SetTx :: "('t, 'x) ext_scheme \<Rightarrow> 't \<Rightarrow> Transaction \<Rightarrow> hash \<Rightarrow> u64 \<Rightarrow> 't outcome" where
  "SetTx e txn tx h height =
     kvPut e txn IdxTx (arr_bytes h) (AddUint64 height @ AddFixedByteArray (Tx_Serialize tx))"

text \<open>The error of the last put is dropped.\<close>

definition SetTxHeight :: "('t, 'x) ext_scheme \<Rightarrow> 't \<Rightarrow> hash \<Rightarrow> u64 \<Rightarrow> 't outcome" where
  "SetTxHeight e txn h height =
     (let txbin = (case kvGet e txn IdxTx (arr_bytes h) of None \<Rightarrow> [] | Some b \<Rightarrow> b)
      in if length txbin < 8
         then (txn, Some (Err ''cannot SetTxHeight: transaction not in database''))
         else drop_err (kvPut e txn IdxTx (arr_bytes h) (le_bytes 8 (unat height) @ drop 8 txbin)))"

section \<open>Delegates and stake signatures\<close>

definition bc_SetDelegate :: "('t, 'x) ext_scheme \<Rightarrow> 't \<Rightarrow> Delegate \<Rightarrow> 't outcome" where
  "bc_SetDelegate e txn delegate =
     kvPut e txn IdxDelegate (u64_key (d_Id delegate)) (Delegate_Serialize delegate)"

definition delegate_of :: "bytes option \<Rightarrow> Delegate res" where
  "delegate_of b =
     (case b of
        None \<Rightarrow> Inl (Err ''no delegate found'')
      | Some data \<Rightarrow> if length data < 1 then Inl (Err ''no delegate found'')
                     else Delegate_Deserialize data)"

definition GetDelegate :: "('t, 'x) ext_scheme \<Rightarrow> 't \<Rightarrow> u64 \<Rightarrow> Delegate res" where
  "GetDelegate e txn did = delegate_of (kvGet e txn IdxDelegate (u64_key did))"

definition RemoveDelegate :: "('t, 'x) ext_scheme \<Rightarrow> 't \<Rightarrow> u64 \<Rightarrow> 't outcome" where
  "RemoveDelegate e txn did = kvDel e txn IdxDelegate (u64_key did)"

text \<open>\<open>ForEachInterrupt\<close> with the variables that the callback changes as a state: it stops at an error
  or when the callback returns true.\<close>

fun foreach_interrupt ::
  "('s \<Rightarrow> bytes \<Rightarrow> bytes \<Rightarrow> ('s \<times> bool) res) \<Rightarrow> 's \<Rightarrow> (bytes \<times> bytes) list \<Rightarrow> 's res" where
  "foreach_interrupt f s [] = Inr s"
| "foreach_interrupt f s ((k, v) # kvs) =
     res_bind (f s k v) (\<lambda>(s, stop). if stop then Inr s else foreach_interrupt f s kvs)"

definition GetDelegates ::
  "('t, 'x) ext_scheme \<Rightarrow> 't \<Rightarrow> ('s \<Rightarrow> Delegate \<Rightarrow> ('s \<times> bool) res) \<Rightarrow> 's \<Rightarrow> 's res" where
  "GetDelegates e txn f s =
     foreach_interrupt (\<lambda>s k v. res_bind (Delegate_Deserialize v) (\<lambda>d. f s d)) s
       (kvForEach e txn IdxDelegate)"

definition SetDelegateHistory :: "('t, 'x) ext_scheme \<Rightarrow> 't \<Rightarrow> hash \<Rightarrow> Delegate \<Rightarrow> 't outcome" where
  "SetDelegateHistory e txn blockhash delegate =
     kvPut e txn IdxDelegateHistory (arr_bytes blockhash) (Delegate_Serialize delegate)"

definition GetDelegateHistory :: "('t, 'x) ext_scheme \<Rightarrow> 't \<Rightarrow> hash \<Rightarrow> Delegate res" where
  "GetDelegateHistory e txn blockhash =
     delegate_of (kvGet e txn IdxDelegateHistory (arr_bytes blockhash))"

definition GetStakeSig :: "('t, 'x) ext_scheme \<Rightarrow> 't \<Rightarrow> hash \<Rightarrow> PacketStakeSignature res" where
  "GetStakeSig e txn h =
     (case kvGet e txn IdxStakeSig (arr_bytes h) of
        None \<Rightarrow> Inl (Err ''no stake signature found'')
      | Some data \<Rightarrow> if length data < 1 then Inl (Err ''no stake signature found'')
                     else PacketStakeSignature_Deserialize data)"

definition SetStakeSig :: "('t, 'x) ext_scheme \<Rightarrow> 't \<Rightarrow> PacketStakeSignature \<Rightarrow> 't outcome" where
  "SetStakeSig e txn stakesig =
     kvPut e txn IdxStakeSig (arr_bytes (ss_Hash stakesig)) (PacketStakeSignature_Serialize stakesig)"

definition RemoveStakeSig :: "('t, 'x) ext_scheme \<Rightarrow> 't \<Rightarrow> hash \<Rightarrow> 't outcome" where
  "RemoveStakeSig e txn blockhash = kvDel e txn IdxStakeSig (arr_bytes blockhash)"

section \<open>Supply\<close>

text \<open>An entry that cannot be decoded is counted with the balance that was read before the error.\<close>

definition GetSupply :: "('t, 'x) ext_scheme \<Rightarrow> 't \<Rightarrow> u64" where
  "GetSupply e tx =
     foldl (\<lambda>sum (k, v). sum + Balance (fst (State_Deserialize v))) 0 (kvForEach e tx IdxState)"

definition CheckSupply :: "('t, 'x) ext_scheme \<Rightarrow> 't \<Rightarrow> error option" where
  "CheckSupply e tx =
     (case GetStats e tx of Inl err \<Rightarrow> Some err | Inr stats \<Rightarrow>
        if GetSupply e tx \<noteq> GetSupplyAtHeight (TopHeight stats)
        then Some (Panic ''invalid supply'') else None)"

section \<open>Reading after writing\<close>

lemma arr_bytes_eq [simp]:
  "arr_bytes (a :: address) = arr_bytes b \<longleftrightarrow> a = b"
  "arr_bytes (h :: hash) = arr_bytes h' \<longleftrightarrow> h = h'"
  by (rule arr_bytes_inject, simp)+

lemma u64_key_eq [simp]: "u64_key n = u64_key m \<longleftrightarrow> n = m"
  by (metis u64_key_def word_of_nat_le_bytes64)

lemma topo_key_eq: "topo_key a n = topo_key b m \<longleftrightarrow> a = b \<and> n = m"
proof -
  have "AppendUvarint n = AppendUvarint m \<longleftrightarrow> n = m"
    using uvarint.enc_inject [of n m] by (simp add: AddUvarint_def)
  then show ?thesis by (auto simp: topo_key_def)
qed

lemma info_keys: "info_key ''stats'' \<noteq> info_key ''mempool''"
  by (simp add: info_key_def)

text \<open>The transaction after a put.\<close>

definition kv_put :: "('t, 'x) ext_scheme \<Rightarrow> 't \<Rightarrow> index \<Rightarrow> bytes \<Rightarrow> bytes \<Rightarrow> 't" where
  "kv_put e t i k v = fst (kvPut e t i k v)"

definition states_ok :: "('t, 'x) ext_scheme \<Rightarrow> 't \<Rightarrow> bool" where
  "states_ok e t \<longleftrightarrow> (\<forall>k v. kvGet e t IdxState k = Some v \<longrightarrow> snd (State_Deserialize v) = None)"

definition state_balance :: "bytes \<Rightarrow> nat" where
  "state_balance v = unat (Balance (fst (State_Deserialize v)))"

text \<open>The coins that exist: the sum of all balances.\<close>

definition total_balance :: "('t, 'x) ext_scheme \<Rightarrow> 't \<Rightarrow> nat" where
  "total_balance e t = kv_sum e t IdxState state_balance"

definition balance_of :: "('t, 'x) ext_scheme \<Rightarrow> 't \<Rightarrow> address \<Rightarrow> nat" where
  "balance_of e t a = (case GetState e t a of Inl _ \<Rightarrow> 0 | Inr s \<Rightarrow> unat (Balance s))"

context adb_txn
begin

lemma kvPut_eq: "kvPut e t i k v = (kv_put e t i k v, None)"
  using put_ok [of t i k v] by (simp add: kv_put_def prod_eq_iff)

lemma get_kv_put [simp]:
  "kvGet e (kv_put e t i k v) j l = (if j = i \<and> l = k then Some v else kvGet e t j l)"
  by (simp add: kv_put_def get_put)

lemma SetState_eq: "SetState e t a s = (kv_put e t IdxState (arr_bytes a) (State_Serialize s), None)"
  by (simp add: SetState_def kvPut_eq)

lemma GetState_put [simp]:
  "GetState e (kv_put e t IdxState (arr_bytes a) (State_Serialize s)) b =
     (if b = a then Inr s else GetState e t b)"
  by (simp add: GetState_def)

lemma GetState_put_other [simp]: "i \<noteq> IdxState \<Longrightarrow> GetState e (kv_put e t i k v) b = GetState e t b"
  by (simp add: GetState_def)

lemma GetDelegate_put_other [simp]:
  "i \<noteq> IdxDelegate \<Longrightarrow> GetDelegate e (kv_put e t i k v) d = GetDelegate e t d"
  by (simp add: GetDelegate_def)

lemma GetDelegate_put:
  assumes "delegate_wf d"
  shows "GetDelegate e (kv_put e t IdxDelegate (u64_key (d_Id d)) (Delegate_Serialize d)) did =
    (if did = d_Id d then Inr d else GetDelegate e t did)"
  using Delegate_codec [OF assms]
  by (simp add: GetDelegate_def delegate_of_def Suc_le_eq)

lemma GetDelegateHistory_put:
  assumes "delegate_wf d"
  shows "GetDelegateHistory e (kv_put e t IdxDelegateHistory (arr_bytes h) (Delegate_Serialize d)) h' =
    (if h' = h then Inr d else GetDelegateHistory e t h')"
  using Delegate_codec [OF assms]
  by (simp add: GetDelegateHistory_def delegate_of_def Suc_le_eq)

lemma GetStats_setStats: "GetStats e (fst (setStatsNoBroadcast e t s)) = Inr s"
  by (simp add: setStatsNoBroadcast_def GetStats_def kvPut_eq gob_Stats gob_Stats_nonempty)

lemma GetMempool_SetMempool: "GetMempool e (fst (SetMempool e now t m)) = Inr (Mempool_expire now m)"
  by (simp add: SetMempool_def GetMempool_def kvPut_eq gob_Mempool)

lemma GetBlock_insertBlock:
  assumes "block_wf b"
  shows "GetBlock e (fst (insertBlock e t b h)) h' = (if h' = h then Inr b else GetBlock e t h')"
proof -
  have "Block_Serialize b \<noteq> []"
    using assms by (simp add: Block_Serialize_def block_wf_def BlockHeader_Serialize_def AddUint8_def)
  then show ?thesis using Block_codec [OF assms] by (simp add: insertBlock_def GetBlock_def kvPut_eq)
qed

lemma GetTopo_insertBlockMain:
  "GetTopo e (fst (insertBlockMain e t b)) n = (if n = Height b then Inr (Block_Hash e b) else GetTopo e t n)"
  by (simp add: insertBlockMain_def GetTopo_def kvPut_eq Let_def)

lemma GetTx_SetTx:
  assumes "data_wf (tx_Data tx)" "tx_matches tx" "height \<noteq> 0"
    "tx_Version tx \<noteq> 0 \<longleftrightarrow> height \<ge> HARDFORK_V2_HEIGHT"
  shows "GetTx e (fst (SetTx e t tx h height)) h hgt = Inr (tx, height)"
proof -
  have "AddUint64 height \<noteq> []" by (simp add: AddUint64_def flip: length_0_conv)
  then show ?thesis
    using Tx_codec [OF assms(1,2)] assms(3,4)
    by (simp add: SetTx_def GetTx_def kvPut_eq AddFixedByteArray_def codec_simps)
qed

text \<open>Recording the height of a transaction keeps the transaction.\<close>

lemma GetTx_SetTxHeight:
  assumes "GetTx e t h hgt = Inr (tx, n)" "n \<noteq> 0" "height \<noteq> 0"
    "n \<ge> HARDFORK_V2_HEIGHT \<longleftrightarrow> height \<ge> HARDFORK_V2_HEIGHT"
  shows "GetTx e (fst (SetTxHeight e t h height)) h hgt = Inr (tx, height)"
proof -
  obtain b where b: "kvGet e t IdxTx (arr_bytes h) = Some b" "b \<noteq> []"
    using assms(1) by (auto simp: GetTx_def split: option.splits if_splits)
  have len: "\<not> length b < 8"
    using assms(1) b by (auto simp: GetTx_def ReadUint64_def des_read_def NewDes_def des_fail_def
        split: if_splits)
  then have "b = take 8 b @ drop 8 b" "length (take 8 b) = 8" by simp_all
  then have r: "ReadUint64 (NewDes b) = (word_of_nat (le_val (take 8 b)), NewDes (drop 8 b))"
    by (metis ReadUint64_def des_read_NewDes)
  have "ReadUint64 (NewDes (le_bytes 8 (unat height) @ drop 8 b)) = (height, NewDes (drop 8 b))"
    using ReadUint64_AddUint64 [of height "drop 8 b"] by (simp add: AddUint64_def)
  moreover have "le_bytes 8 (unat height) \<noteq> []" by (simp flip: length_0_conv)
  ultimately show ?thesis
    using assms b len r
    by (auto simp: SetTxHeight_def GetTx_def kvPut_eq outcome_iffs)
qed

lemma GetStakeSig_SetStakeSig: "GetStakeSig e (fst (SetStakeSig e t p)) (ss_Hash p) = Inr p"
proof -
  have "PacketStakeSignature_Serialize p \<noteq> []"
    by (simp add: PacketStakeSignature_Serialize_def AddArray_def AddFixedByteArray_def flip: length_0_conv)
  then show ?thesis
    by (simp add: GetStakeSig_def SetStakeSig_def kvPut_eq PacketStakeSignature_codec Suc_le_eq)
qed

section \<open>Balances\<close>

lemma states_ok_put_State: "states_ok e t \<Longrightarrow> states_ok e (kv_put e t IdxState k (State_Serialize s))"
  by (simp add: states_ok_def)

lemma states_ok_put_other [simp]: "i \<noteq> IdxState \<Longrightarrow> states_ok e (kv_put e t i k v) = states_ok e t"
  by (simp add: states_ok_def)

lemma total_put_other [simp]: "i \<noteq> IdxState \<Longrightarrow> total_balance e (kv_put e t i k v) = total_balance e t"
  unfolding total_balance_def by (rule kv_sum_cong) simp

lemma balance_of_put_other [simp]:
  "i \<noteq> IdxState \<Longrightarrow> balance_of e (kv_put e t i k v) a = balance_of e t a"
  by (simp add: balance_of_def)

lemma balance_of_put [simp]:
  "balance_of e (kv_put e t IdxState (arr_bytes a) (State_Serialize s)) b =
     (if b = a then unat (Balance s) else balance_of e t b)"
  by (simp add: balance_of_def)

lemma balance_of_entry:
  assumes "states_ok e t"
  shows "balance_of e t a =
    (case kvGet e t IdxState (arr_bytes a) of None \<Rightarrow> 0 | Some v \<Rightarrow> state_balance v)"
proof (cases "kvGet e t IdxState (arr_bytes a)")
  case (Some v)
  then have "snd (State_Deserialize v) = None" using assms by (auto simp: states_ok_def)
  with Some show ?thesis
    by (auto simp: balance_of_def GetState_def state_balance_def split: prod.split)
qed (simp add: balance_of_def GetState_def)

lemma total_put_State:
  assumes "states_ok e t"
  shows "total_balance e (kv_put e t IdxState (arr_bytes a) (State_Serialize s)) + balance_of e t a =
    total_balance e t + unat (Balance s)"
proof -
  have "state_balance (State_Serialize s) = unat (Balance s)" by (simp add: state_balance_def)
  then show ?thesis
    unfolding total_balance_def balance_of_entry [OF assms]
    using kv_sum_update [of "kv_put e t IdxState (arr_bytes a) (State_Serialize s)" IdxState
        "arr_bytes a" "State_Serialize s" t state_balance]
    by simp
qed

lemma balance_le_total: "states_ok e t \<Longrightarrow> balance_of e t a \<le> total_balance e t"
  by (auto simp: balance_of_entry total_balance_def kv_sum_ge split: option.split)

lemma GetSupply_total:
  assumes "total_balance e t < 2 ^ 64"
  shows "unat (GetSupply e t) = total_balance e t"
proof -
  have "unat (foldl (\<lambda>sum (k, v). sum + Balance (fst (State_Deserialize v))) s xs) =
      unat s + (\<Sum>(k, v)\<leftarrow>xs. state_balance v)"
    if "unat s + (\<Sum>(k, v)\<leftarrow>xs. state_balance v) < 2 ^ 64" for s and xs :: "('a \<times> bytes) list"
    using that
  proof (induction xs arbitrary: s)
    case (Cons x xs)
    obtain k v where x: "x = (k, v)" by fastforce
    then have "unat (s + Balance (fst (State_Deserialize v))) = unat s + state_balance v"
      using Cons.prems by (subst unat_add64) (simp_all add: state_balance_def)
    then show ?case using Cons x by simp
  qed simp
  from this [of 0] show ?thesis
    using assms by (simp add: GetSupply_def total_balance_def kv_sum_def)
qed

end

end
