(* ===== verification/Staking.thy ===== *)
theory Staking
  imports ChainStore
begin

text \<open>
  The staking half of \<^verbatim>\<open>src/blockchain/staking.go\<close>, \<^verbatim>\<open>bc-stateadd.go\<close> and \<^verbatim>\<open>bc-staterm.go\<close>: the choice
  of the next staker, stakes and unstakes, and the proof of stake reward. The operations work on the
  state \<open>cs\<close>, the open database transaction and the statistics, which the Go code changes through a
  pointer, and the two synchronization fields of the node that applying a block updates.
\<close>

section \<open>State of a chain operation\<close>

record 't cs =
  cs_txn :: 't
  cs_stats :: Stats
  cs_SyncHeight :: u64
  cs_SyncDiff :: Uint128

definition on_txn :: "('t \<Rightarrow> 't outcome) \<Rightarrow> 't cs \<Rightarrow> 't cs outcome" where
  "on_txn f s = (let (t, err) = f (cs_txn s) in (s\<lparr>cs_txn := t\<rparr>, err))"

definition on_stats :: "(Stats \<Rightarrow> Stats outcome) \<Rightarrow> 't cs \<Rightarrow> 't cs outcome" where
  "on_stats f s = (let (st, err) = f (cs_stats s) in (s\<lparr>cs_stats := st\<rparr>, err))"

section \<open>The next staker\<close>

definition hashToCoinIndex :: "hash \<Rightarrow> u64 \<Rightarrow> u64 res" where
  "hashToCoinIndex h stakedSupply =
     res_bind (U128_FromBytes (take 16 (arr_bytes h))) (\<lambda>hashValue. U128_Mod64 hashValue stakedSupply)"

definition no_delegate :: Delegate where
  "no_delegate = \<lparr>d_Id = 0, d_Owner = 0, d_Name = info_key ''no delegate'', d_Funds = []\<rparr>"

text \<open>The variables of the callback are the coins seen so far and the delegate that was found.\<close>

definition staker_step ::
  "u64 \<Rightarrow> u64 \<times> Delegate option \<Rightarrow> Delegate \<Rightarrow> ((u64 \<times> Delegate option) \<times> bool) res" where
  "staker_step coinIndex s d =
     (let (coinsSeen, delegate) = s
      in res_bind (Delegate_TotalAmount d) (\<lambda>t.
           let ocs = coinsSeen; coinsSeen = coinsSeen + t
           in if coinsSeen < ocs then Inl (Panic ''GetStaker overflow'')
              else if coinIndex \<le> coinsSeen then Inr ((coinsSeen, Some d), True)
              else Inr ((coinsSeen, delegate), False)))"

definition GetStaker :: "('t, 'x) ext_scheme \<Rightarrow> 't \<Rightarrow> hash \<Rightarrow> Stats \<Rightarrow> Delegate res" where
  "GetStaker e txn h stats =
     (if StakedAmount stats = 0 then Inr no_delegate
      else res_bind (hashToCoinIndex h (StakedAmount stats)) (\<lambda>coinIndex.
           res_bind (GetDelegates e txn (staker_step coinIndex) (0, None)) (\<lambda>(coinsSeen, delegate).
             case delegate of None \<Rightarrow> Inl (Err ''no valid delegate found'') | Some d \<Rightarrow> Inr d)))"

section \<open>Stake and unstake\<close>

text \<open>The transaction that was accepted although its \<open>PrevUnlock\<close> was wrong.\<close>

definition stake_exception :: hash where
  "stake_exception = 0x8859cfd60920afd7e6e08fa2656cd9c419572ace683cf203651e748680e22bab"

text \<open>The loop over the funds: the first fund of the signer is changed, and whether there was one.\<close>

fun stake_funds :: "address \<Rightarrow> u64 \<Rightarrow> u64 \<Rightarrow> hash \<Rightarrow> u64 \<Rightarrow> bool \<Rightarrow> DelegatedFund list
    \<Rightarrow> (DelegatedFund list \<times> bool) res" where
  "stake_funds signer amount prevUnlock txid topHeight reverse [] = Inr ([], False)"
| "stake_funds signer amount prevUnlock txid topHeight reverse (fund # fs) =
     (if df_Owner fund \<noteq> signer then
        res_bind (stake_funds signer amount prevUnlock txid topHeight reverse fs)
          (\<lambda>(fs, staked). Inr (fund # fs, staked))
      else if \<not> reverse \<and> df_Unlock fund \<noteq> prevUnlock \<and> txid \<noteq> stake_exception
      then Inl (Err ''applyStake transaction PrevUnlock does not match fund unlock'')
      else res_bind (SafeAdd (df_Amount fund) amount) (\<lambda>a.
        let fund = (if reverse then fund else fund\<lparr>df_Unlock := topHeight + STAKE_UNLOCK_TIME\<rparr>)
        in Inr (fund\<lparr>df_Amount := a\<rparr> # fs, True)))"

definition ApplyStake :: "('t, 'x) ext_scheme \<Rightarrow> u64 \<Rightarrow> u64 \<Rightarrow> u64 \<Rightarrow> address \<Rightarrow> hash \<Rightarrow> bool
    \<Rightarrow> 't cs \<Rightarrow> 't cs outcome" where
  "ApplyStake e amount did prevUnlock signerAddr txid reverse s =
     with_res (GetDelegate e (cs_txn s) did) s (\<lambda>delegate.
     with_res (stake_funds signerAddr amount prevUnlock txid (TopHeight (cs_stats s)) reverse
                 (d_Funds delegate)) s (\<lambda>(funds, staked).
       let funds = (if staked then funds
                    else funds @ [\<lparr>df_Owner = signerAddr, df_Amount = amount,
                                   df_Unlock = TopHeight (cs_stats s) + STAKE_UNLOCK_TIME\<rparr>]);
           delegate = delegate\<lparr>d_Funds := funds\<rparr>
       in and_then (on_stats (\<lambda>st. Stats_Staked st amount) s)
            (on_txn (\<lambda>t. bc_SetDelegate e t delegate))))"

fun unstake_funds :: "address \<Rightarrow> u64 \<Rightarrow> u64 \<Rightarrow> bool \<Rightarrow> u64 \<Rightarrow> DelegatedFund list
    \<Rightarrow> DelegatedFund list res" where
  "unstake_funds signer amount topHeight reverse prevUnlock [] = Inl (Err ''nothing to unstake'')"
| "unstake_funds signer amount topHeight reverse prevUnlock (fund # fs) =
     (if df_Owner fund \<noteq> signer then
        res_bind (unstake_funds signer amount topHeight reverse prevUnlock fs) (\<lambda>fs. Inr (fund # fs))
      else if \<not> reverse \<and> topHeight < df_Unlock fund
      then Inl (Err ''trying to unstake locked funds'')
      else if df_Amount fund < amount
      then Inl (Err ''trying to unstake more than available balance'')
      else let fund = fund\<lparr>df_Amount := df_Amount fund - amount\<rparr>;
               fund = (if reverse then fund\<lparr>df_Unlock := prevUnlock\<rparr> else fund)
           in Inr (if df_Amount fund = 0 then fs else fund # fs))"

definition ApplyUnstake :: "('t, 'x) ext_scheme \<Rightarrow> u64 \<Rightarrow> u64 \<Rightarrow> address \<Rightarrow> bool \<Rightarrow> u64
    \<Rightarrow> 't cs \<Rightarrow> 't cs outcome" where
  "ApplyUnstake e amount did signerAddr reverse prevUnlock s =
     with_res (GetDelegate e (cs_txn s) did) s (\<lambda>delegate.
     with_res (unstake_funds signerAddr amount (TopHeight (cs_stats s)) reverse prevUnlock
                 (d_Funds delegate)) s (\<lambda>funds.
       let delegate = delegate\<lparr>d_Funds := funds\<rparr>
       in and_then (on_stats (\<lambda>st. Stats_Unstaked st amount) s)
            (on_txn (\<lambda>t. bc_SetDelegate e t delegate))))"

section \<open>The proof of stake reward\<close>

text \<open>\<open>uint128.From64(fund.Amount).Mul64(out.Amount).Div64(100).Mul64(99).Div64(totalStake).Lo\<close>.\<close>

definition pos_share :: "u64 \<Rightarrow> u64 \<Rightarrow> u64 \<Rightarrow> u64 res" where
  "pos_share fundAmount outAmount totalStake =
     res_bind (U128_Mul64 (U128_From64 fundAmount) outAmount) (\<lambda>x.
     res_bind (U128_Div64 x 100) (\<lambda>x.
     res_bind (U128_Mul64 x 99) (\<lambda>x.
     res_bind (U128_Div64 x totalStake) (\<lambda>x. Inr (Lo x)))))"

fun distribute ::
  "u64 \<Rightarrow> u64 \<Rightarrow> u64 \<Rightarrow> DelegatedFund list \<Rightarrow> (DelegatedFund list \<times> u64) res" where
  "distribute outAmount totalStake totalAdded [] = Inr ([], totalAdded)"
| "distribute outAmount totalStake totalAdded (fund # fs) =
     res_bind (pos_share (df_Amount fund) outAmount totalStake) (\<lambda>addAmount.
       if df_Amount fund + addAmount < df_Amount fund then Inl (Err ''fund amount overflow'')
       else res_bind (distribute outAmount totalStake (totalAdded + addAmount) fs)
              (\<lambda>(fs, added).
                 Inr (fund\<lparr>df_Amount := df_Amount fund + addAmount\<rparr> # fs, added)))"

fun pay_owner :: "address \<Rightarrow> u64 \<Rightarrow> DelegatedFund list \<Rightarrow> DelegatedFund list res" where
  "pay_owner addr amount [] = Inr [\<lparr>df_Owner = addr, df_Amount = amount, df_Unlock = 0\<rparr>]"
| "pay_owner addr amount (v # vs) =
     (if df_Owner v = addr then
        res_bind (SafeAdd (df_Amount v) amount) (\<lambda>a. Inr (v\<lparr>df_Amount := a\<rparr> # vs))
      else res_bind (pay_owner addr amount vs) (\<lambda>vs. Inr (v # vs)))"

text \<open>The new funds of the delegate, with the check of their sum.\<close>

definition pos_funds :: "address \<Rightarrow> u64 \<Rightarrow> u64 \<Rightarrow> DelegatedFund list \<Rightarrow> DelegatedFund list res" where
  "pos_funds ownerAddr outAmount totalStake funds =
     res_bind (distribute outAmount totalStake 0 funds) (\<lambda>(funds, totalAdded).
       if totalAdded > outAmount then Inl (Err ''totalAdded > out.Amount, should never happen'')
       else let roundingError = outAmount - totalAdded
            in res_bind (pay_owner ownerAddr roundingError funds) (\<lambda>funds.
               res_bind (funds_total 0 funds) (\<lambda>total.
                 if total \<noteq> totalStake + outAmount then Inl (Err ''staking mismatch'')
                 else Inr funds)))"

definition ApplyPosReward ::
  "('t, 'x) ext_scheme \<Rightarrow> hash \<Rightarrow> StateOutput \<Rightarrow> 't cs \<Rightarrow> 't cs outcome" where
  "ApplyPosReward e blockhash out s =
     (if so_ExtraData out = 0 then (s, Some (Err ''invalid delegate id''))
      else with_res (GetDelegate e (cs_txn s) (so_ExtraData out)) s (\<lambda>delegate.
        if length (d_Funds delegate) = 0 then (s, Some (Err ''delegate has no funds''))
        else with_res (Delegate_TotalAmount delegate) s (\<lambda>totalStake.
          if totalStake = 0 then (s, Some (Err ''delegate has no stake''))
          else and_then (on_txn (\<lambda>t. SetDelegateHistory e t blockhash delegate) s) (\<lambda>s.
            with_res (pos_funds (OwnerAddress e delegate) (so_Amount out) totalStake
                        (d_Funds delegate)) s (\<lambda>funds.
              and_then (on_stats (\<lambda>st. Stats_Staked st (so_Amount out)) s)
                (on_txn (\<lambda>t. bc_SetDelegate e t (delegate\<lparr>d_Funds := funds\<rparr>))))))))"

definition RemovePosReward ::
  "('t, 'x) ext_scheme \<Rightarrow> hash \<Rightarrow> StateOutput \<Rightarrow> 't cs \<Rightarrow> 't cs outcome" where
  "RemovePosReward e blockhash out s =
     (if so_ExtraData out = 0 then (s, Some (Err ''invalid delegate id''))
      else with_res (GetDelegate e (cs_txn s) (so_ExtraData out)) s (\<lambda>delegate.
        if length (d_Funds delegate) = 0 then (s, Some (Err ''delegate has no funds''))
        else with_res (GetDelegateHistory e (cs_txn s) blockhash) s (\<lambda>oldDelegate.
          if d_Id oldDelegate \<noteq> d_Id delegate \<or> d_Owner oldDelegate \<noteq> d_Owner delegate
          then (s, Some (Err ''delegate historical data does not match with the current data''))
          else and_then (on_stats (\<lambda>st. Stats_Unstaked st (so_Amount out)) s)
                 (on_txn (\<lambda>t. bc_SetDelegate e t oldDelegate)))))"

section \<open>Funds\<close>

lemma stake_funds_sum:
  assumes "stake_funds signer amount prev txid hgt reverse fs = Inr (fs', staked)"
  shows "if staked then funds_sum fs' = funds_sum fs + unat amount \<and> length fs' = length fs
         else fs' = fs \<and> (\<forall>f\<in>set fs. df_Owner f \<noteq> signer)"
  using assms
proof (induction fs arbitrary: fs' staked)
  case (Cons f fs)
  show ?case
  proof (cases "df_Owner f = signer")
    case True
    then obtain a where a: "SafeAdd (df_Amount f) amount = Inr a" "staked"
      "df_Amount (hd fs') = a" "tl fs' = fs" "fs' \<noteq> []"
      using Cons.prems by (auto simp: outcome_iffs Let_def split: if_splits)
    then have "unat a = unat (df_Amount f) + unat amount"
      by (auto simp: SafeAdd_Inr unat_add64)
    then show ?thesis using a by (cases fs') simp_all
  next
    case False
    then obtain gs where gs: "stake_funds signer amount prev txid hgt reverse fs = Inr (gs, staked)"
      "fs' = f # gs"
      using Cons.prems by (auto simp: outcome_iffs)
    show ?thesis using Cons.IH [OF gs(1)] gs(2) False by (auto split: if_splits)
  qed
qed simp

lemma unstake_funds_sum:
  assumes "unstake_funds signer amount hgt reverse prev fs = Inr fs'"
  shows "funds_sum fs' + unat amount = funds_sum fs \<and> length fs' \<le> length fs"
  using assms
proof (induction fs arbitrary: fs')
  case (Cons f fs)
  show ?case
  proof (cases "df_Owner f = signer")
    case True
    then have le: "amount \<le> df_Amount f"
      and fs': "fs' = (if df_Amount f - amount = 0 then fs
          else (if reverse then f\<lparr>df_Amount := df_Amount f - amount, df_Unlock := prev\<rparr>
                else f\<lparr>df_Amount := df_Amount f - amount\<rparr>) # fs)"
      using Cons.prems by (auto simp: Let_def not_less split: if_splits)
    then have "unat (df_Amount f - amount) = unat (df_Amount f) - unat amount"
      by (simp add: unat_sub64)
    then have "funds_sum fs' = unat (df_Amount f) - unat amount + funds_sum fs"
      unfolding fs' by auto
    then show ?thesis using le fs' by (simp add: word_le_nat_alt)
  next
    case False
    then obtain gs where "unstake_funds signer amount hgt reverse prev fs = Inr gs" "fs' = f # gs"
      using Cons.prems by (auto simp: outcome_iffs)
    then show ?thesis using Cons.IH [of gs] by simp
  qed
qed simp

text \<open>A stake that is undone with the unlock height it recorded gives back the funds as they were, when
  the signer had no fund before or the fund is not left empty.\<close>

lemma unstake_after_stake:
  assumes "stake_funds signer amount prev txid hgt False fs = Inr (fs', True)"
    and "txid \<noteq> stake_exception" "\<forall>f\<in>set fs. df_Amount f \<noteq> 0"
  shows "unstake_funds signer amount hgt' True prev fs' = Inr fs"
  using assms(1,3)
proof (induction fs arbitrary: fs')
  case (Cons f fs)
  show ?case
  proof (cases "df_Owner f = signer")
    case True
    then have u: "df_Unlock f = prev"
      and fs': "fs' = f\<lparr>df_Unlock := hgt + STAKE_UNLOCK_TIME, df_Amount := df_Amount f + amount\<rparr> # fs"
      and s: "unat (df_Amount f) + unat amount < 2 ^ 64"
      using Cons.prems assms(2) by (auto simp: outcome_iffs Let_def split: if_splits)
    have "\<not> df_Amount f + amount < amount"
      using s by (simp add: word_less_nat_alt unat_add64)
    then show ?thesis using True Cons.prems(2) u unfolding fs' by (simp add: Let_def)
  next
    case False
    then obtain gs where gs: "stake_funds signer amount prev txid hgt False fs = Inr (gs, True)"
      "fs' = f # gs"
      using Cons.prems by (auto simp: outcome_iffs)
    then show ?thesis using Cons.IH [OF gs(1)] Cons.prems(2) False by simp
  qed
qed simp

lemma unstake_after_first_stake:
  assumes "\<forall>f\<in>set fs. df_Owner f \<noteq> signer"
  shows "unstake_funds signer amount hgt' True prev
    (fs @ [\<lparr>df_Owner = signer, df_Amount = amount, df_Unlock = u\<rparr>]) = Inr fs"
  using assms by (induction fs) (simp_all add: Let_def)

section \<open>The reward\<close>

definition pos_share_nat :: "nat \<Rightarrow> nat \<Rightarrow> nat \<Rightarrow> nat" where
  "pos_share_nat a r t = (a * r div 100 * 99) div t"

lemma pos_share_val:
  assumes "totalStake \<noteq> 0" "a \<le> totalStake"
  shows "pos_share a r totalStake =
    Inr (word_of_nat (pos_share_nat (unat a) (unat r) (unat totalStake)))"
    and "pos_share_nat (unat a) (unat r) (unat totalStake) \<le> unat r"
proof -
  let ?a = "unat a" and ?r = "unat r" and ?t = "unat totalStake"
  have t: "0 < ?t" using assms(1) by (simp add: unat_gt_0)
  have prod: "?a * ?r < 2 ^ 128"
  proof -
    have "?a * ?r \<le> (2 ^ 64 - 1) * (2 ^ 64 - 1)"
      using unat_lt64 [of a] unat_lt64 [of r] by (intro mult_mono) simp_all
    then show ?thesis by simp
  qed
  have x: "?a * ?r div 100 * 99 \<le> ?a * ?r" by linarith
  have at: "?a * ?r \<le> ?t * ?r" using assms(2) by (intro mult_right_mono) (simp_all add: word_le_nat_alt)
  have "?a * ?r div 100 * 99 div ?t \<le> ?t * ?r div ?t"
    using x at by (intro div_le_mono) linarith
  then show le: "pos_share_nat ?a ?r ?t \<le> ?r" using t by (simp add: pos_share_nat_def)
  have h: "?a * ?r div 100 < 2 ^ 128" "?a * ?r div 100 * 99 < 2 ^ 128"
    using prod x by linarith+
  have c: "unat (100 :: u64) = 100" "unat (99 :: u64) = 99" by simp_all
  have "pos_share a r totalStake = Inr (Lo (of128 (?a * ?r div 100 * 99 div ?t)))"
    using prod h assms(1)
    by (simp add: pos_share_def U128_Mul64_val U128_Div64_val c)
  then show "pos_share a r totalStake = Inr (word_of_nat (pos_share_nat ?a ?r ?t))"
    by (simp add: of128_def pos_share_nat_def)
qed

definition shares_sum :: "nat \<Rightarrow> nat \<Rightarrow> DelegatedFund list \<Rightarrow> nat" where
  "shares_sum r t fs = (\<Sum>f\<leftarrow>fs. pos_share_nat (unat (df_Amount f)) r t)"

lemma shares_sum_le: "0 < t \<Longrightarrow> shares_sum r t fs * t \<le> funds_sum fs * r"
proof (induction fs)
  case (Cons f fs)
  have "pos_share_nat (unat (df_Amount f)) r t * t \<le> unat (df_Amount f) * r div 100 * 99"
    by (simp add: pos_share_nat_def div_times_less_eq_dividend)
  also have "\<dots> \<le> unat (df_Amount f) * r" by linarith
  finally show ?case using Cons by (simp add: shares_sum_def distrib_right)
qed (simp add: shares_sum_def)

lemma distribute_ok:
  assumes "totalStake \<noteq> 0" "\<forall>f\<in>set fs. df_Amount f \<le> totalStake"
    and "unat totalStake + unat r < 2 ^ 64"
    and "unat added + shares_sum (unat r) (unat totalStake) fs < 2 ^ 64"
  obtains fs' added' where "distribute r totalStake added fs = Inr (fs', added')"
    "unat added' = unat added + shares_sum (unat r) (unat totalStake) fs"
    "funds_sum fs' = funds_sum fs + shares_sum (unat r) (unat totalStake) fs"
    "map df_Owner fs' = map df_Owner fs" "map df_Unlock fs' = map df_Unlock fs"
  using assms(2,4)
proof (induction fs arbitrary: added thesis)
  case Nil
  then show ?case by (simp add: shares_sum_def)
next
  case (Cons f fs)
  let ?x = "pos_share_nat (unat (df_Amount f)) (unat r) (unat totalStake)"
  let ?w = "word_of_nat ?x :: u64"
  have fle: "df_Amount f \<le> totalStake" using Cons.prems by simp
  note share = pos_share_val [OF assms(1) fle, of r]
  have w: "unat ?w = ?x" using share(2) unat_lt64 [of r] by (intro unat_of_nat64) simp
  have s: "unat (df_Amount f) + ?x < 2 ^ 64"
    using fle share(2) assms(3) by (simp add: word_le_nat_alt)
  then have nov: "\<not> df_Amount f + ?w < df_Amount f" using w by (simp add: add64_wraps_iff)
  have sum: "shares_sum (unat r) (unat totalStake) (f # fs) =
      ?x + shares_sum (unat r) (unat totalStake) fs" by (simp add: shares_sum_def)
  have ad: "unat (added + ?w) = unat added + ?x"
    using Cons.prems(3) w sum by (subst unat_add64) simp_all
  obtain gs added' where gs: "distribute r totalStake (added + ?w) fs = Inr (gs, added')"
    "unat added' = unat (added + ?w) + shares_sum (unat r) (unat totalStake) fs"
    "funds_sum gs = funds_sum fs + shares_sum (unat r) (unat totalStake) fs"
    "map df_Owner gs = map df_Owner fs" "map df_Unlock gs = map df_Unlock fs"
    using Cons.IH [of "added + ?w"] Cons.prems(2,3) ad sum by auto
  show ?case
  proof (rule Cons.prems(1))
    show "distribute r totalStake added (f # fs) =
        Inr (f\<lparr>df_Amount := df_Amount f + ?w\<rparr> # gs, added')"
      using share(1) nov gs(1) by simp
    have "unat (df_Amount f + ?w) = unat (df_Amount f) + ?x"
      using s w by (subst unat_add64) simp_all
    then show "funds_sum (f\<lparr>df_Amount := df_Amount f + ?w\<rparr> # gs) =
        funds_sum (f # fs) + shares_sum (unat r) (unat totalStake) (f # fs)"
      using gs(3) sum by simp
  qed (use gs ad sum in simp_all)
qed

lemma pay_owner_ok:
  assumes "funds_sum fs + unat amount < 2 ^ 64"
  obtains fs' where "pay_owner addr amount fs = Inr fs'" "funds_sum fs' = funds_sum fs + unat amount"
    "length fs' \<le> Suc (length fs)"
  using assms
proof (induction fs arbitrary: thesis)
  case (Cons v vs)
  show ?case
  proof (cases "df_Owner v = addr")
    case True
    have "unat (df_Amount v) + unat amount < 2 ^ 64" using Cons.prems by simp
    then show ?thesis
      using True by (intro Cons.prems(1) [of "v\<lparr>df_Amount := df_Amount v + amount\<rparr> # vs"])
        (simp_all add: SafeAdd_def add64_wraps_iff unat_add64)
  next
    case False
    obtain gs where "pay_owner addr amount vs = Inr gs" "funds_sum gs = funds_sum vs + unat amount"
      "length gs \<le> Suc (length vs)"
      using Cons.IH Cons.prems(2) by auto
    then show ?thesis using False by (intro Cons.prems(1) [of "v # gs"]) simp_all
  qed
qed simp

text \<open>The distribution always succeeds and gives exactly the reward to the funds: the branches that the
  code marks as impossible are impossible.\<close>

lemma pos_funds_ok:
  assumes "totalStake \<noteq> 0" "funds_sum fs = unat totalStake" "unat totalStake + unat r < 2 ^ 64"
  obtains fs' where "pos_funds addr r totalStake fs = Inr fs'"
    "funds_sum fs' = funds_sum fs + unat r" "length fs' \<le> Suc (length fs)"
proof -
  let ?t = "unat totalStake" and ?sh = "shares_sum (unat r) (unat totalStake) fs"
  have t: "0 < ?t" using assms(1) by (simp add: unat_gt_0)
  have "?sh * ?t \<le> unat r * ?t" using shares_sum_le [OF t, of "unat r" fs] assms(2) by (simp add: mult.commute)
  then have sh: "?sh \<le> unat r" using t by simp
  have "df_Amount f \<le> totalStake" if "f \<in> set fs" for f
  proof -
    have "unat (df_Amount f) \<le> funds_sum fs"
      unfolding funds_sum_def using that by (intro member_le_sum_list) simp_all
    then show ?thesis using assms(2) by (simp add: word_le_nat_alt)
  qed
  then have le: "\<forall>f\<in>set fs. df_Amount f \<le> totalStake" by blast
  obtain gs added where gs: "distribute r totalStake 0 fs = Inr (gs, added)"
    "unat added = ?sh" "funds_sum gs = funds_sum fs + ?sh" "map df_Owner gs = map df_Owner fs"
    using sh unat_lt64 [of r] by (rule_tac distribute_ok [OF assms(1) le assms(3), of 0]) auto
  have na: "\<not> added > r" using gs(2) sh by (simp add: word_less_nat_alt)
  have re: "unat (r - added) = unat r - ?sh"
    using gs(2) sh by (subst unat_sub64) (simp_all add: word_le_nat_alt)
  obtain hs where hs: "pay_owner addr (r - added) gs = Inr hs"
    "funds_sum hs = funds_sum gs + unat (r - added)" "length hs \<le> Suc (length gs)"
    using re gs(3) sh assms(2,3) by (rule_tac pay_owner_ok [of gs "r - added" addr]) auto
  have sum: "funds_sum hs = ?t + unat r" using hs(2) gs(3) re sh assms(2) by simp
  moreover have "unat (totalStake + r) = ?t + unat r" using assms(3) by (rule unat_add64)
  ultimately have "funds_sum hs = unat (totalStake + r)" by simp
  then have "funds_total 0 hs = Inr (totalStake + r)"
    using unat_lt64 [of "totalStake + r"] by (simp add: funds_total_val)
  then have "pos_funds addr r totalStake fs = Inr hs"
    using gs(1) na hs(1) by (simp add: pos_funds_def Let_def)
  moreover have "length hs \<le> Suc (length fs)" using hs(3) map_eq_imp_length_eq [OF gs(4)] by simp
  ultimately show thesis using sum assms(2) that by simp
qed

section \<open>Frames\<close>

text \<open>An operation that writes only the indices of a set.\<close>

definition only_writes :: "('t, 'x) ext_scheme \<Rightarrow> index set \<Rightarrow> 't \<Rightarrow> 't \<Rightarrow> bool" where
  "only_writes e I t t' \<longleftrightarrow> (\<forall>i k. i \<notin> I \<longrightarrow> kvGet e t' i k = kvGet e t i k)"

lemma only_writes_refl [simp]: "only_writes e I t t"
  by (simp add: only_writes_def)

lemma only_writes_trans [trans]:
  "only_writes e I t t' \<Longrightarrow> only_writes e I t' t'' \<Longrightarrow> only_writes e I t t''"
  by (simp add: only_writes_def)

lemma only_writes_mono: "only_writes e I t t' \<Longrightarrow> I \<subseteq> J \<Longrightarrow> only_writes e J t t'"
  by (auto simp: only_writes_def)

text \<open>The same for an operation that may end with an error, by its structure.\<close>

definition writes :: "('t, 'x) ext_scheme \<Rightarrow> index set \<Rightarrow> 't cs \<Rightarrow> 't cs outcome \<Rightarrow> bool" where
  "writes e I s r \<longleftrightarrow> only_writes e I (cs_txn s) (cs_txn (fst r))"

named_theorems frame_intros "which indices an operation writes, by its structure"

lemma writes_stop [frame_intros]: "writes e I s (s, err)"
  by (simp add: writes_def)

lemma writes_with_res [frame_intros]:
  "(\<And>a. r = Inr a \<Longrightarrow> writes e I s (f a)) \<Longrightarrow> writes e I s (with_res r s f)"
  by (cases r) (simp_all add: writes_def)

lemma writes_and_then [frame_intros]:
  "writes e I s r \<Longrightarrow> (\<And>s'. r = (s', None) \<Longrightarrow> writes e I s' (f s')) \<Longrightarrow> writes e I s (and_then r f)"
  by (cases r; cases "snd r") (auto simp: writes_def intro: only_writes_trans)

lemma writes_drop_err [frame_intros]: "writes e I s r \<Longrightarrow> writes e I s (drop_err r)"
  by (cases r rule: drop_err.cases) (simp_all add: writes_def)

lemma writes_if [frame_intros]:
  "(b \<Longrightarrow> writes e I s x) \<Longrightarrow> (\<not> b \<Longrightarrow> writes e I s y) \<Longrightarrow> writes e I s (if b then x else y)"
  by simp

lemma writes_prod [frame_intros]: "(\<And>a b. p = (a, b) \<Longrightarrow> writes e I s (f a b)) \<Longrightarrow>
  writes e I s (case p of (a, b) \<Rightarrow> f a b)"
  by (cases p) simp

lemma writes_let [frame_intros]: "(\<And>x. x = v \<Longrightarrow> writes e I s (f x)) \<Longrightarrow> writes e I s (let x = v in f x)"
  by simp

lemma writes_on_stats [frame_intros]: "writes e I s (on_stats f s)"
  by (simp add: writes_def on_stats_def split: prod.split)

lemma writes_trans:
  "writes e I s (s', err) \<Longrightarrow> writes e I s' r \<Longrightarrow> writes e I s r"
  by (auto simp: writes_def intro: only_writes_trans)

section \<open>What is staked\<close>

definition delegate_stake :: "bytes \<Rightarrow> nat" where
  "delegate_stake v = (case Delegate_Deserialize v of Inl _ \<Rightarrow> 0 | Inr d \<Rightarrow> funds_sum (d_Funds d))"

definition total_staked :: "('t, 'x) ext_scheme \<Rightarrow> 't \<Rightarrow> nat" where
  "total_staked e t = kv_sum e t IdxDelegate delegate_stake"

text \<open>Every entry of the delegate index is a delegate under the key of its id.\<close>

definition delegates_ok :: "('t, 'x) ext_scheme \<Rightarrow> 't \<Rightarrow> bool" where
  "delegates_ok e t \<longleftrightarrow>
     (\<forall>k v. kvGet e t IdxDelegate k = Some v \<longrightarrow>
        (\<exists>d. v = Delegate_Serialize d \<and> delegate_wf d \<and> k = u64_key (d_Id d)))"

text \<open>There is room for one more fund: the number of funds fits its length field.\<close>

definition few_funds :: "('t, 'x) ext_scheme \<Rightarrow> 't \<Rightarrow> bool" where
  "few_funds e t \<longleftrightarrow> (\<forall>did d. GetDelegate e t did = Inr d \<longrightarrow> Suc (length (d_Funds d)) < 2 ^ 64)"

definition staking_inv :: "('t, 'x) ext_scheme \<Rightarrow> 't cs \<Rightarrow> bool" where
  "staking_inv e s \<longleftrightarrow>
     delegates_ok e (cs_txn s) \<and> total_staked e (cs_txn s) = unat (StakedAmount (cs_stats s))"

lemma Stats_Staked_None [outcome_iffs]:
  "Stats_Staked st a = (st', None) \<longleftrightarrow>
     unat (StakedAmount st) + unat a < 2 ^ 64 \<and> st' = st\<lparr>StakedAmount := StakedAmount st + a\<rparr>"
  by (auto simp: Stats_Staked_def add64_wraps_iff)

lemma Stats_Unstaked_None [outcome_iffs]:
  "Stats_Unstaked st a = (st', None) \<longleftrightarrow>
     a \<le> StakedAmount st \<and> st' = st\<lparr>StakedAmount := StakedAmount st - a\<rparr>"
proof -
  have "StakedAmount st - a > StakedAmount st \<longleftrightarrow> \<not> a \<le> StakedAmount st"
    using unat_lt64 [of a] by (simp add: word_less_nat_alt word_le_nat_alt unat_sub_if') linarith
  then show ?thesis by (auto simp: Stats_Unstaked_def)
qed

lemma on_txn_None [outcome_iffs]:
  "on_txn f s = (s', None) \<longleftrightarrow> (\<exists>t. f (cs_txn s) = (t, None) \<and> s' = s\<lparr>cs_txn := t\<rparr>)"
  by (cases "f (cs_txn s)") (auto simp: on_txn_def)

lemma on_stats_None [outcome_iffs]:
  "on_stats f s = (s', None) \<longleftrightarrow> (\<exists>st. f (cs_stats s) = (st, None) \<and> s' = s\<lparr>cs_stats := st\<rparr>)"
  by (cases "f (cs_stats s)") (auto simp: on_stats_def)

context adb_txn
begin

lemma only_writes_put [simp]: "i \<in> I \<Longrightarrow> only_writes e I t (kv_put e t i k v)"
  by (auto simp: only_writes_def)

lemma writes_on_txn_put [frame_intros]:
  "i \<in> I \<Longrightarrow> writes e I s (on_txn (\<lambda>t. kvPut e t i (k t) (v t)) s)"
  by (simp add: writes_def on_txn_def kvPut_eq)

lemma only_writes_total_balance:
  "only_writes e I t t' \<Longrightarrow> IdxState \<notin> I \<Longrightarrow> total_balance e t' = total_balance e t"
  unfolding total_balance_def by (rule kv_sum_cong) (simp add: only_writes_def)

lemma only_writes_states_ok: "only_writes e I t t' \<Longrightarrow> IdxState \<notin> I \<Longrightarrow> states_ok e t' = states_ok e t"
  by (simp add: only_writes_def states_ok_def)

lemma only_writes_GetState: "only_writes e I t t' \<Longrightarrow> IdxState \<notin> I \<Longrightarrow> GetState e t' a = GetState e t a"
  by (simp add: only_writes_def GetState_def)

lemma only_writes_total_staked:
  "only_writes e I t t' \<Longrightarrow> IdxDelegate \<notin> I \<Longrightarrow> total_staked e t' = total_staked e t"
  unfolding total_staked_def by (rule kv_sum_cong) (simp add: only_writes_def)

lemma only_writes_delegates_ok:
  "only_writes e I t t' \<Longrightarrow> IdxDelegate \<notin> I \<Longrightarrow> delegates_ok e t' = delegates_ok e t"
  by (simp add: only_writes_def delegates_ok_def)

lemma total_staked_put_other [simp]:
  "i \<noteq> IdxDelegate \<Longrightarrow> total_staked e (kv_put e t i k v) = total_staked e t"
  by (rule only_writes_total_staked [of "{i}"]) simp_all

lemma delegates_ok_put_other [simp]:
  "i \<noteq> IdxDelegate \<Longrightarrow> delegates_ok e (kv_put e t i k v) = delegates_ok e t"
  by (rule only_writes_delegates_ok [of "{i}"]) simp_all

lemma only_writes_GetDelegate:
  "only_writes e I t t' \<Longrightarrow> IdxDelegate \<notin> I \<Longrightarrow> GetDelegate e t' a = GetDelegate e t a"
  by (simp add: only_writes_def GetDelegate_def)

lemma GetDelegate_ok:
  assumes "delegates_ok e t" "GetDelegate e t did = Inr d"
  shows "d_Id d = did" "delegate_wf d" "kvGet e t IdxDelegate (u64_key did) = Some (Delegate_Serialize d)"
proof -
  obtain v where v: "kvGet e t IdxDelegate (u64_key did) = Some v" "Delegate_Deserialize v = Inr d"
    using assms(2) by (auto simp: GetDelegate_def delegate_of_def split: option.splits if_splits)
  then obtain d' where "v = Delegate_Serialize d'" "delegate_wf d'" "u64_key did = u64_key (d_Id d')"
    using assms(1) unfolding delegates_ok_def by blast
  with v show "d_Id d = did" "delegate_wf d"
    "kvGet e t IdxDelegate (u64_key did) = Some (Delegate_Serialize d)"
    by (auto simp: Delegate_codec)
qed

lemma delegates_ok_put:
  "delegates_ok e t \<Longrightarrow> delegate_wf d \<Longrightarrow>
   delegates_ok e (kv_put e t IdxDelegate (u64_key (d_Id d)) (Delegate_Serialize d))"
  by (auto simp: delegates_ok_def)

lemma total_staked_put:
  assumes "delegate_wf d"
  shows "total_staked e (kv_put e t IdxDelegate (u64_key (d_Id d)) (Delegate_Serialize d)) +
      (case GetDelegate e t (d_Id d) of Inl _ \<Rightarrow> 0 | Inr d0 \<Rightarrow> funds_sum (d_Funds d0)) =
    total_staked e t + funds_sum (d_Funds d)"
proof -
  have "delegate_stake (Delegate_Serialize d) = funds_sum (d_Funds d)"
    using Delegate_codec [OF assms] by (simp add: delegate_stake_def)
  moreover have "(case kvGet e t IdxDelegate (u64_key (d_Id d)) of None \<Rightarrow> 0 | Some w \<Rightarrow> delegate_stake w) =
      (case GetDelegate e t (d_Id d) of Inl _ \<Rightarrow> 0 | Inr d0 \<Rightarrow> funds_sum (d_Funds d0))"
  proof -
    have "Delegate_Deserialize [] \<noteq> Inr d0" for d0
      by (simp add: Delegate_Deserialize_def NewDes_def ReadUint8_def des_read_def des_fail_def
          ReadUvarint_def ReadArray_def ReadFixedByteArray_def ReadByteSlice_def RemainingData_def)
    then show ?thesis
      by (auto simp: GetDelegate_def delegate_of_def delegate_stake_def split: option.split sum.split)
  qed
  ultimately show ?thesis
    unfolding total_staked_def
    using kv_sum_update [of "kv_put e t IdxDelegate (u64_key (d_Id d)) (Delegate_Serialize d)"
        IdxDelegate "u64_key (d_Id d)" "Delegate_Serialize d" t delegate_stake]
    by simp
qed

lemma delegate_stake_le: "GetDelegate e t did = Inr d \<Longrightarrow> funds_sum (d_Funds d) \<le> total_staked e t"
  unfolding total_staked_def
  by (auto simp: GetDelegate_def delegate_of_def delegate_stake_def split: option.splits if_splits
      dest!: kv_sum_ge [of _ _ _ _ delegate_stake])

text \<open>Replacing the funds of a delegate moves the invariant along with the counter.\<close>

lemma staking_inv_SetDelegate:
  assumes inv: "staking_inv e s" and d: "GetDelegate e (cs_txn s) did = Inr d"
    and d': "d_Id d' = did" "delegate_wf d'"
    and amount: "unat (StakedAmount st) + funds_sum (d_Funds d) =
      unat (StakedAmount (cs_stats s)) + funds_sum (d_Funds d')"
    and s': "cs_txn s' = kv_put e (cs_txn s) IdxDelegate (u64_key did) (Delegate_Serialize d')"
      "cs_stats s' = st"
  shows "staking_inv e s'"
  using inv delegates_ok_put [of "cs_txn s" d'] total_staked_put [OF d'(2), of "cs_txn s"] d d' amount s'
  by (simp add: staking_inv_def)

end

section \<open>Stake, unstake and rewards keep the counter\<close>

context adb_txn
begin

lemma ApplyStake_cases:
  assumes "ApplyStake e amount did prev signer txid rv s = (s', None)"
  obtains d funds where "GetDelegate e (cs_txn s) did = Inr d"
    "unat (StakedAmount (cs_stats s)) + unat amount < 2 ^ 64"
    "funds_sum funds = funds_sum (d_Funds d) + unat amount" "length funds \<le> Suc (length (d_Funds d))"
    "s' = s\<lparr>cs_stats := (cs_stats s)\<lparr>StakedAmount := StakedAmount (cs_stats s) + amount\<rparr>,
           cs_txn := kv_put e (cs_txn s) IdxDelegate (u64_key (d_Id d))
             (Delegate_Serialize (d\<lparr>d_Funds := funds\<rparr>))\<rparr>"
proof -
  obtain d fs staked where d: "GetDelegate e (cs_txn s) did = Inr d"
    and fs: "stake_funds signer amount prev txid (TopHeight (cs_stats s)) rv (d_Funds d) = Inr (fs, staked)"
    and s': "unat (StakedAmount (cs_stats s)) + unat amount < 2 ^ 64"
     "s' = s\<lparr>cs_stats := (cs_stats s)\<lparr>StakedAmount := StakedAmount (cs_stats s) + amount\<rparr>,
           cs_txn := kv_put e (cs_txn s) IdxDelegate (u64_key (d_Id d))
             (Delegate_Serialize (d\<lparr>d_Funds := (if staked then fs
                    else fs @ [\<lparr>df_Owner = signer, df_Amount = amount,
                                   df_Unlock = TopHeight (cs_stats s) + STAKE_UNLOCK_TIME\<rparr>])\<rparr>))\<rparr>"
    using assms
    by (auto simp: ApplyStake_def Let_def outcome_iffs bc_SetDelegate_def kvPut_eq case_prod_unfold
        split: prod.splits)
  show thesis
    using stake_funds_sum [OF fs] by (intro that [OF d s'(1) _ _ s'(2)]) (auto split: if_splits)
qed

lemma ApplyStake_inv:
  assumes "ApplyStake e amount did prev signer txid rv s = (s', None)"
    and "staking_inv e s" "few_funds e (cs_txn s)"
  shows "staking_inv e s'"
  using assms(1)
proof (rule ApplyStake_cases)
  fix d funds
  assume d: "GetDelegate e (cs_txn s) did = Inr d"
    and a: "unat (StakedAmount (cs_stats s)) + unat amount < 2 ^ 64"
    and f: "funds_sum funds = funds_sum (d_Funds d) + unat amount" "length funds \<le> Suc (length (d_Funds d))"
    and s': "s' = s\<lparr>cs_stats := (cs_stats s)\<lparr>StakedAmount := StakedAmount (cs_stats s) + amount\<rparr>,
           cs_txn := kv_put e (cs_txn s) IdxDelegate (u64_key (d_Id d))
             (Delegate_Serialize (d\<lparr>d_Funds := funds\<rparr>))\<rparr>"
  have ok: "delegates_ok e (cs_txn s)" using assms(2) by (simp add: staking_inv_def)
  note id = GetDelegate_ok [OF ok d]
  have "Suc (length (d_Funds d)) < 2 ^ 64" using assms(3) d by (auto simp: few_funds_def)
  then have wf: "delegate_wf (d\<lparr>d_Funds := funds\<rparr>)"
    using id(2) f(2) by (simp add: delegate_wf_def)
  show ?thesis
    using a f(1) id(1) by (intro staking_inv_SetDelegate [OF assms(2) d _ wf _ _ refl])
      (simp_all add: s' unat_add64)
qed

lemma ApplyUnstake_cases:
  assumes "ApplyUnstake e amount did signer rv prev s = (s', None)"
  obtains d funds where "GetDelegate e (cs_txn s) did = Inr d"
    "amount \<le> StakedAmount (cs_stats s)"
    "funds_sum funds + unat amount = funds_sum (d_Funds d)" "length funds \<le> length (d_Funds d)"
    "s' = s\<lparr>cs_stats := (cs_stats s)\<lparr>StakedAmount := StakedAmount (cs_stats s) - amount\<rparr>,
           cs_txn := kv_put e (cs_txn s) IdxDelegate (u64_key (d_Id d))
             (Delegate_Serialize (d\<lparr>d_Funds := funds\<rparr>))\<rparr>"
proof -
  obtain d fs where d: "GetDelegate e (cs_txn s) did = Inr d"
    and fs: "unstake_funds signer amount (TopHeight (cs_stats s)) rv prev (d_Funds d) = Inr fs"
    and s': "amount \<le> StakedAmount (cs_stats s)"
     "s' = s\<lparr>cs_stats := (cs_stats s)\<lparr>StakedAmount := StakedAmount (cs_stats s) - amount\<rparr>,
           cs_txn := kv_put e (cs_txn s) IdxDelegate (u64_key (d_Id d))
             (Delegate_Serialize (d\<lparr>d_Funds := fs\<rparr>))\<rparr>"
    using assms by (auto simp: ApplyUnstake_def Let_def outcome_iffs bc_SetDelegate_def kvPut_eq)
  show thesis using unstake_funds_sum [OF fs] by (intro that [OF d s'(1) _ _ s'(2)]) auto
qed

lemma ApplyUnstake_inv:
  assumes "ApplyUnstake e amount did signer rv prev s = (s', None)" and "staking_inv e s"
  shows "staking_inv e s'"
  using assms(1)
proof (rule ApplyUnstake_cases)
  fix d funds
  assume d: "GetDelegate e (cs_txn s) did = Inr d"
    and a: "amount \<le> StakedAmount (cs_stats s)"
    and f: "funds_sum funds + unat amount = funds_sum (d_Funds d)" "length funds \<le> length (d_Funds d)"
    and s': "s' = s\<lparr>cs_stats := (cs_stats s)\<lparr>StakedAmount := StakedAmount (cs_stats s) - amount\<rparr>,
           cs_txn := kv_put e (cs_txn s) IdxDelegate (u64_key (d_Id d))
             (Delegate_Serialize (d\<lparr>d_Funds := funds\<rparr>))\<rparr>"
  have ok: "delegates_ok e (cs_txn s)" using assms(2) by (simp add: staking_inv_def)
  note id = GetDelegate_ok [OF ok d]
  have wf: "delegate_wf (d\<lparr>d_Funds := funds\<rparr>)" using id(2) f(2) by (simp add: delegate_wf_def)
  show ?thesis
    using a f(1) id(1) by (intro staking_inv_SetDelegate [OF assms(2) d _ wf _ _ refl])
      (simp_all add: s' unat_sub64 word_le_nat_alt)
qed

end


context adb_txn
begin

text \<open>A reward for a delegate with stake succeeds, adds exactly the reward to its funds and keeps the
  delegate as it was in the history of the block.\<close>

lemma ApplyPosReward_ok:
  assumes inv: "staking_inv e s" and few: "few_funds e (cs_txn s)"
    and did: "so_ExtraData out \<noteq> 0" and d: "GetDelegate e (cs_txn s) (so_ExtraData out) = Inr d"
    and stake: "funds_sum (d_Funds d) \<noteq> 0"
    and room: "unat (StakedAmount (cs_stats s)) + unat (so_Amount out) < 2 ^ 64"
  obtains s' d' where "ApplyPosReward e blockhash out s = (s', None)" "staking_inv e s'"
    "GetDelegate e (cs_txn s') (so_ExtraData out) = Inr d'"
    "funds_sum (d_Funds d') = funds_sum (d_Funds d) + unat (so_Amount out)"
    "GetDelegateHistory e (cs_txn s') blockhash = Inr d"
    "cs_stats s' = (cs_stats s)\<lparr>StakedAmount := StakedAmount (cs_stats s) + so_Amount out\<rparr>"
proof -
  let ?did = "so_ExtraData out" and ?r = "so_Amount out" and ?t = "cs_txn s"
  have ok: "delegates_ok e ?t" and tot: "total_staked e ?t = unat (StakedAmount (cs_stats s))"
    using inv by (simp_all add: staking_inv_def)
  note dd = GetDelegate_ok [OF ok d]
  have le: "funds_sum (d_Funds d) \<le> unat (StakedAmount (cs_stats s))"
    using delegate_stake_le [OF d] tot by simp
  define ts where "ts = (word_of_nat (funds_sum (d_Funds d)) :: u64)"
  have ts: "unat ts = funds_sum (d_Funds d)"
    unfolding ts_def using le room by (intro unat_of_nat64) simp
  have ts0: "ts \<noteq> 0" using ts stake by auto
  have total: "Delegate_TotalAmount d = Inr ts" by (simp add: Delegate_TotalAmount_Inr ts)
  obtain fs where fs: "pos_funds (OwnerAddress e d) ?r ts (d_Funds d) = Inr fs"
    "funds_sum fs = funds_sum (d_Funds d) + unat ?r" "length fs \<le> Suc (length (d_Funds d))"
    using ts0 ts le room by (rule_tac pos_funds_ok [of ts "d_Funds d" ?r "OwnerAddress e d"]) auto
  define t1 where "t1 = kv_put e ?t IdxDelegateHistory (arr_bytes blockhash) (Delegate_Serialize d)"
  define d' where "d' = d\<lparr>d_Funds := fs\<rparr>"
  define t2 where "t2 = kv_put e t1 IdxDelegate (u64_key ?did) (Delegate_Serialize d')"
  let ?st = "(cs_stats s)\<lparr>StakedAmount := StakedAmount (cs_stats s) + ?r\<rparr>"
  let ?s' = "s\<lparr>cs_txn := t2, cs_stats := ?st\<rparr>"
  have "Suc (length (d_Funds d)) < 2 ^ 64" using few d by (auto simp: few_funds_def)
  then have wf: "delegate_wf d'"
    using dd(2) fs(3) by (simp add: delegate_wf_def d'_def)
  have id': "d_Id d' = ?did" using dd(1) by (simp add: d'_def)
  have "d_Funds d \<noteq> []" using stake by auto
  moreover have "\<not> StakedAmount (cs_stats s) + ?r < StakedAmount (cs_stats s)"
    using room by (simp add: add64_wraps_iff)
  ultimately have run: "ApplyPosReward e blockhash out s = (?s', None)"
    using did d total ts0 fs(1) dd(1)
    by (simp add: ApplyPosReward_def on_txn_def on_stats_def SetDelegateHistory_def bc_SetDelegate_def
        kvPut_eq Stats_Staked_def t1_def t2_def d'_def)
  have inv1: "staking_inv e (s\<lparr>cs_txn := t1\<rparr>)"
    using inv by (simp add: staking_inv_def t1_def)
  have d1: "GetDelegate e t1 ?did = Inr d" using d by (simp add: t1_def)
  have "staking_inv e ?s'"
    using room fs(2) id' d1
    by (intro staking_inv_SetDelegate [OF inv1 _ id' wf, of d ?st])
      (simp_all add: t2_def unat_add64 d'_def)
  moreover have "GetDelegate e t2 ?did = Inr d'"
    unfolding t2_def id' [symmetric] using GetDelegate_put [OF wf] by simp
  moreover have "GetDelegateHistory e t2 blockhash = Inr d"
    using GetDelegateHistory_put [OF dd(2), of ?t blockhash blockhash]
    by (simp add: t2_def t1_def GetDelegateHistory_def)
  ultimately show thesis using run fs(2) by (intro that [of ?s' d']) (simp_all add: d'_def)
qed

text \<open>Whatever they return, the operations on delegates leave the states of the addresses alone.\<close>

lemma ApplyStake_writes [frame_intros]:
  "IdxDelegate \<in> I \<Longrightarrow> writes e I s (ApplyStake e a did prev sg txid rv s)"
  unfolding ApplyStake_def bc_SetDelegate_def by (intro frame_intros) (auto intro: frame_intros)

lemma ApplyUnstake_writes [frame_intros]:
  "IdxDelegate \<in> I \<Longrightarrow> writes e I s (ApplyUnstake e a did sg rv prev s)"
  unfolding ApplyUnstake_def Let_def bc_SetDelegate_def by (intro frame_intros)

lemma ApplyPosReward_writes [frame_intros]:
  "IdxDelegate \<in> I \<Longrightarrow> IdxDelegateHistory \<in> I \<Longrightarrow> writes e I s (ApplyPosReward e bh out s)"
  unfolding ApplyPosReward_def bc_SetDelegate_def SetDelegateHistory_def by (intro frame_intros)

lemma RemovePosReward_writes [frame_intros]:
  "IdxDelegate \<in> I \<Longrightarrow> writes e I s (RemovePosReward e bh out s)"
  unfolding RemovePosReward_def bc_SetDelegate_def by (intro frame_intros)

end


section \<open>The next staker\<close>

definition stored_delegate :: "bytes \<Rightarrow> Delegate" where
  "stored_delegate v = (case Delegate_Deserialize v of Inr d \<Rightarrow> d | Inl _ \<Rightarrow> no_delegate)"

definition stored_delegates :: "('t, 'x) ext_scheme \<Rightarrow> 't \<Rightarrow> Delegate list" where
  "stored_delegates e t = map (\<lambda>p. stored_delegate (snd p)) (kvForEach e t IdxDelegate)"

definition stake_of :: "Delegate list \<Rightarrow> nat" where
  "stake_of ds = (\<Sum>d\<leftarrow>ds. funds_sum (d_Funds d))"

text \<open>The specification of the scan: the first delegate at which the stake seen so far reaches the
  index.\<close>

fun pick :: "nat \<Rightarrow> nat \<Rightarrow> Delegate list \<Rightarrow> Delegate option" where
  "pick idx seen [] = None"
| "pick idx seen (d # ds) =
     (let seen = seen + funds_sum (d_Funds d) in if idx \<le> seen then Some d else pick idx seen ds)"

lemma pick_found: "ds \<noteq> [] \<Longrightarrow> idx \<le> seen + stake_of ds \<Longrightarrow> \<exists>d\<in>set ds. pick idx seen ds = Some d"
proof (induction ds arbitrary: seen)
  case (Cons d ds)
  show ?case
  proof (cases "idx \<le> seen + funds_sum (d_Funds d)")
    case False
    then have "ds \<noteq> []" using Cons.prems by (auto simp: stake_of_def)
    then show ?thesis
      using False Cons.IH [of "seen + funds_sum (d_Funds d)"] Cons.prems
      by (auto simp: stake_of_def Let_def add.assoc)
  qed (simp add: Let_def)
qed simp

text \<open>With an index from one to the total, delegates are picked in proportion to their stake: the
  indices of a delegate are an interval as long as its stake.\<close>

lemma pick_interval:
  assumes "distinct ds" "ds = pre @ d # post" "seen + stake_of pre < idx"
  shows "pick idx seen ds = Some d \<longleftrightarrow> idx \<le> seen + stake_of pre + funds_sum (d_Funds d)"
  using assms
proof (induction pre arbitrary: seen ds)
  case Nil
  have "d' \<noteq> d" if "pick idx s post = Some d'" for s d'
  proof -
    have "d' \<in> set post" using that by (induction post arbitrary: s) (auto simp: Let_def split: if_splits)
    then show ?thesis using Nil by auto
  qed
  then show ?case using Nil by (auto simp: stake_of_def Let_def)
next
  case (Cons x pre)
  then have "\<not> idx \<le> seen + funds_sum (d_Funds x)" by (simp add: stake_of_def)
  then show ?case
    using Cons.IH [of "pre @ d # post" "seen + funds_sum (d_Funds x)"] Cons.prems
    by (simp add: stake_of_def Let_def add.assoc)
qed

lemma staker_scan:
  assumes "\<forall>(k, v)\<in>set kvs. \<exists>d. Delegate_Deserialize v = Inr d"
    and "unat seen + stake_of (map (\<lambda>p. stored_delegate (snd p)) kvs) < 2 ^ 64"
  shows "\<exists>seen'. foreach_interrupt
      (\<lambda>s k v. res_bind (Delegate_Deserialize v) (\<lambda>d. staker_step idx s d)) (seen, None) kvs =
    Inr (seen', pick (unat idx) (unat seen) (map (\<lambda>p. stored_delegate (snd p)) kvs))"
  using assms
proof (induction kvs arbitrary: seen)
  case (Cons kv kvs)
  obtain k v where kv: "kv = (k, v)" by fastforce
  then obtain d where d: "Delegate_Deserialize v = Inr d" using Cons.prems by auto
  then have sd: "stored_delegate v = d" by (simp add: stored_delegate_def)
  let ?x = "funds_sum (d_Funds d)" and ?w = "word_of_nat (funds_sum (d_Funds d)) :: u64"
  have room: "unat seen + ?x + stake_of (map (\<lambda>p. stored_delegate (snd p)) kvs) < 2 ^ 64"
    using Cons.prems(2) kv sd by (simp add: stake_of_def comp_def)
  then have w: "unat ?w = ?x" by (intro unat_of_nat64) simp
  then have t: "Delegate_TotalAmount d = Inr ?w" by (simp add: Delegate_TotalAmount_Inr)
  have s: "unat (seen + ?w) = unat seen + ?x" using room w by (subst unat_add64) simp_all
  have no: "\<not> seen + ?w < seen" using room w by (simp add: add64_wraps_iff)
  have c: "idx \<le> seen + ?w \<longleftrightarrow> unat idx \<le> unat seen + ?x" using s by (simp add: word_le_nat_alt)
  have IH: "\<exists>seen'. foreach_interrupt
      (\<lambda>s k v. res_bind (Delegate_Deserialize v) (\<lambda>d. staker_step idx s d)) (seen + ?w, None) kvs =
    Inr (seen', pick (unat idx) (unat seen + ?x) (map (\<lambda>p. stored_delegate (snd p)) kvs))"
    using Cons.IH [of "seen + ?w"] Cons.prems(1) room s by simp
  show ?case
    using IH no c by (auto simp: kv d sd t staker_step_def Let_def)
qed simp

definition coin_index :: "hash \<Rightarrow> nat \<Rightarrow> nat" where
  "coin_index h staked = le_val (take 16 (arr_bytes h)) mod staked"

lemma hashToCoinIndex_val:
  assumes "staked \<noteq> 0"
  shows "hashToCoinIndex h staked = Inr (word_of_nat (coin_index h (unat staked)))"
    and "coin_index h (unat staked) < unat staked"
proof -
  let ?b = "take 16 (arr_bytes h)"
  have len: "length ?b = 16" by simp
  have app: "le_val (xs @ ys) = le_val xs + 256 ^ length xs * le_val ys" for xs ys
    by (induction xs) (simp_all add: algebra_simps)
  have b8: "le_val xs < 2 ^ 64" if "length xs = 8" for xs
    using le_val_bound [of xs] that by (simp add: power256)
  let ?lo = "take 8 ?b" and ?hi = "take 8 (drop 8 ?b)"
  have l: "length ?lo = 8" "length ?hi = 8" using len by simp_all
  have "?b = ?lo @ ?hi" using take_add [of 8 8 "arr_bytes h"] by (simp add: drop_take)
  then have spl: "le_val ?b = le_val ?lo + 2 ^ 64 * le_val ?hi"
    using app [of ?lo ?hi] l by simp
  have u: "U128_FromBytes ?b = Inr (Uint128 (word_of_nat (le_val ?lo)) (word_of_nat (le_val ?hi)))"
    using len by (simp add: U128_FromBytes_def U128_New_def)
  have v: "val128 (Uint128 (word_of_nat (le_val ?lo)) (word_of_nat (le_val ?hi))) = le_val ?b"
    using b8 [OF l(1)] b8 [OF l(2)] spl by (simp add: val128_def unat_of_nat64)
  show "hashToCoinIndex h staked = Inr (word_of_nat (coin_index h (unat staked)))"
    unfolding hashToCoinIndex_def u res_bind.simps U128_Mod64_val [OF assms] v coin_index_def
    by (rule refl)
  show "coin_index h (unat staked) < unat staked"
    using assms by (simp add: coin_index_def unat_gt_0)
qed

context adb_txn
begin

lemma stored_delegates_ok:
  assumes "delegates_ok e t"
  shows "\<forall>(k, v)\<in>set (kvForEach e t IdxDelegate). \<exists>d. Delegate_Deserialize v = Inr d"
  using assms by (fastforce simp: delegates_ok_def foreach_in Delegate_codec)

lemma stake_of_stored: "delegates_ok e t \<Longrightarrow> stake_of (stored_delegates e t) = total_staked e t"
  unfolding stake_of_def stored_delegates_def total_staked_def kv_sum_def map_map
  by (intro arg_cong [of _ _ sum_list] map_cong)
    (auto dest!: stored_delegates_ok simp: stored_delegate_def delegate_stake_def split: sum.split)

lemma stored_delegate_in:
  assumes "delegates_ok e t" "d \<in> set (stored_delegates e t)"
  shows "GetDelegate e t (d_Id d) = Inr d"
proof -
  obtain k v where kv: "kvGet e t IdxDelegate k = Some v" "d = stored_delegate v"
    using assms(2) by (auto simp: stored_delegates_def foreach_in)
  then obtain d' where d': "v = Delegate_Serialize d'" "delegate_wf d'" "k = u64_key (d_Id d')"
    using assms(1) unfolding delegates_ok_def by blast
  then have "d = d'" using kv(2) by (simp add: stored_delegate_def Delegate_codec)
  with kv d' show ?thesis by (simp add: GetDelegate_def delegate_of_def Delegate_codec Suc_le_eq)
qed

text \<open>While anything is staked, there is a next staker, and it is a registered delegate.\<close>

lemma GetStaker_ok:
  assumes inv: "staking_inv e s" and st: "StakedAmount (cs_stats s) \<noteq> 0"
  obtains d where "GetStaker e (cs_txn s) h (cs_stats s) = Inr d"
    "pick (coin_index h (unat (StakedAmount (cs_stats s)))) 0 (stored_delegates e (cs_txn s)) = Some d"
    "GetDelegate e (cs_txn s) (d_Id d) = Inr d"
proof -
  let ?t = "cs_txn s" and ?n = "StakedAmount (cs_stats s)"
  let ?ds = "stored_delegates e ?t" and ?i = "coin_index h (unat ?n)"
  have ok: "delegates_ok e ?t" and tot: "total_staked e ?t = unat ?n"
    using inv by (simp_all add: staking_inv_def)
  note idx = hashToCoinIndex_val [OF st, of h]
  have sum: "stake_of ?ds = unat ?n" using stake_of_stored [OF ok] tot by simp
  then have ne: "?ds \<noteq> []" using st by (auto simp: stake_of_def unat_eq_0)
  obtain d where d: "d \<in> set ?ds" "pick ?i 0 ?ds = Some d"
    using pick_found [OF ne, of ?i 0] idx(2) sum by auto
  have i: "unat (word_of_nat ?i :: u64) = ?i"
    using idx(2) unat_lt64 [of ?n] by (intro unat_of_nat64) simp
  have "GetStaker e ?t h (cs_stats s) = Inr d"
    using staker_scan [OF stored_delegates_ok [OF ok], of 0 "word_of_nat ?i"] sum unat_lt64 [of ?n] st d(2)
    by (auto simp: GetStaker_def idx(1) GetDelegates_def stored_delegates_def i)
  then show thesis using that d stored_delegate_in [OF ok d(1)] by blast
qed

end

end
