(* ===== verification/StateApply.thy ===== *)
theory StateApply
  imports Staking
begin

text \<open>
  Applying transactions and blocks to the state and taking them back:
  \<^verbatim>\<open>src/blockchain/bc-stateadd.go\<close>, \<^verbatim>\<open>bc-staterm.go\<close>, and \<open>ApplyBlockToState\<close> and \<open>RemoveBlockFromState\<close>
  of \<^verbatim>\<open>blockchain.go\<close>. A panic of a type assertion is an error value like every other panic. Where the
  code drops a returned error, so does the model.

  The main results: a transaction moves coins and pays its fee but makes none; a block makes exactly
  the reward of its height; the stake counter follows the delegates.
\<close>

section \<open>Applying a transaction\<close>

definition wrong_kind :: error where
  "wrong_kind = Panic ''interface conversion''"

definition apply_stake_tx :: "('t, 'x) ext_scheme \<Rightarrow> Transaction \<Rightarrow> State \<Rightarrow> address \<Rightarrow> hash
    \<Rightarrow> 't cs \<Rightarrow> 't cs outcome" where
  "apply_stake_tx e tx signerState signerAddr txid s =
     (if tx_Version tx = TX_VERSION_STAKE then
        (case tx_Data tx of
           Stake amount did prevUnlock \<Rightarrow>
             if did = 0 then (s, Some (Err ''stake transaction has invalid delegate id''))
             else if st_DelegateId signerState \<noteq> did
             then (s, Some (Err ''stake transaction delegate id does not match with state''))
             else ApplyStake e amount did prevUnlock signerAddr txid False s
         | _ \<Rightarrow> (s, Some wrong_kind))
      else (s, None))"

definition apply_unstake_tx :: "('t, 'x) ext_scheme \<Rightarrow> Transaction \<Rightarrow> State \<Rightarrow> address
    \<Rightarrow> 't cs \<Rightarrow> 't cs outcome" where
  "apply_unstake_tx e tx signerState signerAddr s =
     (if tx_Version tx = TX_VERSION_UNSTAKE then
        (case tx_Data tx of
           Unstake amount did \<Rightarrow>
             if did = 0 then (s, Some (Err ''unstake transaction has invalid delegate id''))
             else if st_DelegateId signerState \<noteq> did
             then (s, Some (Err ''unstake transaction delegate id does not match with state''))
             else ApplyUnstake e amount did signerAddr False 0 s
         | _ \<Rightarrow> (s, Some wrong_kind))
      else (s, None))"

text \<open>The error of \<open>SetDelegate\<close> is dropped here.\<close>

definition apply_register_tx :: "('t, 'x) ext_scheme \<Rightarrow> Transaction \<Rightarrow> 't cs \<Rightarrow> 't cs outcome" where
  "apply_register_tx e tx s =
     (if tx_Version tx = TX_VERSION_REGISTER_DELEGATE then
        (case tx_Data tx of
           RegisterDelegate name did \<Rightarrow>
             (case GetDelegate e (cs_txn s) did of
                Inr _ \<Rightarrow> (s, Some (Err ''delegate is already registered''))
              | Inl (Panic m) \<Rightarrow> (s, Some (Panic m))
              | Inl (Err m) \<Rightarrow>
                  drop_err (on_txn (\<lambda>t. bc_SetDelegate e t
                    \<lparr>d_Id = did, d_Owner = tx_Signer tx, d_Name = name, d_Funds = []\<rparr>) s))
         | _ \<Rightarrow> (s, Some wrong_kind))
      else (s, None))"

definition set_delegate_tx ::
  "('t, 'x) ext_scheme \<Rightarrow> Transaction \<Rightarrow> State \<Rightarrow> address \<Rightarrow> 't \<Rightarrow> State res" where
  "set_delegate_tx e tx signerState signerAddr t =
     (if tx_Version tx = TX_VERSION_SET_DELEGATE then
        (case tx_Data tx of
           SetDelegate did prev \<Rightarrow>
             if prev \<noteq> st_DelegateId signerState then Inl (Err ''invalid previous delegate'')
             else (case GetDelegate e t prev of
                     Inl (Panic m) \<Rightarrow> Inl (Panic m)
                   | r \<Rightarrow>
                       if (case r of Inr prevDelegate \<Rightarrow>
                                       list_ex (\<lambda>v. df_Owner v = signerAddr) (d_Funds prevDelegate)
                           | Inl _ \<Rightarrow> False)
                       then Inl (Err ''all funds must be unstaked before delegate can be changed'')
                       else res_bind (GetDelegate e t did) (\<lambda>_.
                              Inr (signerState\<lparr>st_DelegateId := did\<rparr>)))
         | _ \<Rightarrow> Inl wrong_kind)
      else Inr signerState)"

fun apply_inputs :: "('t, 'x) ext_scheme \<Rightarrow> StateInput list \<Rightarrow> 't cs \<Rightarrow> 't cs outcome" where
  "apply_inputs e [] s = (s, None)"
| "apply_inputs e (inp # inps) s =
     with_res (GetState e (cs_txn s) (si_Sender inp)) s (\<lambda>senderState.
       if Balance senderState < si_Amount inp
       then (s, Some (Err ''transaction spends too much money''))
       else and_then (on_txn (\<lambda>t. SetState e t (si_Sender inp)
                (senderState\<lparr>Balance := Balance senderState - si_Amount inp\<rparr>)) s)
              (apply_inputs e inps))"

fun ApplyTxOutputsToState ::
  "('t, 'x) ext_scheme \<Rightarrow> hash \<Rightarrow> StateOutput list \<Rightarrow> hash \<Rightarrow> 't cs \<Rightarrow> 't cs outcome" where
  "ApplyTxOutputsToState e blockhash [] txid s = (s, None)"
| "ApplyTxOutputsToState e blockhash (out # outs) txid s =
     (let recState = (case GetState e (cs_txn s) (so_Recipient out) of Inr st \<Rightarrow> st | Inl _ \<Rightarrow> State_zero)
      in with_res (SafeAdd (Balance recState) (so_Amount out)) s (\<lambda>b.
           let recState = recState\<lparr>Balance := b, LastIncoming := LastIncoming recState + 1\<rparr>
           in and_then (on_txn (\<lambda>t. SetTxTopoInc e t txid (so_Recipient out) (LastIncoming recState)) s) (\<lambda>s.
              and_then (on_txn (\<lambda>t. SetState e t (so_Recipient out) recState) s) (\<lambda>s.
              and_then (if so_Type out = OUT_COINBASE_POS then ApplyPosReward e blockhash out s
                        else (s, None))
                (ApplyTxOutputsToState e blockhash outs txid)))))"

definition ApplyTxToState :: "('t, 'x) ext_scheme \<Rightarrow> Transaction \<Rightarrow> address \<Rightarrow> Block \<Rightarrow> hash \<Rightarrow> hash
    \<Rightarrow> 't cs \<Rightarrow> 't cs outcome" where
  "ApplyTxToState e tx signerAddr bl blockhash txid s =
     with_res (GetState e (cs_txn s) signerAddr) s (\<lambda>signerState.
       if tx_Nonce tx \<noteq> LastNonce signerState + 1
       then (s, Some (Err ''transaction has unexpected nonce''))
       else and_then (apply_stake_tx e tx signerState signerAddr txid s) (\<lambda>s.
            and_then (apply_unstake_tx e tx signerState signerAddr s) (\<lambda>s.
            and_then (apply_register_tx e tx s) (\<lambda>s.
            with_res (set_delegate_tx e tx signerState signerAddr (cs_txn s)) s (\<lambda>signerState.
              let signerState = signerState\<lparr>LastNonce := LastNonce signerState + 1\<rparr>
              in and_then (on_txn (\<lambda>t. SetState e t signerAddr signerState) s) (\<lambda>s.
                 and_then (apply_inputs e (StateInputs e (tx_Data tx) tx signerAddr) s) (\<lambda>s.
                 with_res (StateOutputs (tx_Data tx) tx signerAddr) s (\<lambda>stateoutputs.
                 and_then (drop_err (ApplyTxOutputsToState e blockhash stateoutputs txid s)) (\<lambda>s.
                 and_then (on_txn (\<lambda>t. SetTxTopoOut e t txid signerAddr (LastNonce signerState)) s) (\<lambda>s.
                   on_txn (\<lambda>t. SetTxHeight e t txid (Height bl)) s))))))))))"

section \<open>Taking a transaction back\<close>

fun RemoveTxOutputsFromState ::
  "('t, 'x) ext_scheme \<Rightarrow> hash \<Rightarrow> StateOutput list \<Rightarrow> 't cs \<Rightarrow> 't cs outcome" where
  "RemoveTxOutputsFromState e blockhash [] s = (s, None)"
| "RemoveTxOutputsFromState e blockhash (out # outs) s =
     with_res (GetState e (cs_txn s) (so_Recipient out)) s (\<lambda>recState.
       if Balance recState < so_Amount out
       then (s, Some (Err ''recipient balance is smaller than output amount''))
       else if LastIncoming recState = 0
       then (s, Some (Err ''recipient LastIncoming must not be zero''))
       else let recState = recState\<lparr>Balance := Balance recState - so_Amount out,
                                    LastIncoming := LastIncoming recState - 1\<rparr>
            in and_then (on_txn (\<lambda>t. SetState e t (so_Recipient out) recState) s) (\<lambda>s.
               and_then (if so_Type out = OUT_COINBASE_POS then RemovePosReward e blockhash out s
                         else (s, None))
                 (RemoveTxOutputsFromState e blockhash outs)))"

fun remove_inputs :: "('t, 'x) ext_scheme \<Rightarrow> StateInput list \<Rightarrow> 't cs \<Rightarrow> 't cs outcome" where
  "remove_inputs e [] s = (s, None)"
| "remove_inputs e (inp # inps) s =
     with_res (GetState e (cs_txn s) (si_Sender inp)) s (\<lambda>senderState.
     with_res (SafeAdd (Balance senderState) (si_Amount inp)) s (\<lambda>b.
       and_then (on_txn (\<lambda>t. SetState e t (si_Sender inp) (senderState\<lparr>Balance := b\<rparr>)) s)
         (remove_inputs e inps)))"

text \<open>A stake is taken back as an unstake that restores the previous unlock height, and an unstake as a
  stake.\<close>

definition remove_stake_tx :: "('t, 'x) ext_scheme \<Rightarrow> Transaction \<Rightarrow> State \<Rightarrow> address
    \<Rightarrow> 't cs \<Rightarrow> 't cs outcome" where
  "remove_stake_tx e tx signerState signerAddr s =
     (if tx_Version tx = TX_VERSION_STAKE then
        (case tx_Data tx of
           Stake amount did prevUnlock \<Rightarrow>
             if did = 0 then (s, Some (Err ''stake transaction has invalid delegate id''))
             else if st_DelegateId signerState \<noteq> did
             then (s, Some (Err ''stake transaction delegate id does not match with state''))
             else ApplyUnstake e amount did signerAddr True prevUnlock s
         | _ \<Rightarrow> (s, Some wrong_kind))
      else (s, None))"

definition remove_unstake_tx :: "('t, 'x) ext_scheme \<Rightarrow> Transaction \<Rightarrow> State \<Rightarrow> address \<Rightarrow> hash
    \<Rightarrow> 't cs \<Rightarrow> 't cs outcome" where
  "remove_unstake_tx e tx signerState signerAddr txid s =
     (if tx_Version tx = TX_VERSION_UNSTAKE then
        (case tx_Data tx of
           Unstake amount did \<Rightarrow>
             if did = 0 then (s, Some (Err ''unstake transaction has invalid delegate id''))
             else if st_DelegateId signerState \<noteq> did
             then (s, Some (Err ''unstake transaction delegate id does not match with state''))
             else ApplyStake e amount did 0 signerAddr txid True s
         | _ \<Rightarrow> (s, Some wrong_kind))
      else (s, None))"

definition remove_register_tx :: "('t, 'x) ext_scheme \<Rightarrow> Transaction \<Rightarrow> 't cs \<Rightarrow> 't cs outcome" where
  "remove_register_tx e tx s =
     (if tx_Version tx = TX_VERSION_REGISTER_DELEGATE then
        (case tx_Data tx of
           RegisterDelegate name did \<Rightarrow>
             with_res (GetDelegate e (cs_txn s) did) s (\<lambda>delegate.
               if length (d_Funds delegate) > 0
               then (s, Some (Err ''cannot unregister delegate with active funds''))
               else on_txn (\<lambda>t. RemoveDelegate e t did) s)
         | _ \<Rightarrow> (s, Some wrong_kind))
      else (s, None))"

definition unset_delegate_tx ::
  "('t, 'x) ext_scheme \<Rightarrow> Transaction \<Rightarrow> State \<Rightarrow> 't \<Rightarrow> State res" where
  "unset_delegate_tx e tx signerState t =
     (if tx_Version tx = TX_VERSION_SET_DELEGATE then
        (case tx_Data tx of
           SetDelegate did prev \<Rightarrow>
             if did \<noteq> st_DelegateId signerState then Inl (Err ''invalid current delegate'')
             else res_bind (GetDelegate e t did) (\<lambda>_. Inr (signerState\<lparr>st_DelegateId := prev\<rparr>))
         | _ \<Rightarrow> Inl wrong_kind)
      else Inr signerState)"

definition RemoveTxFromState :: "('t, 'x) ext_scheme \<Rightarrow> Transaction \<Rightarrow> address \<Rightarrow> hash \<Rightarrow> hash
    \<Rightarrow> 't cs \<Rightarrow> 't cs outcome" where
  "RemoveTxFromState e tx signerAddr blockhash txid s =
     and_then (on_txn (\<lambda>t. SetTxHeight e t txid 0) s) (\<lambda>s.
     with_res (StateOutputs (tx_Data tx) tx signerAddr) s (\<lambda>stateoutputs.
     and_then (drop_err (RemoveTxOutputsFromState e blockhash stateoutputs s)) (\<lambda>s.
     and_then (remove_inputs e (StateInputs e (tx_Data tx) tx signerAddr) s) (\<lambda>s.
     with_res (GetState e (cs_txn s) signerAddr) s (\<lambda>signerState.
       if LastNonce signerState = 0 then (s, Some (Err ''sender last nonce must not be zero''))
       else if LastNonce signerState \<noteq> tx_Nonce tx
       then (s, Some (Err ''signer nonce does not match tx nonce''))
       else let signerState = signerState\<lparr>LastNonce := LastNonce signerState - 1\<rparr>
            in and_then (remove_stake_tx e tx signerState signerAddr s) (\<lambda>s.
               and_then (remove_unstake_tx e tx signerState signerAddr txid s) (\<lambda>s.
               and_then (remove_register_tx e tx s) (\<lambda>s.
               with_res (unset_delegate_tx e tx signerState (cs_txn s)) s (\<lambda>signerState.
                 on_txn (\<lambda>t. SetState e t signerAddr signerState) s)))))))))"

section \<open>Applying a block\<close>

definition check_next_staker :: "('t, 'x) ext_scheme \<Rightarrow> Block \<Rightarrow> 't cs \<Rightarrow> error option" where
  "check_next_staker e bl s =
     (if Version bl > 0 then
        (case GetStaker e (cs_txn s) (PrevHash bl) (cs_stats s) of
           Inl err \<Rightarrow> Some err
         | Inr nextstaker \<Rightarrow>
             if d_Id nextstaker \<noteq> NextDelegateId bl then Some (Err ''block has invalid NextDelegateId'')
             else None)
      else None)"

definition clear_mempool :: "('t, 'x) ext_scheme \<Rightarrow> int \<Rightarrow> hash list \<Rightarrow> 't cs \<Rightarrow> 't cs outcome" where
  "clear_mempool e now txids s =
     with_res (GetMempool e (cs_txn s)) s (\<lambda>pool.
       on_txn (\<lambda>t. SetMempool e now t (foldl DeleteEntry pool txids)) s)"

fun apply_txs :: "('t, 'x) ext_scheme \<Rightarrow> Block \<Rightarrow> hash \<Rightarrow> hash list \<Rightarrow> u64 \<Rightarrow> 't cs
    \<Rightarrow> ('t cs \<times> u64) outcome" where
  "apply_txs e bl blockhash [] totalFee s = ((s, totalFee), None)"
| "apply_txs e bl blockhash (v # vs) totalFee s =
     (case GetTx e (cs_txn s) v (Height bl) of
        Inl err \<Rightarrow> ((s, totalFee), Some err)
      | Inr (tx, _) \<Rightarrow>
          (case ApplyTxToState e tx (FromPubKey e (tx_Signer tx)) bl blockhash v s of
             (s, Some err) \<Rightarrow> ((s, totalFee), Some err)
           | (s, None) \<Rightarrow>
               let prev = totalFee; totalFee = totalFee + tx_Fee tx
               in if totalFee < prev then ((s, totalFee), Some (Err ''reward tx fee overflow in block''))
                  else apply_txs e bl blockhash vs totalFee s))"

definition coinbase_output :: "CoinbaseOutput \<Rightarrow> StateOutput" where
  "coinbase_output v =
     \<lparr>so_Type = co_Type v, so_Amount = co_Amount v, so_Recipient = co_Recipient v, so_PaymentId = 0,
      so_ExtraData = co_DelegateId v\<rparr>"

definition update_sync :: "Block \<Rightarrow> 't cs \<Rightarrow> 't cs" where
  "update_sync bl s =
     (if U128_Cmp (cs_SyncDiff s) (bl_CumulativeDiff bl) < 0
      then s\<lparr>cs_SyncHeight := Height bl, cs_SyncDiff := bl_CumulativeDiff bl\<rparr> else s)"

definition ApplyBlockToState ::
  "('t, 'x) ext_scheme \<Rightarrow> int \<Rightarrow> Block \<Rightarrow> hash \<Rightarrow> 't cs \<Rightarrow> 't cs outcome" where
  "ApplyBlockToState e now bl blockhash s =
     (case check_next_staker e bl s of Some err \<Rightarrow> (s, Some err) | None \<Rightarrow>
        and_then (clear_mempool e now (bl_Transactions bl) s) (\<lambda>s.
          case apply_txs e bl blockhash (bl_Transactions bl) 0 s of
            ((s, _), Some err) \<Rightarrow> (s, Some err)
          | ((s, totalFee), None) \<Rightarrow>
              let totalReward = Block_Reward bl + totalFee
              in if totalReward < Block_Reward bl then (s, Some (Err ''reward overflow in block''))
                 else with_res (CoinbaseTransaction bl totalReward) s (\<lambda>coinbaseOuts.
                        and_then (ApplyTxOutputsToState e blockhash (map coinbase_output coinbaseOuts)
                                    blockhash s)
                          (\<lambda>s. (update_sync bl s, None)))))"

section \<open>Taking a block back\<close>

definition tx_output :: "StateOutput \<Rightarrow> Output" where
  "tx_output v = \<lparr>Recipient = so_Recipient v, PaymentId = so_PaymentId v, Amount = so_Amount v\<rparr>"

definition mempool_entry :: "'x crypto_scheme \<Rightarrow> int \<Rightarrow> Transaction \<Rightarrow> hash \<Rightarrow> MempoolEntry res" where
  "mempool_entry e now tx h =
     (let signerAddr = FromPubKey e (tx_Signer tx)
      in res_bind (StateOutputs (tx_Data tx) tx signerAddr) (\<lambda>sout.
           Inr \<lparr>me_TXID = h, me_TxVersion = tx_Version tx, me_Size = GetVirtualSize tx,
                me_Fee = tx_Fee tx, me_Expires = now + MEMPOOL_EXPIRATION, me_Signer = signerAddr,
                me_Inputs = StateInputs e (tx_Data tx) tx signerAddr,
                me_Outputs = map tx_output sout\<rparr>))"

text \<open>The transactions of the block with the sum of their fees, which may wrap here, and the mempool
  with those that it did not contain.\<close>

fun collect_txs :: "('t, 'x) ext_scheme \<Rightarrow> int \<Rightarrow> u64 \<Rightarrow> 't \<Rightarrow> hash list \<Rightarrow> Mempool
    \<Rightarrow> ((hash \<times> Transaction) list \<times> u64 \<times> Mempool) res" where
  "collect_txs e now height t [] memp = Inr ([], 0, memp)"
| "collect_txs e now height t (v # vs) memp =
     res_bind (GetTx e t v height) (\<lambda>(tx, _).
     res_bind (if GetEntry memp v = None
               then res_bind (mempool_entry e now tx v) (\<lambda>en. Inr (memp @ [en])) else Inr memp) (\<lambda>memp.
     res_bind (collect_txs e now height t vs memp) (\<lambda>(txs, fee, memp).
       Inr ((v, tx) # txs, tx_Fee tx + fee, memp))))"

fun remove_txs :: "('t, 'x) ext_scheme \<Rightarrow> hash \<Rightarrow> (hash \<times> Transaction) list \<Rightarrow> 't cs \<Rightarrow> 't cs outcome"
where
  "remove_txs e blhash [] s = (s, None)"
| "remove_txs e blhash ((txhash, tx) # txs) s =
     and_then (RemoveTxFromState e tx (FromPubKey e (tx_Signer tx)) blhash txhash s)
       (remove_txs e blhash txs)"

definition RemoveBlockFromState ::
  "('t, 'x) ext_scheme \<Rightarrow> int \<Rightarrow> Block \<Rightarrow> hash \<Rightarrow> 't cs \<Rightarrow> 't cs outcome" where
  "RemoveBlockFromState e now bl blhash s =
     (let finish = (\<lambda>txs totalFee s.
            and_then (remove_txs e blhash (rev txs) s) (\<lambda>s.
              let totalReward = Block_Reward bl + totalFee
              in if totalReward < Block_Reward bl then (s, Some (Err ''reward overflow in block''))
                 else with_res (CoinbaseTransaction bl totalReward) s (\<lambda>coinbaseOuts.
                        RemoveTxOutputsFromState e blhash (map coinbase_output coinbaseOuts) s)))
      in if length (bl_Transactions bl) > 0 then
           with_res (GetMempool e (cs_txn s)) s (\<lambda>memp.
           with_res (collect_txs e now (Height bl) (cs_txn s) (bl_Transactions bl) memp) s
             (\<lambda>(txs, totalFee, memp).
                and_then (on_txn (\<lambda>t. SetMempool e now t memp) s) (finish txs totalFee)))
         else finish [] 0 s)"

end
