(* ===== verification/Ledger.thy ===== *)
theory Ledger
  imports StateApply
begin

text \<open>
  The coins. \<open>total_balance\<close> is the sum of all balances of the store. A transaction that
  \<open>ApplyTxToState\<close> accepts changes each balance by exactly its inputs and outputs, so that all balances
  together fall by its fee; the outputs it pays never fail, although the code drops their error. A block
  that \<open>ApplyBlockToState\<close> accepts raises the sum by exactly the reward of its height, and so the
  states of a chain of height \<open>n\<close> hold \<open>supply_at n\<close>, the number that \<open>CheckSupply\<close> compares with.
\<close>

section \<open>Coins: outputs and inputs\<close>

text \<open>The store after an output was credited to its recipient.\<close>

definition credited :: "('t, 'x) ext_scheme \<Rightarrow> 't \<Rightarrow> hash \<Rightarrow> StateOutput \<Rightarrow> 't" where
  "credited e t txid out =
     (let st = (case GetState e t (so_Recipient out) of Inr st \<Rightarrow> st | Inl _ \<Rightarrow> State_zero);
          st' = st\<lparr>Balance := Balance st + so_Amount out, LastIncoming := LastIncoming st + 1\<rparr>
      in kv_put e (kv_put e t IdxInTx (topo_key (so_Recipient out) (LastIncoming st')) (arr_bytes txid))
           IdxState (arr_bytes (so_Recipient out)) (State_Serialize st'))"

context adb_txn
begin

lemma on_txn_put: "on_txn (\<lambda>t. kvPut e t i (k t) (v t)) s = (s\<lparr>cs_txn := kv_put e (cs_txn s) i (k (cs_txn s)) (v (cs_txn s))\<rparr>, None)"
  by (simp add: on_txn_def kvPut_eq)

lemma on_txn_SetState: "on_txn (\<lambda>t. SetState e t a st) s =
    (s\<lparr>cs_txn := kv_put e (cs_txn s) IdxState (arr_bytes a) (State_Serialize st)\<rparr>, None)"
  by (simp add: on_txn_def SetState_eq)

lemma on_txn_SetTxTopoInc: "on_txn (\<lambda>t. SetTxTopoInc e t h a n) s =
    (s\<lparr>cs_txn := kv_put e (cs_txn s) IdxInTx (topo_key a n) (arr_bytes h)\<rparr>, None)"
  by (simp add: on_txn_def SetTxTopoInc_def kvPut_eq)

lemma on_txn_SetTxTopoOut: "on_txn (\<lambda>t. SetTxTopoOut e t h a n) s =
    (s\<lparr>cs_txn := kv_put e (cs_txn s) IdxOutTx (topo_key a n) (arr_bytes h)\<rparr>, None)"
  by (simp add: on_txn_def SetTxTopoOut_def kvPut_eq)

lemmas on_txn_puts = on_txn_SetState on_txn_SetTxTopoInc on_txn_SetTxTopoOut

lemma writes_SetTxHeight [frame_intros]:
  "IdxTx \<in> I \<Longrightarrow> writes e I s (on_txn (\<lambda>t. SetTxHeight e t h n) s)"
  by (simp add: writes_def on_txn_def SetTxHeight_def kvPut_eq Let_def)

lemma writes_SetMempool [frame_intros]:
  "IdxInfo \<in> I \<Longrightarrow> writes e I s (on_txn (\<lambda>t. SetMempool e now t m) s)"
  by (simp add: writes_def on_txn_def SetMempool_def kvPut_eq Let_def)

text \<open>An operation that leaves the states of the addresses alone leaves the coins alone.\<close>

lemma writes_coins:
  assumes "writes e I s r" "IdxState \<notin> I"
  shows "total_balance e (cs_txn (fst r)) = total_balance e (cs_txn s)"
    "states_ok e (cs_txn (fst r)) = states_ok e (cs_txn s)"
    "balance_of e (cs_txn (fst r)) a = balance_of e (cs_txn s) a"
  using assms only_writes_total_balance only_writes_states_ok only_writes_GetState
  unfolding writes_def balance_of_def by metis+

lemma pos_coins:
  assumes "(if b then ApplyPosReward e bh out s else (s, None)) = (s', None)"
  shows "total_balance e (cs_txn s') = total_balance e (cs_txn s)"
    "states_ok e (cs_txn s') = states_ok e (cs_txn s)"
    "balance_of e (cs_txn s') a = balance_of e (cs_txn s) a"
proof -
  have "writes e {IdxDelegate, IdxDelegateHistory} s (if b then ApplyPosReward e bh out s else (s, None))"
    by (intro frame_intros) simp_all
  from writes_coins [OF this] show "total_balance e (cs_txn s') = total_balance e (cs_txn s)"
    "states_ok e (cs_txn s') = states_ok e (cs_txn s)"
    "balance_of e (cs_txn s') a = balance_of e (cs_txn s) a"
    using assms by simp_all
qed

text \<open>The state that an output finds or makes, and the step of the loop.\<close>

lemma rec_balance:
  "unat (Balance (case GetState e t a of Inr st \<Rightarrow> st | Inl _ \<Rightarrow> State_zero)) = balance_of e t a"
  by (simp add: balance_of_def State_zero_def split: sum.split)

lemma ApplyTxOutputs_step:
  assumes "balance_of e (cs_txn s) (so_Recipient out) + unat (so_Amount out) < 2 ^ 64"
  shows "ApplyTxOutputsToState e bh (out # outs) txid s =
    and_then (if so_Type out = OUT_COINBASE_POS
              then ApplyPosReward e bh out (s\<lparr>cs_txn := credited e (cs_txn s) txid out\<rparr>)
              else (s\<lparr>cs_txn := credited e (cs_txn s) txid out\<rparr>, None))
      (ApplyTxOutputsToState e bh outs txid)"
proof -
  let ?st = "case GetState e (cs_txn s) (so_Recipient out) of Inr st \<Rightarrow> st | Inl _ \<Rightarrow> State_zero"
  have "SafeAdd (Balance ?st) (so_Amount out) = Inr (Balance ?st + so_Amount out)"
    using assms by (simp add: SafeAdd_Inr rec_balance)
  then show ?thesis by (simp add: Let_def on_txn_puts credited_def)
qed

lemma ApplyTxOutputs_room:
  assumes "ApplyTxOutputsToState e bh (out # outs) txid s = (s', None)"
  shows "balance_of e (cs_txn s) (so_Recipient out) + unat (so_Amount out) < 2 ^ 64"
  using assms by (auto simp: Let_def outcome_iffs rec_balance)

lemma credited_coins:
  assumes "states_ok e t" "balance_of e t (so_Recipient out) + unat (so_Amount out) < 2 ^ 64"
  shows "states_ok e (credited e t txid out)"
    "total_balance e (credited e t txid out) = total_balance e t + unat (so_Amount out)"
    "balance_of e (credited e t txid out) a =
       balance_of e t a + (if a = so_Recipient out then unat (so_Amount out) else 0)"
proof -
  let ?a = "so_Recipient out" and ?x = "so_Amount out"
  let ?st = "case GetState e t ?a of Inr st \<Rightarrow> st | Inl _ \<Rightarrow> State_zero"
  let ?t = "kv_put e t IdxInTx (topo_key ?a (LastIncoming ?st + 1)) (arr_bytes txid)"
  have b: "unat (Balance ?st + ?x) = balance_of e t ?a + unat ?x"
    using assms(2) by (subst unat_add64) (simp_all add: rec_balance)
  show "states_ok e (credited e t txid out)"
    using assms(1) by (simp add: credited_def Let_def states_ok_put_State)
  show "total_balance e (credited e t txid out) = total_balance e t + unat ?x"
    using total_put_State [of ?t ?a "?st\<lparr>Balance := Balance ?st + ?x, LastIncoming := LastIncoming ?st + 1\<rparr>"]
      assms(1) b by (simp add: credited_def Let_def)
  show "balance_of e (credited e t txid out) a = balance_of e t a + (if a = ?a then unat ?x else 0)"
    using b by (simp add: credited_def Let_def)
qed

lemma ApplyTxOutputs_coins:
  assumes "ApplyTxOutputsToState e bh outs txid s = (s', None)" "states_ok e (cs_txn s)"
  shows "states_ok e (cs_txn s') \<and>
    total_balance e (cs_txn s') = total_balance e (cs_txn s) + outputs_sum outs"
  using assms
proof (induction outs arbitrary: s)
  case Nil
  then show ?case by (simp add: outputs_sum_def)
next
  case (Cons out outs)
  note room = ApplyTxOutputs_room [OF Cons.prems(1)]
  let ?s = "s\<lparr>cs_txn := credited e (cs_txn s) txid out\<rparr>"
  obtain s1 where s1: "(if so_Type out = OUT_COINBASE_POS then ApplyPosReward e bh out ?s
       else (?s, None)) = (s1, None)"
    and rest: "ApplyTxOutputsToState e bh outs txid s1 = (s', None)"
    using Cons.prems(1) unfolding ApplyTxOutputs_step [OF room] by (auto simp: outcome_iffs)
  show ?case
    using Cons.IH [OF rest] pos_coins [OF s1] credited_coins [OF Cons.prems(2) room]
    by (simp add: outputs_sum_def)
qed

text \<open>Outputs that pay no reward never fail when the coins fit the word.\<close>

lemma ApplyTxOutputs_ok:
  assumes "states_ok e (cs_txn s)" "total_balance e (cs_txn s) + outputs_sum outs < 2 ^ 64"
    and "\<forall>out\<in>set outs. so_Type out \<noteq> OUT_COINBASE_POS"
  shows "\<exists>s'. ApplyTxOutputsToState e bh outs txid s = (s', None)"
  using assms
proof (induction outs arbitrary: s)
  case (Cons out outs)
  have room: "balance_of e (cs_txn s) (so_Recipient out) + unat (so_Amount out) < 2 ^ 64"
    using balance_le_total [OF Cons.prems(1), of "so_Recipient out"] Cons.prems(2)
    by (simp add: outputs_sum_def)
  note c = credited_coins [OF Cons.prems(1) room, of txid]
  have "total_balance e (credited e (cs_txn s) txid out) + outputs_sum outs < 2 ^ 64"
    using Cons.prems(2) c(2) by (simp add: outputs_sum_def)
  with Cons.IH [of "s\<lparr>cs_txn := credited e (cs_txn s) txid out\<rparr>"] c(1) Cons.prems(3)
  show ?case unfolding ApplyTxOutputs_step [OF room] by simp
qed simp

lemma sub_input_total:
  assumes "states_ok e t" "GetState e t a = Inr st" "x \<le> Balance st"
  shows "total_balance e (kv_put e t IdxState (arr_bytes a)
      (State_Serialize (st\<lparr>Balance := Balance st - x\<rparr>))) + unat x = total_balance e t"
  using total_put_State [OF assms(1), of a "st\<lparr>Balance := Balance st - x\<rparr>"]
    balance_le_total [OF assms(1), of a] assms(2,3)
  by (simp add: unat_sub64 balance_of_def word_le_nat_alt)

lemma apply_inputs_coins:
  assumes "apply_inputs e inps s = (s', None)" "states_ok e (cs_txn s)"
  shows "states_ok e (cs_txn s') \<and>
    total_balance e (cs_txn s') + inputs_sum inps = total_balance e (cs_txn s)"
  using assms
proof (induction inps arbitrary: s)
  case Nil
  then show ?case by (simp add: inputs_sum_def)
next
  case (Cons inp inps)
  obtain st where st: "GetState e (cs_txn s) (si_Sender inp) = Inr st" "si_Amount inp \<le> Balance st"
    and rest: "apply_inputs e inps (s\<lparr>cs_txn := kv_put e (cs_txn s) IdxState (arr_bytes (si_Sender inp))
        (State_Serialize (st\<lparr>Balance := Balance st - si_Amount inp\<rparr>))\<rparr>) = (s', None)"
    using Cons.prems(1) by (auto simp: outcome_iffs on_txn_puts not_less split: if_splits)
  show ?case
    using Cons.IH [OF rest] sub_input_total [OF Cons.prems(2) st] Cons.prems(2)
    by (simp add: inputs_sum_def states_ok_put_State)
qed

end

section \<open>Coins: transactions\<close>

text \<open>What a transaction takes from an address and gives to it.\<close>

definition debits :: "address \<Rightarrow> StateInput list \<Rightarrow> nat" where
  "debits a xs = inputs_sum (filter (\<lambda>x. si_Sender x = a) xs)"

definition credits :: "address \<Rightarrow> StateOutput list \<Rightarrow> nat" where
  "credits a xs = outputs_sum (filter (\<lambda>x. so_Recipient x = a) xs)"

definition nonce_of :: "('t, 'x) ext_scheme \<Rightarrow> 't \<Rightarrow> address \<Rightarrow> u64" where
  "nonce_of e t a = (case GetState e t a of Inl _ \<Rightarrow> 0 | Inr st \<Rightarrow> LastNonce st)"

lemma StateOutputs_no_pos:
  "StateOutputs d tx a = Inr outs \<Longrightarrow> \<forall>out\<in>set outs. so_Type out \<noteq> OUT_COINBASE_POS"
  by (cases d) (auto simp: normal_output_def split: if_splits)

context adb_txn
begin

lemma writes_nonce: "writes e I s r \<Longrightarrow> IdxState \<notin> I \<Longrightarrow> nonce_of e (cs_txn (fst r)) a = nonce_of e (cs_txn s) a"
  using only_writes_GetState unfolding writes_def nonce_of_def by metis

lemma nonce_of_credited: "nonce_of e (credited e t txid out) a = nonce_of e t a"
  by (simp add: nonce_of_def credited_def Let_def State_zero_def split: sum.split)

lemma ApplyTxOutputs_ledger:
  assumes "ApplyTxOutputsToState e bh outs txid s = (s', None)" "states_ok e (cs_txn s)"
  shows "balance_of e (cs_txn s') a = balance_of e (cs_txn s) a + credits a outs \<and>
    nonce_of e (cs_txn s') a = nonce_of e (cs_txn s) a"
  using assms
proof (induction outs arbitrary: s)
  case Nil
  then show ?case by (simp add: credits_def outputs_sum_def)
next
  case (Cons out outs)
  note room = ApplyTxOutputs_room [OF Cons.prems(1)]
  let ?s = "s\<lparr>cs_txn := credited e (cs_txn s) txid out\<rparr>"
  let ?r = "if so_Type out = OUT_COINBASE_POS then ApplyPosReward e bh out ?s else (?s, None)"
  obtain s1 where s1: "?r = (s1, None)" and rest: "ApplyTxOutputsToState e bh outs txid s1 = (s', None)"
    using Cons.prems(1) unfolding ApplyTxOutputs_step [OF room] by (auto simp: outcome_iffs)
  have "writes e {IdxDelegate, IdxDelegateHistory} ?s ?r" by (intro frame_intros) simp_all
  from writes_nonce [OF this, of a] s1 have n: "nonce_of e (cs_txn s1) a = nonce_of e (cs_txn s) a"
    by (simp add: nonce_of_credited)
  show ?case
    using Cons.IH [OF rest] pos_coins [OF s1] credited_coins [OF Cons.prems(2) room] n
    by (simp add: credits_def outputs_sum_def)
qed

lemma apply_inputs_ledger:
  assumes "apply_inputs e inps s = (s', None)"
  shows "balance_of e (cs_txn s') a + debits a inps = balance_of e (cs_txn s) a \<and>
    nonce_of e (cs_txn s') a = nonce_of e (cs_txn s) a"
  using assms
proof (induction inps arbitrary: s)
  case Nil
  then show ?case by (simp add: debits_def inputs_sum_def)
next
  case (Cons inp inps)
  obtain st where st: "GetState e (cs_txn s) (si_Sender inp) = Inr st" "si_Amount inp \<le> Balance st"
    and rest: "apply_inputs e inps (s\<lparr>cs_txn := kv_put e (cs_txn s) IdxState (arr_bytes (si_Sender inp))
        (State_Serialize (st\<lparr>Balance := Balance st - si_Amount inp\<rparr>))\<rparr>) = (s', None)"
    using Cons.prems(1) by (auto simp: outcome_iffs on_txn_puts not_less split: if_splits)
  have "unat (Balance st - si_Amount inp) + unat (si_Amount inp) = unat (Balance st)"
    using st(2) by (simp add: unat_sub64 word_le_nat_alt)
  then show ?case
    using Cons.IH [OF rest] st(1)
    by (auto simp: debits_def inputs_sum_def nonce_of_def balance_of_def split: if_splits)
qed

lemma staking_txs_write [frame_intros]:
  "IdxDelegate \<in> I \<Longrightarrow> writes e I s (apply_stake_tx e tx st a txid s)"
  "IdxDelegate \<in> I \<Longrightarrow> writes e I s (apply_unstake_tx e tx st a s)"
  "IdxDelegate \<in> I \<Longrightarrow> writes e I s (apply_register_tx e tx s)"
  unfolding apply_stake_tx_def apply_unstake_tx_def apply_register_tx_def bc_SetDelegate_def
  by (cases "tx_Data tx"; auto intro!: frame_intros split: sum.split error.split)+

lemma set_delegate_tx_keeps:
  "set_delegate_tx e tx st a t = Inr st' \<Longrightarrow>
   Balance st' = Balance st \<and> LastNonce st' = LastNonce st \<and> LastIncoming st' = LastIncoming st"
  by (cases "tx_Data tx")
    (auto simp: set_delegate_tx_def outcome_iffs split: if_splits sum.splits error.splits)

text \<open>The parts of a transaction that succeeds: the delegate part, the signer's new state, the inputs and
  the outputs, and the bookkeeping, which does not touch the states.\<close>

lemma ApplyTx_parts:
  assumes run: "ApplyTxToState e tx a bl bh txid s = (s', None)"
    and tot: "Tx_TotalAmount tx = Inr tot"
    and ok: "states_ok e (cs_txn s)" and room: "total_balance e (cs_txn s) < 2 ^ 64"
  obtains st outs s1 s2 s3 where "GetState e (cs_txn s) a = Inr st" "tx_Nonce tx = LastNonce st + 1"
    "states_ok e (cs_txn s1)" "total_balance e (cs_txn s1) = total_balance e (cs_txn s)"
    "\<forall>b. balance_of e (cs_txn s1) b = balance_of e (cs_txn s) b"
    "\<forall>b. nonce_of e (cs_txn s1) b = (if b = a then tx_Nonce tx else nonce_of e (cs_txn s) b)"
    "apply_inputs e (StateInputs e (tx_Data tx) tx a) s1 = (s2, None)"
    "StateOutputs (tx_Data tx) tx a = Inr outs"
    "ApplyTxOutputsToState e bh outs txid s2 = (s3, None)"
    "writes e {IdxOutTx, IdxTx} s3 (s', None)"
proof -
  let ?I = "{IdxDelegate}"
  obtain st sa sb sc st' s2 outs s3 s4
    where st: "GetState e (cs_txn s) a = Inr st" "tx_Nonce tx = LastNonce st + 1"
    and run: "apply_stake_tx e tx st a txid s = (sa, None)" "apply_unstake_tx e tx st a sa = (sb, None)"
      "apply_register_tx e tx sb = (sc, None)" "set_delegate_tx e tx st a (cs_txn sc) = Inr st'"
    and ins: "apply_inputs e (StateInputs e (tx_Data tx) tx a)
      (sc\<lparr>cs_txn := kv_put e (cs_txn sc) IdxState (arr_bytes a)
          (State_Serialize (st'\<lparr>LastNonce := LastNonce st' + 1\<rparr>))\<rparr>) = (s2, None)"
    and outs: "StateOutputs (tx_Data tx) tx a = Inr outs"
      "drop_err (ApplyTxOutputsToState e bh outs txid s2) = (s3, None)"
    and last: "on_txn (\<lambda>t. SetTxTopoOut e t txid a (LastNonce st' + 1)) s3 = (s4, None)"
      "on_txn (\<lambda>t. SetTxHeight e t txid (Height bl)) s4 = (s', None)"
    using run unfolding ApplyTxToState_def
    by (auto simp: with_res_None and_then_None on_txn_SetState Let_def split: if_splits)
  let ?s1 = "sc\<lparr>cs_txn := kv_put e (cs_txn sc) IdxState (arr_bytes a)
          (State_Serialize (st'\<lparr>LastNonce := LastNonce st' + 1\<rparr>))\<rparr>"
  have "writes e ?I s (sc, None)"
    using staking_txs_write [of ?I] run(1-3) writes_trans by (metis insertI1)
  note w = writes_coins [OF this] writes_nonce [OF this]
  note k = set_delegate_tx_keeps [OF run(4)]
  have ok1: "states_ok e (cs_txn ?s1)" using w(2) ok by (simp add: states_ok_put_State)
  have bal: "balance_of e (cs_txn ?s1) b = balance_of e (cs_txn s) b" for b
    using w(3) k st(1) by (auto simp: balance_of_def)
  have tot1: "total_balance e (cs_txn ?s1) = total_balance e (cs_txn s)"
    using total_put_State [of "cs_txn sc" a "st'\<lparr>LastNonce := LastNonce st' + 1\<rparr>"] w(1,2,3) ok k st(1)
    by (simp add: balance_of_def)
  have non: "nonce_of e (cs_txn ?s1) b = (if b = a then tx_Nonce tx else nonce_of e (cs_txn s) b)" for b
    using w(4) k st(2) by (simp add: nonce_of_def)
  note i = apply_inputs_coins [OF ins ok1]
  obtain os where "StateOutputs (tx_Data tx) tx a = Inr os"
    "inputs_sum (StateInputs e (tx_Data tx) tx a) = unat tot" "outputs_sum os + unat (tx_Fee tx) = unat tot"
    using Tx_balanced [OF tot] by blast
  then have "total_balance e (cs_txn s2) + outputs_sum outs < 2 ^ 64"
    using i tot1 room outs(1) by simp
  then obtain s3' where "ApplyTxOutputsToState e bh outs txid s2 = (s3', None)"
    using ApplyTxOutputs_ok i StateOutputs_no_pos [OF outs(1)] by blast
  then have out: "ApplyTxOutputsToState e bh outs txid s2 = (s3, None)" using outs(2) by simp
  have "writes e {IdxOutTx, IdxTx} s3 (s4, None)" "writes e {IdxOutTx, IdxTx} s4 (s', None)"
    unfolding last [symmetric] SetTxTopoOut_def by (intro frame_intros; simp)+
  then have "writes e {IdxOutTx, IdxTx} s3 (s', None)" by (rule writes_trans)
  with that [OF st ok1 tot1 _ _ ins outs(1) out] bal non show thesis by blast
qed

text \<open>Each balance changes by exactly what the transaction says, and all together by the fee.\<close>

lemma ApplyTx_ledger:
  assumes "ApplyTxToState e tx a bl bh txid s = (s', None)" "Tx_TotalAmount tx = Inr tot"
    "states_ok e (cs_txn s)" "total_balance e (cs_txn s) < 2 ^ 64"
  shows "states_ok e (cs_txn s')"
    "total_balance e (cs_txn s') + unat (tx_Fee tx) = total_balance e (cs_txn s)"
    "nonce_of e (cs_txn s) a + 1 = tx_Nonce tx"
    "nonce_of e (cs_txn s') b = (if b = a then tx_Nonce tx else nonce_of e (cs_txn s) b)"
    "StateOutputs (tx_Data tx) tx a = Inr outs \<Longrightarrow>
     balance_of e (cs_txn s') b + debits b (StateInputs e (tx_Data tx) tx a) =
     balance_of e (cs_txn s) b + credits b outs"
proof -
  obtain st outs' s1 s2 s3
    where a: "GetState e (cs_txn s) a = Inr st" "tx_Nonce tx = LastNonce st + 1"
    "states_ok e (cs_txn s1)" "total_balance e (cs_txn s1) = total_balance e (cs_txn s)"
    "\<forall>b. balance_of e (cs_txn s1) b = balance_of e (cs_txn s) b"
    "\<forall>b. nonce_of e (cs_txn s1) b = (if b = a then tx_Nonce tx else nonce_of e (cs_txn s) b)"
    and i: "apply_inputs e (StateInputs e (tx_Data tx) tx a) s1 = (s2, None)"
    and o: "StateOutputs (tx_Data tx) tx a = Inr outs'" "ApplyTxOutputsToState e bh outs' txid s2 = (s3, None)"
    and w: "writes e {IdxOutTx, IdxTx} s3 (s', None)"
    by (rule ApplyTx_parts [OF assms]) blast
  note ic = apply_inputs_coins [OF i a(3)] and il = apply_inputs_ledger [OF i, of b]
  note oc = ApplyTxOutputs_coins [OF o(2) conjunct1 [OF ic]]
    and ol = ApplyTxOutputs_ledger [OF o(2) conjunct1 [OF ic], of b]
  note ww = writes_coins [OF w] writes_nonce [OF w]
  obtain os where "StateOutputs (tx_Data tx) tx a = Inr os"
    "inputs_sum (StateInputs e (tx_Data tx) tx a) = unat tot" "outputs_sum os + unat (tx_Fee tx) = unat tot"
    using Tx_balanced [OF assms(2)] by blast
  then show "total_balance e (cs_txn s') + unat (tx_Fee tx) = total_balance e (cs_txn s)"
    using ww(1) oc ic a(4) o(1) by simp
  show "nonce_of e (cs_txn s) a + 1 = tx_Nonce tx" using a(1,2) by (simp add: nonce_of_def)
  show "states_ok e (cs_txn s')" "nonce_of e (cs_txn s') b = (if b = a then tx_Nonce tx else nonce_of e (cs_txn s) b)"
    using ww(2,4) oc ol il a(6) by simp_all
  show "balance_of e (cs_txn s') b + debits b (StateInputs e (tx_Data tx) tx a) =
     balance_of e (cs_txn s) b + credits b outs" if "StateOutputs (tx_Data tx) tx a = Inr outs"
    using ww(3) ol il a(5) o(1) that by simp
qed

end

section \<open>Coins: blocks\<close>

text \<open>Every stored transaction has valid data and a sum that fits, in whichever encoding it is read.
  Prevalidation establishes this before a transaction is stored.\<close>

definition tx_valid :: "Transaction \<Rightarrow> bool" where
  "tx_valid tx \<longleftrightarrow> Data_Prevalidate (tx_Data tx) tx = None \<and> (\<exists>tot. Tx_TotalAmount tx = Inr tot)"

lemma Prevalidate_valid: "Tx_Prevalidate c tx height = None \<Longrightarrow> tx_valid tx"
  by (simp add: Tx_Prevalidate_None tx_valid_def)

lemma tx_valid_data_wf: "tx_valid tx \<Longrightarrow> data_wf (tx_Data tx)"
  by (cases "tx_Data tx") (auto simp: tx_valid_def split: if_splits)

definition txs_ok :: "('t, 'x) ext_scheme \<Rightarrow> 't \<Rightarrow> bool" where
  "txs_ok e t \<longleftrightarrow>
     (\<forall>k b hv tx. kvGet e t IdxTx k = Some b \<longrightarrow> Tx_Deserialize (drop 8 b) hv = Inr tx \<longrightarrow>
        tx_valid tx)"

text \<open>The encodings of the stored transactions, without the heights in front of them.\<close>

definition same_txs :: "('t, 'x) ext_scheme \<Rightarrow> 't \<Rightarrow> 't \<Rightarrow> bool" where
  "same_txs e t t' \<longleftrightarrow>
     (\<forall>k. map_option (drop 8) (kvGet e t' IdxTx k) = map_option (drop 8) (kvGet e t IdxTx k))"

lemma same_txs_ok: "same_txs e t t' \<Longrightarrow> txs_ok e t' = txs_ok e t"
proof -
  assume a: "same_txs e t t'"
  have "txs_ok e u' \<Longrightarrow> same_txs e u u' \<Longrightarrow> txs_ok e u" for u u'
    unfolding txs_ok_def
  proof (intro allI impI)
    fix k b hv tx
    assume ok: "\<forall>k b hv tx. kvGet e u' IdxTx k = Some b \<longrightarrow> Tx_Deserialize (drop 8 b) hv = Inr tx \<longrightarrow>
        tx_valid tx"
      and k: "kvGet e u IdxTx k = Some b" "Tx_Deserialize (drop 8 b) hv = Inr tx"
    assume "same_txs e u u'"
    then have "map_option (drop 8) (kvGet e u' IdxTx k) = Some (drop 8 b)"
      unfolding same_txs_def using k(1) by simp
    then obtain b' where "kvGet e u' IdxTx k = Some b'" "drop 8 b' = drop 8 b" by auto
    then show "tx_valid tx" using ok k(2) by metis
  qed
  moreover have "same_txs e t' t" using a by (simp add: same_txs_def)
  ultimately show ?thesis using a by blast
qed

lemma same_txs_trans: "same_txs e t t' \<Longrightarrow> same_txs e t' t'' \<Longrightarrow> same_txs e t t''"
  by (simp add: same_txs_def)

lemma writes_same_txs: "writes e I s r \<Longrightarrow> IdxTx \<notin> I \<Longrightarrow> same_txs e (cs_txn s) (cs_txn (fst r))"
  by (simp add: writes_def only_writes_def same_txs_def)

lemma GetTx_bytes:
  assumes "GetTx e t h n = Inr (tx, m)"
  obtains b hv where "kvGet e t IdxTx (arr_bytes h) = Some b" "Tx_Deserialize (drop 8 b) hv = Inr tx"
proof -
  obtain b where b: "kvGet e t IdxTx (arr_bytes h) = Some b"
    using assms by (auto simp: GetTx_def split: option.splits)
  have len: "\<not> length b < 8"
    using assms b by (auto simp: GetTx_def ReadUint64_def des_read_def NewDes_def des_fail_def
        split: if_splits)
  then have "b = take 8 b @ drop 8 b" "length (take 8 b) = 8" by simp_all
  then have r: "ReadUint64 (NewDes b) = (word_of_nat (le_val (take 8 b)), NewDes (drop 8 b))"
    by (metis ReadUint64_def des_read_NewDes)
  have "\<exists>hv. Tx_Deserialize (drop 8 b) hv = Inr tx"
    using assms b by (auto simp: GetTx_def r outcome_iffs decode_either_def
        split: if_splits sum.splits error.splits)
  with b show thesis using that by blast
qed

lemma GetTx_valid: "txs_ok e t \<Longrightarrow> GetTx e t h n = Inr (tx, m) \<Longrightarrow> tx_valid tx"
  unfolding txs_ok_def by (erule GetTx_bytes) blast

context adb_txn
begin

lemma SetState_writes [frame_intros]: "IdxState \<in> I \<Longrightarrow> writes e I s (on_txn (\<lambda>t. SetState e t a st) s)"
  unfolding SetState_def by (intro frame_intros)

lemma SetTxTopoInc_writes [frame_intros]:
  "IdxInTx \<in> I \<Longrightarrow> writes e I s (on_txn (\<lambda>t. SetTxTopoInc e t h a n) s)"
  unfolding SetTxTopoInc_def by (intro frame_intros)

lemma SetTxTopoOut_writes [frame_intros]:
  "IdxOutTx \<in> I \<Longrightarrow> writes e I s (on_txn (\<lambda>t. SetTxTopoOut e t h a n) s)"
  unfolding SetTxTopoOut_def by (intro frame_intros)

lemma apply_inputs_writes [frame_intros]: "IdxState \<in> I \<Longrightarrow> writes e I s (apply_inputs e inps s)"
  by (induction inps arbitrary: s) (auto intro!: frame_intros)

lemma ApplyTxOutputs_writes [frame_intros]:
  "{IdxState, IdxInTx, IdxDelegate, IdxDelegateHistory} \<subseteq> I \<Longrightarrow>
   writes e I s (ApplyTxOutputsToState e bh outs txid s)"
  by (induction outs arbitrary: s) (auto intro!: frame_intros simp: Let_def)

lemma SetTxHeight_same_txs: "same_txs e t (fst (SetTxHeight e t h n))"
  by (auto simp: SetTxHeight_def same_txs_def Let_def kvPut_eq split: option.splits)

lemma ApplyTx_same_txs:
  assumes "ApplyTxToState e tx a bl bh txid s = (s', None)"
  shows "same_txs e (cs_txn s) (cs_txn s')"
proof -
  let ?I = "{IdxState, IdxInTx, IdxOutTx, IdxDelegate, IdxDelegateHistory}"
  obtain s4 where s4: "writes e ?I s (s4, None)" "on_txn (\<lambda>t. SetTxHeight e t txid (Height bl)) s4 = (s', None)"
  proof -
    obtain st sa sb sc st' sd s2 outs s3 s4
      where r: "apply_stake_tx e tx st a txid s = (sa, None)" "apply_unstake_tx e tx st a sa = (sb, None)"
        "apply_register_tx e tx sb = (sc, None)"
        "on_txn (\<lambda>t. SetState e t a (st'\<lparr>LastNonce := LastNonce st' + 1\<rparr>)) sc = (sd, None)"
        "apply_inputs e (StateInputs e (tx_Data tx) tx a) sd = (s2, None)"
        "drop_err (ApplyTxOutputsToState e bh outs txid s2) = (s3, None)"
        "on_txn (\<lambda>t. SetTxTopoOut e t txid a (LastNonce st' + 1)) s3 = (s4, None)"
      and last: "on_txn (\<lambda>t. SetTxHeight e t txid (Height bl)) s4 = (s', None)"
      using assms unfolding ApplyTxToState_def
      by (auto simp: with_res_None and_then_None Let_def split: if_splits)
    then have "writes e ?I s (sa, None)" "writes e ?I sa (sb, None)" "writes e ?I sb (sc, None)"
      "writes e ?I sc (sd, None)" "writes e ?I sd (s2, None)" "writes e ?I s2 (s3, None)"
      "writes e ?I s3 (s4, None)"
      by (auto intro!: frame_intros simp flip: r)
    then have "writes e ?I s (s4, None)" by (meson writes_trans)
    from that [OF this last] show thesis .
  qed
  have "same_txs e (cs_txn s) (cs_txn s4)" using writes_same_txs [OF s4(1)] by simp
  also have "same_txs e (cs_txn s4) (cs_txn s')" 
    using SetTxHeight_same_txs [of "cs_txn s4" txid "Height bl"] s4(2) by (auto simp: outcome_iffs)
  finally (same_txs_trans) show ?thesis .
qed

end

context adb_txn
begin

lemma apply_txs_coins:
  assumes "apply_txs e bl bh txs fee s = ((s', fee'), None)"
    "states_ok e (cs_txn s)" "total_balance e (cs_txn s) < 2 ^ 64" "txs_ok e (cs_txn s)"
  shows "states_ok e (cs_txn s') \<and> txs_ok e (cs_txn s') \<and>
    total_balance e (cs_txn s') + unat fee' = total_balance e (cs_txn s) + unat fee"
  using assms
proof (induction txs arbitrary: s fee)
  case (Cons v vs)
  obtain tx n s1 where tx: "GetTx e (cs_txn s) v (Height bl) = Inr (tx, n)"
    and app: "ApplyTxToState e tx (FromPubKey e (tx_Signer tx)) bl bh v s = (s1, None)"
    and fee: "\<not> fee + tx_Fee tx < fee"
    and rest: "apply_txs e bl bh vs (fee + tx_Fee tx) s1 = ((s', fee'), None)"
    using Cons.prems(1) by (auto simp: Let_def split: sum.splits prod.splits option.splits if_splits)
  obtain tot where tot: "Tx_TotalAmount tx = Inr tot" 
    using GetTx_valid [OF Cons.prems(4) tx] by (auto simp: tx_valid_def)
  note l = ApplyTx_ledger(1,2) [OF app tot Cons.prems(2,3)]
  have ok: "txs_ok e (cs_txn s1)"
    using same_txs_ok [OF ApplyTx_same_txs [OF app]] Cons.prems(4) by simp
  have f: "unat (fee + tx_Fee tx) = unat fee + unat (tx_Fee tx)"
    using fee unat_lt64 [of "fee + tx_Fee tx"] by (simp add: add64_wraps_iff unat_add64)
  show ?case
    using Cons.IH [OF rest l(1) _ ok] Cons.prems(3) l(2) f by simp
qed simp

lemma ApplyBlock_parts:
  assumes run: "ApplyBlockToState e now bl bh s = (s', None)"
  obtains s1 s2 fee outs s3 where "clear_mempool e now (bl_Transactions bl) s = (s1, None)"
    "apply_txs e bl bh (bl_Transactions bl) 0 s1 = ((s2, fee), None)"
    "\<not> Block_Reward bl + fee < Block_Reward bl"
    "CoinbaseTransaction bl (Block_Reward bl + fee) = Inr outs"
    "ApplyTxOutputsToState e bh (map coinbase_output outs) bh s2 = (s3, None)"
    "s' = update_sync bl s3"
proof -
  obtain s1 s2 fee err where s1: "clear_mempool e now (bl_Transactions bl) s = (s1, None)"
    and s2: "apply_txs e bl bh (bl_Transactions bl) 0 s1 = ((s2, fee), err)"
    using run by (cases "clear_mempool e now (bl_Transactions bl) s")
      (auto simp: ApplyBlockToState_def outcome_iffs split: option.splits prod.splits)
  then show thesis
    using run that by (cases err) (auto simp: ApplyBlockToState_def outcome_iffs Let_def
        split: option.splits if_splits)
qed

text \<open>A block makes exactly the reward of its height.\<close>

lemma ApplyBlock_coins:
  assumes run: "ApplyBlockToState e now bl bh s = (s', None)"
    and ok: "states_ok e (cs_txn s)" "total_balance e (cs_txn s) < 2 ^ 64" "txs_ok e (cs_txn s)"
  shows "states_ok e (cs_txn s') \<and> txs_ok e (cs_txn s') \<and>
    total_balance e (cs_txn s') = total_balance e (cs_txn s) + unat (Reward (Height bl))"
proof (rule ApplyBlock_parts [OF run])
  fix s1 s2 s3 :: "'t cs" and fee outs
  assume s1: "clear_mempool e now (bl_Transactions bl) s = (s1, None)"
    and s2: "apply_txs e bl bh (bl_Transactions bl) 0 s1 = ((s2, fee), None)"
    and r: "\<not> Block_Reward bl + fee < Block_Reward bl"
    and outs: "CoinbaseTransaction bl (Block_Reward bl + fee) = Inr outs"
    and s3: "ApplyTxOutputsToState e bh (map coinbase_output outs) bh s2 = (s3, None)"
    and s': "s' = update_sync bl s3"
  have "writes e {IdxInfo} s (clear_mempool e now (bl_Transactions bl) s)"
    unfolding clear_mempool_def by (intro frame_intros) simp
  note w = writes_coins [OF this] writes_same_txs [OF this]
  have ok1: "states_ok e (cs_txn s1)" "total_balance e (cs_txn s1) = total_balance e (cs_txn s)"
    "txs_ok e (cs_txn s1)"
    using w(1,2) ok s1 same_txs_ok [OF w(4)] by simp_all
  note a = apply_txs_coins [OF s2 ok1(1) _ ok1(3)]
  note c = ApplyTxOutputs_coins [OF s3] 
  have "outputs_sum (map coinbase_output outs) = unat (Block_Reward bl + fee)"
    using CoinbaseTransaction_sum [OF outs]
    by (simp add: outputs_sum_def coinbase_sum_def coinbase_output_def comp_def)
  moreover have "unat (Block_Reward bl + fee) = unat (Block_Reward bl) + unat fee"
    using r by (simp add: add64_wraps_iff unat_add64)
  moreover have "txs_ok e (cs_txn s3) = txs_ok e (cs_txn s2)"
  proof (rule same_txs_ok)
    have "writes e {IdxState, IdxInTx, IdxDelegate, IdxDelegateHistory} s2
        (ApplyTxOutputsToState e bh (map coinbase_output outs) bh s2)" by (intro frame_intros) simp
    from writes_same_txs [OF this] show "same_txs e (cs_txn s2) (cs_txn s3)" by (simp add: s3)
  qed
  ultimately show ?thesis
    using a c ok1(2) ok(2) s' by (simp add: update_sync_def Block_Reward_def)
qed

end

text \<open>The states of a chain: blocks of heights 0, 1, 2, ... applied one after the other to a store without
  states. Between two blocks the caller may change everything but the states, and store only valid transactions.\<close>

inductive chain_state :: "('t, 'x) ext_scheme \<Rightarrow> nat \<Rightarrow> 't cs \<Rightarrow> bool" for e where
  genesis: "kvForEach e (cs_txn s) IdxState = [] \<Longrightarrow> txs_ok e (cs_txn s) \<Longrightarrow>
    unat (Height bl) = 0 \<Longrightarrow> ApplyBlockToState e now bl bh s = (s', None) \<Longrightarrow> chain_state e 0 s'"
| block: "chain_state e n s \<Longrightarrow> unat (Height bl) = Suc n \<Longrightarrow>
    ApplyBlockToState e now bl bh s = (s', None) \<Longrightarrow> chain_state e (Suc n) s'"
| other: "chain_state e n s \<Longrightarrow> only_writes e (- {IdxState}) (cs_txn s) (cs_txn s') \<Longrightarrow>
    txs_ok e (cs_txn s') \<Longrightarrow> chain_state e n s'"

context adb_txn
begin

lemma supply_fits: "supply_at n < 2 ^ 64"
  using supply_at_bound [of n] by (rule le_less_trans) (simp add: config_defs)

lemma no_states_total: "kvForEach e t IdxState = [] \<Longrightarrow> total_balance e t = 0 \<and> states_ok e t"
  using foreach_in [of _ _ t IdxState] by (auto simp: total_balance_def kv_sum_def states_ok_def)

lemma chain_state_supply:
  "chain_state e n s \<Longrightarrow>
   states_ok e (cs_txn s) \<and> txs_ok e (cs_txn s) \<and> total_balance e (cs_txn s) = supply_at n"
proof (induction rule: chain_state.induct)
  case (genesis s bl now bh s')
  then show ?case
    using ApplyBlock_coins [OF genesis(4)] no_states_total [OF genesis(1)]
    by (simp add: unat_Reward supply_at_def)
next
  case (block n s bl now bh s')
  then show ?case
    using ApplyBlock_coins [OF block(3)] supply_fits [of n] by (simp add: unat_Reward supply_at_def)
next
  case (other n s s')
  then show ?case
    using only_writes_total_balance [OF other(2)] only_writes_states_ok [OF other(2)] by simp
qed

text \<open>The check of the supply that the node makes holds.\<close>

lemma chain_state_GetSupply:
  assumes "chain_state e (unat h) s"
  shows "GetSupply e (cs_txn s) = GetSupplyAtHeight h"
  using chain_state_supply [OF assms] GetSupply_total [of "cs_txn s"] supply_fits [of "unat h"]
  by (simp add: word_unat_eq_iff GetSupplyAtHeight_val)

text \<open>A block of the first version without transactions is applied to any state whose coins leave room for the
  reward.\<close>

lemma plain_block_applies:
  assumes plain: "Version bl = 0" "bl_Transactions bl = []"
    and "GetMempool e (cs_txn s) = Inr m" "states_ok e (cs_txn s)"
    "total_balance e (cs_txn s) + unat (Reward (Height bl)) < 2 ^ 64"
  obtains s' m' where "ApplyBlockToState e now bl bh s = (s', None)"
    "GetMempool e (cs_txn s') = Inr m'"
proof -
  let ?s1 = "s\<lparr>cs_txn := fst (SetMempool e now (cs_txn s) m)\<rparr>"
  have s1: "clear_mempool e now [] s = (?s1, None)"
    using assms(3) by (simp add: clear_mempool_def on_txn_def SetMempool_def kvPut_eq)
  have "writes e {IdxInfo} s (clear_mempool e now [] s)"
    unfolding clear_mempool_def by (intro frame_intros) simp
  note w = writes_coins [OF this]
  obtain outs where outs: "CoinbaseTransaction bl (Reward (Height bl)) = Inr outs"
    "\<forall>out\<in>set (map coinbase_output outs). so_Type out \<noteq> OUT_COINBASE_POS"
    by (simp add: CoinbaseTransaction_def plain coinbase_output_def Let_def)
  have "outputs_sum (map coinbase_output outs) = unat (Reward (Height bl))"
    using CoinbaseTransaction_sum [OF outs(1)]
    by (simp add: outputs_sum_def coinbase_sum_def coinbase_output_def comp_def)
  then obtain s2 where s2: "ApplyTxOutputsToState e bh (map coinbase_output outs) bh ?s1 = (s2, None)"
    using ApplyTxOutputs_ok [of ?s1 "map coinbase_output outs" bh bh] outs(2) w s1 assms(4,5)
    by auto
  have "writes e {IdxState, IdxInTx, IdxDelegate, IdxDelegateHistory} ?s1
      (ApplyTxOutputsToState e bh (map coinbase_output outs) bh ?s1)" by (intro frame_intros) simp
  then have "GetMempool e (cs_txn s2) = GetMempool e (cs_txn ?s1)"
    unfolding s2 by (simp add: writes_def only_writes_def GetMempool_def)
  then have "GetMempool e (cs_txn (update_sync bl s2)) = Inr (Mempool_expire now m)"
    using GetMempool_SetMempool [of now "cs_txn s" m] by (simp add: update_sync_def)
  moreover have "ApplyBlockToState e now bl bh s = (update_sync bl s2, None)"
    using s1 s2 outs(1) by (simp add: ApplyBlockToState_def check_next_staker_def plain Block_Reward_def)
  ultimately show thesis using that by blast
qed

end

end
