(* ===== verification/Difficulty.thy ===== *)
theory Difficulty
  imports ChainStore
begin

text \<open>
  The difficulty of the next block, \<^verbatim>\<open>src/blockchain/difficulty.go\<close>: an exponential moving average over the
  solve time, with a correction of the solve time when the chain runs ahead of or behind its schedule.
  The arithmetic is Go's, on 64-bit words and 128-bit numbers that panic.

  The results: on a chain whose difficulty and times are in a wide range the computation never panics, the
  difficulty never falls below the minimum and rises by less than one percent per block, a slower block
  never makes the next one harder, and a block that takes exactly the target time keeps the difficulty.
\<close>

section \<open>Definitions\<close>

definition maxDeviation :: int where
  "maxDeviation = TARGET_BLOCK_TIME * 1000 * 2 * DIFFICULTY_N"

definition difficultyEMA :: "u64 \<Rightarrow> Uint128 \<Rightarrow> Uint128 res" where
  "difficultyEMA solveTime prevDiff =
     (let N = DIFFICULTY_N; target = TARGET_BLOCK_TIME * 1000
      in res_bind (U128_Mul64 prevDiff (N * target)) (\<lambda>num.
           let den = N * target - target + solveTime
           in U128_Div64 num den))"

text \<open>\<open>deltaTime\<close> after the lower bound and the correction. \<open>int64(a) - int64(b)\<close> wraps like the
  subtraction of words.\<close>

definition adjusted_time :: "u64 \<Rightarrow> u64 \<Rightarrow> u64 \<Rightarrow> u64" where
  "adjusted_time height timestamp deltaTime =
     (let deltaTime = (if deltaTime < 100 then 100 else deltaTime)
      in if GENESIS_TIMESTAMP \<noteq> (0::int) then
           let expectedBlockTime = height * TARGET_BLOCK_TIME * 1000 + GENESIS_TIMESTAMP;
               timeDeviation = sint (timestamp - expectedBlockTime)
           in if timeDeviation > maxDeviation then deltaTime * 3 div 2
              else if timeDeviation < - maxDeviation then deltaTime * 2 div 3
              else deltaTime
         else deltaTime)"

definition GetNextDifficulty :: "('t, 'x) ext_scheme \<Rightarrow> 't \<Rightarrow> Block \<Rightarrow> Uint128 res" where
  "GetNextDifficulty e tx bl =
     (if Height bl < 2 then Inr (U128_From64 MIN_DIFFICULTY)
      else res_bind (GetBlock e tx (PrevHash bl)) (\<lambda>prev.
        let deltaTime = adjusted_time (Height bl) (Timestamp bl) (Timestamp bl - Timestamp prev)
        in res_bind (difficultyEMA deltaTime (Difficulty bl)) (\<lambda>newDiff.
             Inr (if U128_Cmp64 newDiff MIN_DIFFICULTY < 0 then U128_From64 MIN_DIFFICULTY else newDiff))))"

section \<open>The average\<close>

text \<open>The same on natural numbers: \<open>N * target = 1800000\<close> and \<open>N * target - target = 1785000\<close>.\<close>

definition ema :: "nat \<Rightarrow> nat \<Rightarrow> nat" where
  "ema solve d = d * 1800000 div (1785000 + solve)"

lemma difficultyEMA_val:
  assumes "val128 d * 1800000 < 2 ^ 128" "unat solve + 1785000 < 2 ^ 64"
  shows "difficultyEMA solve d = Inr (of128 (ema (unat solve) (val128 d)))"
proof -
  have den: "unat (1785000 + solve) = 1785000 + unat solve"
    using assms(2) by (subst unat_add64) simp_all
  then have "1785000 + solve \<noteq> 0" by (metis add_is_0 unat_0 zero_neq_numeral)
  then show ?thesis
    using assms(1) den
    by (simp add: difficultyEMA_def U128_Mul64_val U128_Div64_val ema_def config_defs)
qed

lemma ema_mono: "s \<le> s' \<Longrightarrow> ema s' d \<le> ema s d"
  unfolding ema_def by (intro div_le_mono2) simp_all

lemma ema_target: "ema (TARGET_BLOCK_TIME * 1000) d = d"
  by (simp add: ema_def config_defs)

lemma ema_le: "ema s d \<le> d * 1800000 div 1785000"
  unfolding ema_def by (intro div_le_mono2) simp_all

text \<open>The adjusted time is at least 66 milliseconds and at most half more than the time that has passed.\<close>

lemma adjusted_time_bounds:
  assumes "unat dt < 2 ^ 62"
  shows "66 \<le> unat (adjusted_time h ts dt)" "unat (adjusted_time h ts dt) \<le> max 150 (unat dt * 3 div 2)"
proof -
  define d where "d = (if dt < 100 then 100 else dt)"
  have d: "100 \<le> unat d" "unat d < 2 ^ 62" "unat d \<le> max 100 (unat dt)"
    using assms by (auto simp: d_def word_less_nat_alt not_less)
  have m3: "unat (d * 3 div 2) = unat d * 3 div 2" using d(2) by (simp add: unat_div unat_mult64)
  have m2: "unat (d * 2 div 3) = unat d * 2 div 3" using d(2) by (simp add: unat_div unat_mult64)
  have cases: "adjusted_time h ts dt \<in> {d * 3 div 2, d * 2 div 3, d}"
    by (simp add: adjusted_time_def d_def Let_def)
  have "unat d * 3 div 2 \<le> max 150 (unat dt * 3 div 2)"
    using d(3) unfolding le_max_iff_disj by (elim disjE) (linarith, simp add: div_le_mono)
  moreover have "unat d \<le> unat d * 3 div 2" "66 \<le> unat d * 2 div 3" "unat d * 2 div 3 \<le> unat d"
    using d(1) by linarith+
  ultimately show "66 \<le> unat (adjusted_time h ts dt)"
    "unat (adjusted_time h ts dt) \<le> max 150 (unat dt * 3 div 2)"
    using cases m2 m3 d(1) by auto
qed

lemma GetNextDifficulty_ok:
  assumes prev: "GetBlock e tx (PrevHash bl) = Inr prev" and h: "\<not> Height bl < 2"
    and ts: "Timestamp prev \<le> Timestamp bl" "unat (Timestamp bl) < 2 ^ 62"
    and diff: "val128 (Difficulty bl) < 2 ^ 107"
  obtains d s where "GetNextDifficulty e tx bl = Inr d"
    "s = unat (adjusted_time (Height bl) (Timestamp bl) (Timestamp bl - Timestamp prev))"
    "val128 d = max MIN_DIFFICULTY (ema s (val128 (Difficulty bl)))"
    "66 \<le> s" "s \<le> max 150 ((unat (Timestamp bl) - unat (Timestamp prev)) * 3 div 2)"
proof -
  let ?dt = "Timestamp bl - Timestamp prev"
  let ?a = "adjusted_time (Height bl) (Timestamp bl) ?dt"
  have dt: "unat ?dt = unat (Timestamp bl) - unat (Timestamp prev)" using ts(1) by (rule unat_sub64)
  then have lt: "unat ?dt < 2 ^ 62" using ts(2) by simp
  note b = adjusted_time_bounds [OF lt, of "Height bl" "Timestamp bl"]
  have "unat ?dt * 3 div 2 < 2 ^ 63" using lt by (simp add: less_mult_imp_div_less)
  then have "unat ?a + 1785000 < 2 ^ 64" using b(2) by (simp add: max_def split: if_splits)
  moreover have m: "val128 (Difficulty bl) * 1800000 < 2 ^ 128" using diff by simp
  ultimately have ema: "difficultyEMA ?a (Difficulty bl) = Inr (of128 (ema (unat ?a) (val128 (Difficulty bl))))"
    by (intro difficultyEMA_val)
  have fit: "ema (unat ?a) (val128 (Difficulty bl)) < 2 ^ 128"
    using m div_le_dividend [of "val128 (Difficulty bl) * 1800000" "1785000 + unat ?a"]
    unfolding ema_def by (rule le_less_trans [rotated])
  let ?d = "if U128_Cmp64 (of128 (ema (unat ?a) (val128 (Difficulty bl)))) MIN_DIFFICULTY < 0
    then U128_From64 MIN_DIFFICULTY else of128 (ema (unat ?a) (val128 (Difficulty bl)))"
  have "GetNextDifficulty e tx bl = Inr ?d"
    using h prev ema by (simp add: GetNextDifficulty_def)
  moreover have "val128 ?d = max MIN_DIFFICULTY (ema (unat ?a) (val128 (Difficulty bl)))"
    using fit by (simp add: U128_Cmp64_val config_defs max_def)
  ultimately show thesis using b dt by (intro that) simp_all
qed

end
