(* ===== verification/BlockQueue.thy ===== *)
theory BlockQueue
  imports Config
begin

text \<open>
  The queue of the blocks that the node still wants, \<^verbatim>\<open>src/blockchain/blockqueue.go\<close>. The queue is the list
  \<open>blocks\<close>; the pointers of the code are its elements, so that a change through a pointer is a change of the
  element. \<open>now\<close> is the clock in seconds. \<open>slices.SortFunc\<close> orders by height; among blocks of the same
  height it may choose any order, and the model keeps theirs.

  The queue is a map from hashes to blocks: no hash is queued twice, a block that was set is found, one
  that was removed is not, and the other blocks stay. A block is not requested twice within the
  re-request time.
\<close>

section \<open>Definitions\<close>

definition QUEUE_SIZE :: nat where
  "QUEUE_SIZE = PARALLEL_BLOCKS_DOWNLOAD * 20"

definition downloaded_expire :: int where
  "downloaded_expire = 5"

definition rerequest_time :: int where
  "rerequest_time = 1"

record QueuedBlock =
  qb_Hash :: hash
  qb_Height :: u64
  qb_Expires :: int
  qb_LastRequest :: int

type_synonym BlockQueue = "QueuedBlock list"

definition NewQueuedBlock :: "int \<Rightarrow> hash \<Rightarrow> QueuedBlock" where
  "NewQueuedBlock now h =
     \<lparr>qb_Hash = h, qb_Height = 0, qb_Expires = now + 20 * 60, qb_LastRequest = 0\<rparr>"

fun RequestableBlock :: "int \<Rightarrow> BlockQueue \<Rightarrow> BlockQueue \<times> QueuedBlock option" where
  "RequestableBlock t [] = ([], None)"
| "RequestableBlock t (v # vs) =
     (if t - qb_LastRequest v > rerequest_time
      then let v = v\<lparr>qb_LastRequest := t\<rparr> in (v # vs, Some v)
      else let (vs, r) = RequestableBlock t vs in (v # vs, r))"

definition cleanup :: "int \<Rightarrow> BlockQueue \<Rightarrow> BlockQueue" where
  "cleanup t bq = filter (\<lambda>bl. qb_Expires bl \<ge> t) bq"

definition RemoveBlock :: "int \<Rightarrow> hash \<Rightarrow> BlockQueue \<Rightarrow> BlockQueue" where
  "RemoveBlock t h bq =
     cleanup t (map (\<lambda>v. if qb_Hash v = h then v\<lparr>qb_Expires := 0\<rparr> else v) bq)"

definition RemoveBlockByHash :: "int \<Rightarrow> hash \<Rightarrow> BlockQueue \<Rightarrow> BlockQueue" where
  "RemoveBlockByHash t h bq =
     cleanup t (map (\<lambda>v. if qb_Hash v = h then v\<lparr>qb_Expires := 0\<rparr> else v) bq)"

definition BlockDownloaded :: "int \<Rightarrow> hash \<Rightarrow> BlockQueue \<Rightarrow> BlockQueue" where
  "BlockDownloaded t h bq =
     map (\<lambda>v. if qb_Hash v = h
              then v\<lparr>qb_Expires := t + downloaded_expire, qb_LastRequest := t + downloaded_expire\<rparr>
              else v) bq"

definition BlockRequested :: "int \<Rightarrow> hash \<Rightarrow> BlockQueue \<Rightarrow> BlockQueue" where
  "BlockRequested t h bq = map (\<lambda>v. if qb_Hash v = h then v\<lparr>qb_LastRequest := t\<rparr> else v) bq"

fun set_first :: "QueuedBlock \<Rightarrow> BlockQueue \<Rightarrow> BlockQueue" where
  "set_first qb [] = []"
| "set_first qb (v # vs) = (if qb_Hash v = qb_Hash qb then qb # vs else v # set_first qb vs)"

definition SetBlock :: "QueuedBlock \<Rightarrow> bool \<Rightarrow> BlockQueue \<Rightarrow> BlockQueue \<times> bool" where
  "SetBlock qb replace bq =
     (if list_ex (\<lambda>v. qb_Hash v = qb_Hash qb) bq
      then (if replace then set_first qb bq else bq, True)
      else (sort_key qb_Height (bq @ [qb]), False))"

definition Queue_Length :: "BlockQueue \<Rightarrow> nat" where
  "Queue_Length bq = length bq"

definition GetBlocks :: "BlockQueue \<Rightarrow> QueuedBlock list" where
  "GetBlocks bq = bq"

section \<open>The queue as a map\<close>

definition queued :: "BlockQueue \<Rightarrow> hash \<Rightarrow> QueuedBlock option" where
  "queued bq h = find (\<lambda>v. qb_Hash v = h) bq"

definition queue_ok :: "BlockQueue \<Rightarrow> bool" where
  "queue_ok bq \<longleftrightarrow> distinct (map qb_Hash bq)"

text \<open>What a client relies on.\<close>

locale queue_map =
  fixes lookup :: "'q \<Rightarrow> hash \<Rightarrow> QueuedBlock option"
    and set_block :: "QueuedBlock \<Rightarrow> bool \<Rightarrow> 'q \<Rightarrow> 'q \<times> bool"
    and remove_block :: "int \<Rightarrow> hash \<Rightarrow> 'q \<Rightarrow> 'q"
    and ok :: "'q \<Rightarrow> bool"
  assumes set_ok: "ok q \<Longrightarrow> ok (fst (set_block b r q))"
    and set_known: "snd (set_block b r q) \<longleftrightarrow> lookup q (qb_Hash b) \<noteq> None"
    and lookup_set: "ok q \<Longrightarrow> lookup (fst (set_block b r q)) h =
      (if h = qb_Hash b \<and> (r \<or> lookup q h = None) then Some b else lookup q h)"
    and remove_ok: "ok q \<Longrightarrow> ok (remove_block t h q)"
    and lookup_remove: "ok q \<Longrightarrow> 0 < t \<Longrightarrow> lookup (remove_block t h q) h' =
      (case lookup q h' of None \<Rightarrow> None | Some b \<Rightarrow> if h' = h \<or> qb_Expires b < t then None else Some b)"
begin

lemma set_then_found: "ok q \<Longrightarrow> lookup (fst (set_block b True q)) (qb_Hash b) = Some b"
  by (simp add: lookup_set)

lemma set_remove: "ok q \<Longrightarrow> 0 < t \<Longrightarrow> lookup (remove_block t (qb_Hash b) (fst (set_block b r q))) (qb_Hash b) = None"
  by (simp add: lookup_remove set_ok split: option.split)

lemma known_set_kept: "ok q \<Longrightarrow> lookup q (qb_Hash b) \<noteq> None \<Longrightarrow> lookup (fst (set_block b False q)) h = lookup q h"
  by (auto simp: lookup_set)

end

lemma queued_Some: "queue_ok bq \<Longrightarrow> queued bq h = Some b \<longleftrightarrow> b \<in> set bq \<and> qb_Hash b = h"
  unfolding queued_def queue_ok_def
  by (induction bq) (auto simp: image_iff)

lemma queued_hash: "queued bq h = Some b \<Longrightarrow> qb_Hash b = h"
  unfolding queued_def by (auto simp: find_Some_iff)

lemma queued_None: "queued bq h = None \<longleftrightarrow> (\<forall>v\<in>set bq. qb_Hash v \<noteq> h)"
  unfolding queued_def by (auto simp: find_None_iff)

text \<open>Two queues with the same blocks have the same map.\<close>

lemma queued_cong: "queue_ok bq \<Longrightarrow> queue_ok bq' \<Longrightarrow> set bq = set bq' \<Longrightarrow> queued bq = queued bq'"
proof
  fix h
  assume a: "queue_ok bq" "queue_ok bq'" "set bq = set bq'"
  show "queued bq h = queued bq' h"
  proof (cases "queued bq h")
    case None
    moreover have "queued bq' h = None" using None a(3) by (simp add: queued_None)
    ultimately show ?thesis by simp
  next
    case (Some b)
    with a have "queued bq' h = Some b" by (simp add: queued_Some)
    with Some show ?thesis by simp
  qed
qed

lemma hashes_set_first: "map qb_Hash (set_first qb bq) = map qb_Hash bq"
  by (induction bq) auto

lemma queued_set_first:
  "queued (set_first qb bq) h =
     (if h = qb_Hash qb \<and> queued bq h \<noteq> None then Some qb else queued bq h)"
  unfolding queued_def by (induction bq) auto

lemma queue_ok_sort: "queue_ok (sort_key f bq) = queue_ok bq"
  unfolding queue_ok_def by (metis distinct_map distinct_sort set_sort)

lemma queue_ok_map:
  "(\<And>v. qb_Hash (f v) = qb_Hash v) \<Longrightarrow> queue_ok (map f bq) = queue_ok bq"
  by (simp add: queue_ok_def comp_def)

lemma queued_map:
  "(\<And>v. qb_Hash (f v) = qb_Hash v) \<Longrightarrow> queued (map f bq) h = map_option f (queued bq h)"
  unfolding queued_def by (induction bq) auto

lemma queued_filter:
  "queue_ok bq \<Longrightarrow> queued (filter P bq) h = (case queued bq h of None \<Rightarrow> None | Some b \<Rightarrow> if P b then Some b else None)"
  unfolding queued_def queue_ok_def
proof (induction bq)
  case (Cons v bq)
  have "find (\<lambda>v. qb_Hash v = h) (filter P bq) = None" if "qb_Hash v = h"
    using Cons.prems that unfolding find_None_iff by (simp, metis image_eqI)
  with Cons show ?case by (auto split: option.split)
qed simp

interpretation bq: queue_map queued SetBlock RemoveBlock queue_ok
proof unfold_locales
  fix b r q h and t :: int and h'
  show "snd (SetBlock b r q) \<longleftrightarrow> queued q (qb_Hash b) \<noteq> None"
    unfolding SetBlock_def queued_None list_ex_iff by auto
  have known: "list_ex (\<lambda>v. qb_Hash v = qb_Hash b) q \<longleftrightarrow> queued q (qb_Hash b) \<noteq> None"
    unfolding queued_None list_ex_iff by auto
  assume ok: "queue_ok q"
  have new: "queue_ok (q @ [b])" if "queued q (qb_Hash b) = None"
    using ok that by (auto simp: queue_ok_def queued_None)
  show "queue_ok (fst (SetBlock b r q))"
    using ok new known hashes_set_first [of b q]
    by (auto simp: SetBlock_def queue_ok_sort) (simp add: queue_ok_def)
  show "queued (fst (SetBlock b r q)) h =
      (if h = qb_Hash b \<and> (r \<or> queued q h = None) then Some b else queued q h)"
  proof (cases "queued q (qb_Hash b) = None")
    case True
    then have "queued (sort_key qb_Height (q @ [b])) = queued (q @ [b])"
      using new by (intro queued_cong) (simp_all add: queue_ok_sort)
    moreover have "queued (q @ [b]) h = (if h = qb_Hash b then Some b else queued q h)"
      using True by (induction q) (auto simp: queued_def)
    ultimately show ?thesis using True known by (simp add: SetBlock_def)
  next
    case False
    then show ?thesis using known by (auto simp: SetBlock_def queued_set_first)
  qed
  define f :: "QueuedBlock \<Rightarrow> QueuedBlock" where "f = (\<lambda>v. if qb_Hash v = h then v\<lparr>qb_Expires := 0\<rparr> else v)"
  have f: "qb_Hash (f v) = qb_Hash v" for v by (simp add: f_def)
  have m: "queue_ok (map f q)" using ok f by (simp add: queue_ok_map)
  have r: "RemoveBlock t h q = filter (\<lambda>bl. qb_Expires bl \<ge> t) (map f q)"
    by (simp add: RemoveBlock_def cleanup_def f_def)
  show "queue_ok (RemoveBlock t h q)"
    using m unfolding r queue_ok_def by (rule distinct_map_filter)
  assume "0 < t"
  moreover have "queued (RemoveBlock t h q) h' =
      (case map_option f (queued q h') of None \<Rightarrow> None | Some b \<Rightarrow> if qb_Expires b \<ge> t then Some b else None)"
    unfolding r queued_filter [OF m] using f by (simp add: queued_map)
  ultimately show "queued (RemoveBlock t h q) h' =
      (case queued q h' of None \<Rightarrow> None | Some b \<Rightarrow> if h' = h \<or> qb_Expires b < t then None else Some b)"
    using queued_hash [of q h'] by (cases "queued q h'") (auto simp: f_def)
qed

section \<open>Requests\<close>

lemma RequestableBlock_Some:
  "RequestableBlock t bq = (bq', Some b) \<Longrightarrow>
     b \<in> set bq' \<and> (\<exists>v\<in>set bq. t - qb_LastRequest v > rerequest_time \<and> b = v\<lparr>qb_LastRequest := t\<rparr>)"
proof (induction bq arbitrary: bq')
  case (Cons v bq)
  obtain q r where q: "RequestableBlock t bq = (q, r)" by fastforce
  show ?case using Cons.prems Cons.IH [of q] q by (auto simp: Let_def split: if_splits)
qed simp

lemma RequestableBlock_hashes: "map qb_Hash (fst (RequestableBlock t bq)) = map qb_Hash bq"
  by (induction bq) (auto simp: Let_def split: prod.splits)

lemma RequestableBlock_None:
  "snd (RequestableBlock t bq) = None \<longleftrightarrow> (\<forall>v\<in>set bq. t - qb_LastRequest v \<le> rerequest_time)"
  by (induction bq) (auto simp: Let_def split: prod.splits)

text \<open>The block that was given out is not given out again within the re-request time.\<close>

lemma RequestableBlock_once:
  assumes "queue_ok bq" "RequestableBlock t bq = (bq', Some b)" "t \<le> t'" "t' \<le> t + rerequest_time"
    "RequestableBlock t' bq' = (bq'', Some b')"
  shows "qb_Hash b' \<noteq> qb_Hash b"
proof
  assume h: "qb_Hash b' = qb_Hash b"
  have ok: "queue_ok bq'"
    using RequestableBlock_hashes [of t bq] assms(1,2) by (simp add: queue_ok_def)
  obtain v where v: "v \<in> set bq'" "t' - qb_LastRequest v > rerequest_time" "b' = v\<lparr>qb_LastRequest := t'\<rparr>"
    using RequestableBlock_Some [OF assms(5)] by blast
  obtain w where w: "b = w\<lparr>qb_LastRequest := t\<rparr>" "b \<in> set bq'"
    using RequestableBlock_Some [OF assms(2)] by blast
  have "qb_Hash v = qb_Hash b" using h v(3) by simp
  then have "queued bq' (qb_Hash b) = Some v" "queued bq' (qb_Hash b) = Some b"
    using v(1) w(2) by (simp_all add: queued_Some [OF ok])
  then have "v = b" by simp
  with v(2) w(1) assms(4) show False by simp
qed

end
