(* ===== verification/ChainOps.thy ===== *)
theory ChainOps
  imports Ledger Difficulty BlockQueue "HOL-Library.AList"
begin

text \<open>
  The chain: \<open>checkBlock\<close>, \<open>AddBlock\<close>, \<open>addMainchainBlock\<close>, \<open>addAltchainBlock\<close>, \<open>CheckReorgs\<close> and
  \<open>addGenesis\<close> of \<^verbatim>\<open>src/blockchain/blockchain.go\<close>. The maps of the statistics are association lists, a change
  of a tip through its pointer is an update of its entry. The loops of \<open>CheckReorgs\<close> that follow the
  parents of blocks may not end on an arbitrary store, so they are partial functions, as is what calls
  them; \<open>None\<close> is a run that does not end. Logging, and the threads that are started to tell peers and
  miners, have no effect on the state.

  The node's part of the state is the record \<open>node\<close>: the store, the block queue and the synchronization
  fields. \<open>now\<close> is the clock in seconds, read once per call.
\<close>

section \<open>Checking a block\<close>

definition err_if :: "bool \<Rightarrow> string \<Rightarrow> unit res" where
  "err_if b m = (if b then Inl (Err m) else Inr ())"

text \<open>The inner loop over \<open>bl.Ancestors\<close>: the last match at or after the position decides.\<close>

fun find_ancestor :: "hash \<Rightarrow> nat \<Rightarrow> nat \<Rightarrow> Ancestors \<Rightarrow> int \<Rightarrow> int" where
  "find_ancestor anc ancid vid [] heightDiff = heightDiff"
| "find_ancestor anc ancid vid (v # vs) heightDiff =
     find_ancestor anc ancid (Suc vid) vs
       (if vid \<ge> ancid \<and> v = anc then int vid - int ancid else heightDiff)"

fun scan_ancestors :: "Ancestors \<Rightarrow> nat \<Rightarrow> int \<Rightarrow> Ancestors \<Rightarrow> int res" where
  "scan_ancestors blAnc ancid heightDiff [] = Inr heightDiff"
| "scan_ancestors blAnc ancid heightDiff (anc # ancs) =
     (if heightDiff = -1
      then scan_ancestors blAnc (Suc ancid) (find_ancestor anc ancid 0 blAnc heightDiff) ancs
      else if int ancid + heightDiff \<ge> int (length blAnc) then Inr heightDiff
      else if anc \<noteq> blAnc ! nat (int ancid + heightDiff) then Inl (Err ''subsequent block is not valid'')
      else scan_ancestors blAnc (Suc ancid) heightDiff ancs)"

text \<open>Whether a side block is the block itself or one of its side blocks.\<close>

definition side_of :: "'x crypto_scheme \<Rightarrow> Commitment \<Rightarrow> Block \<Rightarrow> bool" where
  "side_of c side b \<longleftrightarrow>
     Commitment_Equals side (Block_Commitment c b) \<or> list_ex (\<lambda>v. Commitment_Equals side v) (SideBlocks b)"

fun side_in_ancestors :: "('t, 'x) ext_scheme \<Rightarrow> 't \<Rightarrow> Commitment \<Rightarrow> Ancestors \<Rightarrow> unit res" where
  "side_in_ancestors e tx side [] = Inr ()"
| "side_in_ancestors e tx side (anc # ancs) =
     res_bind (GetBlock e tx anc) (\<lambda>ancBl.
       if side_of e side ancBl then Inl (Err ''side block was already included'')
       else if Height ancBl = 0 then Inr ()
       else side_in_ancestors e tx side ancs)"

definition check_side :: "('t, 'x) ext_scheme \<Rightarrow> 't \<Rightarrow> Block \<Rightarrow> Block \<Rightarrow> Commitment \<Rightarrow> unit res" where
  "check_side e tx bl prevBl side =
     res_bind (scan_ancestors (bl_Ancestors bl) 0 (-1) (cm_Ancestors side)) (\<lambda>heightDiff.
     res_bind (err_if (heightDiff = -1) ''common block not found'') (\<lambda>_.
     res_bind (err_if (side_of e side prevBl) ''side block was already included'') (\<lambda>_.
       if Height prevBl > 0 then side_in_ancestors e tx side (tl (bl_Ancestors bl)) else Inr ())))"

fun check_sides :: "('t, 'x) ext_scheme \<Rightarrow> 't \<Rightarrow> Block \<Rightarrow> Block \<Rightarrow> Commitment list \<Rightarrow> unit res" where
  "check_sides e tx bl prevBl [] = Inr ()"
| "check_sides e tx bl prevBl (side # sides) =
     res_bind (check_side e tx bl prevBl side) (\<lambda>_. check_sides e tx bl prevBl sides)"

definition check_stake_signature :: "('t, 'x) ext_scheme \<Rightarrow> 't \<Rightarrow> Block \<Rightarrow> Stats \<Rightarrow> unit res" where
  "check_stake_signature e tx bl stats =
     (if Version bl > 0 \<and> Height bl > MINIDAG_ANCESTORS then
        let stakedhash = BlockStakedHash bl
        in res_bind (GetBlock e tx stakedhash) (\<lambda>oldblock.
           res_bind (err_if (NextDelegateId oldblock \<noteq> bl_DelegateId bl)
             ''delegate id does not match the old block's next delegate id'') (\<lambda>_.
             if StakeSignature bl \<noteq> BlankSignature then
               if StakedAmount stats = 0
               then Inl (Err ''invalid stake signature: the network has not staked any coins'')
               else res_bind (GetDelegate e tx (bl_DelegateId bl)) (\<lambda>delegate.
                      err_if (\<not> VerifySignature e (d_Owner delegate) (STAKE_SIGN_PREFIX @ arr_bytes stakedhash)
                                (StakeSignature bl)) ''invalid stake signature'')
             else Inr ()))
      else Inr ())"

definition checkBlock :: "('t, 'x) ext_scheme \<Rightarrow> 't \<Rightarrow> Block \<Rightarrow> Block \<Rightarrow> Stats \<Rightarrow> unit res" where
  "checkBlock e tx bl prevBl stats =
     res_bind (GetNextDifficulty e tx prevBl) (\<lambda>expectDiff.
     res_bind (err_if (\<not> U128_Equals (Difficulty bl) expectDiff) ''block has invalid diff'') (\<lambda>_.
     res_bind (err_if (Height bl \<noteq> Height prevBl + 1) ''block has invalid height'') (\<lambda>_.
     res_bind (err_if (Timestamp prevBl > Timestamp bl)
       ''block has timestamp that is older than previous block'') (\<lambda>_.
     res_bind (check_sides e tx bl prevBl (SideBlocks bl)) (\<lambda>_.
     res_bind (ContributionToCumulativeDiff bl) (\<lambda>contribution.
     res_bind (U128_Add (bl_CumulativeDiff prevBl) contribution) (\<lambda>newCumDiff.
     res_bind (err_if (\<not> U128_Equals (bl_CumulativeDiff bl) newCumDiff)
       ''block has invalid cumulative diff'') (\<lambda>_.
       check_stake_signature e tx bl stats))))))))"

section \<open>Reorganisation\<close>

text \<open>The heaviest of the top and the tips, the first of them when several are equally heavy.\<close>

definition best_tip :: "Stats \<Rightarrow> Uint128 \<times> hash \<times> u64" where
  "best_tip stats =
     foldl (\<lambda>(altDiff, altHash, altHeight) (_, v).
         if U128_Cmp (tip_CumulativeDiff v) altDiff > 0
         then (tip_CumulativeDiff v, tip_Hash v, tip_Height v) else (altDiff, altHash, altHeight))
       (CumulativeDiff stats, TopHash stats, TopHeight stats) (Tips stats)"

text \<open>Step 1: the blocks of the other chain above the common block, from the tip downwards, and the hash
  of the common block. An unknown height reads as the zero hash.\<close>

partial_function (option) reorg_step1 ::
  "('t, 'x) ext_scheme \<Rightarrow> 't \<Rightarrow> Block \<Rightarrow> (hash \<times> Block) list \<Rightarrow> (hash \<times> (hash \<times> Block) list) res option"
where
  [code]: "reorg_step1 e txn b hashes =
     (case GetBlock e txn (PrevHash b) of
        Inl err \<Rightarrow> Some (Inl err)
      | Inr commonBlock \<Rightarrow>
          if Height commonBlock = 0 then Some (Inl (Err ''could not find common block''))
          else if (case GetTopo e txn (Height commonBlock) of Inl _ \<Rightarrow> 0 | Inr x \<Rightarrow> x) = PrevHash b
          then Some (Inr (PrevHash b, hashes))
          else reorg_step1 e txn commonBlock (hashes @ [(PrevHash b, commonBlock)]))"

text \<open>Step 2: taking the blocks of the main chain back, from the top down to the common block. The height
  that is compared with zero is that of the block of the round before.\<close>

partial_function (option) reorg_step2 ::
  "('t, 'x) ext_scheme \<Rightarrow> int \<Rightarrow> hash \<Rightarrow> hash \<Rightarrow> Block \<Rightarrow> 't cs \<Rightarrow> 't cs outcome option"
where
  [code]: "reorg_step2 e now commonBlockHash nHash n s =
     (if nHash = commonBlockHash then Some (s, None)
      else if Height n = 0 then Some (s, Some (Err ''reorg: Block has height 0''))
      else case GetBlock e (cs_txn s) nHash of
             Inl err \<Rightarrow> Some (s, Some err)
           | Inr n \<Rightarrow>
               (case and_then (on_txn (\<lambda>t. DelTopo e t (Height n)) s) (RemoveBlockFromState e now n nHash) of
                  (s, Some err) \<Rightarrow> Some (s, Some err)
                | (s, None) \<Rightarrow> reorg_step2 e now commonBlockHash (PrevHash n) n s))"

definition reorg_undo :: "('t, 'x) ext_scheme \<Rightarrow> int \<Rightarrow> hash \<Rightarrow> 't cs \<Rightarrow> 't cs outcome option" where
  "reorg_undo e now commonBlockHash s =
     (if TopHash (cs_stats s) \<noteq> commonBlockHash then
        (case GetBlock e (cs_txn s) (TopHash (cs_stats s)) of
           Inl err \<Rightarrow> Some (s, Some err)
         | Inr n \<Rightarrow> if Block_Hash e n = commonBlockHash then Some (s, None)
                    else reorg_step2 e now commonBlockHash (TopHash (cs_stats s)) n s)
      else Some (s, None))"

text \<open>Step 3: applying the blocks of the other chain, in the order of their heights.\<close>

fun reorg_step3 :: "('t, 'x) ext_scheme \<Rightarrow> int \<Rightarrow> (hash \<times> Block) list \<Rightarrow> 't cs \<Rightarrow> 't cs outcome" where
  "reorg_step3 e now [] s = (s, None)"
| "reorg_step3 e now ((h, bl) # hashes) s =
     and_then (on_txn (\<lambda>t. kvPut e t IdxTopo (u64_key (Height bl)) (arr_bytes h)) s) (\<lambda>s.
     with_res (GetBlock e (cs_txn s) (PrevHash bl)) s (\<lambda>prevBl.
     with_res (checkBlock e (cs_txn s) bl prevBl (cs_stats s)) s (\<lambda>_.
     and_then (ApplyBlockToState e now bl h s) (reorg_step3 e now hashes))))"

text \<open>Step 4: the new top; the old one becomes a tip.\<close>

definition reorg_step4 :: "Uint128 \<times> hash \<times> u64 \<Rightarrow> Stats \<Rightarrow> Stats" where
  "reorg_step4 alt stats =
     (case alt of (altDiff, altHash, altHeight) \<Rightarrow>
        let tips = AList.update (TopHash stats)
              \<lparr>tip_Hash = TopHash stats, tip_Height = TopHeight stats, tip_CumulativeDiff = CumulativeDiff stats\<rparr>
              (AList.delete altHash (Tips stats))
        in stats\<lparr>Tips := tips, TopHash := altHash, CumulativeDiff := altDiff, TopHeight := altHeight\<rparr>)"

definition reorganize ::
  "('t, 'x) ext_scheme \<Rightarrow> int \<Rightarrow> Uint128 \<times> hash \<times> u64 \<Rightarrow> 't cs \<Rightarrow> 't cs outcome option" where
  "reorganize e now alt s =
     (let altHash = fst (snd alt)
      in case GetBlock e (cs_txn s) altHash of
           Inl err \<Rightarrow> Some (s, Some err)
         | Inr commonBlock \<Rightarrow>
             (case reorg_step1 e (cs_txn s) commonBlock [(altHash, commonBlock)] of
                None \<Rightarrow> None
              | Some (Inl err) \<Rightarrow> Some (s, Some err)
              | Some (Inr (commonBlockHash, hashes)) \<Rightarrow>
                  (case reorg_undo e now commonBlockHash s of
                     None \<Rightarrow> None
                   | Some (s, Some err) \<Rightarrow> Some (s, Some err)
                   | Some (s, None) \<Rightarrow>
                       Some (and_then (reorg_step3 e now (rev hashes) s)
                               (\<lambda>s. (s\<lparr>cs_stats := reorg_step4 alt (cs_stats s)\<rparr>, None))))))"

definition CheckReorgs ::
  "('t, 'x) ext_scheme \<Rightarrow> int \<Rightarrow> 't cs \<Rightarrow> ('t cs outcome \<times> bool) option" where
  "CheckReorgs e now s =
     (let alt = best_tip (cs_stats s)
      in if fst (snd alt) = TopHash (cs_stats s) then Some ((s, None), False)
         else case reorganize e now alt s of
                None \<Rightarrow> None
              | Some (s, Some err) \<Rightarrow> Some ((s, Some err), False)
              | Some (s, None) \<Rightarrow> Some ((s, None), True))"

section \<open>Adding a block\<close>

definition addMainchainBlock ::
  "('t, 'x) ext_scheme \<Rightarrow> int \<Rightarrow> Block \<Rightarrow> hash \<Rightarrow> 't cs \<Rightarrow> 't cs outcome" where
  "addMainchainBlock e now bl h s =
     and_then (ApplyBlockToState e now bl h s) (\<lambda>s.
       let s = s\<lparr>cs_stats := (cs_stats s)\<lparr>TopHash := h, TopHeight := Height bl,
                   CumulativeDiff := bl_CumulativeDiff bl\<rparr>\<rparr>
       in on_txn (\<lambda>t. insertBlockMain e t bl) s)"

text \<open>A block whose parent is the key of a tip changes that tip, another one makes a new tip.\<close>

definition extend_tips :: "Block \<Rightarrow> hash \<Rightarrow> (hash \<times> AltchainTip) list \<Rightarrow> (hash \<times> AltchainTip) list" where
  "extend_tips bl h tips =
     (case map_of tips (PrevHash bl) of
        Some extendTip \<Rightarrow>
          AList.update (PrevHash bl)
            (extendTip\<lparr>tip_Hash := h, tip_Height := tip_Height extendTip + 1,
               tip_CumulativeDiff := bl_CumulativeDiff bl\<rparr>) tips
      | None \<Rightarrow>
          AList.update h \<lparr>tip_Hash = h, tip_Height = Height bl, tip_CumulativeDiff = bl_CumulativeDiff bl\<rparr> tips)"

definition addAltchainBlock ::
  "('t, 'x) ext_scheme \<Rightarrow> int \<Rightarrow> Block \<Rightarrow> hash \<Rightarrow> 't cs \<Rightarrow> 't cs outcome option" where
  "addAltchainBlock e now bl h s =
     (let s = s\<lparr>cs_stats := (cs_stats s)\<lparr>Tips := extend_tips bl h (Tips (cs_stats s))\<rparr>\<rparr>
      in case on_txn (\<lambda>t. insertBlock e t bl h) s of
           (s, Some err) \<Rightarrow> Some (s, Some err)
         | (s, None) \<Rightarrow> (case CheckReorgs e now s of None \<Rightarrow> None | Some (r, _) \<Rightarrow> Some r))"

record 't node =
  nd_txn :: 't
  nd_queue :: BlockQueue
  nd_SyncHeight :: u64
  nd_SyncDiff :: Uint128
  nd_SyncLastRequestHeight :: u64

definition open_node :: "Stats \<Rightarrow> 't node \<Rightarrow> 't cs" where
  "open_node stats n = \<lparr>cs_txn = nd_txn n, cs_stats = stats, cs_SyncHeight = nd_SyncHeight n,
     cs_SyncDiff = nd_SyncDiff n\<rparr>"

definition close_node :: "'t node \<Rightarrow> 't cs \<Rightarrow> 't node" where
  "close_node n s = n\<lparr>nd_txn := cs_txn s, nd_SyncHeight := cs_SyncHeight s, nd_SyncDiff := cs_SyncDiff s\<rparr>"

text \<open>The parent of an orphan is wanted; the orphan itself is not asked for again for a while.\<close>

definition queue_parent :: "int \<Rightarrow> Block \<Rightarrow> hash \<Rightarrow> BlockQueue \<Rightarrow> BlockQueue" where
  "queue_parent now bl h q =
     (let qb = (NewQueuedBlock now (PrevHash bl))\<lparr>qb_Height := Height bl - 1, qb_Expires := now + 60\<rparr>
      in fst (SetBlock qb True (BlockDownloaded now h q)))"

definition AddBlock ::
  "('t, 'x) ext_scheme \<Rightarrow> int \<Rightarrow> Block \<Rightarrow> hash \<Rightarrow> 't node \<Rightarrow> 't node outcome option" where
  "AddBlock e now bl h n =
     (case GetStats e (nd_txn n) of Inl err \<Rightarrow> Some (n, Some err) | Inr stats \<Rightarrow>
      case GetBlock e (nd_txn n) h of
        Inr _ \<Rightarrow> Some (n, Some (Err ''duplicate block''))
      | Inl (Panic m) \<Rightarrow> Some (n, Some (Panic m))
      | Inl (Err _) \<Rightarrow>
      case GetBlock e (nd_txn n) (PrevHash bl) of
        Inl (Panic m) \<Rightarrow> Some (n, Some (Panic m))
      | Inl (Err _) \<Rightarrow>
          Some (n\<lparr>nd_queue := queue_parent now bl h (nd_queue n)\<rparr>, Some (Err ''block is orphan''))
      | Inr prevBl \<Rightarrow>
      case checkBlock e (nd_txn n) bl prevBl stats of Inl err \<Rightarrow> Some (n, Some err) | Inr _ \<Rightarrow>
        let s = open_node stats n
        in map_option (\<lambda>r.
               let (s, err) = and_then r (\<lambda>s. on_txn (\<lambda>t. setStatsNoBroadcast e t (cs_stats s)) s)
               in (close_node n s, err))
             (if PrevHash bl = TopHash stats then Some (addMainchainBlock e now bl h s)
              else addAltchainBlock e now bl h s))"

section \<open>The first block\<close>

definition genesis :: Block where
  "genesis = \<lparr>Version = 0, Height = 0, Timestamp = GENESIS_TIMESTAMP, Nonce = 0x1337, NonceExtra = 0,
     OtherChains = [], bl_Recipient = GenesisAddress, bl_Ancestors = replicate MINIDAG_ANCESTORS 0,
     SideBlocks = [], bl_DelegateId = 0, NextDelegateId = 0, StakeSignature = 0,
     Difficulty = U128_From64 1, bl_CumulativeDiff = U128_From64 1, bl_Transactions = []\<rparr>"

text \<open>\<open>time\<close> is the clock in milliseconds. The error of the last put is dropped.\<close>

definition addGenesis :: "('t, 'x) ext_scheme \<Rightarrow> int \<Rightarrow> u64 \<Rightarrow> 't node \<Rightarrow> 't node outcome" where
  "addGenesis e now time n =
     (if time < GENESIS_TIMESTAMP then (n, Some (Panic ''genesis block in future''))
      else
        let h = Block_Hash e genesis;
            stats = \<lparr>TopHash = h, TopHeight = 0, CumulativeDiff = Difficulty genesis, Tips = [], Orphans = [],
                     StakedAmount = 0\<rparr>
        in case GetBlock e (nd_txn n) h of
             Inr _ \<Rightarrow> (n, None)
           | Inl (Panic m) \<Rightarrow> (n, Some (Panic m))
           | Inl (Err _) \<Rightarrow>
               let (s, err) =
                 and_then (on_txn (\<lambda>t. insertBlockMain e t genesis) (open_node stats n)) (\<lambda>s.
                 and_then (on_txn (\<lambda>t. SetStats e t stats) s) (\<lambda>s.
                 and_then (on_txn (\<lambda>t. SetMempool e now t []) s) (\<lambda>s.
                 with_res (GetStats e (cs_txn s)) s (\<lambda>stats.
                 and_then (ApplyBlockToState e now genesis h (s\<lparr>cs_stats := stats\<rparr>)) (\<lambda>s.
                   drop_err (on_txn (\<lambda>t. setStatsNoBroadcast e t (cs_stats s)) s))))))
               in (case err of None \<Rightarrow> (close_node n s, None) | Some (Err m) \<Rightarrow> (n, Some (Panic m))
                   | Some (Panic m) \<Rightarrow> (n, Some (Panic m))))"

end
