(* ===== verification/ChainFrame.thy ===== *)
theory ChainFrame
  imports ChainOps
begin

text \<open>
  Applying a block to the state and taking it back leave the stored blocks, the topology and the head of
  the statistics alone: they are the work of \<open>AddBlock\<close> only. A relation between states that is reflexive
  and transitive is kept by an operation when it is kept by its parts.
\<close>

section \<open>Relations kept by operations\<close>

definition kept :: "('s \<Rightarrow> 's \<Rightarrow> bool) \<Rightarrow> 's \<Rightarrow> 's outcome \<Rightarrow> bool" where
  "kept K s r \<longleftrightarrow> K s (fst r)"

named_theorems kept_intros "which relations an operation keeps, by its structure"

locale frame_relation =
  fixes K :: "'s \<Rightarrow> 's \<Rightarrow> bool"
  assumes refl: "K s s"
    and trans: "K s s' \<Longrightarrow> K s' s'' \<Longrightarrow> K s s''"
begin

lemma stop [kept_intros]: "kept K s (s, err)"
  by (simp add: kept_def refl)

lemma with_res [kept_intros]: "(\<And>a. r = Inr a \<Longrightarrow> kept K s (f a)) \<Longrightarrow> kept K s (with_res r s f)"
  by (cases r) (simp_all add: kept_def refl)

lemma and_then [kept_intros]:
  "kept K s r \<Longrightarrow> (\<And>s'. r = (s', None) \<Longrightarrow> kept K s' (f s')) \<Longrightarrow> kept K s (and_then r f)"
  by (cases r; cases "snd r") (auto simp: kept_def intro: trans)

lemma drop_err [kept_intros]: "kept K s r \<Longrightarrow> kept K s (drop_err r)"
  by (cases r rule: drop_err.cases) (simp_all add: kept_def)

lemma if_kept [kept_intros]: "(b \<Longrightarrow> kept K s x) \<Longrightarrow> (\<not> b \<Longrightarrow> kept K s y) \<Longrightarrow> kept K s (if b then x else y)"
  by simp

lemma prod_kept [kept_intros]: "(\<And>a b. p = (a, b) \<Longrightarrow> kept K s (f a b)) \<Longrightarrow> kept K s (case p of (a, b) \<Rightarrow> f a b)"
  by (cases p) simp

lemma let_kept [kept_intros]: "(\<And>x. x = v \<Longrightarrow> kept K s (f x)) \<Longrightarrow> kept K s (let x = v in f x)"
  by simp

lemma kept_trans: "kept K s (s', err) \<Longrightarrow> kept K s' r \<Longrightarrow> kept K s r"
  by (auto simp: kept_def intro: trans)

end

section \<open>Blocks, topology and the head\<close>

definition same_chain :: "('t, 'x) ext_scheme \<Rightarrow> 't \<Rightarrow> 't \<Rightarrow> bool" where
  "same_chain e t t' \<longleftrightarrow>
     (\<forall>k. kvGet e t' IdxBlock k = kvGet e t IdxBlock k) \<and> (\<forall>k. kvGet e t' IdxTopo k = kvGet e t IdxTopo k)"

definition same_head :: "('t, 'x) ext_scheme \<Rightarrow> 't cs \<Rightarrow> 't cs \<Rightarrow> bool" where
  "same_head e s s' \<longleftrightarrow> same_chain e (cs_txn s) (cs_txn s') \<and>
     TopHash (cs_stats s') = TopHash (cs_stats s) \<and> TopHeight (cs_stats s') = TopHeight (cs_stats s) \<and>
     CumulativeDiff (cs_stats s') = CumulativeDiff (cs_stats s) \<and> Tips (cs_stats s') = Tips (cs_stats s) \<and>
     Orphans (cs_stats s') = Orphans (cs_stats s)"

interpretation head: frame_relation "same_head e" for e
  by unfold_locales (simp_all add: same_head_def same_chain_def)

lemma same_chain_reads:
  assumes "same_chain e t t'"
  shows "GetBlock e t' h = GetBlock e t h" "GetTopo e t' n = GetTopo e t n"
  using assms by (simp_all add: same_chain_def GetBlock_def GetTopo_def)

lemma head_on_stats [kept_intros]:
  "kept (same_head e) s (on_stats (\<lambda>st. Stats_Staked st a) s)"
  "kept (same_head e) s (on_stats (\<lambda>st. Stats_Unstaked st a) s)"
  by (simp_all add: kept_def same_head_def same_chain_def on_stats_def Stats_Staked_def Stats_Unstaked_def)

lemma head_update_sync: "same_head e s (update_sync bl s')  = same_head e s s'"
  by (simp add: same_head_def update_sync_def)

context adb_txn
begin

lemma head_put [kept_intros]:
  "i \<noteq> IdxBlock \<Longrightarrow> i \<noteq> IdxTopo \<Longrightarrow> kept (same_head e) s (on_txn (\<lambda>t. kvPut e t i (k t) (v t)) s)"
  by (simp add: kept_def same_head_def same_chain_def on_txn_def kvPut_eq)

lemma head_del [kept_intros]:
  "i \<noteq> IdxBlock \<Longrightarrow> i \<noteq> IdxTopo \<Longrightarrow> kept (same_head e) s (on_txn (\<lambda>t. kvDel e t i k) s)"
  using get_del [of "cs_txn s" i k] del_err [of "cs_txn s" i k]
  by (cases "snd (kvDel e (cs_txn s) i k)")
    (simp_all add: kept_def same_head_def same_chain_def on_txn_def split_beta)

lemma head_sets [kept_intros]:
  "kept (same_head e) s (on_txn (\<lambda>t. SetState e t a st) s)"
  "kept (same_head e) s (on_txn (\<lambda>t. SetTxTopoInc e t h a n) s)"
  "kept (same_head e) s (on_txn (\<lambda>t. SetTxTopoOut e t h a n) s)"
  "kept (same_head e) s (on_txn (\<lambda>t. SetMempool e now t m) s)"
  "kept (same_head e) s (on_txn (\<lambda>t. bc_SetDelegate e t d) s)"
  "kept (same_head e) s (on_txn (\<lambda>t. SetDelegateHistory e t h d) s)"
  "kept (same_head e) s (on_txn (\<lambda>t. RemoveDelegate e t did) s)"
  unfolding SetState_def SetTxTopoInc_def SetTxTopoOut_def SetMempool_def bc_SetDelegate_def
    SetDelegateHistory_def RemoveDelegate_def
  by (intro kept_intros; simp)+

lemma head_SetTxHeight [kept_intros]: "kept (same_head e) s (on_txn (\<lambda>t. SetTxHeight e t h n) s)"
  by (simp add: kept_def same_head_def same_chain_def on_txn_def SetTxHeight_def kvPut_eq Let_def)

lemma head_staking [kept_intros]:
  "kept (same_head e) s (ApplyStake e a did prev sg txid rv s)"
  "kept (same_head e) s (ApplyUnstake e a did sg rv prev s)"
  "kept (same_head e) s (ApplyPosReward e bh out s)"
  "kept (same_head e) s (RemovePosReward e bh out s)"
  unfolding ApplyStake_def ApplyUnstake_def ApplyPosReward_def RemovePosReward_def Let_def
  by (intro kept_intros)+

lemma head_tx_parts [kept_intros]:
  "kept (same_head e) s (apply_stake_tx e tx st a txid s)"
  "kept (same_head e) s (apply_unstake_tx e tx st a s)"
  "kept (same_head e) s (apply_register_tx e tx s)"
  "kept (same_head e) s (remove_stake_tx e tx st a s)"
  "kept (same_head e) s (remove_unstake_tx e tx st a txid s)"
  "kept (same_head e) s (remove_register_tx e tx s)"
  unfolding apply_stake_tx_def apply_unstake_tx_def apply_register_tx_def remove_stake_tx_def
    remove_unstake_tx_def remove_register_tx_def
  by (cases "tx_Data tx"; auto intro!: kept_intros split: sum.split error.split)+

lemma head_inputs [kept_intros]:
  "kept (same_head e) s (apply_inputs e inps s)" "kept (same_head e) s (remove_inputs e inps s)"
  by (induction inps arbitrary: s) (auto intro!: kept_intros)

lemma head_outputs [kept_intros]:
  "kept (same_head e) s (ApplyTxOutputsToState e bh outs txid s)"
  "kept (same_head e) s (RemoveTxOutputsFromState e bh outs s)"
  by (induction outs arbitrary: s) (auto intro!: kept_intros simp: Let_def)

lemma head_tx [kept_intros]:
  "kept (same_head e) s (ApplyTxToState e tx a bl bh txid s)"
  "kept (same_head e) s (RemoveTxFromState e tx a bh txid s)"
  unfolding ApplyTxToState_def RemoveTxFromState_def Let_def by (intro kept_intros)+

lemma head_remove_txs [kept_intros]: "kept (same_head e) s (remove_txs e bh txs s)"
  by (induction txs arbitrary: s) (auto intro!: kept_intros)

lemma head_apply_txs: "same_head e s (fst (fst (apply_txs e bl bh txs fee s)))"
proof (induction txs arbitrary: fee s)
  case (Cons v vs)
  have "same_head e s s1" if "ApplyTxToState e tx (FromPubKey e (tx_Signer tx)) bl bh v s = (s1, r)" for tx s1 r
    using head_tx(1) [of s tx "FromPubKey e (tx_Signer tx)" bl bh v] that by (simp add: kept_def)
  then show ?case
    by (auto simp: Let_def head.refl split: sum.split prod.split option.split
        intro: head.trans [OF _ Cons.IH])
qed (simp add: head.refl)

lemma head_ApplyBlock [kept_intros]: "kept (same_head e) s (ApplyBlockToState e now bl bh s)"
proof -
  have "kept (same_head e) s (clear_mempool e now txs s)" for s txs
    unfolding clear_mempool_def by (intro kept_intros)
  moreover have "kept (same_head e) s
     (case apply_txs e bl bh (bl_Transactions bl) 0 s of
            ((s, _), Some err) \<Rightarrow> (s, Some err)
          | ((s, totalFee), None) \<Rightarrow>
              let totalReward = Block_Reward bl + totalFee
              in if totalReward < Block_Reward bl then (s, Some (Err ''reward overflow in block''))
                 else with_res (CoinbaseTransaction bl totalReward) s (\<lambda>coinbaseOuts.
                        and_then (ApplyTxOutputsToState e bh (map coinbase_output coinbaseOuts) bh s)
                          (\<lambda>s. (update_sync bl s, None))))" for s
  proof -
    obtain s1 fee err where r: "apply_txs e bl bh (bl_Transactions bl) 0 s = ((s1, fee), err)"
      by (metis prod.exhaust)
    have "same_head e s s1" using head_apply_txs [of s bl bh "bl_Transactions bl" 0] r by simp
    moreover have "kept (same_head e) s1
        (let totalReward = Block_Reward bl + fee
         in if totalReward < Block_Reward bl then (s1, Some (Err ''reward overflow in block''))
            else with_res (CoinbaseTransaction bl totalReward) s1 (\<lambda>coinbaseOuts.
                   and_then (ApplyTxOutputsToState e bh (map coinbase_output coinbaseOuts) bh s1)
                     (\<lambda>s. (update_sync bl s, None))))"
      by (intro kept_intros) (simp add: kept_def head_update_sync head.refl)
    ultimately show ?thesis
      unfolding r by (cases err) (auto simp: kept_def intro: head.trans)
  qed
  ultimately show ?thesis
    unfolding ApplyBlockToState_def
    by (cases "check_next_staker e bl s") (simp_all only: option.case head.and_then head.stop)
qed

lemma head_RemoveBlock [kept_intros]: "kept (same_head e) s (RemoveBlockFromState e now bl bh s)"
  unfolding RemoveBlockFromState_def Let_def by (intro kept_intros)

end

end
