(* ===== verification/ChainInv.thy ===== *)
theory ChainInv
  imports ChainFrame
begin

text \<open>
  The main chain. Its abstract state is the list of the hashes of its blocks from the first block to the
  top; the topology index is exactly this list. A block that extends the top adds its hash to the list, a
  reorganisation replaces everything above the common block by the other branch, and any other block
  leaves the list alone. The loops of a reorganisation end because heights fall along parents.
\<close>

section \<open>The abstract chain\<close>

definition unknown_height :: error where
  "unknown_height = Err ''unknown block at height''"

definition chain_block :: "('t, 'x) ext_scheme \<Rightarrow> 't \<Rightarrow> hash list \<Rightarrow> nat \<Rightarrow> Block \<Rightarrow> bool" where
  "chain_block e t cs i b \<longleftrightarrow>
     GetBlock e t (cs ! i) = Inr b \<and> unat (Height b) = i \<and> (0 < i \<longrightarrow> PrevHash b = cs ! (i - 1))"

definition main_chain :: "('t, 'x) ext_scheme \<Rightarrow> 't \<Rightarrow> hash list \<Rightarrow> bool" where
  "main_chain e t cs \<longleftrightarrow> cs \<noteq> [] \<and> (\<forall>i<length cs. \<exists>b. chain_block e t cs i b) \<and>
     (\<forall>n. GetTopo e t n = (if unat n < length cs then Inr (cs ! unat n) else Inl unknown_height))"

text \<open>Every block is stored under its hash, which is not zero, and above its parent.\<close>

definition blocks_ok :: "('t, 'x) ext_scheme \<Rightarrow> 't \<Rightarrow> bool" where
  "blocks_ok e t \<longleftrightarrow> (\<forall>h b. GetBlock e t h = Inr b \<longrightarrow> h \<noteq> 0 \<and> Block_Hash e b = h \<and>
     (Height b \<noteq> 0 \<longrightarrow> (\<exists>p. GetBlock e t (PrevHash b) = Inr p \<and> Height b = Height p + 1)))"

lemma blocks_ok_parent:
  assumes "blocks_ok e t" "GetBlock e t h = Inr b" "Height b \<noteq> 0"
  obtains p where "GetBlock e t (PrevHash b) = Inr p" "Height b = Height p + 1"
  using assms unfolding blocks_ok_def by blast

text \<open>A path of stored blocks from the parent of its first block to its last block.\<close>

fun path :: "('t, 'x) ext_scheme \<Rightarrow> 't \<Rightarrow> hash \<Rightarrow> (hash \<times> Block) list \<Rightarrow> hash \<Rightarrow> bool" where
  "path e t c [] c' \<longleftrightarrow> c = c'"
| "path e t c ((h, b) # hs) c' \<longleftrightarrow>
     GetBlock e t h = Inr b \<and> Height b \<noteq> 0 \<and> PrevHash b = c \<and> path e t h hs c'"

lemma path_cong: "(\<And>h. GetBlock e t' h = GetBlock e t h) \<Longrightarrow> path e t' c hs c' = path e t c hs c'"
  by (induction hs arbitrary: c) auto

lemma unat_Suc_height: "Height b = Height p + 1 \<Longrightarrow> Height b \<noteq> 0 \<Longrightarrow> unat (Height b) = Suc (unat (Height p))"
  using unat_minus_one [of "Height b"] unat_gt_0 [of "Height b"] by simp

lemma main_chain_get: "main_chain e t cs \<Longrightarrow> i < length cs \<Longrightarrow> \<exists>b. chain_block e t cs i b"
  by (simp add: main_chain_def)

lemma main_chain_last:
  assumes "main_chain e t cs"
  obtains b where "GetBlock e t (last cs) = Inr b" "unat (Height b) = length cs - 1"
  using main_chain_get [OF assms, of "length cs - 1"] assms
  by (auto simp: main_chain_def chain_block_def last_conv_nth)

lemma main_chain_nth_inject:
  assumes "main_chain e t cs" "i < length cs" "j < length cs" "cs ! i = cs ! j"
  shows "i = j"
proof -
  obtain a b where "chain_block e t cs i a" "chain_block e t cs j b"
    using main_chain_get [OF assms(1)] assms(2,3) by blast
  then have "GetBlock e t (cs ! i) = Inr a" "unat (Height a) = i" "GetBlock e t (cs ! j) = Inr b" "unat (Height b) = j"
    by (simp_all add: chain_block_def)
  with assms(4) show ?thesis by simp
qed

lemma main_chain_same: "same_chain e t t' \<Longrightarrow> main_chain e t' cs = main_chain e t cs"
  by (simp add: main_chain_def chain_block_def same_chain_reads)

lemma blocks_ok_same: "same_chain e t t' \<Longrightarrow> blocks_ok e t' = blocks_ok e t"
  by (simp add: blocks_ok_def same_chain_reads)

text \<open>The topology above or below is set or deleted.\<close>

lemma main_chain_snoc:
  assumes mc: "main_chain e t cs" and b: "GetBlock e t' h = Inr b" "PrevHash b = last cs"
    "unat (Height b) = length cs"
    and old: "\<And>h b. GetBlock e t h = Inr b \<Longrightarrow> GetBlock e t' h = Inr b"
    and topo: "\<And>n. GetTopo e t' n = (if n = Height b then Inr h else GetTopo e t n)"
  shows "main_chain e t' (cs @ [h])"
  unfolding main_chain_def
proof (intro conjI allI impI)
  fix i
  assume i: "i < length (cs @ [h])"
  show "\<exists>b. chain_block e t' (cs @ [h]) i b"
  proof (cases "i = length cs")
    case True
    then show ?thesis
      using b mc by (intro exI [of _ b]) (simp add: chain_block_def nth_append last_conv_nth main_chain_def)
  next
    case False
    then obtain c where "chain_block e t cs i c" using main_chain_get [OF mc, of i] i by auto
    moreover have "i < length cs" using False i by simp
    ultimately show ?thesis
      using old by (intro exI [of _ c]) (auto simp: chain_block_def nth_append)
  qed
next
  fix n
  have "n = Height b \<longleftrightarrow> unat n = length cs" using b(3) by (metis unsigned_word_eqI)
  then show "GetTopo e t' n = (if unat n < length (cs @ [h]) then Inr ((cs @ [h]) ! unat n) else Inl unknown_height)"
    using mc by (simp add: topo main_chain_def nth_append)
qed simp

lemma main_chain_butlast:
  assumes mc: "main_chain e t cs" and len: "2 \<le> length cs"
    and n: "unat n = length cs - 1"
    and blocks: "\<And>h. GetBlock e t' h = GetBlock e t h"
    and topo: "\<And>m. GetTopo e t' m = (if m = n then Inl unknown_height else GetTopo e t m)"
  shows "main_chain e t' (butlast cs)"
  unfolding main_chain_def
proof (intro conjI allI impI)
  show "butlast cs \<noteq> []" using len by (cases cs) auto
  fix i
  assume "i < length (butlast cs)"
  then show "\<exists>b. chain_block e t' (butlast cs) i b"
    using main_chain_get [OF mc, of i] blocks by (auto simp: chain_block_def nth_butlast)
next
  fix m
  have "m = n \<longleftrightarrow> unat m = length cs - 1" using n by (metis unsigned_word_eqI)
  then show "GetTopo e t' m = (if unat m < length (butlast cs) then Inr (butlast cs ! unat m) else Inl unknown_height)"
    using mc len by (auto simp: topo main_chain_def nth_butlast)
qed

section \<open>Step 1\<close>

definition common_block :: "('t, 'x) ext_scheme \<Rightarrow> 't \<Rightarrow> hash \<Rightarrow> bool" where
  "common_block e t c \<longleftrightarrow> (\<exists>p. GetBlock e t c = Inr p \<and> Height p \<noteq> 0 \<and> GetTopo e t (Height p) = Inr c)"

text \<open>The search for the common block ends: each parent is lower. It returns the path from the common
  block to the tip.\<close>

lemma reorg_step1_ok:
  assumes ok: "blocks_ok e t"
  shows "\<exists>r. reorg_step1 e t b hashes = Some r \<and>
    (\<forall>c hs. r = Inr (c, hs) \<longrightarrow> path e t (PrevHash b) (rev hashes) alt \<longrightarrow>
       path e t c (rev hs) alt \<and> common_block e t c)"
proof (induction "case GetBlock e t (PrevHash b) of Inl _ \<Rightarrow> 0 | Inr p \<Rightarrow> unat (Height p)"
    arbitrary: b hashes rule: less_induct)
  case less
  show ?case
  proof (cases "GetBlock e t (PrevHash b)")
    case (Inl err)
    then show ?thesis by (subst reorg_step1.simps) simp
  next
    case (Inr p)
    let ?topo = "case GetTopo e t (Height p) of Inl _ \<Rightarrow> 0 | Inr x \<Rightarrow> x"
    consider "Height p = 0" | "Height p \<noteq> 0" "?topo = PrevHash b" | "Height p \<noteq> 0" "?topo \<noteq> PrevHash b"
      by blast
    then show ?thesis
    proof cases
      case 1
      then show ?thesis using Inr by (subst reorg_step1.simps) simp
    next
      case 2
      moreover have "PrevHash b \<noteq> 0" using ok Inr by (auto simp: blocks_ok_def)
      ultimately have "common_block e t (PrevHash b)"
        using Inr by (auto simp: common_block_def split: sum.splits)
      then show ?thesis using 2 Inr by (subst reorg_step1.simps) simp
    next
      case 3
      obtain q where q: "GetBlock e t (PrevHash p) = Inr q" "Height p = Height q + 1"
        using ok Inr 3(1) by (auto simp: blocks_ok_def)
      have "unat (Height q) < unat (Height p)" using unat_Suc_height [OF q(2) 3(1)] by simp
      then have "\<exists>r. reorg_step1 e t p (hashes @ [(PrevHash b, p)]) = Some r \<and>
          (\<forall>c hs. r = Inr (c, hs) \<longrightarrow> path e t (PrevHash p) (rev (hashes @ [(PrevHash b, p)])) alt \<longrightarrow>
             path e t c (rev hs) alt \<and> common_block e t c)"
        by (intro less.hyps) (simp add: Inr q(1))
      then show ?thesis using 3 Inr by (subst reorg_step1.simps) simp
    qed
  qed
qed

section \<open>Step 2\<close>

definition same_blocks :: "('t, 'x) ext_scheme \<Rightarrow> 't cs \<Rightarrow> 't cs \<Rightarrow> bool" where
  "same_blocks e s s' \<longleftrightarrow> (\<forall>h. GetBlock e (cs_txn s') h = GetBlock e (cs_txn s) h) \<and>
     TopHash (cs_stats s') = TopHash (cs_stats s) \<and> TopHeight (cs_stats s') = TopHeight (cs_stats s) \<and>
     CumulativeDiff (cs_stats s') = CumulativeDiff (cs_stats s) \<and> Tips (cs_stats s') = Tips (cs_stats s) \<and>
     Orphans (cs_stats s') = Orphans (cs_stats s)"

context adb_txn
begin

lemma DelTopo_ok:
  assumes "on_txn (\<lambda>t. DelTopo e t n) s = (s', None)"
  shows "GetBlock e (cs_txn s') h = GetBlock e (cs_txn s) h"
    "GetTopo e (cs_txn s') m = (if m = n then Inl unknown_height else GetTopo e (cs_txn s) m)"
    "cs_stats s' = cs_stats s"
proof -
  obtain t where t: "kvDel e (cs_txn s) IdxTopo (u64_key n) = (t, None)" "s' = s\<lparr>cs_txn := t\<rparr>"
    using assms by (auto simp: outcome_iffs DelTopo_def)
  have "kvGet e t j l = (if j = IdxTopo \<and> l = u64_key n then None else kvGet e (cs_txn s) j l)" for j l
    using get_del [of "cs_txn s" IdxTopo "u64_key n" j l] t(1) by simp
  then show "GetBlock e (cs_txn s') h = GetBlock e (cs_txn s) h"
    "GetTopo e (cs_txn s') m = (if m = n then Inl unknown_height else GetTopo e (cs_txn s) m)"
    "cs_stats s' = cs_stats s"
    by (simp_all add: t(2) GetBlock_def GetTopo_def unknown_height_def)
qed

lemma same_blocks_trans: "same_blocks e s s' \<Longrightarrow> same_blocks e s' s'' \<Longrightarrow> same_blocks e s s''"
  by (simp add: same_blocks_def)

lemma head_same_blocks: "same_head e s s' \<Longrightarrow> same_blocks e s s'"
  by (simp add: same_head_def same_blocks_def same_chain_reads)

text \<open>Taking the main chain back down to a block of it ends, and leaves the chain up to that block.\<close>

lemma reorg_step2_ok:
  assumes "main_chain e (cs_txn s) cs" "k < length cs"
  shows "\<exists>s' err. reorg_step2 e now (cs ! k) (last cs) n s = Some (s', err) \<and>
    (err = None \<longrightarrow> main_chain e (cs_txn s') (take (Suc k) cs) \<and> same_blocks e s s')"
  using assms
proof (induction "length cs" arbitrary: cs s n rule: less_induct)
  case less
  note mc = less.prems(1)
  have lastn: "last cs = cs ! (length cs - 1)" using mc by (simp add: last_conv_nth main_chain_def)
  show ?case
  proof (cases "last cs = cs ! k")
    case True
    then have "cs ! k = cs ! (length cs - 1)" unfolding lastn by (rule sym)
    moreover have "length cs - 1 < length cs" using less.prems(2) by simp
    ultimately have "k = length cs - 1"
      using main_chain_nth_inject [OF mc less.prems(2)] by blast
    then have "take (Suc k) cs = cs" by simp
    then show ?thesis using True mc by (subst reorg_step2.simps) (simp add: same_blocks_def)
  next
    case False
    have k: "k < length cs - 1" using False lastn less.prems(2) by (cases "k = length cs - 1") auto
    have "length cs - 1 < length cs" using k by simp
    then obtain m where m: "GetBlock e (cs_txn s) (last cs) = Inr m" "unat (Height m) = length cs - 1"
      "PrevHash m = cs ! (length cs - 2)"
      using main_chain_get [OF mc, of "length cs - 1"] k
      by (auto simp: chain_block_def lastn numeral_2_eq_2)
    obtain s1 err where r: "and_then (on_txn (\<lambda>t. DelTopo e t (Height m)) s)
        (RemoveBlockFromState e now m (last cs)) = (s1, err)" by fastforce
    show ?thesis
    proof (cases "Height n = 0 \<or> err \<noteq> None")
      case True
      then show ?thesis using False m(1) r by (subst reorg_step2.simps) auto
    next
      case go: False
      then obtain s0 where s0: "on_txn (\<lambda>t. DelTopo e t (Height m)) s = (s0, None)"
        and s1: "RemoveBlockFromState e now m (last cs) s0 = (s1, None)"
        using r by (auto simp: and_then_None)
      note del = DelTopo_ok [OF s0]
      have h: "same_head e s0 s1" using head_RemoveBlock [of s0 now m "last cs"] s1 by (simp add: kept_def)
      have mc1: "main_chain e (cs_txn s1) (butlast cs)"
        using h mc k m(2) del
        by (intro main_chain_butlast [OF mc, of "Height m"]) (auto simp: same_head_def same_chain_reads)
      have sb: "same_blocks e s s1"
        using head_same_blocks [OF h] del by (simp add: same_blocks_def)
      have "length (butlast cs) < length cs" "k < length (butlast cs)" using k by simp_all
      from less.hyps [OF this(1) mc1 this(2)] obtain s' err' where r': "reorg_step2 e now (butlast cs ! k) (last (butlast cs)) m s1 = Some (s', err')"
        and post: "err' = None \<longrightarrow> main_chain e (cs_txn s') (take (Suc k) (butlast cs)) \<and> same_blocks e s1 s'"
        by blast
      have idx: "butlast cs ! k = cs ! k" "last (butlast cs) = PrevHash m" "take (Suc k) (butlast cs) = take (Suc k) cs"
        using k m(3) mc1 by (auto simp: nth_butlast last_conv_nth main_chain_def take_butlast numeral_2_eq_2)
      have "reorg_step2 e now (cs ! k) (last cs) n s = Some (s', err')"
        using False go m(1) r r' unfolding idx by (subst reorg_step2.simps) auto
      then show ?thesis using post sb same_blocks_trans unfolding idx by blast
    qed
  qed
qed

text \<open>Applying a path on top of the main chain makes it the rest of the main chain.\<close>

lemma reorg_step3_ok:
  assumes "reorg_step3 e now ups s = (s', None)" "main_chain e (cs_txn s) cs" "blocks_ok e (cs_txn s)"
    "path e (cs_txn s) (last cs) ups alt"
  shows "main_chain e (cs_txn s') (cs @ map fst ups) \<and> same_blocks e s s'"
  using assms
proof (induction ups arbitrary: s cs)
  case Nil
  then show ?case by (simp add: same_blocks_def)
next
  case (Cons hb ups)
  obtain h b where hb: "hb = (h, b)" by fastforce
  have b: "GetBlock e (cs_txn s) h = Inr b" "Height b \<noteq> 0" "PrevHash b = last cs"
    "path e (cs_txn s) h ups alt" using Cons.prems(4) by (simp_all add: hb)
  let ?t = "kv_put e (cs_txn s) IdxTopo (u64_key (Height b)) (arr_bytes h)"
  obtain s2 where s2: "ApplyBlockToState e now b h (s\<lparr>cs_txn := ?t\<rparr>) = (s2, None)"
    and rest: "reorg_step3 e now ups s2 = (s', None)"
    using Cons.prems(1) by (auto simp: hb outcome_iffs kvPut_eq)
  have put: "GetBlock e ?t x = GetBlock e (cs_txn s) x"
    "GetTopo e ?t n = (if n = Height b then Inr h else GetTopo e (cs_txn s) n)" for x n
    by (simp_all add: GetBlock_def GetTopo_def)
  have h: "same_head e (s\<lparr>cs_txn := ?t\<rparr>) s2"
    using head_ApplyBlock [of "s\<lparr>cs_txn := ?t\<rparr>" now b h] s2 by (simp add: kept_def)
  have sb: "same_blocks e s s2"
    using head_same_blocks [OF h] put by (simp add: same_blocks_def)
  obtain p where p: "GetBlock e (cs_txn s) (last cs) = Inr p" "unat (Height p) = length cs - 1"
    using main_chain_last [OF Cons.prems(2)] .
  have "Height b = Height p + 1"
    using blocks_ok_parent [OF Cons.prems(3) b(1,2)] b(3) p(1) by (metis Inr_inject)
  then have "unat (Height b) = length cs"
    using unat_Suc_height [of b p] b(2) p(2) Cons.prems(2) by (simp add: main_chain_def Suc_diff_le)
  then have "main_chain e ?t (cs @ [h])"
    using Cons.prems(2) b put by (intro main_chain_snoc) auto
  then have mc: "main_chain e (cs_txn s2) (cs @ [h])"
    using h main_chain_same by (fastforce simp: same_head_def)
  have "blocks_ok e (cs_txn s2)" using Cons.prems(3) sb by (simp add: blocks_ok_def same_blocks_def)
  moreover have "path e (cs_txn s2) (last (cs @ [h])) ups alt"
    using b(4) sb path_cong [of e "cs_txn s2" "cs_txn s" h ups alt] by (simp add: same_blocks_def)
  ultimately have "main_chain e (cs_txn s') ((cs @ [h]) @ map fst ups) \<and> same_blocks e s2 s'"
    by (rule Cons.IH [OF rest mc])
  then show ?case using sb same_blocks_trans by (auto simp: hb)
qed

end

section \<open>Tips\<close>

text \<open>Each tip is a stored block with its cumulative difficulty, none heavier than the top.\<close>

definition tip_stored :: "('t, 'x) ext_scheme \<Rightarrow> 't \<Rightarrow> hash \<Rightarrow> Uint128 \<Rightarrow> bool" where
  "tip_stored e t h d \<longleftrightarrow> (\<exists>b. GetBlock e t h = Inr b \<and> Height b \<noteq> 0 \<and> bl_CumulativeDiff b = d)"

definition tips_ok :: "('t, 'x) ext_scheme \<Rightarrow> 't \<Rightarrow> (hash \<times> AltchainTip) list \<Rightarrow> bool" where
  "tips_ok e t tips \<longleftrightarrow> distinct (map fst tips) \<and>
     (\<forall>(k, v)\<in>set tips. tip_stored e t (tip_Hash v) (tip_CumulativeDiff v))"

definition heaviest :: "Stats \<Rightarrow> bool" where
  "heaviest stats \<longleftrightarrow> (\<forall>(k, v)\<in>set (Tips stats). val128 (tip_CumulativeDiff v) \<le> val128 (CumulativeDiff stats))"

definition node_chain :: "('t, 'x) ext_scheme \<Rightarrow> 't \<Rightarrow> Stats \<Rightarrow> hash list \<Rightarrow> bool" where
  "node_chain e t stats cs \<longleftrightarrow> main_chain e t cs \<and> blocks_ok e t \<and> TopHash stats = last cs \<and>
     (\<exists>b. GetBlock e t (last cs) = Inr b \<and> bl_CumulativeDiff b = CumulativeDiff stats) \<and>
     tips_ok e t (Tips stats) \<and> Orphans stats = []"

text \<open>A block that was checked and is not yet known can be stored.\<close>

definition addable :: "('t, 'x) ext_scheme \<Rightarrow> 't \<Rightarrow> Block \<Rightarrow> hash \<Rightarrow> bool" where
  "addable e t bl h \<longleftrightarrow> block_wf bl \<and> h = Block_Hash e bl \<and> h \<noteq> 0 \<and> Height bl \<noteq> 0 \<and>
     (\<forall>b. GetBlock e t h \<noteq> Inr b) \<and> (\<exists>p. GetBlock e t (PrevHash bl) = Inr p \<and> Height bl = Height p + 1)"

lemma best_tip_fold:
  fixes tips :: "(hash \<times> AltchainTip) list"
  defines "f \<equiv> \<lambda>(altDiff, altHash, altHeight) (_ :: hash, v).
         if U128_Cmp (tip_CumulativeDiff v) altDiff > 0
         then (tip_CumulativeDiff v, tip_Hash v, tip_Height v) else (altDiff, altHash, altHeight)"
  assumes "foldl f (d, h, n) tips = (d', h', n')"
  shows "(\<forall>(k, v)\<in>set tips. val128 (tip_CumulativeDiff v) \<le> val128 d') \<and>
    ((d', h', n') = (d, h, n) \<or>
     val128 d < val128 d' \<and> (\<exists>(k, v)\<in>set tips. d' = tip_CumulativeDiff v \<and> h' = tip_Hash v))"
  using assms(2)
proof (induction tips arbitrary: d h n)
  case (Cons kv tips)
  obtain k v where kv: "kv = (k, v)" by fastforce
  obtain d1 h1 n1 where s: "f (d, h, n) (k, v) = (d1, h1, n1)" by (metis prod.exhaust)
  have s1: "val128 (tip_CumulativeDiff v) \<le> val128 d1" "val128 d \<le> val128 d1"
    "(d1, h1, n1) = (d, h, n) \<or> val128 d < val128 d1 \<and> d1 = tip_CumulativeDiff v \<and> h1 = tip_Hash v"
    using s by (auto simp: f_def U128_Cmp_val split: if_splits)
  have "foldl f (d1, h1, n1) tips = (d', h', n')" using Cons.prems s by (simp add: kv)
  from Cons.IH [OF this] s1 show ?case by (auto simp: kv)
qed simp

lemma best_tip_ok:
  assumes "best_tip stats = (d, h, n)"
  shows "(\<forall>(k, v)\<in>set (Tips stats). val128 (tip_CumulativeDiff v) \<le> val128 d) \<and>
    ((d, h, n) = (CumulativeDiff stats, TopHash stats, TopHeight stats) \<or>
     val128 (CumulativeDiff stats) < val128 d \<and> (\<exists>(k, v)\<in>set (Tips stats). d = tip_CumulativeDiff v \<and> h = tip_Hash v))"
  using best_tip_fold [of "CumulativeDiff stats" "TopHash stats" "TopHeight stats" "Tips stats" d h n] assms
  unfolding best_tip_def by (simp add: case_prod_unfold)

section \<open>Reorganisation\<close>

lemma tips_ok_mono:
  "tips_ok e t tips \<Longrightarrow> (\<And>h b. GetBlock e t h = Inr b \<Longrightarrow> GetBlock e t' h = Inr b) \<Longrightarrow> tips_ok e t' tips"
  unfolding tips_ok_def tip_stored_def by fastforce

lemma set_alist_update: "set (AList.update k v al) \<subseteq> insert (k, v) (set al)"
  by (induction al) auto

lemma tips_ok_update:
  assumes "tips_ok e t tips" "tip_stored e t (tip_Hash v) (tip_CumulativeDiff v)"
  shows "tips_ok e t (AList.update k v tips)"
  using assms distinct_update [of tips k v] set_alist_update [of k v tips] by (auto simp: tips_ok_def)

lemma tips_ok_delete: "tips_ok e t tips \<Longrightarrow> tips_ok e t (AList.delete k tips)"
  unfolding tips_ok_def using distinct_delete [of tips k] by (auto simp: AList.delete_eq)

lemma path_last: "path e t c hs c' \<Longrightarrow> last (c # map fst hs) = c'"
  by (induction hs arbitrary: c) auto

context adb_txn
begin

lemma reorg_undo_ok:
  assumes mc: "main_chain e (cs_txn s) cs" and bo: "blocks_ok e (cs_txn s)"
    and top: "TopHash (cs_stats s) = last cs" and k: "k < length cs"
  shows "\<exists>s' err. reorg_undo e now (cs ! k) s = Some (s', err) \<and>
    (err = None \<longrightarrow> main_chain e (cs_txn s') (take (Suc k) cs) \<and> same_blocks e s s')"
proof (cases "last cs = cs ! k")
  case True
  moreover have "last cs = cs ! (length cs - 1)" using mc by (simp add: last_conv_nth main_chain_def)
  ultimately have "cs ! k = cs ! (length cs - 1)" by simp
  moreover have "length cs - 1 < length cs" using k by simp
  ultimately have "k = length cs - 1" using main_chain_nth_inject [OF mc k] by blast
  then show ?thesis using True mc top by (simp add: reorg_undo_def same_blocks_def)
next
  case False
  obtain b where b: "GetBlock e (cs_txn s) (last cs) = Inr b" using main_chain_last [OF mc] .
  then have "Block_Hash e b = last cs" using bo by (auto simp: blocks_ok_def)
  then show ?thesis
    using reorg_step2_ok [OF mc k, of now b] False b top by (simp add: reorg_undo_def)
qed

lemma common_block_index:
  assumes "main_chain e t cs" "common_block e t c"
  obtains k where "k < length cs" "c = cs ! k" "0 < k"
proof -
  obtain b :: Block where "Height b \<noteq> 0" "GetTopo e t (Height b) = Inr c"
    using assms(2) by (auto simp: common_block_def)
  then show thesis
    using assms(1) by (intro that [of "unat (Height b)"]) (auto simp: main_chain_def unat_gt_0 split: if_splits)
qed

text \<open>The new head after the blocks were exchanged.\<close>

lemma reorg_step4_ok:
  assumes nc: "node_chain e (cs_txn s) (cs_stats s) cs" and b: "tip_stored e (cs_txn s) h d"
    and mc: "main_chain e (cs_txn s') cs'" "last cs' = h" and sb: "same_blocks e s s'" and len: "2 \<le> length cs"
  shows "node_chain e (cs_txn s') (reorg_step4 (d, h, n) (cs_stats s')) cs'"
proof -
  have eq: "GetBlock e (cs_txn s') x = GetBlock e (cs_txn s) x" for x using sb by (simp add: same_blocks_def)
  have "blocks_ok e (cs_txn s')" using nc eq by (simp add: node_chain_def blocks_ok_def)
  moreover have "main_chain e (cs_txn s) cs" using nc by (simp add: node_chain_def)
  then obtain tb where "GetBlock e (cs_txn s) (last cs) = Inr tb" "unat (Height tb) = length cs - 1"
    by (rule main_chain_last)
  then have "tip_stored e (cs_txn s') (TopHash (cs_stats s')) (CumulativeDiff (cs_stats s'))"
    using nc sb len eq by (auto simp: node_chain_def tip_stored_def same_blocks_def)
  then have "tips_ok e (cs_txn s') (Tips (reorg_step4 (d, h, n) (cs_stats s')))"
    using nc sb eq by (auto simp: reorg_step4_def node_chain_def Let_def same_blocks_def
        intro!: tips_ok_update tips_ok_delete intro: tips_ok_mono)
  moreover have "Orphans (cs_stats s') = []" using nc sb by (simp add: node_chain_def same_blocks_def)
  ultimately show ?thesis
    using mc b eq by (auto simp: node_chain_def reorg_step4_def Let_def tip_stored_def)
qed

text \<open>A reorganisation ends; if it succeeds, the main chain is the old one up to the common block followed
  by the other branch, and the top is the tip that was chosen.\<close>

lemma reorganize_ok:
  assumes nc: "node_chain e (cs_txn s) (cs_stats s) cs" and alt: "tip_stored e (cs_txn s) h d"
  shows "\<exists>s' err. reorganize e now (d, h, n) s = Some (s', err) \<and>
    (err = None \<longrightarrow> (\<exists>s2 cs'. s' = s2\<lparr>cs_stats := reorg_step4 (d, h, n) (cs_stats s2)\<rparr> \<and>
       same_blocks e s s2 \<and> node_chain e (cs_txn s') (cs_stats s') cs' \<and> hd cs' = hd cs))"
proof -
  have mc: "main_chain e (cs_txn s) cs" and bo: "blocks_ok e (cs_txn s)"
    and top: "TopHash (cs_stats s) = last cs" using nc by (simp_all add: node_chain_def)
  obtain b where b: "GetBlock e (cs_txn s) h = Inr b" "Height b \<noteq> 0" using alt by (auto simp: tip_stored_def)
  obtain r where r: "reorg_step1 e (cs_txn s) b [(h, b)] = Some r"
    and post: "\<And>c hs. r = Inr (c, hs) \<Longrightarrow> path e (cs_txn s) c (rev hs) h \<and> common_block e (cs_txn s) c"
    using reorg_step1_ok [OF bo, of b "[(h, b)]" h] b by auto
  show ?thesis
  proof (cases r)
    case (Inl err)
    then show ?thesis using b r by (simp add: reorganize_def)
  next
    case (Inr chs)
    obtain c hs where chs: "r = Inr (c, hs)" using Inr by (cases chs) simp
    obtain k where k: "k < length cs" "c = cs ! k" "0 < k"
      using common_block_index [OF mc] post [OF chs] by blast
    obtain s1 err1 where s1: "reorg_undo e now c s = Some (s1, err1)"
      and undo: "err1 = None \<longrightarrow> main_chain e (cs_txn s1) (take (Suc k) cs) \<and> same_blocks e s s1"
      using reorg_undo_ok [OF mc bo top k(1), of now] k(2) by blast
    obtain s2 err2 where s2: "reorg_step3 e now (rev hs) s1 = (s2, err2)" by fastforce
    show ?thesis
    proof (cases "err1 = None \<and> err2 = None")
      case False
      then show ?thesis using b r chs s1 s2 by (cases err1; cases err2) (simp_all add: reorganize_def)
    next
      case True
      then have sb1: "same_blocks e s s1" and mc1: "main_chain e (cs_txn s1) (take (Suc k) cs)"
        using undo by auto
      have eq: "GetBlock e (cs_txn s1) x = GetBlock e (cs_txn s) x" for x using sb1 by (simp add: same_blocks_def)
      have lst: "last (take (Suc k) cs) = c" using k by (simp add: take_Suc_conv_app_nth)
      have "path e (cs_txn s1) (last (take (Suc k) cs)) (rev hs) h"
        unfolding lst using post [OF chs] path_cong [OF eq] by simp
      moreover have "blocks_ok e (cs_txn s1)" using bo eq by (simp add: blocks_ok_def)
      ultimately have s3: "main_chain e (cs_txn s2) (take (Suc k) cs @ map fst (rev hs))" "same_blocks e s1 s2"
        using reorg_step3_ok [OF _ mc1] s2 True by auto
      have sb: "same_blocks e s s2" using same_blocks_trans [OF sb1 s3(2)] .
      have "last (take (Suc k) cs @ map fst (rev hs)) = h"
        using path_last [of e "cs_txn s" c "rev hs" h] post [OF chs] lst k(1)
        by (simp add: last_append split: if_splits)
      then have "node_chain e (cs_txn s2) (reorg_step4 (d, h, n) (cs_stats s2)) (take (Suc k) cs @ map fst (rev hs))"
        using reorg_step4_ok [OF nc alt s3(1) _ sb] k by simp
      moreover have "hd (take (Suc k) cs @ map fst (rev hs)) = hd cs" using k by (cases cs) auto
      moreover define s' where "s' = s2\<lparr>cs_stats := reorg_step4 (d, h, n) (cs_stats s2)\<rparr>"
      ultimately have "\<exists>s2 cs'. s' = s2\<lparr>cs_stats := reorg_step4 (d, h, n) (cs_stats s2)\<rparr> \<and> same_blocks e s s2 \<and>
          node_chain e (cs_txn s') (cs_stats s') cs' \<and> hd cs' = hd cs"
        using sb by (intro exI [of _ s2] exI [of _ "take (Suc k) cs @ map fst (rev hs)"]) simp
      moreover have "reorganize e now (d, h, n) s = Some (s', None)"
        using b r chs s1 s2 True by (simp add: reorganize_def s'_def)
      ultimately show ?thesis by blast
    qed
  qed
qed

section \<open>Adding a block\<close>

text \<open>\<open>CheckReorgs\<close> ends, and afterwards no tip is heavier than the top.\<close>

lemma CheckReorgs_ok:
  assumes nc: "node_chain e (cs_txn s) (cs_stats s) cs"
  shows "\<exists>s' err r. CheckReorgs e now s = Some ((s', err), r) \<and>
    (err = None \<longrightarrow> (\<exists>cs'. node_chain e (cs_txn s') (cs_stats s') cs' \<and> hd cs' = hd cs) \<and>
       heaviest (cs_stats s') \<and>
       val128 (CumulativeDiff (cs_stats s)) \<le> val128 (CumulativeDiff (cs_stats s')) \<and>
       (\<forall>x. GetBlock e (cs_txn s') x = GetBlock e (cs_txn s) x))"
proof -
  obtain d h n where best: "best_tip (cs_stats s) = (d, h, n)" by (metis prod.exhaust)
  note tip = best_tip_ok [OF best]
  show ?thesis
  proof (cases "h = TopHash (cs_stats s)")
    case True
    have "d = CumulativeDiff (cs_stats s)"
      using tip True nc
      by (auto simp: node_chain_def tips_ok_def tip_stored_def)
    then have "heaviest (cs_stats s)" using tip by (simp add: heaviest_def)
    then show ?thesis using nc True best by (auto simp: CheckReorgs_def Let_def)
  next
    case False
    then have lt: "val128 (CumulativeDiff (cs_stats s)) < val128 d"
      and stored: "tip_stored e (cs_txn s) h d"
      using tip nc by (auto simp: node_chain_def tips_ok_def)
    obtain s' err where r: "reorganize e now (d, h, n) s = Some (s', err)"
      and post: "err = None \<longrightarrow> (\<exists>s2 cs'. s' = s2\<lparr>cs_stats := reorg_step4 (d, h, n) (cs_stats s2)\<rparr> \<and>
       same_blocks e s s2 \<and> node_chain e (cs_txn s') (cs_stats s') cs' \<and> hd cs' = hd cs)"
      using reorganize_ok [OF nc stored, of now n] by blast
    have "heaviest (cs_stats s') \<and> val128 (CumulativeDiff (cs_stats s)) \<le> val128 (CumulativeDiff (cs_stats s')) \<and>
       (\<forall>x. GetBlock e (cs_txn s') x = GetBlock e (cs_txn s) x)" if none: "err = None"
    proof -
      obtain s2 where s2: "s' = s2\<lparr>cs_stats := reorg_step4 (d, h, n) (cs_stats s2)\<rparr>" "same_blocks e s s2"
        using post none by blast
      then have old: "CumulativeDiff (cs_stats s2) = CumulativeDiff (cs_stats s)" "Tips (cs_stats s2) = Tips (cs_stats s)"
        "\<forall>x. GetBlock e (cs_txn s') x = GetBlock e (cs_txn s) x"
        by (simp_all add: same_blocks_def)
      have "\<forall>(k, v)\<in>set (Tips (reorg_step4 (d, h, n) (cs_stats s2))). val128 (tip_CumulativeDiff v) \<le> val128 d"
        using tip lt old set_alist_update
        by (fastforce simp: reorg_step4_def Let_def AList.delete_eq)
      then show ?thesis using lt old s2(1) by (simp add: heaviest_def reorg_step4_def Let_def)
    qed
    then show ?thesis using r post False best
      by (cases err) (auto simp: CheckReorgs_def Let_def)
  qed
qed

lemma addable_old:
  assumes "addable e t bl h" "\<And>x. GetBlock e t' x = (if x = h then Inr bl else GetBlock e t x)"
    "GetBlock e t x = Inr b"
  shows "GetBlock e t' x = Inr b"
proof -
  have "x \<noteq> h" using assms(1,3) unfolding addable_def by blast
  then show ?thesis using assms(2,3) by simp
qed

lemma blocks_ok_insert:
  assumes bo: "blocks_ok e t" and add: "addable e t bl h"
    and t': "\<And>x. GetBlock e t' x = (if x = h then Inr bl else GetBlock e t x)"
  shows "blocks_ok e t'"
  unfolding blocks_ok_def
proof (intro allI impI)
  fix x b
  assume b: "GetBlock e t' x = Inr b"
  show "x \<noteq> 0 \<and> Block_Hash e b = x \<and>
     (Height b \<noteq> 0 \<longrightarrow> (\<exists>p. GetBlock e t' (PrevHash b) = Inr p \<and> Height b = Height p + 1))"
  proof (cases "x = h")
    case True
    then show ?thesis using b add t' by (auto simp: addable_def)
  next
    case False
    then have old: "GetBlock e t x = Inr b" using b t' by simp
    have "GetBlock e t' (PrevHash b) = Inr p" if "GetBlock e t (PrevHash b) = Inr p" for p
      using that by (rule addable_old [OF add t'])
    with bo old show ?thesis unfolding blocks_ok_def by blast
  qed
qed

lemma GetBlock_insertBlockMain:
  "block_wf b \<Longrightarrow> GetBlock e (fst (insertBlockMain e t b)) h = (if h = Block_Hash e b then Inr b else GetBlock e t h)"
proof -
  assume wf: "block_wf b"
  have "GetBlock e (fst (insertBlockMain e t b)) h = GetBlock e (fst (insertBlock e t b (Block_Hash e b))) h"
    by (simp add: insertBlockMain_def insertBlock_def kvPut_eq Let_def GetBlock_def)
  then show ?thesis by (simp add: GetBlock_insertBlock [OF wf])
qed

lemma addMainchainBlock_ok:
  assumes nc: "node_chain e (cs_txn s) (cs_stats s) cs" and add: "addable e (cs_txn s) bl h"
    and prev: "PrevHash bl = TopHash (cs_stats s)" and run: "addMainchainBlock e now bl h s = (s', None)"
  shows "node_chain e (cs_txn s') (cs_stats s') (cs @ [h]) \<and>
    CumulativeDiff (cs_stats s') = bl_CumulativeDiff bl \<and> TopHeight (cs_stats s') = Height bl \<and>
    Tips (cs_stats s') = Tips (cs_stats s) \<and>
    (\<forall>x. GetBlock e (cs_txn s') x = (if x = h then Inr bl else GetBlock e (cs_txn s) x))"
proof -
  obtain s1 where s1: "ApplyBlockToState e now bl h s = (s1, None)"
    and s': "s' = s1\<lparr>cs_stats := (cs_stats s1)\<lparr>TopHash := h, TopHeight := Height bl,
        CumulativeDiff := bl_CumulativeDiff bl\<rparr>, cs_txn := fst (insertBlockMain e (cs_txn s1) bl)\<rparr>"
    using run by (auto simp: addMainchainBlock_def outcome_iffs Let_def)
  have hd: "same_head e s s1" using head_ApplyBlock [of s now bl h] s1 by (simp add: kept_def)
  have wf: "block_wf bl" "h = Block_Hash e bl" using add by (simp_all add: addable_def)
  have t': "GetBlock e (cs_txn s') x = (if x = h then Inr bl else GetBlock e (cs_txn s) x)" for x
    using GetBlock_insertBlockMain [OF wf(1), of "cs_txn s1"] hd wf(2)
    by (simp add: s' same_head_def same_chain_reads)
  have topo: "GetTopo e (cs_txn s') n = (if n = Height bl then Inr h else GetTopo e (cs_txn s) n)" for n
    using GetTopo_insertBlockMain [of "cs_txn s1" bl n] hd wf(2) by (simp add: s' same_head_def same_chain_reads)
  have mc: "main_chain e (cs_txn s) cs" using nc by (simp add: node_chain_def)
  have top: "PrevHash bl = last cs" and tips: "tips_ok e (cs_txn s) (Tips (cs_stats s))"
    using nc prev by (simp_all add: node_chain_def)
  obtain p where p: "GetBlock e (cs_txn s) (last cs) = Inr p" "unat (Height p) = length cs - 1"
    using main_chain_last [OF mc] .
  have "unat (Height bl) = length cs"
    using add p top unat_Suc_height [of bl p] mc by (auto simp: addable_def main_chain_def)
  then have "main_chain e (cs_txn s') (cs @ [h])"
    using top topo t' addable_old [OF add t'] by (intro main_chain_snoc [OF mc]) simp_all
  moreover have "blocks_ok e (cs_txn s')"
    using nc by (intro blocks_ok_insert [OF _ add t']) (simp add: node_chain_def)
  moreover have "tips_ok e (cs_txn s') (Tips (cs_stats s))"
    using tips addable_old [OF add t'] by (rule tips_ok_mono)
  moreover have "Orphans (cs_stats s) = []" using nc by (simp add: node_chain_def)
  ultimately show ?thesis
    using hd t' by (simp add: node_chain_def s' same_head_def)
qed

lemma addAltchainBlock_ok:
  assumes nc: "node_chain e (cs_txn s) (cs_stats s) cs" and add: "addable e (cs_txn s) bl h"
  shows "\<exists>s' err. addAltchainBlock e now bl h s = Some (s', err) \<and>
    (err = None \<longrightarrow> (\<exists>cs'. node_chain e (cs_txn s') (cs_stats s') cs' \<and> hd cs' = hd cs) \<and>
       heaviest (cs_stats s') \<and>
       val128 (CumulativeDiff (cs_stats s)) \<le> val128 (CumulativeDiff (cs_stats s')) \<and>
       (\<forall>x. GetBlock e (cs_txn s') x = (if x = h then Inr bl else GetBlock e (cs_txn s) x)))"
proof -
  let ?tips = "extend_tips bl h (Tips (cs_stats s))" and ?t = "fst (insertBlock e (cs_txn s) bl h)"
  define s1 where "s1 = s\<lparr>cs_stats := (cs_stats s)\<lparr>Tips := ?tips\<rparr>, cs_txn := ?t\<rparr>"
  have t: "GetBlock e ?t x = (if x = h then Inr bl else GetBlock e (cs_txn s) x)" for x
    using add by (intro GetBlock_insertBlock) (simp add: addable_def)
  note old = addable_old [OF add t]
  have topo: "GetTopo e ?t m = GetTopo e (cs_txn s) m" for m
    by (simp add: GetTopo_def insertBlock_def kvPut_eq)
  have "\<exists>b. chain_block e ?t cs i b" if "i < length cs" for i
    using nc main_chain_get [of e "cs_txn s" cs i] that old by (auto simp: node_chain_def chain_block_def)
  then have "main_chain e ?t cs" using nc topo by (simp add: node_chain_def main_chain_def)
  moreover have "blocks_ok e ?t" using nc by (intro blocks_ok_insert [OF _ add t]) (simp add: node_chain_def)
  moreover have "tip_stored e ?t h (bl_CumulativeDiff bl)" using add t by (simp add: tip_stored_def addable_def)
  then have "tips_ok e ?t ?tips"
    using nc old by (auto simp: extend_tips_def node_chain_def split: option.split
        intro!: tips_ok_update intro: tips_ok_mono)
  ultimately have nc1: "node_chain e (cs_txn s1) (cs_stats s1) cs"
    using nc old by (auto simp: node_chain_def s1_def)
  have "on_txn (\<lambda>t. insertBlock e t bl h) (s\<lparr>cs_stats := (cs_stats s)\<lparr>Tips := ?tips\<rparr>\<rparr>) = (s1, None)"
    by (simp add: on_txn_def insertBlock_def kvPut_eq s1_def)
  then have "addAltchainBlock e now bl h s = (case CheckReorgs e now s1 of None \<Rightarrow> None | Some (r, _) \<Rightarrow> Some r)"
    by (simp add: addAltchainBlock_def)
  then show ?thesis
    using CheckReorgs_ok [OF nc1, of now] t by (fastforce simp: s1_def)
qed

end

lemma checkBlock_facts:
  assumes "checkBlock e t bl prevBl stats = Inr ()"
  shows "Height bl = Height prevBl + 1" "Timestamp prevBl \<le> Timestamp bl"
    "GetNextDifficulty e t prevBl = Inr (Difficulty bl)"
    "\<exists>c. ContributionToCumulativeDiff bl = Inr c \<and>
       val128 (bl_CumulativeDiff bl) = val128 (bl_CumulativeDiff prevBl) + val128 c"
  using assms
  by (auto simp: checkBlock_def outcome_iffs err_if_def U128_Equals_def U128_Add_val val128_of128
      split: if_splits)

text \<open>What the rest of the node relies on: the statistics in the store describe the main chain.\<close>

definition node_inv :: "('t, 'x) ext_scheme \<Rightarrow> 't node \<Rightarrow> Stats \<Rightarrow> hash list \<Rightarrow> bool" where
  "node_inv e n stats cs \<longleftrightarrow>
     GetStats e (nd_txn n) = Inr stats \<and> node_chain e (nd_txn n) stats cs \<and> heaviest stats"

text \<open>What an accepted block does to the chain: the first block stays, the top never gets lighter, and a
  block on top of the chain is appended to it.\<close>

definition extends_chain :: "Block \<Rightarrow> hash \<Rightarrow> Stats \<Rightarrow> hash list \<Rightarrow> Stats \<Rightarrow> hash list \<Rightarrow> bool" where
  "extends_chain bl h stats cs stats' cs' \<longleftrightarrow> hd cs' = hd cs \<and>
     val128 (CumulativeDiff stats) \<le> val128 (CumulativeDiff stats') \<and>
     (PrevHash bl = last cs \<longrightarrow> cs' = cs @ [h] \<and> TopHeight stats' = Height bl)"

lemma node_chain_same: "same_chain e t t' \<Longrightarrow> node_chain e t' stats cs = node_chain e t stats cs"
  by (simp add: node_chain_def main_chain_same blocks_ok_same tips_ok_def tip_stored_def same_chain_reads)

context adb_txn
begin

lemma setStats_close:
  assumes "node_chain e (cs_txn s) (cs_stats s) cs" "heaviest (cs_stats s)"
  shows "\<exists>s'. on_txn (\<lambda>t. setStatsNoBroadcast e t (cs_stats s)) s = (s', None) \<and>
    node_inv e (close_node n s') (cs_stats s) cs \<and> (\<forall>x. GetBlock e (cs_txn s') x = GetBlock e (cs_txn s) x)"
proof -
  let ?t = "fst (setStatsNoBroadcast e (cs_txn s) (cs_stats s))"
  have "same_chain e (cs_txn s) ?t" by (simp add: same_chain_def setStatsNoBroadcast_def kvPut_eq)
  moreover have "on_txn (\<lambda>t. setStatsNoBroadcast e t (cs_stats s)) s = (s\<lparr>cs_txn := ?t\<rparr>, None)"
    by (simp add: on_txn_def setStatsNoBroadcast_def kvPut_eq)
  ultimately show ?thesis
    using assms by (intro exI [of _ "s\<lparr>cs_txn := ?t\<rparr>"])
      (simp add: node_inv_def close_node_def GetStats_setStats node_chain_same same_chain_reads)
qed

lemma checked_block_ok:
  assumes nc: "node_chain e (cs_txn s) (cs_stats s) cs" "heaviest (cs_stats s)" and add: "addable e (cs_txn s) bl h"
    and p: "GetBlock e (cs_txn s) (PrevHash bl) = Inr p" "val128 (bl_CumulativeDiff p) \<le> val128 (bl_CumulativeDiff bl)"
  shows "\<exists>s' err. (if PrevHash bl = TopHash (cs_stats s) then Some (addMainchainBlock e now bl h s)
      else addAltchainBlock e now bl h s) = Some (s', err) \<and>
    (err = None \<longrightarrow> (\<forall>x. GetBlock e (cs_txn s') x = (if x = h then Inr bl else GetBlock e (cs_txn s) x)) \<and>
      (\<exists>cs'. node_chain e (cs_txn s') (cs_stats s') cs' \<and> heaviest (cs_stats s') \<and>
         extends_chain bl h (cs_stats s) cs (cs_stats s') cs'))"
proof (cases "PrevHash bl = TopHash (cs_stats s)")
  case True
  obtain s' err where r: "addMainchainBlock e now bl h s = (s', err)" by fastforce
  have top: "last cs = TopHash (cs_stats s)" "bl_CumulativeDiff p = CumulativeDiff (cs_stats s)"
    using nc(1) p(1) True by (auto simp: node_chain_def)
  have "(\<forall>x. GetBlock e (cs_txn s') x = (if x = h then Inr bl else GetBlock e (cs_txn s) x)) \<and>
      (\<exists>cs'. node_chain e (cs_txn s') (cs_stats s') cs' \<and> heaviest (cs_stats s') \<and>
         extends_chain bl h (cs_stats s) cs (cs_stats s') cs')" if "err = None"
  proof -
    have m: "node_chain e (cs_txn s') (cs_stats s') (cs @ [h])"
      "CumulativeDiff (cs_stats s') = bl_CumulativeDiff bl" "TopHeight (cs_stats s') = Height bl"
      "Tips (cs_stats s') = Tips (cs_stats s)"
      "\<And>x. GetBlock e (cs_txn s') x = (if x = h then Inr bl else GetBlock e (cs_txn s) x)"
      using addMainchainBlock_ok [OF nc(1) add True, of now s'] r that by simp_all
    have "heaviest (cs_stats s')"
      using nc(2) p(2) m(2,4) top(2) by (auto simp: heaviest_def)
    moreover have "cs \<noteq> []" using nc(1) by (simp add: node_chain_def main_chain_def)
    ultimately show ?thesis
      using m p(2) top(2) by (intro conjI exI [of _ "cs @ [h]"]) (simp_all add: extends_chain_def)
  qed
  then show ?thesis using True r by simp
next
  case False
  moreover have "last cs \<noteq> PrevHash bl" using False nc(1) by (simp add: node_chain_def)
  ultimately show ?thesis
    using addAltchainBlock_ok [OF nc(1) add, of now] by (auto simp: extends_chain_def)
qed

text \<open>\<open>AddBlock\<close> ends on every block; when it accepts the block, the statistics again describe a main
  chain from the same first block, no tip is heavier, and the top has not become lighter.\<close>

lemma AddBlock_ok:
  assumes inv: "node_inv e n stats cs"
    and bl: "block_wf bl" "h = Block_Hash e bl" "h \<noteq> 0" "Height bl \<noteq> 0"
  shows "\<exists>n' err. AddBlock e now bl h n = Some (n', err) \<and>
    (err = None \<longrightarrow> (\<forall>x. GetBlock e (nd_txn n') x = (if x = h then Inr bl else GetBlock e (nd_txn n) x)) \<and>
      (\<exists>p. GetBlock e (nd_txn n) (PrevHash bl) = Inr p \<and> Height bl = Height p + 1) \<and>
      (\<exists>stats' cs'. node_inv e n' stats' cs' \<and> extends_chain bl h stats cs stats' cs'))"
proof -
  have st: "GetStats e (nd_txn n) = Inr stats" and nc: "node_chain e (nd_txn n) stats cs" and hv: "heaviest stats"
    using inv by (simp_all add: node_inv_def)
  show ?thesis
  proof (cases "(\<exists>b. GetBlock e (nd_txn n) h = Inr b) \<or> (\<exists>err. GetBlock e (nd_txn n) (PrevHash bl) = Inl err) \<or>
      (\<exists>m. GetBlock e (nd_txn n) h = Inl (Panic m))")
    case True
    then show ?thesis using st by (auto simp: AddBlock_def split: sum.split error.split)
  next
    case False
    then obtain m p where new: "GetBlock e (nd_txn n) h = Inl (Err m)"
      and p: "GetBlock e (nd_txn n) (PrevHash bl) = Inr p"
      by (metis error.exhaust sumE)
    show ?thesis
    proof (cases "checkBlock e (nd_txn n) bl p stats")
      case (Inl err)
      then show ?thesis using st new p by (simp add: AddBlock_def)
    next
      case (Inr u)
      then have chk: "checkBlock e (nd_txn n) bl p stats = Inr ()" by simp
      note facts = checkBlock_facts [OF chk]
      define s where "s = open_node stats n"
      have s: "cs_txn s = nd_txn n" "cs_stats s = stats" by (simp_all add: s_def open_node_def)
      have add: "addable e (cs_txn s) bl h" using bl new p facts(1) by (simp add: addable_def s)
      have le: "val128 (bl_CumulativeDiff p) \<le> val128 (bl_CumulativeDiff bl)" using facts(4) by auto
      obtain s' err where r: "(if PrevHash bl = TopHash stats then Some (addMainchainBlock e now bl h s)
          else addAltchainBlock e now bl h s) = Some (s', err)"
        and post: "err = None \<longrightarrow> (\<forall>x. GetBlock e (cs_txn s') x = (if x = h then Inr bl else GetBlock e (nd_txn n) x)) \<and>
          (\<exists>cs'. node_chain e (cs_txn s') (cs_stats s') cs' \<and> heaviest (cs_stats s') \<and>
             extends_chain bl h stats cs (cs_stats s') cs')"
        using checked_block_ok [of s cs bl h p now, unfolded s, OF nc hv add [unfolded s] p le] by blast
      have run: "AddBlock e now bl h n = Some (let (s, err) =
          and_then (s', err) (\<lambda>s. on_txn (\<lambda>t. setStatsNoBroadcast e t (cs_stats s)) s) in (close_node n s, err))"
        using st new p chk r by (simp add: AddBlock_def flip: s_def)
      show ?thesis
      proof (cases err)
        case None
        then obtain cs' where cs': "node_chain e (cs_txn s') (cs_stats s') cs'" "heaviest (cs_stats s')"
          "extends_chain bl h stats cs (cs_stats s') cs'" using post by blast
        obtain s2 where s2: "on_txn (\<lambda>t. setStatsNoBroadcast e t (cs_stats s')) s' = (s2, None)"
          "node_inv e (close_node n s2) (cs_stats s') cs'" "\<forall>x. GetBlock e (cs_txn s2) x = GetBlock e (cs_txn s') x"
          using setStats_close [OF cs'(1,2)] by blast
        have "AddBlock e now bl h n = Some (close_node n s2, None)" using run None s2(1) by simp
        moreover have "\<forall>x. GetBlock e (nd_txn (close_node n s2)) x = (if x = h then Inr bl else GetBlock e (nd_txn n) x)"
          using post None s2(3) by (simp add: close_node_def)
        ultimately show ?thesis using s2(2) cs'(3) p facts(1) by blast
      qed (use run in simp)
    qed
  qed
qed

end

end
