(* ===== verification/MempoolCheck.thy ===== *)
theory MempoolCheck
  imports Ledger "HOL-Library.AList"
begin

text \<open>
  The mempool, \<^verbatim>\<open>src/blockchain/bc-txn.go\<close>: \<open>validateMempoolTx\<close> simulates the transactions that are
  waiting on copies of the states and delegates they touch and then checks the new transaction against
  them; \<open>AddTransaction\<close> stores a transaction and, when it comes from a peer or a wallet, puts it into the
  mempool. The two maps of the simulation are maps; the delegates in them are objects that the code
  changes in place and stores again.
\<close>

section \<open>The simulation\<close>

record sim =
  sim_states :: "address \<rightharpoonup> State"
  sim_delegates :: "u64 \<rightharpoonup> Delegate"

text \<open>An address that is not in the state counts as an empty state.\<close>

definition load_state :: "('t, 'x) ext_scheme \<Rightarrow> 't \<Rightarrow> address \<Rightarrow> State res" where
  "load_state e txn addr =
     (case GetState e txn addr of
        Inr st \<Rightarrow> Inr st
      | Inl err \<Rightarrow> if err = Err ''not in state'' then Inr State_zero else Inl err)"

fun load_states :: "('t, 'x) ext_scheme \<Rightarrow> 't \<Rightarrow> address list \<Rightarrow> (address \<rightharpoonup> State) res" where
  "load_states e txn [] = Inr (\<lambda>_. None)"
| "load_states e txn (a # as) =
     res_bind (load_state e txn a) (\<lambda>st. res_bind (load_states e txn as) (\<lambda>m. Inr (m(a \<mapsto> st))))"

definition getOrLoadDelegate ::
  "('t, 'x) ext_scheme \<Rightarrow> 't \<Rightarrow> u64 \<Rightarrow> (u64 \<rightharpoonup> Delegate) \<Rightarrow> Delegate res" where
  "getOrLoadDelegate e txn did simulatedDelegates =
     (case simulatedDelegates did of Some d \<Rightarrow> Inr d | None \<Rightarrow> GetDelegate e txn did)"

fun sim_inputs :: "StateInput list \<Rightarrow> (address \<rightharpoonup> State) \<Rightarrow> (address \<rightharpoonup> State) res" where
  "sim_inputs [] m = Inr m"
| "sim_inputs (inp # inps) m =
     (case m (si_Sender inp) of
        None \<Rightarrow> sim_inputs inps m
      | Some st \<Rightarrow>
          if Balance st < si_Amount inp then Inl (Err ''insufficient balance in previous entry'')
          else sim_inputs inps (m(si_Sender inp \<mapsto> st\<lparr>Balance := Balance st - si_Amount inp\<rparr>)))"

fun sim_outputs :: "Output list \<Rightarrow> (address \<rightharpoonup> State) \<Rightarrow> (address \<rightharpoonup> State)" where
  "sim_outputs [] m = m"
| "sim_outputs (out # outs) m =
     (case m (Recipient out) of
        None \<Rightarrow> sim_outputs outs m
      | Some st \<Rightarrow> sim_outputs outs (m(Recipient out \<mapsto>
          st\<lparr>Balance := Balance st + Amount out, LastIncoming := LastIncoming st + 1\<rparr>)))"

text \<open>The first fund of the owner, and whether there was one.\<close>

fun sim_stake :: "address \<Rightarrow> u64 \<Rightarrow> u64 \<Rightarrow> u64 \<Rightarrow> DelegatedFund list \<Rightarrow> (DelegatedFund list \<times> bool) res" where
  "sim_stake owner amount prevUnlock nextheight [] = Inr ([], False)"
| "sim_stake owner amount prevUnlock nextheight (fund # fs) =
     (if df_Owner fund = owner then
        if df_Unlock fund \<noteq> prevUnlock
        then Inl (Err ''stake transaction PrevUnlock does not match fund unlock'')
        else res_bind (SafeAdd (df_Amount fund) amount) (\<lambda>a.
               Inr (fund\<lparr>df_Amount := a, df_Unlock := nextheight + STAKE_UNLOCK_TIME\<rparr> # fs, True))
      else res_bind (sim_stake owner amount prevUnlock nextheight fs) (\<lambda>(fs, found). Inr (fund # fs, found)))"

fun sim_unstake :: "address \<Rightarrow> u64 \<Rightarrow> DelegatedFund list \<Rightarrow> DelegatedFund list res" where
  "sim_unstake owner amount [] = Inl (Err ''no stake found in previous entry'')"
| "sim_unstake owner amount (fund # fs) =
     (if df_Owner fund = owner then
        if df_Amount fund < amount then Inl (Err ''insufficient stake in previous entry'')
        else Inr (fund\<lparr>df_Amount := df_Amount fund - amount\<rparr> # fs)
      else res_bind (sim_unstake owner amount fs) (\<lambda>fs. Inr (fund # fs)))"

definition sim_set_delegate :: "u64 \<Rightarrow> Delegate \<Rightarrow> sim \<Rightarrow> sim" where
  "sim_set_delegate did d m = m\<lparr>sim_delegates := (sim_delegates m)(did \<mapsto> d)\<rparr>"

text \<open>The part of an entry that depends on its kind. The fund of a new staker gets the signer of the
  transaction that is checked, not of the entry, as its owner; the same signer's delegate is changed by an
  entry that sets a delegate.\<close>

definition sim_kind :: "('t, 'x) ext_scheme \<Rightarrow> 't \<Rightarrow> address \<Rightarrow> u64 \<Rightarrow> u64 \<Rightarrow> MempoolEntry \<Rightarrow> sim \<Rightarrow> sim res" where
  "sim_kind e txn signer topHeight nextheight entry m =
     (if me_TxVersion entry \<in> {TX_VERSION_REGISTER_DELEGATE, TX_VERSION_STAKE, TX_VERSION_UNSTAKE, TX_VERSION_SET_DELEGATE}
      then res_bind (GetTx e txn (me_TXID entry) topHeight) (\<lambda>(tx, _).
        if me_TxVersion entry = TX_VERSION_REGISTER_DELEGATE then
          (case tx_Data tx of
             RegisterDelegate name did \<Rightarrow>
               Inr (sim_set_delegate did \<lparr>d_Id = did, d_Owner = 0, d_Name = name, d_Funds = []\<rparr> m)
           | _ \<Rightarrow> Inl wrong_kind)
        else if me_TxVersion entry = TX_VERSION_STAKE then
          (case tx_Data tx of
             Stake amount did prevUnlock \<Rightarrow>
               res_bind (getOrLoadDelegate e txn did (sim_delegates m)) (\<lambda>delegate.
               res_bind (sim_stake (me_Signer entry) amount prevUnlock nextheight (d_Funds delegate)) (\<lambda>(funds, found).
                 let funds = (if found then funds
                              else funds @ [\<lparr>df_Owner = signer, df_Amount = amount,
                                             df_Unlock = nextheight + STAKE_UNLOCK_TIME\<rparr>])
                 in Inr (sim_set_delegate did (delegate\<lparr>d_Funds := funds\<rparr>) m)))
           | _ \<Rightarrow> Inl wrong_kind)
        else if me_TxVersion entry = TX_VERSION_UNSTAKE then
          (case tx_Data tx of
             Unstake amount did \<Rightarrow>
               res_bind (getOrLoadDelegate e txn did (sim_delegates m)) (\<lambda>delegate.
               res_bind (sim_unstake (me_Signer entry) amount (d_Funds delegate)) (\<lambda>funds.
                 Inr (sim_set_delegate did (delegate\<lparr>d_Funds := funds\<rparr>) m)))
           | _ \<Rightarrow> Inl wrong_kind)
        else
          (case tx_Data tx of
             SetDelegate did prev \<Rightarrow>
               (case sim_states m signer of
                  None \<Rightarrow> Inl (Panic ''nil pointer dereference'')
                | Some st \<Rightarrow>
                    if prev \<noteq> st_DelegateId st
                    then Inl (Err ''set delegate transaction has invalid PreviousDelegate'')
                    else Inr (m\<lparr>sim_states := (sim_states m)(signer \<mapsto> st\<lparr>st_DelegateId := did\<rparr>)\<rparr>))
           | _ \<Rightarrow> Inl wrong_kind))
      else Inr m)"

definition sim_entry :: "('t, 'x) ext_scheme \<Rightarrow> 't \<Rightarrow> hash \<Rightarrow> address \<Rightarrow> u64 \<Rightarrow> MempoolEntry \<Rightarrow> sim \<Rightarrow> sim res" where
  "sim_entry e txn h signer nextheight entry m =
     (if me_TXID entry = h then Inl (Err ''previousEntries contains the transaction'')
      else
        let states = (case sim_states m (me_Signer entry) of
              None \<Rightarrow> sim_states m
            | Some st \<Rightarrow> (sim_states m)(me_Signer entry \<mapsto> st\<lparr>LastNonce := LastNonce st + 1\<rparr>))
        in res_bind (sim_inputs (me_Inputs entry) states) (\<lambda>states.
             let m = m\<lparr>sim_states := sim_outputs (me_Outputs entry) states\<rparr>
             in res_bind (GetStats e txn) (\<lambda>stats.
                  sim_kind e txn signer (TopHeight stats) nextheight entry m)))"

fun sim_entries :: "('t, 'x) ext_scheme \<Rightarrow> 't \<Rightarrow> hash \<Rightarrow> address \<Rightarrow> u64 \<Rightarrow> MempoolEntry list \<Rightarrow> sim \<Rightarrow> sim res"
where
  "sim_entries e txn h signer nextheight [] m = Inr m"
| "sim_entries e txn h signer nextheight (entry # es) m =
     res_bind (sim_entry e txn h signer nextheight entry m) (sim_entries e txn h signer nextheight es)"

section \<open>The checks\<close>

definition require :: "bool \<Rightarrow> string \<Rightarrow> unit res" where
  "require b m = (if b then Inr () else Inl (Err m))"

fun check_inputs :: "StateInput list \<Rightarrow> (address \<rightharpoonup> State) \<Rightarrow> unit res" where
  "check_inputs [] m = Inr ()"
| "check_inputs (inp # inps) m =
     (case m (si_Sender inp) of
        None \<Rightarrow> Inl (Err ''input sender state not found in simulated states'')
      | Some st \<Rightarrow> if Balance st < si_Amount inp then Inl (Err ''insufficient balance'')
                   else check_inputs inps m)"

definition own_fund :: "address \<Rightarrow> Delegate \<Rightarrow> DelegatedFund option" where
  "own_fund signer d = find (\<lambda>f. df_Owner f = signer) (d_Funds d)"

definition check_stake_tx :: "('t, 'x) ext_scheme \<Rightarrow> 't \<Rightarrow> TransactionData \<Rightarrow> address \<Rightarrow> State \<Rightarrow> sim \<Rightarrow> unit res" where
  "check_stake_tx e txn data signer signerState m =
     (case data of
        Stake amount did prevUnlock \<Rightarrow>
          res_bind (getOrLoadDelegate e txn did (sim_delegates m)) (\<lambda>delegate.
          res_bind (require (case own_fund signer delegate of None \<Rightarrow> True | Some f \<Rightarrow> df_Unlock f = prevUnlock)
            ''stake transaction PrevUnlock does not match fund unlock'') (\<lambda>_.
            require (st_DelegateId signerState = did) ''signer delegate ID does not match stake delegate ID''))
      | _ \<Rightarrow> Inl wrong_kind)"

definition check_unstake_tx ::
  "('t, 'x) ext_scheme \<Rightarrow> 't \<Rightarrow> TransactionData \<Rightarrow> address \<Rightarrow> State \<Rightarrow> u64 \<Rightarrow> sim \<Rightarrow> unit res" where
  "check_unstake_tx e txn data signer signerState nextheight m =
     (case data of
        Unstake amount did \<Rightarrow>
          res_bind (getOrLoadDelegate e txn did (sim_delegates m)) (\<lambda>delegate.
          res_bind (require (st_DelegateId signerState = did)
            ''signer delegate ID does not match unstake delegate ID'') (\<lambda>_.
            let (stakedAmount, unlockHeight) =
                  (case own_fund signer delegate of None \<Rightarrow> (0, 0) | Some f \<Rightarrow> (df_Amount f, df_Unlock f))
            in if stakedAmount = 0 \<and> unlockHeight = 0 then Inl (Err ''no such stake in the delegate funds'')
               else if unlockHeight > nextheight then Inl (Err ''unlock height'')
               else require (\<not> stakedAmount < amount) ''insufficient stake''))
      | _ \<Rightarrow> Inl wrong_kind)"

definition check_register_tx :: "('t, 'x) ext_scheme \<Rightarrow> 't \<Rightarrow> TransactionData \<Rightarrow> sim \<Rightarrow> unit res" where
  "check_register_tx e txn data m =
     (case data of
        RegisterDelegate name did \<Rightarrow>
          (case getOrLoadDelegate e txn did (sim_delegates m) of
             Inr _ \<Rightarrow> Inl (Err ''delegate is already registered'')
           | Inl (Panic p) \<Rightarrow> Inl (Panic p)
           | Inl (Err _) \<Rightarrow> Inr ())
      | _ \<Rightarrow> Inl wrong_kind)"

definition check_set_delegate_tx ::
  "('t, 'x) ext_scheme \<Rightarrow> 't \<Rightarrow> TransactionData \<Rightarrow> address \<Rightarrow> State \<Rightarrow> sim \<Rightarrow> unit res" where
  "check_set_delegate_tx e txn data signer signerState m =
     (case data of
        SetDelegate did prev \<Rightarrow>
          if prev \<noteq> st_DelegateId signerState
          then Inl (Err ''set delegate transaction has invalid PreviousDelegate'')
          else (case getOrLoadDelegate e txn prev (sim_delegates m) of
                  Inl (Panic p) \<Rightarrow> Inl (Panic p)
                | r \<Rightarrow>
                    if (case r of Inr prevDelegate \<Rightarrow> own_fund signer prevDelegate \<noteq> None | Inl _ \<Rightarrow> False)
                    then Inl (Err ''all funds must be unstaked before delegate can be changed'')
                    else res_bind (getOrLoadDelegate e txn did (sim_delegates m)) (\<lambda>_. Inr ()))
      | _ \<Rightarrow> Inl wrong_kind)"

definition only_if :: "bool \<Rightarrow> unit res \<Rightarrow> unit res" where
  "only_if b r = (if b then r else Inr ())"

definition validateMempoolTx ::
  "('t, 'x) ext_scheme \<Rightarrow> 't \<Rightarrow> Transaction \<Rightarrow> hash \<Rightarrow> MempoolEntry list \<Rightarrow> u64 \<Rightarrow> unit res" where
  "validateMempoolTx e txn tx h previousEntries nextheight =
     (let minFee = FEE_PER_BYTE_V2 * GetVirtualSize tx; signer = FromPubKey e (tx_Signer tx)
      in if tx_Fee tx < minFee then Inl (Err ''invalid tx fee'')
         else res_bind (Tx_TotalAmount tx) (\<lambda>_.
           let inputs = StateInputs e (tx_Data tx) tx signer
           in res_bind (StateOutputs (tx_Data tx) tx signer) (\<lambda>outputs.
             let totalInputs = foldl (\<lambda>s inp. s + si_Amount inp) 0 inputs;
                 totalOutputs = foldl (\<lambda>s out. s + so_Amount out) 0 outputs
             in if totalInputs \<noteq> totalOutputs + tx_Fee tx
                then Inl (Err ''input sum does not match output sum + fee'')
                else res_bind (load_states e txn (signer # map si_Sender inputs @ map so_Recipient outputs)) (\<lambda>states.
                  res_bind (sim_entries e txn h signer nextheight previousEntries
                              \<lparr>sim_states = states, sim_delegates = (\<lambda>_. None)\<rparr>) (\<lambda>m.
                    case sim_states m signer of
                      None \<Rightarrow> Inl (Panic ''nil pointer dereference'')
                    | Some signerState \<Rightarrow>
                        if tx_Nonce tx \<noteq> LastNonce signerState + 1 then Inl (Err ''invalid nonce'')
                        else res_bind (check_inputs inputs (sim_states m)) (\<lambda>_.
                             res_bind (only_if (tx_Version tx = TX_VERSION_STAKE)
                                         (check_stake_tx e txn (tx_Data tx) signer signerState m)) (\<lambda>_.
                             res_bind (only_if (tx_Version tx = TX_VERSION_UNSTAKE)
                                         (check_unstake_tx e txn (tx_Data tx) signer signerState nextheight m)) (\<lambda>_.
                             res_bind (only_if (tx_Version tx = TX_VERSION_REGISTER_DELEGATE)
                                         (check_register_tx e txn (tx_Data tx) m)) (\<lambda>_.
                               only_if (tx_Version tx = TX_VERSION_SET_DELEGATE)
                                 (check_set_delegate_tx e txn (tx_Data tx) signer signerState m)))))))))) "

section \<open>Adding a transaction\<close>

text \<open>The thread that sends the transaction to the peers is left out.\<close>

definition AddTransaction ::
  "('t, 'x) ext_scheme \<Rightarrow> int \<Rightarrow> Transaction \<Rightarrow> hash \<Rightarrow> bool \<Rightarrow> u64 \<Rightarrow> 't \<Rightarrow> 't outcome" where
  "AddTransaction e now tx h mempool height txn =
     (if kvGet e txn IdxTx (arr_bytes h) \<noteq> None then (txn, None)
      else if mempool then
        with_res (GetMempool e txn) txn (\<lambda>mem.
        with_res (validateMempoolTx e txn tx h mem height) txn (\<lambda>_.
        and_then (SetTx e txn tx h 0) (\<lambda>txn.
          if GetEntry mem h \<noteq> None then (txn, Some (Err ''transaction already in mempool''))
          else with_res (mempool_entry e now tx h) txn (\<lambda>en. SetMempool e now txn (mem @ [en])))))
      else SetTx e txn tx h 0)"

section \<open>What the checks guarantee\<close>

lemma load_states_get:
  "load_states e txn as = Inr m \<Longrightarrow> a \<in> set as \<Longrightarrow> \<exists>st. load_state e txn a = Inr st \<and> m a = Some st"
  by (induction as arbitrary: m) (auto simp: outcome_iffs)

lemma validate_empty_pool:
  assumes "validateMempoolTx e t tx h [] nextheight = Inr ()"
  obtains outs m st where "FEE_PER_BYTE_V2 * GetVirtualSize tx \<le> tx_Fee tx"
    "StateOutputs (tx_Data tx) tx (FromPubKey e (tx_Signer tx)) = Inr outs"
    "load_states e t (FromPubKey e (tx_Signer tx) # map si_Sender (StateInputs e (tx_Data tx) tx (FromPubKey e (tx_Signer tx))) @
       map so_Recipient outs) = Inr m"
    "m (FromPubKey e (tx_Signer tx)) = Some st" "tx_Nonce tx = LastNonce st + 1"
    "check_inputs (StateInputs e (tx_Data tx) tx (FromPubKey e (tx_Signer tx))) m = Inr ()"
    "tx_Version tx = TX_VERSION_REGISTER_DELEGATE \<longrightarrow>
       check_register_tx e t (tx_Data tx) \<lparr>sim_states = m, sim_delegates = (\<lambda>_. None)\<rparr> = Inr ()"
    "tx_Version tx = TX_VERSION_SET_DELEGATE \<longrightarrow>
       check_set_delegate_tx e t (tx_Data tx) (FromPubKey e (tx_Signer tx)) st
         \<lparr>sim_states = m, sim_delegates = (\<lambda>_. None)\<rparr> = Inr ()"
  using assms unfolding validateMempoolTx_def Let_def only_if_def
  by (auto simp: outcome_iffs not_less split: if_splits option.splits)

lemma vsize_positive: "Data_Prevalidate (tx_Data tx) tx = None \<Longrightarrow> 0 < unat (GetVirtualSize tx)"
proof (cases "tx_Data tx")
  case (Transfer outs)
  assume "Data_Prevalidate (tx_Data tx) tx = None"
  then have n: "length outs \<le> 32" using Transfer by (simp add: config_defs split: if_splits)
  then have "unat (word_of_nat (length outs) * 24 :: u64) = length outs * 24"
    by (subst unat_mult64) (simp_all add: unat_of_nat64)
  then have "unat (99 + word_of_nat (length outs) * 24 :: u64) = 99 + length outs * 24"
    using n by (subst unat_add64) simp_all
  then show ?thesis
    by (simp add: GetVirtualSize_def base_overhead_def Transfer output_overhead_def SIZE_def)
next
  case (RegisterDelegate name did)
  assume "Data_Prevalidate (tx_Data tx) tx = None"
  then have n: "length name \<le> 16" using RegisterDelegate by (simp split: if_splits)
  then have "unat (115 + word_of_nat (length name) :: u64) = 115 + length name"
    by (subst unat_add64) (simp_all add: unat_of_nat64)
  then show ?thesis by (simp add: GetVirtualSize_def base_overhead_def RegisterDelegate add.assoc [symmetric])
qed (simp_all add: GetVirtualSize_def base_overhead_def config_defs)

lemma fee_positive:
  assumes "Tx_Prevalidate c tx height = None"
  shows "0 < unat (tx_Fee tx)"
proof -
  define f :: u64 where "f = (if height \<ge> HARDFORK_V3_HEIGHT then FEE_PER_BYTE_V2 else FEE_PER_BYTE)"
  have a: "GetVirtualSize tx \<le> max_tx_size" "f * GetVirtualSize tx \<le> tx_Fee tx" "0 < unat (GetVirtualSize tx)"
    using assms vsize_positive [of tx] by (simp_all add: Tx_Prevalidate_None f_def)
  have f: "0 < unat f" "unat f \<le> 2000000" by (simp_all add: f_def config_defs)
  have "unat (GetVirtualSize tx) \<le> 2048" using a(1) by (simp add: word_le_nat_alt max_tx_size_def)
  then have "unat f * unat (GetVirtualSize tx) \<le> 2000000 * 2048" using f(2) by (intro mult_le_mono)
  then have "unat (f * GetVirtualSize tx) = unat f * unat (GetVirtualSize tx)"
    by (intro unat_mult64) simp
  then have "unat f * unat (GetVirtualSize tx) \<le> unat (tx_Fee tx)" using a(2) by (simp add: word_le_nat_alt)
  moreover have "0 < unat f * unat (GetVirtualSize tx)" using a(3) f(1) by simp
  ultimately show ?thesis by linarith
qed

context adb_txn
begin

text \<open>Paying the outputs of a transaction never panics.\<close>

lemma outputs_no_panic:
  assumes "\<forall>out\<in>set outs. so_Type out \<noteq> OUT_COINBASE_POS"
  shows "snd (ApplyTxOutputsToState e bh outs txid s) \<noteq> Some (Panic m)"
  using assms
proof (induction outs arbitrary: s)
  case (Cons out outs)
  then show ?case
    by (auto simp: Let_def SafeAdd_def on_txn_puts outcome_iffs split: if_splits)
qed simp

lemma ApplyTx_succeeds:
  assumes st: "GetState e (cs_txn s) a = Inr st" "tx_Nonce tx = LastNonce st + 1"
    and kind: "tx_Version tx \<noteq> TX_VERSION_STAKE" "tx_Version tx \<noteq> TX_VERSION_UNSTAKE"
    and reg: "apply_register_tx e tx s = (s1, None)" and set: "set_delegate_tx e tx st a (cs_txn s1) = Inr st2"
    and inp: "StateInputs e (tx_Data tx) tx a = [inp]" "si_Sender inp = a" "si_Amount inp \<le> Balance st"
    and outs: "StateOutputs (tx_Data tx) tx a = Inr outs"
    and stored: "kvGet e (cs_txn s) IdxTx (arr_bytes txid) = Some b" "8 \<le> length b"
  shows "\<exists>s'. ApplyTxToState e tx a bl bh txid s = (s', None)"
proof -
  have parts: "apply_stake_tx e tx st a txid s = (s, None)" "apply_unstake_tx e tx st a s = (s, None)"
    using kind by (simp_all add: apply_stake_tx_def apply_unstake_tx_def)
  let ?st2 = "st2\<lparr>LastNonce := LastNonce st2 + 1\<rparr>"
  define s2 where "s2 = s1\<lparr>cs_txn := kv_put e (cs_txn s1) IdxState (arr_bytes a) (State_Serialize ?st2)\<rparr>"
  have "Balance ?st2 = Balance st" using set_delegate_tx_keeps [OF set] by simp
  then have "\<not> Balance ?st2 < si_Amount inp" using inp(3) by simp
  then obtain s3 where s3: "apply_inputs e [inp] s2 = (s3, None)"
    using inp(2) by (auto simp: s2_def on_txn_puts)
  obtain s4 err where s4: "drop_err (ApplyTxOutputsToState e bh outs txid s3) = (s4, err)" by fastforce
  have "err = None"
    using s4 outputs_no_panic [OF StateOutputs_no_pos [OF outs], of bh txid s3]
    by (cases "ApplyTxOutputsToState e bh outs txid s3" rule: drop_err.cases) auto
  let ?I = "{IdxState, IdxInTx, IdxOutTx, IdxDelegate, IdxDelegateHistory}"
  have "writes e ?I s (s1, None)" "writes e ?I s1 (s2, None)" "writes e ?I s2 (s3, None)" "writes e ?I s3 (s4, err)"
    by (auto intro!: frame_intros simp flip: reg s3 s4) (simp add: writes_def s2_def)
  then have "writes e ?I s (s4, err)" by (meson writes_trans)
  then have "kvGet e (cs_txn s4) IdxTx (arr_bytes txid) = Some b"
    using stored(1) by (simp add: writes_def only_writes_def)
  then obtain s' where last: "and_then (on_txn (\<lambda>t. SetTxTopoOut e t txid a (LastNonce ?st2)) s4)
      (\<lambda>s. on_txn (\<lambda>t. SetTxHeight e t txid (Height bl)) s) = (s', None)"
    using stored(2) by (auto simp: on_txn_puts SetTxHeight_def on_txn_def kvPut_eq)
  have "on_txn (\<lambda>t. SetState e t a ?st2) s1 = (s2, None)" by (simp add: s2_def on_txn_puts)
  then have "ApplyTxToState e tx a bl bh txid s = (s', None)"
    using st parts reg set inp(1) outs s3 s4 \<open>err = None\<close> last
    by (simp add: ApplyTxToState_def Let_def del: apply_inputs.simps)
  then show ?thesis ..
qed

text \<open>A transaction that the empty mempool accepts can be applied next, unless it stakes or unstakes.\<close>

lemma validated_applies:
  assumes ok: "validateMempoolTx e (cs_txn s) tx h [] nextheight = Inr ()" "Tx_Prevalidate e tx height = None"
    and kind: "tx_matches tx" "tx_Version tx \<noteq> TX_VERSION_STAKE" "tx_Version tx \<noteq> TX_VERSION_UNSTAKE"
    and stored: "kvGet e (cs_txn s) IdxTx (arr_bytes h) = Some b" "8 \<le> length b"
  shows "\<exists>s'. ApplyTxToState e tx (FromPubKey e (tx_Signer tx)) bl bh h s = (s', None)"
proof -
  let ?a = "FromPubKey e (tx_Signer tx)"
  from ok(1) obtain outs m st where v: "FEE_PER_BYTE_V2 * GetVirtualSize tx \<le> tx_Fee tx"
    "StateOutputs (tx_Data tx) tx ?a = Inr outs"
    "load_states e (cs_txn s) (?a # map si_Sender (StateInputs e (tx_Data tx) tx ?a) @ map so_Recipient outs) = Inr m"
    "m ?a = Some st" "tx_Nonce tx = LastNonce st + 1"
    "check_inputs (StateInputs e (tx_Data tx) tx ?a) m = Inr ()"
    and reg: "tx_Version tx = TX_VERSION_REGISTER_DELEGATE \<longrightarrow>
       check_register_tx e (cs_txn s) (tx_Data tx) \<lparr>sim_states = m, sim_delegates = (\<lambda>_. None)\<rparr> = Inr ()"
    and set: "tx_Version tx = TX_VERSION_SET_DELEGATE \<longrightarrow>
       check_set_delegate_tx e (cs_txn s) (tx_Data tx) ?a st \<lparr>sim_states = m, sim_delegates = (\<lambda>_. None)\<rparr> = Inr ()"
    by (rule validate_empty_pool)
  obtain inp where inp: "StateInputs e (tx_Data tx) tx ?a = [inp]" "si_Sender inp = ?a"
    using kind by (cases "tx_Data tx") (auto simp: tx_matches_def split: if_splits)
  obtain tot where tot: "Tx_TotalAmount tx = Inr tot" using ok(2) by (auto simp: Tx_Prevalidate_None)
  obtain os where "inputs_sum (StateInputs e (tx_Data tx) tx ?a) = unat tot" "outputs_sum os + unat (tx_Fee tx) = unat tot"
    using Tx_balanced [OF tot] by metis
  then have "unat (si_Amount inp) = outputs_sum os + unat (tx_Fee tx)" by (simp add: inp(1) inputs_sum_def)
  then have pos: "0 < unat (si_Amount inp)" using fee_positive [OF ok(2)] by linarith
  have bal: "si_Amount inp \<le> Balance st" using v(4,6) inp by (simp split: if_splits)
  then have "st \<noteq> State_zero" using pos by (auto simp: State_zero_def)
  then have st: "GetState e (cs_txn s) ?a = Inr st"
    using load_states_get [OF v(3), of ?a] v(4) by (auto simp: load_state_def split: sum.splits if_splits)
  obtain s1 where s1: "apply_register_tx e tx s = (s1, None)"
    and same: "tx_Version tx \<noteq> TX_VERSION_REGISTER_DELEGATE \<longrightarrow> s1 = s"
  proof (cases "tx_Version tx = TX_VERSION_REGISTER_DELEGATE")
    case True
    then obtain name did where "tx_Data tx = RegisterDelegate name did"
      using kind(1) by (cases "tx_Data tx") (auto simp: tx_matches_def tx_versions)
    then show thesis
      using True reg that by (auto simp: check_register_tx_def getOrLoadDelegate_def apply_register_tx_def
          bc_SetDelegate_def on_txn_def kvPut_eq split: sum.splits error.splits)
  qed (use that in \<open>simp add: apply_register_tx_def\<close>)
  obtain st2 where st2: "set_delegate_tx e tx st ?a (cs_txn s1) = Inr st2"
  proof (cases "tx_Version tx = TX_VERSION_SET_DELEGATE")
    case True
    then obtain did prev where d: "tx_Data tx = SetDelegate did prev"
      using kind(1) by (cases "tx_Data tx") (auto simp: tx_matches_def tx_versions)
    have "s1 = s" using True same by (simp add: tx_versions)
    have none: "find (\<lambda>f. df_Owner f = ?a) fs = None \<longleftrightarrow> \<not> list_ex (\<lambda>f. df_Owner f = ?a) fs" for fs
      by (auto simp: find_None_iff list_ex_iff)
    show thesis
      using set True d that unfolding \<open>s1 = s\<close>
      by (auto simp: check_set_delegate_tx_def getOrLoadDelegate_def set_delegate_tx_def own_fund_def outcome_iffs none
          split: sum.splits error.splits if_splits)
  qed (use that in \<open>simp add: set_delegate_tx_def\<close>)
  show ?thesis
    using ApplyTx_succeeds [OF st v(5) kind(2,3) s1 st2 inp bal v(2) stored] .
qed


text \<open>Storing the transaction does not change what was checked.\<close>

lemma load_states_cong: "(\<And>a. GetState e t' a = GetState e t a) \<Longrightarrow> load_states e t' as = load_states e t as"
  by (induction as) (simp_all add: load_state_def)

lemma validate_cong:
  assumes "only_writes e {IdxTx, IdxInfo} t t'"
  shows "validateMempoolTx e t' tx h [] n = validateMempoolTx e t tx h [] n"
proof -
  have st: "GetState e t' a = GetState e t a" and dg: "GetDelegate e t' did = GetDelegate e t did" for a did
    using assms only_writes_GetState only_writes_GetDelegate by blast+
  have ld: "getOrLoadDelegate e t' = getOrLoadDelegate e t"
    by (intro ext) (simp add: getOrLoadDelegate_def dg split: option.split)
  have "load_states e t' = load_states e t" using st by (intro ext load_states_cong)
  moreover have "sim_entries e t' h a n [] = sim_entries e t h a n []" for a by (rule ext) simp
  moreover have "check_stake_tx e t' = check_stake_tx e t" "check_unstake_tx e t' = check_unstake_tx e t"
    "check_register_tx e t' = check_register_tx e t" "check_set_delegate_tx e t' = check_set_delegate_tx e t"
    unfolding check_stake_tx_def check_unstake_tx_def check_register_tx_def check_set_delegate_tx_def ld by simp_all
  ultimately show ?thesis unfolding validateMempoolTx_def by (simp only:)
qed

lemma AddTransaction_parts:
  assumes "AddTransaction e now tx h True height t = (t', None)" "kvGet e t IdxTx (arr_bytes h) = None"
    "GetMempool e t = Inr mem"
  obtains en where "validateMempoolTx e t tx h mem height = Inr ()" "mempool_entry e now tx h = Inr en"
    "only_writes e {IdxTx, IdxInfo} t t'" "GetMempool e t' = Inr (Mempool_expire now (mem @ [en]))"
    "kvGet e t' IdxTx (arr_bytes h) = Some (AddUint64 0 @ AddFixedByteArray (Tx_Serialize tx))"
proof -
  let ?t1 = "kv_put e t IdxTx (arr_bytes h) (AddUint64 0 @ AddFixedByteArray (Tx_Serialize tx))"
  obtain en where en: "validateMempoolTx e t tx h mem height = Inr ()" "mempool_entry e now tx h = Inr en"
    "SetMempool e now ?t1 (mem @ [en]) = (t', None)"
    using assms by (auto simp: AddTransaction_def SetTx_def kvPut_eq outcome_iffs split: if_splits)
  have t': "t' = fst (SetMempool e now ?t1 (mem @ [en]))" using en(3) by simp
  have "only_writes e {IdxTx, IdxInfo} t t'"
    "kvGet e t' IdxTx (arr_bytes h) = Some (AddUint64 0 @ AddFixedByteArray (Tx_Serialize tx))"
    unfolding t' SetMempool_def kvPut_eq by (simp_all add: only_writes_def)
  moreover have "GetMempool e t' = Inr (Mempool_expire now (mem @ [en]))"
    unfolding t' by (rule GetMempool_SetMempool)
  ultimately show thesis using that en(1,2) by blast
qed

lemma accepted_applies:
  assumes "AddTransaction e now tx h True height (cs_txn s) = (t', None)"
    "kvGet e (cs_txn s) IdxTx (arr_bytes h) = None" "GetMempool e (cs_txn s) = Inr []"
    and "Tx_Prevalidate e tx height = None" "tx_matches tx"
    "tx_Version tx \<noteq> TX_VERSION_STAKE" "tx_Version tx \<noteq> TX_VERSION_UNSTAKE"
  shows "\<exists>s'. ApplyTxToState e tx (FromPubKey e (tx_Signer tx)) bl bh h (s\<lparr>cs_txn := t'\<rparr>) = (s', None)"
proof -
  obtain en where en: "validateMempoolTx e (cs_txn s) tx h [] height = Inr ()" "only_writes e {IdxTx, IdxInfo} (cs_txn s) t'"
    "kvGet e t' IdxTx (arr_bytes h) = Some (AddUint64 0 @ AddFixedByteArray (Tx_Serialize tx))"
    by (rule AddTransaction_parts [OF assms(1-3)])
  have "validateMempoolTx e (cs_txn (s\<lparr>cs_txn := t'\<rparr>)) tx h [] height = Inr ()"
    using validate_cong [OF en(2), of tx h height] en(1) by simp
  from validated_applies [OF this assms(4-7)] en(3) show ?thesis by (simp add: AddUint64_def)
qed

text \<open>Unstaking becomes possible one block later than the mempool thinks.\<close>

lemma unstake_rejected:
  assumes "tx_Version tx = TX_VERSION_UNSTAKE" "tx_Data tx = Unstake amount did"
    and d: "GetDelegate e (cs_txn s) did = Inr d" "own_fund a d = Some f" "TopHeight (cs_stats s) < df_Unlock f"
  shows "snd (ApplyTxToState e tx a bl bh txid s) \<noteq> None"
proof -
  have "unstake_funds a amount (TopHeight (cs_stats s)) False 0 fs = Inl (Err ''trying to unstake locked funds'')"
    if "find (\<lambda>f. df_Owner f = a) fs = Some f" for fs
    using that d(3) by (induction fs) (auto split: if_splits)
  then have "unstake_funds a amount (TopHeight (cs_stats s)) False 0 (d_Funds d) = Inl (Err ''trying to unstake locked funds'')"
    using d(2) by (simp add: own_fund_def)
  then have "apply_unstake_tx e tx st a s \<noteq> (s1, None)" for st s1
    using assms(1,2) d(1) by (simp add: apply_unstake_tx_def ApplyUnstake_def)
  moreover have "apply_stake_tx e tx st a txid s = (s, None)" for st
    using assms(1) by (simp add: apply_stake_tx_def tx_versions)
  ultimately have "\<not> ApplyTxToState e tx a bl bh txid s = (s', None)" for s'
    by (auto simp: ApplyTxToState_def outcome_iffs)
  then show ?thesis by (metis prod.collapse)
qed

end

end
