(* ===== verification/Checkpoints.thy ===== *)
theory Checkpoints
  imports ChainStore
begin

text \<open>
  The checkpoints: \<^verbatim>\<open>src/checkpoints/checkpoints.go\<close> and \<open>CreateCheckpoints\<close> of
  \<^verbatim>\<open>src/blockchain/blockchain.go\<close>, which writes the file that the other reads. The embedded file is the argument
  \<open>bin\<close>; the package's variables, which its \<open>init\<close> sets, are a record.

  The results: the loop that writes the file ends unless the height is at the very end of the range of
  64-bit numbers; what it writes is read back at every checkpointed height; the reader is safe at every
  checkpointed height but zero, where it panics although \<open>IsCheckpoint\<close> accepts it.
\<close>

section \<open>Reading\<close>

definition checkpoint_overhead :: "'a::numeral" where
  "checkpoint_overhead = 4"

record checkpoints =
  cp_bin :: bytes
  CheckpointInterval :: u64
  MaxCheckpoint :: u64

definition checkpoints_init :: "bytes \<Rightarrow> checkpoints res" where
  "checkpoints_init bin =
     (if length bin = 0 then Inr \<lparr>cp_bin = bin, CheckpointInterval = 0, MaxCheckpoint = 0\<rparr>
      else if length bin < 4 then Inl (Panic ''index out of range'')
      else let interval = word_of_nat (le_val (take 4 bin))
           in if interval < 1 then Inl (Panic ''invalid checkpoint interval'')
              else Inr \<lparr>cp_bin = bin, CheckpointInterval = interval,
                        MaxCheckpoint = word_of_nat ((length bin - checkpoint_overhead) div 32)\<rparr>)"

definition GetCheckpoint :: "checkpoints \<Rightarrow> u64 \<Rightarrow> hash res" where
  "GetCheckpoint c height =
     (if CheckpointInterval c = 0 then Inl (Panic ''integer divide by zero'')
      else let index = height div CheckpointInterval c - 1;
               startPos = checkpoint_overhead + index * 32
           in if startPos > startPos + 32 \<or> unat (startPos + 32) > length (cp_bin c)
              then Inl (Panic ''slice bounds out of range'')
              else Inr (arr_of (take 32 (drop (unat startPos) (cp_bin c)))))"

definition IsCheckpoint :: "checkpoints \<Rightarrow> u64 \<Rightarrow> bool" where
  "IsCheckpoint c height =
     (if MaxCheckpoint c = 0 then False
      else height mod CheckpointInterval c = 0 \<and> height div CheckpointInterval c \<le> MaxCheckpoint c)"

definition IsSecured :: "checkpoints \<Rightarrow> u64 \<Rightarrow> bool" where
  "IsSecured c height =
     (if MaxCheckpoint c = 0 then False else height div CheckpointInterval c \<le> MaxCheckpoint c)"

section \<open>Writing\<close>

text \<open>The loop adds \<open>interval\<close> to a 64-bit height, so it may not end.\<close>

partial_function (option) checkpoint_loop ::
  "('t, 'x) ext_scheme \<Rightarrow> 't \<Rightarrow> u64 \<Rightarrow> u64 \<Rightarrow> u64 \<Rightarrow> bytes \<Rightarrow> bytes res option" where
  [code]: "checkpoint_loop e tx maxHeight interval height acc =
     (if height \<le> maxHeight then
        (case GetTopo e tx height of
           Inl err \<Rightarrow> Some (Inl err)
         | Inr bl \<Rightarrow> checkpoint_loop e tx maxHeight interval (height + interval)
                       (acc @ AddFixedByteArray (arr_bytes bl)))
      else Some (Inr acc))"

definition CreateCheckpoints ::
  "('t, 'x) ext_scheme \<Rightarrow> 't \<Rightarrow> u64 \<Rightarrow> u64 \<Rightarrow> bytes res option" where
  "CreateCheckpoints e tx maxHeight interval =
     (if interval = 0 then Some (Inl (Panic ''integer divide by zero''))
      else checkpoint_loop e tx maxHeight interval interval (AddUint32 (ucast interval)))"

section \<open>The loop\<close>

text \<open>The heights that it visits: \<open>height, height + interval, ...\<close> up to the bound.\<close>

definition heights :: "nat \<Rightarrow> nat \<Rightarrow> nat \<Rightarrow> nat list" where
  "heights h i m = (if h \<le> m then map (\<lambda>k. h + k * i) [0..<Suc ((m - h) div i)] else [])"

lemma heights_step:
  assumes "0 < i" "h \<le> m"
  shows "heights h i m = h # heights (h + i) i m"
proof (cases "h + i \<le> m")
  case True
  define n where "n = Suc ((m - (h + i)) div i)"
  have n: "(m - h) div i = n" using True assms by (simp add: n_def le_div_geq)
  have "heights h i m = map (\<lambda>k. h + k * i) (0 # map Suc [0..<n])"
    using assms(2) by (simp add: heights_def n map_Suc_upt upt_conv_Cons [of 0] del: upt_Suc)
  then show ?thesis using True by (simp add: heights_def n_def comp_def add.assoc del: upt_Suc)
next
  case False
  then have "m - h < i" using assms(2) by simp
  with False assms(2) show ?thesis by (simp add: heights_def)
qed

definition topo_bytes :: "('t, 'x) ext_scheme \<Rightarrow> 't \<Rightarrow> nat \<Rightarrow> bytes" where
  "topo_bytes e tx h = (case GetTopo e tx (word_of_nat h) of Inl _ \<Rightarrow> [] | Inr x \<Rightarrow> arr_bytes x)"

lemma checkpoint_loop_ok:
  assumes "interval \<noteq> 0" "unat maxHeight + unat interval < 2 ^ 64"
    and "\<forall>h\<in>set (heights (unat height) (unat interval) (unat maxHeight)).
      \<exists>x. GetTopo e tx (word_of_nat h) = Inr x"
  shows "checkpoint_loop e tx maxHeight interval height acc =
    Some (Inr (acc @ concat (map (topo_bytes e tx) (heights (unat height) (unat interval) (unat maxHeight)))))"
  using assms(3)
proof (induction "unat maxHeight + unat interval - unat height" arbitrary: height acc rule: less_induct)
  case less
  have i: "0 < unat interval" using assms(1) by (simp add: unat_gt_0)
  show ?case
  proof (cases "height \<le> maxHeight")
    case True
    then have le: "unat height \<le> unat maxHeight" by (simp add: word_le_nat_alt)
    have next_height: "unat (height + interval) = unat height + unat interval"
      using le assms(2) by (intro unat_add64) simp
    note st = heights_step [OF i le]
    obtain x where x: "GetTopo e tx height = Inr x"
      using less.prems unfolding st by auto
    have IH: "checkpoint_loop e tx maxHeight interval (height + interval) (acc @ AddFixedByteArray (arr_bytes x)) =
      Some (Inr ((acc @ AddFixedByteArray (arr_bytes x)) @
        concat (map (topo_bytes e tx) (heights (unat (height + interval)) (unat interval) (unat maxHeight)))))"
      using less.prems i le next_height unfolding st by (intro less.hyps) auto
    show ?thesis
      using True x IH next_height
      by (subst checkpoint_loop.simps) (simp add: st topo_bytes_def AddFixedByteArray_def)
  next
    case False
    then have "heights (unat height) (unat interval) (unat maxHeight) = []"
      by (simp add: heights_def word_le_nat_alt)
    with False show ?thesis by (subst checkpoint_loop.simps) simp
  qed
qed

section \<open>The file is read back\<close>

lemma concat_block:
  assumes "\<forall>x\<in>set xs. length x = n" "j < length xs"
  shows "take n (drop (n * j) (concat xs)) = xs ! j"
  using assms
proof (induction xs arbitrary: j)
  case (Cons x xs)
  show ?case
  proof (cases j)
    case 0
    then show ?thesis using Cons.prems by simp
  next
    case (Suc k)
    then have "drop (n * j) (concat (x # xs)) = drop (n * k) (concat xs)" using Cons.prems(1) by simp
    then show ?thesis using Cons Suc by simp
  qed
qed simp

lemma heights_from_interval:
  assumes "0 < i"
  shows "heights i i m = map (\<lambda>k. Suc k * i) [0..<m div i]"
proof (cases "i \<le> m")
  case True
  then have "Suc ((m - i) div i) = m div i" using assms by (simp add: le_div_geq)
  then show ?thesis using True by (simp add: heights_def)
next
  case False
  then show ?thesis by (simp add: heights_def)
qed

lemma CreateCheckpoints_ok:
  assumes "interval \<noteq> 0" "unat interval < 2 ^ 32" "unat maxHeight + unat interval < 2 ^ 64"
    and topo: "\<And>k. 1 \<le> k \<Longrightarrow> k \<le> unat maxHeight div unat interval \<Longrightarrow>
      GetTopo e tx (word_of_nat (k * unat interval)) = Inr (hash_at k)"
    and fits: "32 * (unat maxHeight div unat interval) + 4 < 2 ^ 64"
  shows "\<exists>bin c. CreateCheckpoints e tx maxHeight interval = Some (Inr bin) \<and> checkpoints_init bin = Inr c \<and>
    unat (MaxCheckpoint c) = unat maxHeight div unat interval \<and>
    (\<forall>k. 1 \<le> k \<and> k \<le> unat maxHeight div unat interval \<longrightarrow>
      GetCheckpoint c (word_of_nat (k * unat interval)) = Inr (hash_at k))"
proof -
  let ?i = "unat interval" and ?n = "unat maxHeight div unat interval"
  have i: "0 < ?i" using assms(1) by (simp add: unat_gt_0)
  define blocks where "blocks = map (\<lambda>k. arr_bytes (hash_at (Suc k))) [0..<?n]"
  define bin where "bin = AddUint32 (ucast interval) @ concat blocks"
  have tb: "topo_bytes e tx (Suc k * ?i) = arr_bytes (hash_at (Suc k))" if "k < ?n" for k
    using topo [of "Suc k"] that by (simp add: topo_bytes_def)
  have bl: "map (topo_bytes e tx) (heights ?i ?i (unat maxHeight)) = blocks"
    unfolding heights_from_interval [OF i] blocks_def using tb by simp
  have known: "\<forall>h\<in>set (heights ?i ?i (unat maxHeight)). \<exists>x. GetTopo e tx (word_of_nat h) = Inr x"
  proof
    fix h
    assume "h \<in> set (heights ?i ?i (unat maxHeight))"
    then obtain k where "k < ?n" "h = Suc k * ?i" unfolding heights_from_interval [OF i] by auto
    then show "\<exists>x. GetTopo e tx (word_of_nat h) = Inr x" using topo [of "Suc k"] by auto
  qed
  have run: "CreateCheckpoints e tx maxHeight interval = Some (Inr bin)"
    using checkpoint_loop_ok [OF assms(1,3) known] assms(1) by (simp add: CreateCheckpoints_def bin_def bl)
  have lens: "\<forall>x\<in>set blocks. length x = 32" by (auto simp: blocks_def)
  have "length (concat blocks) = (\<Sum>x\<leftarrow>blocks. 32)"
    unfolding length_concat using lens by (intro arg_cong [where f = sum_list] map_cong) auto
  then have "length (concat blocks) = 32 * length blocks" by (simp add: sum_list_triv)
  then have len: "length bin = 4 + 32 * ?n" by (simp add: bin_def AddUint32_def blocks_def)
  have "unat (ucast interval :: u32) = ?i" using assms(2) by (simp add: unsigned_ucast_eq unsigned_take_bit_eq take_bit_nat_eq_self)
  then have head: "word_of_nat (le_val (take 4 bin)) = interval"
    using assms(2) by (simp add: bin_def AddUint32_def le_val_le_bytes)
  define c where "c = \<lparr>cp_bin = bin, CheckpointInterval = interval, MaxCheckpoint = word_of_nat ?n\<rparr>"
  have "\<not> interval < 1" using i by (simp add: word_less_nat_alt)
  then have init: "checkpoints_init bin = Inr c"
    using len head by (simp add: checkpoints_init_def c_def checkpoint_overhead_def Let_def)
  have "GetCheckpoint c (word_of_nat (k * ?i)) = Inr (hash_at k)" if "1 \<le> k" "k \<le> ?n" for k
  proof -
    obtain j where j: "k = Suc j" "j < ?n" using \<open>1 \<le> k\<close> \<open>k \<le> ?n\<close> by (cases k) auto
    have "k * ?i \<le> unat maxHeight" using \<open>k \<le> ?n\<close> i by (meson div_times_less_eq_dividend le_trans mult_le_mono1)
    then have u: "unat (word_of_nat (k * ?i) :: u64) = k * ?i"
      using assms(3) by (intro unat_of_nat64) simp
    then have "unat ((word_of_nat (k * ?i) :: u64) div interval) = k" using i by (simp add: unat_div)
    then have "(word_of_nat (k * ?i) :: u64) div interval = word_of_nat k" by (metis of_nat_unat ucast_id)
    then have idx: "(word_of_nat (k * ?i) :: u64) div interval - 1 = word_of_nat j" by (simp add: j(1))
    have w: "4 + word_of_nat j * 32 = (word_of_nat (4 + 32 * j) :: u64)" by simp
    have s: "unat (4 + word_of_nat j * 32 :: u64) = 4 + 32 * j"
      unfolding w using fits j(2) by (intro unat_of_nat64) simp
    moreover have "unat (4 + word_of_nat j * 32 + 32 :: u64) = 4 + 32 * Suc j"
      using fits j(2) s by (subst unat_add64) simp_all
    moreover have "take 32 (drop (4 + 32 * j) bin) = blocks ! j"
      using concat_block [OF lens, of j] j(2) by (simp add: bin_def AddUint32_def blocks_def)
    ultimately show ?thesis
      using assms(1) len idx j
      by (simp add: GetCheckpoint_def c_def checkpoint_overhead_def Let_def word_less_nat_alt blocks_def)
  qed
  moreover have "unat (MaxCheckpoint c) = ?n"
    unfolding c_def using fits by (simp add: unat_of_nat64)
  ultimately show ?thesis using run init by blast
qed

text \<open>At every checkpointed height but zero the reader stays inside the file.\<close>

lemma GetCheckpoint_safe:
  assumes init: "checkpoints_init bin = Inr c" and cp: "IsCheckpoint c height" "height \<noteq> 0"
    and len: "length bin < 2 ^ 63"
  shows "\<exists>h. GetCheckpoint c height = Inr h"
proof -
  let ?n = "(length bin - 4) div 32"
  have c: "cp_bin c = bin" "CheckpointInterval c \<noteq> 0" "MaxCheckpoint c = word_of_nat ?n" "4 \<le> length bin"
    using init cp(1) by (auto simp: checkpoints_init_def IsCheckpoint_def Let_def checkpoint_overhead_def
        word_less_1 split: if_splits)
  define k where "k = height div CheckpointInterval c"
  have "unat (MaxCheckpoint c) = ?n" unfolding c(3) using len by (intro unat_of_nat64) simp
  moreover have "k \<le> MaxCheckpoint c" "height mod CheckpointInterval c = 0"
    using cp(1) by (simp_all add: IsCheckpoint_def k_def split: if_splits)
  ultimately have k: "unat k \<le> ?n" by (simp add: word_le_nat_alt)
  have "k \<noteq> 0"
    using \<open>height mod CheckpointInterval c = 0\<close> cp(2) k_def by (metis add_0 mult_zero_left word_mod_div_equality add.right_neutral)
  then have k0: "0 < unat k" by (simp add: unat_gt_0)
  have le: "4 + 32 * unat k \<le> length bin" using k c(4) by (simp add: mult.commute div_le_dividend)
  have k1: "unat (k - 1) = unat k - 1" using k0 by (subst unat_sub64) (simp_all add: word_le_nat_alt)
  have m: "unat ((k - 1) * 32) = (unat k - 1) * 32" using le len k1 by (subst unat_mult64) simp_all
  have s: "unat (4 + (k - 1) * 32) = 4 + (unat k - 1) * 32"
    using le len m by (subst unat_add64) simp_all
  have e: "unat (4 + (k - 1) * 32 + 32) = 4 + 32 * unat k"
    using le len s k0 by (subst unat_add64) simp_all
  show ?thesis
    using c s e le by (simp add: GetCheckpoint_def Let_def checkpoint_overhead_def word_less_nat_alt flip: k_def)
qed

text \<open>Height zero counts as checkpointed, but its index wraps to the end of the address space.\<close>

lemma GetCheckpoint_zero:
  assumes "CheckpointInterval c \<noteq> 0"
  shows "GetCheckpoint c 0 = Inl (Panic ''slice bounds out of range'')"
  using assms by (simp add: GetCheckpoint_def checkpoint_overhead_def Let_def word_less_nat_alt)

end
