(* ===== verification/Validator.thy ===== *)
theory Validator
  imports ChainInv MempoolCheck Checkpoints "HOL-Library.Multiset"
begin

text \<open>
  Blocks on their way into the chain: \<^verbatim>\<open>src/blockchain/bc-block.go\<close> and \<^verbatim>\<open>src/blockchain/validator.go\<close>.
  \<open>PrevalidateBlock\<close> checks what needs no state, with the checkpoints as an argument; blocks that pass wait
  in the list \<open>postprocess\<close>, from which \<open>selectAndPostprocess\<close> takes the one with the smallest height until
  none is left. The channels and threads around them are left out: a call of \<open>selectAndPostprocess\<close> is one
  run of the postprocessor, on the blocks that wait when it starts.
\<close>

section \<open>Serialisation with transactions\<close>

fun full_txs :: "('t, 'x) ext_scheme \<Rightarrow> 't \<Rightarrow> u64 \<Rightarrow> hash list \<Rightarrow> bytes res" where
  "full_txs e txn height [] = Inr []"
| "full_txs e txn height (v # vs) =
     res_bind (GetTx e txn v height) (\<lambda>(tx, _).
     res_bind (full_txs e txn height vs) (\<lambda>bs. Inr (AddByteSlice (Tx_Serialize tx) @ bs)))"

definition SerializeFullBlock :: "('t, 'x) ext_scheme \<Rightarrow> 't \<Rightarrow> Block \<Rightarrow> bytes res" where
  "SerializeFullBlock e txn b =
     res_bind (full_txs e txn (Height b) (bl_Transactions b)) (\<lambda>txs.
       Inr (BlockHeader_Serialize b @ AddByteSlice (diff_bytes (Difficulty b)) @
            AddByteSlice (diff_bytes (bl_CumulativeDiff b)) @
            AddUvarint (word_of_nat (length (bl_Transactions b))) @ txs))"

section \<open>Prevalidation\<close>

definition indexed :: "'a list \<Rightarrow> (nat \<times> 'a) list" where
  "indexed xs = zip [0..<length xs] xs"

definition other_chain_error :: "HashingID list \<Rightarrow> bool" where
  "other_chain_error ocs =
     list_ex (\<lambda>(i, v). NetworkID v = NETWORK_ID \<or>
         list_ex (\<lambda>(i2, v2). i \<noteq> i2 \<and> (hid_Hash v = hid_Hash v2 \<or> NetworkID v = NetworkID v2)) (indexed ocs))
       (indexed ocs)"

definition side_error :: "Block \<Rightarrow> bool" where
  "side_error b =
     list_ex (\<lambda>(i, v). cm_Ancestors v = bl_Ancestors b \<or>
         list_ex (\<lambda>(i2, v2). cm_BaseHash v = cm_BaseHash v2 \<and> cm_Nonce v = cm_Nonce v2 \<and>
             cm_NonceExtra v = cm_NonceExtra v2 \<and> i \<noteq> i2) (indexed (SideBlocks b)))
       (indexed (SideBlocks b))"

fun prevalidate_txs :: "'x crypto_scheme \<Rightarrow> Transaction list \<Rightarrow> u64 \<Rightarrow> unit res" where
  "prevalidate_txs c [] height = Inr ()"
| "prevalidate_txs c (tx # txs) height =
     (case Tx_Prevalidate c tx height of Some err \<Rightarrow> Inl err | None \<Rightarrow> prevalidate_txs c txs height)"

fun prevalidate_sides :: "'x crypto_scheme \<Rightarrow> Block \<Rightarrow> hash \<Rightarrow> Commitment list \<Rightarrow> unit res" where
  "prevalidate_sides c b seed [] = Inr ()"
| "prevalidate_sides c b seed (side # sides) =
     (if GetSeedhashId (cm_Timestamp side) \<noteq> GetSeedhashId (Timestamp b)
      then Inl (Err ''side block has a different seedhash'')
      else res_bind (Commitment_MiningBlob c side) (\<lambda>mb.
           res_bind (U128_Mul64 (Difficulty b) 2) (\<lambda>x.
           res_bind (U128_Div64 x 3) (\<lambda>diff.
           res_bind (ValidPowHash32 (randomvirel_PowHash c seed (MiningBlob_Serialize mb)) diff) (\<lambda>ok.
             if \<not> ok then Inl (Err ''commitment does not meet difficulty'')
             else prevalidate_sides c b seed sides)))))"

definition prevalidate_pow :: "'x crypto_scheme \<Rightarrow> Block \<Rightarrow> unit res" where
  "prevalidate_pow c b =
     res_bind (Commitment_MiningBlob c (Block_Commitment c b)) (\<lambda>mb.
       let seed = GetSeed c mb; powhash = randomvirel_PowHash c seed (MiningBlob_Serialize mb)
       in res_bind (ValidPowHash32 powhash (Difficulty b)) (\<lambda>ok.
            if \<not> ok then Inl (Err ''block does not meet difficulty'')
            else prevalidate_sides c b seed (SideBlocks b)))"

definition PrevalidateBlock ::
  "'x crypto_scheme \<Rightarrow> checkpoints \<Rightarrow> u64 \<Rightarrow> Block \<Rightarrow> Transaction list \<Rightarrow> unit res" where
  "PrevalidateBlock c cp time b txs =
     (let expectedVersion = (if Height b \<ge> HARDFORK_V3_HEIGHT then 1 else 0)
      in if Version b \<noteq> expectedVersion then Inl (Err ''unexpected block version'')
         else if U128_IsZero (Difficulty b) then Inl (Err ''difficulty is zero'')
         else if U128_Cmp64 (Difficulty b) MIN_DIFFICULTY < 0 then Inl (Err ''difficulty is less than minimum'')
         else if Timestamp b > time + FUTURE_TIME_LIMIT * 1000 then Inl (Err ''block is too much in the future'')
         else if other_chain_error (OtherChains b) then Inl (Err ''invalid OtherChain'')
         else res_bind (prevalidate_txs c txs (Height b)) (\<lambda>_.
           if Height b \<noteq> 440 \<and> side_error b then Inl (Err ''invalid side block'')
           else if \<not> IsSecured cp (Height b) then prevalidate_pow c b
           else if IsCheckpoint cp (Height b) then
             res_bind (GetCheckpoint cp (Height b)) (\<lambda>expectedHash.
               if Block_Hash c b \<noteq> expectedHash then Inl (Err ''block does not match checkpoint'') else Inr ())
           else Inr ()))"

section \<open>Postprocessing\<close>

definition POSTPROCESS_SIZE :: nat where
  "POSTPROCESS_SIZE = PARALLEL_BLOCKS_DOWNLOAD"

record PostprocessData =
  pp_Block :: Block
  pp_Hash :: hash
  pp_Txs :: "Transaction list"

text \<open>The second result: whether the postprocessor is woken up.\<close>

definition PostprocessBlock ::
  "Block \<Rightarrow> hash \<Rightarrow> Transaction list \<Rightarrow> bool \<Rightarrow> PostprocessData list \<Rightarrow> PostprocessData list \<times> bool" where
  "PostprocessBlock bl h txs insta postprocess =
     (let postprocess = postprocess @ [\<lparr>pp_Block = bl, pp_Hash = h, pp_Txs = txs\<rparr>]
      in (postprocess, insta \<or> length postprocess \<ge> POSTPROCESS_SIZE))"

definition PostprocessLength :: "PostprocessData list \<Rightarrow> nat" where
  "PostprocessLength postprocess = length postprocess"

fun smallest :: "PostprocessData list \<Rightarrow> nat \<Rightarrow> nat \<Rightarrow> u64 \<Rightarrow> nat" where
  "smallest [] i smallestIdx smallestHeight = smallestIdx"
| "smallest (p # ps) i smallestIdx smallestHeight =
     (if Height (pp_Block p) < smallestHeight then smallest ps (Suc i) i (Height (pp_Block p))
      else smallest ps (Suc i) smallestIdx smallestHeight)"

text \<open>The block with the smallest height, and the others: the last takes its place.\<close>

definition select_smallest :: "PostprocessData list \<Rightarrow> (PostprocessData \<times> PostprocessData list) option" where
  "select_smallest postprocess =
     (case postprocess of
        [] \<Rightarrow> None
      | p # ps \<Rightarrow>
          let smallestIdx = smallest ps 1 0 (Height (pp_Block p));
              lastidx = length postprocess - 1
          in Some (postprocess ! smallestIdx,
                   take lastidx (postprocess[smallestIdx := postprocess ! lastidx])))"

fun add_txs :: "('t, 'x) ext_scheme \<Rightarrow> int \<Rightarrow> u64 \<Rightarrow> Transaction list \<Rightarrow> 't \<Rightarrow> 't outcome" where
  "add_txs e now height [] txn = (txn, None)"
| "add_txs e now height (tx # txs) txn =
     and_then (AddTransaction e now tx (Tx_Hash e tx) False height txn) (add_txs e now height txs)"

text \<open>The database keeps the changes only when there was no error; a panic ends the program.\<close>

definition executePostprocess ::
  "('t, 'x) ext_scheme \<Rightarrow> int \<Rightarrow> Block \<Rightarrow> hash \<Rightarrow> Transaction list \<Rightarrow> 't node \<Rightarrow> 't node outcome option" where
  "executePostprocess e now bl h txs n =
     (case add_txs e now (Height bl) txs (nd_txn n) of
        (t, Some (Panic m)) \<Rightarrow> Some (n, Some (Panic m))
      | (t, Some (Err m)) \<Rightarrow> Some (n\<lparr>nd_queue := RemoveBlock now h (nd_queue n)\<rparr>, None)
      | (t, None) \<Rightarrow>
          (case AddBlock e now bl h (n\<lparr>nd_txn := t\<rparr>) of
             None \<Rightarrow> None
           | Some (n', None) \<Rightarrow> Some (n', None)
           | Some (n', Some (Panic m)) \<Rightarrow> Some (n', Some (Panic m))
           | Some (n', Some (Err m)) \<Rightarrow>
               Some (n'\<lparr>nd_txn := nd_txn n, nd_queue := RemoveBlock now h (nd_queue n')\<rparr>, None)))"

lemma select_smallest_shorter: "select_smallest ps = Some (p, rest) \<Longrightarrow> length rest < length ps"
  by (auto simp: select_smallest_def Let_def split: list.splits)

function selectAndPostprocess ::
  "('t, 'x) ext_scheme \<Rightarrow> int \<Rightarrow> PostprocessData list \<Rightarrow> 't node \<Rightarrow> 't node outcome option" where
  "selectAndPostprocess e now postprocess n =
     (case select_smallest postprocess of
        None \<Rightarrow> Some (n, None)
      | Some (ppd, rest) \<Rightarrow>
          (case executePostprocess e now (pp_Block ppd) (pp_Hash ppd) (pp_Txs ppd) n of
             None \<Rightarrow> None
           | Some (n, Some err) \<Rightarrow> Some (n, Some err)
           | Some (n, None) \<Rightarrow> selectAndPostprocess e now rest n))"
  by pat_completeness auto
termination
  by (relation "measure (\<lambda>(e, now, ps, n). length ps)") (auto dest: select_smallest_shorter)

declare selectAndPostprocess.simps [simp del]

section \<open>What prevalidated blocks have\<close>

lemma set_indexed: "set (indexed xs) = (\<lambda>i. (i, xs ! i)) ` {..<length xs}"
  by (force simp: indexed_def set_zip)

lemma other_chain_error_iff:
  "\<not> other_chain_error ocs \<longleftrightarrow> NETWORK_ID \<notin> set (map NetworkID ocs) \<and>
     distinct (map hid_Hash ocs) \<and> distinct (map NetworkID ocs)"
proof -
  have "NETWORK_ID \<notin> set (map NetworkID ocs) \<longleftrightarrow> (\<forall>i<length ocs. NetworkID (ocs ! i) \<noteq> NETWORK_ID)"
    by (metis in_set_conv_nth length_map nth_map)
  then show ?thesis by (auto simp: other_chain_error_def list_ex_iff set_indexed distinct_conv_nth)
qed

lemma prevalidate_txs_iff: "prevalidate_txs c txs h = Inr () \<longleftrightarrow> (\<forall>tx\<in>set txs. Tx_Prevalidate c tx h = None)"
  by (induction txs) (auto split: option.split)

lemma PrevalidateBlock_sound:
  assumes ok: "PrevalidateBlock c cp time b txs = Inr ()"
  shows "Version b = (if Height b \<ge> HARDFORK_V3_HEIGHT then 1 else 0)" "unat (MIN_DIFFICULTY :: u64) \<le> val128 (Difficulty b)"
    "\<not> Timestamp b > time + FUTURE_TIME_LIMIT * 1000" "\<not> other_chain_error (OtherChains b)"
    "prevalidate_txs c txs (Height b) = Inr ()"
    "\<not> IsSecured cp (Height b) \<Longrightarrow> prevalidate_pow c b = Inr ()"
    "IsSecured cp (Height b) \<Longrightarrow> IsCheckpoint cp (Height b) \<Longrightarrow> GetCheckpoint cp (Height b) = Inr (Block_Hash c b)"
  using ok by (auto simp: PrevalidateBlock_def Let_def outcome_iffs U128_Cmp64_val split: if_splits)

lemma prevalidate_pow_sound:
  assumes "prevalidate_pow c b = Inr ()" "val128 (Difficulty b) \<noteq> 0"
  shows "\<exists>mb. Commitment_MiningBlob c (Block_Commitment c b) = Inr mb \<and>
    le_val (drop 16 (arr_bytes (randomvirel_PowHash c (GetSeed c mb) (MiningBlob_Serialize mb)))) *
      val128 (Difficulty b) < 2 ^ 128"
  using assms
  by (auto simp: prevalidate_pow_def Let_def outcome_iffs ValidPowHash32_iff [OF assms(2)] split: if_splits)

section \<open>Full blocks are read back\<close>

text \<open>The transactions that a peer can read: of the encoding that the height of the block asks for.\<close>

definition tx_sendable :: "bool \<Rightarrow> Transaction \<Rightarrow> bool" where
  "tx_sendable hasVersion tx \<longleftrightarrow> data_wf (tx_Data tx) \<and> tx_matches tx \<and> (tx_Version tx \<noteq> 0) = hasVersion \<and>
     length (Tx_Serialize tx) < 2 ^ 63"

interpretation full_tx: codec "\<lambda>tx. AddByteSlice (Tx_Serialize tx)" "read_tx hv" "tx_sendable hv" for hv
proof
  fix x rest
  assume "tx_sendable hv x"
  then have "Tx_Deserialize (Tx_Serialize x) hv = Inr x" "length (Tx_Serialize x) < 2 ^ 63"
    using Tx_codec [of x] by (simp_all add: tx_sendable_def)
  then show "read_tx hv (NewDes (AddByteSlice (Tx_Serialize x) @ rest)) = Inr (x, NewDes rest)"
    by (simp add: read_tx_def codec_simps)
qed

lemma full_txs_Inr:
  "full_txs e txn height vs = Inr bs \<Longrightarrow>
     \<exists>txs. bs = concat (map (\<lambda>tx. AddByteSlice (Tx_Serialize tx)) txs) \<and> length txs = length vs \<and>
       (\<forall>i<length vs. \<exists>m. GetTx e txn (vs ! i) height = Inr (txs ! i, m))"
proof (induction vs arbitrary: bs)
  case (Cons v vs)
  obtain tx m bs' where tx: "GetTx e txn v height = Inr (tx, m)" and bs': "full_txs e txn height vs = Inr bs'"
    "bs = AddByteSlice (Tx_Serialize tx) @ bs'"
    using Cons.prems by (auto simp: outcome_iffs)
  obtain txs where txs: "bs' = concat (map (\<lambda>tx. AddByteSlice (Tx_Serialize tx)) txs)" "length txs = length vs"
    "\<forall>i<length vs. \<exists>m. GetTx e txn (vs ! i) height = Inr (txs ! i, m)" using Cons.IH [OF bs'(1)] by blast
  have "\<forall>i<length (v # vs). \<exists>m. GetTx e txn ((v # vs) ! i) height = Inr ((tx # txs) ! i, m)"
    using tx txs(3) by (auto simp: less_Suc_eq_0_disj)
  then show ?case using bs'(2) txs(1,2) by (intro exI [of _ "tx # txs"]) simp
qed simp

lemma FullBlock_codec:
  assumes wf: "block_wf b" and ser: "SerializeFullBlock e txn b = Inr bs"
    and txs: "\<And>v tx m. v \<in> set (bl_Transactions b) \<Longrightarrow> GetTx e txn v (Height b) = Inr (tx, m) \<Longrightarrow>
      tx_sendable (Height b \<ge> HARDFORK_V2_HEIGHT) tx \<and> Tx_Hash e tx = v"
  shows "\<exists>ts. Block_DeserializeFull e bs = Inr (b, ts) \<and> map (Tx_Hash e) ts = bl_Transactions b"
proof -
  let ?h = "BlockHeader.truncate b" and ?hv = "Height b \<ge> HARDFORK_V2_HEIGHT" and ?n = "length (bl_Transactions b)"
  obtain tb where tb: "full_txs e txn (Height b) (bl_Transactions b) = Inr tb"
    "bs = BlockHeader_Serialize b @ AddByteSlice (diff_bytes (Difficulty b)) @
       AddByteSlice (diff_bytes (bl_CumulativeDiff b)) @ AddUvarint (word_of_nat ?n) @ tb"
    using ser by (auto simp: SerializeFullBlock_def outcome_iffs)
  obtain ts where ts: "tb = concat (map (\<lambda>tx. AddByteSlice (Tx_Serialize tx)) ts)" "length ts = ?n"
    "\<And>i. i < ?n \<Longrightarrow> \<exists>m. GetTx e txn (bl_Transactions b ! i) (Height b) = Inr (ts ! i, m)"
    using full_txs_Inr [OF tb(1)] by blast
  have each: "tx_sendable ?hv (ts ! i) \<and> Tx_Hash e (ts ! i) = bl_Transactions b ! i" if "i < ?n" for i
    using ts(3) [OF that] txs that nth_mem by blast
  have hashes: "map (Tx_Hash e) ts = bl_Transactions b" using each ts(2) by (intro nth_equalityI) simp_all
  have "list_all (tx_sendable ?hv) ts" using each ts(2) by (simp add: list_all_length)
  from full_tx.read_n_enc [OF this, of "[]"] ts(1,2)
  have rd: "read_n (read_tx ?hv) ?n (NewDes tb) = Inr (ts, NewDes [])" by simp
  have h: "BlockHeader_Deserialize (BlockHeader_Serialize b @ rest) = Inr (?h, rest)" for rest
    using wf BlockHeader_codec [of ?h rest]
    by (simp add: BlockHeader_Serialize_truncate header_wf_truncate block_wf_def)
  have n: "unat (word_of_nat ?n :: u64) = ?n"
    using wf by (intro unat_length64) (simp add: block_wf_def config_defs)
  have lim: "\<not> (word_of_nat ?n :: u64) > MAX_TX_PER_BLOCK"
    using wf n by (simp add: word_less_nat_alt block_wf_def config_defs)
  have d: "length (diff_bytes u) < 2 ^ 63" for u using length_diff_bytes [of u] by simp
  have "Height ?h = Height b" by (simp add: BlockHeader.truncate_def)
  then have "Block_DeserializeFull e bs = Inr (header_block ?h (Difficulty b) (bl_CumulativeDiff b) (map (Tx_Hash e) ts), ts)"
    using n lim rd
    by (simp add: Block_DeserializeFull_def tb(2) h codec_simps ReadByteSlice_AddByteSlice [OF d] copy16_diff_bytes)
  then show ?thesis using hashes by (simp add: header_block_truncate)
qed

section \<open>The order of postprocessing\<close>

text \<open>Taking elements out until none is left.\<close>

inductive drains :: "('q \<Rightarrow> ('a \<times> 'q) option) \<Rightarrow> 'q \<Rightarrow> 'a list \<Rightarrow> bool" for pop where
  drained: "pop q = None \<Longrightarrow> drains pop q []"
| taken: "pop q = Some (x, r) \<Longrightarrow> drains pop r xs \<Longrightarrow> drains pop q (x # xs)"

text \<open>What the postprocessor relies on: a smallest element is taken out and the others stay.\<close>

locale min_extract =
  fixes pop :: "'q \<Rightarrow> ('a \<times> 'q) option"
    and key :: "'a \<Rightarrow> 'k::linorder"
    and elems :: "'q \<Rightarrow> 'a multiset"
  assumes pop_None: "pop q = None \<Longrightarrow> elems q = {#}"
    and pop_elems: "pop q = Some (x, r) \<Longrightarrow> elems q = add_mset x (elems r)"
    and pop_least: "pop q = Some (x, r) \<Longrightarrow> y \<in># elems q \<Longrightarrow> key x \<le> key y"
begin

lemma drains_exists: "\<exists>xs. drains pop q xs"
proof (induction "size (elems q)" arbitrary: q rule: less_induct)
  case less
  show ?case
  proof (cases "pop q")
    case None
    then show ?thesis by (blast intro: drains.drained)
  next
    case (Some p)
    obtain x r where p: "p = (x, r)" by fastforce
    then obtain xs where "drains pop r xs" using less.hyps [of r] pop_elems [of q x r] Some by auto
    then show ?thesis using Some p by (blast intro: drains.taken)
  qed
qed

lemma drains_sorted: "drains pop q xs \<Longrightarrow> mset xs = elems q \<and> sorted (map key xs)"
proof (induction rule: drains.induct)
  case (taken q x r xs)
  have "key x \<le> key y" if "y \<in> set xs" for y
    using that taken pop_elems [OF taken.hyps(1)] by (intro pop_least [OF taken.hyps(1)]) (auto simp flip: set_mset_mset)
  with taken pop_elems [OF taken.hyps(1)] show ?case by auto
qed (simp add: pop_None)

end

lemma smallest_least:
  assumes "idx < length pre" "h = Height (pp_Block (pre ! idx))" "\<forall>p\<in>set pre. h \<le> Height (pp_Block p)"
  shows "smallest ps (length pre) idx h < length (pre @ ps) \<and>
    (\<forall>p\<in>set (pre @ ps). Height (pp_Block ((pre @ ps) ! smallest ps (length pre) idx h)) \<le> Height (pp_Block p))"
  using assms
proof (induction ps arbitrary: pre idx h)
  case Nil
  then show ?case by (simp add: nth_append)
next
  case (Cons p ps)
  show ?case
  proof (cases "Height (pp_Block p) < h")
    case True
    then have "\<forall>q\<in>set (pre @ [p]). Height (pp_Block p) \<le> Height (pp_Block q)" using Cons.prems(3) by fastforce
    from Cons.IH [OF _ _ this, of "length pre"] True show ?thesis by simp
  next
    case False
    then show ?thesis using Cons.IH [of idx "pre @ [p]" h] Cons.prems by (auto simp: nth_append)
  qed
qed

lemma mset_swap_last:
  assumes "k < length xs"
  shows "mset xs = add_mset (xs ! k) (mset (take (length xs - 1) (xs[k := xs ! (length xs - 1)])))"
proof -
  obtain ys z where xs: "xs = ys @ [z]" using assms by (cases xs rule: rev_cases) auto
  show ?thesis
  proof (cases "k < length ys")
    case True
    then have "take (length xs - 1) (xs[k := xs ! (length xs - 1)]) = ys[k := z]" by (simp add: xs list_update_append)
    moreover have "ys ! k \<in># mset ys" using True by simp
    ultimately show ?thesis using True by (simp add: xs nth_append mset_update)
  next
    case False
    then have "k = length ys" using assms by (simp add: xs)
    then show ?thesis by (simp add: xs)
  qed
qed

lemma select_smallest_Some:
  assumes "select_smallest ps = Some (p, rest)"
  shows "mset ps = add_mset p (mset rest)" "\<forall>q\<in>set ps. Height (pp_Block p) \<le> Height (pp_Block q)"
proof -
  obtain q qs where ps: "ps = q # qs" using assms by (cases ps) (auto simp: select_smallest_def)
  define k where "k = smallest qs 1 0 (Height (pp_Block q))"
  have k: "k < length ps" "\<forall>r\<in>set ps. Height (pp_Block (ps ! k)) \<le> Height (pp_Block r)"
    using smallest_least [of 0 "[q]" "Height (pp_Block q)" qs] by (simp_all add: k_def ps)
  have "p = ps ! k" "rest = take (length ps - 1) (ps[k := ps ! (length ps - 1)])"
    using assms by (simp_all add: select_smallest_def ps k_def Let_def)
  then show "mset ps = add_mset p (mset rest)" "\<forall>q\<in>set ps. Height (pp_Block p) \<le> Height (pp_Block q)"
    using k mset_swap_last [OF k(1)] by auto
qed

interpretation pp: min_extract select_smallest "\<lambda>p. Height (pp_Block p)" mset
proof unfold_locales
  fix q :: "PostprocessData list" and x r y
  show "select_smallest q = None \<Longrightarrow> mset q = {#}" by (auto simp: select_smallest_def Let_def split: list.splits)
  assume "select_smallest q = Some (x, r)"
  note s = select_smallest_Some [OF this]
  show "mset q = add_mset x (mset r)" by (rule s)
  assume "y \<in># mset q"
  then show "Height (pp_Block x) \<le> Height (pp_Block y)" using s(2) by simp
qed

fun process_all :: "('t, 'x) ext_scheme \<Rightarrow> int \<Rightarrow> PostprocessData list \<Rightarrow> 't node \<Rightarrow> 't node outcome option" where
  "process_all e now [] n = Some (n, None)"
| "process_all e now (p # ps) n =
     (case executePostprocess e now (pp_Block p) (pp_Hash p) (pp_Txs p) n of
        None \<Rightarrow> None
      | Some (n, Some err) \<Rightarrow> Some (n, Some err)
      | Some (n, None) \<Rightarrow> process_all e now ps n)"

lemma selectAndPostprocess_drains:
  "drains select_smallest ps xs \<Longrightarrow> selectAndPostprocess e now ps n = process_all e now xs n"
proof (induction arbitrary: n rule: drains.induct)
  case (drained q)
  then show ?case by (subst selectAndPostprocess.simps) simp
next
  case (taken q x r xs)
  then show ?case by (subst selectAndPostprocess.simps) (simp split: option.split prod.split)
qed

lemma selectAndPostprocess_order:
  obtains xs where "mset xs = mset ps" "sorted (map (\<lambda>p. Height (pp_Block p)) xs)"
    "\<And>n. selectAndPostprocess e now ps n = process_all e now xs n"
  using pp.drains_exists [of ps] pp.drains_sorted selectAndPostprocess_drains by blast

section \<open>The chain\<close>

definition pp_ok :: "'x crypto_scheme \<Rightarrow> PostprocessData \<Rightarrow> bool" where
  "pp_ok c p \<longleftrightarrow> block_wf (pp_Block p) \<and> pp_Hash p = Block_Hash c (pp_Block p) \<and> pp_Hash p \<noteq> 0 \<and> Height (pp_Block p) \<noteq> 0"

definition grows :: "('t, 'x) ext_scheme \<Rightarrow> Stats \<Rightarrow> hash list \<Rightarrow> 't node \<Rightarrow> bool" where
  "grows e stats cs n \<longleftrightarrow> (\<exists>stats' cs'. node_inv e n stats' cs' \<and> hd cs' = hd cs \<and>
     val128 (CumulativeDiff stats) \<le> val128 (CumulativeDiff stats'))"

lemma node_inv_queue [simp]: "node_inv e (n\<lparr>nd_queue := q\<rparr>) = node_inv e n"
  by (simp add: node_inv_def fun_eq_iff)

lemma node_inv_txn: "nd_txn n' = nd_txn n \<Longrightarrow> node_inv e n' = node_inv e n"
  by (simp add: node_inv_def fun_eq_iff)

context adb_txn
begin

lemma add_txs_writes: "only_writes e {IdxTx} t (fst (add_txs e now height txs t))"
proof (induction txs arbitrary: t)
  case (Cons tx txs)
  obtain t' where t': "AddTransaction e now tx (Tx_Hash e tx) False height t = (t', None)" "only_writes e {IdxTx} t t'"
    by (cases "kvGet e t IdxTx (arr_bytes (Tx_Hash e tx))") (simp_all add: AddTransaction_def SetTx_def kvPut_eq)
  then show ?case using only_writes_trans [OF t'(2) Cons.IH] by simp
qed simp

lemma node_inv_txs:
  assumes "node_inv e n stats cs" "only_writes e {IdxTx} (nd_txn n) t"
  shows "node_inv e (n\<lparr>nd_txn := t\<rparr>) stats cs"
  using assms node_chain_same [of e "nd_txn n" t stats cs]
  by (simp add: node_inv_def only_writes_def same_chain_def GetStats_def)

text \<open>A block from the list leaves a chain behind that is at least as heavy, whether it is accepted or not.\<close>

lemma executePostprocess_ok:
  assumes inv: "node_inv e n stats cs" and ok: "pp_ok e p"
  shows "\<exists>n' err. executePostprocess e now (pp_Block p) (pp_Hash p) (pp_Txs p) n = Some (n', err) \<and>
    (err = None \<longrightarrow> grows e stats cs n')"
proof -
  obtain t err where t: "add_txs e now (Height (pp_Block p)) (pp_Txs p) (nd_txn n) = (t, err)" by fastforce
  have w: "only_writes e {IdxTx} (nd_txn n) t" using add_txs_writes [of "nd_txn n" now "Height (pp_Block p)" "pp_Txs p"] t by simp
  have same: "grows e stats cs n'" if "nd_txn n' = nd_txn n" for n'
    using inv node_inv_txn [OF that, of e] unfolding grows_def by auto
  show ?thesis
  proof (cases err)
    case (Some err)
    then show ?thesis using t same by (cases err) (simp_all add: executePostprocess_def)
  next
    case None
    have pp: "block_wf (pp_Block p)" "pp_Hash p = Block_Hash e (pp_Block p)" "pp_Hash p \<noteq> 0" "Height (pp_Block p) \<noteq> 0"
      using ok unfolding pp_ok_def by blast+
    obtain n' err' where r: "AddBlock e now (pp_Block p) (pp_Hash p) (n\<lparr>nd_txn := t\<rparr>) = Some (n', err')"
      and post: "err' = None \<longrightarrow> (\<exists>stats' cs'. node_inv e n' stats' cs' \<and> extends_chain (pp_Block p) (pp_Hash p) stats cs stats' cs')"
      using AddBlock_ok [OF node_inv_txs [OF inv w] pp, of now] by blast
    have "err' = None \<longrightarrow> grows e stats cs n'"
      using post unfolding grows_def extends_chain_def by blast
    then show ?thesis
      using t None r same by (cases err') (auto simp: executePostprocess_def split: error.split)
  qed
qed

lemma process_all_ok:
  assumes "node_inv e n stats cs" "\<forall>p\<in>set ps. pp_ok e p"
  shows "\<exists>n' err. process_all e now ps n = Some (n', err) \<and> (err = None \<longrightarrow> grows e stats cs n')"
  using assms
proof (induction ps arbitrary: n stats cs)
  case Nil
  then show ?case by (auto simp: grows_def)
next
  case (Cons p ps)
  obtain n' err where r: "executePostprocess e now (pp_Block p) (pp_Hash p) (pp_Txs p) n = Some (n', err)"
    and post: "err = None \<longrightarrow> grows e stats cs n'"
    using executePostprocess_ok [OF Cons.prems(1), of p now] Cons.prems(2) by auto
  show ?case
  proof (cases err)
    case None
    then obtain stats' cs' where inv: "node_inv e n' stats' cs'" "hd cs' = hd cs"
      "val128 (CumulativeDiff stats) \<le> val128 (CumulativeDiff stats')" using post by (auto simp: grows_def)
    obtain n2 err2 where "process_all e now ps n' = Some (n2, err2)" "err2 = None \<longrightarrow> grows e stats' cs' n2"
      using Cons.IH [OF inv(1)] Cons.prems(2) by auto
    moreover have "grows e stats cs n2" if "grows e stats' cs' n2"
      using that inv(2,3) unfolding grows_def by (metis le_trans)
    ultimately show ?thesis using r None by auto
  qed (use r in simp)
qed

end

text \<open>The first block starts a chain on an empty store.\<close>

lemma genesis_wf: "block_wf genesis"
  by (simp add: genesis_def block_wf_def header_wf_def config_defs U128_IsZero_def U128_From64_def U128_New_def)

lemma genesis_simps [simp]:
  "Version genesis = 0" "Height genesis = 0" "bl_Transactions genesis = []" "bl_CumulativeDiff genesis = Difficulty genesis"
  by (simp_all add: genesis_def)

definition genesis_stats :: "'x crypto_scheme \<Rightarrow> Stats" where
  "genesis_stats c = \<lparr>TopHash = Block_Hash c genesis, TopHeight = 0, CumulativeDiff = Difficulty genesis, Tips = [],
     Orphans = [], StakedAmount = 0\<rparr>"

definition genesis_start :: "('t, 'x) ext_scheme \<Rightarrow> int \<Rightarrow> 't node \<Rightarrow> 't cs" where
  "genesis_start e now n = (open_node (genesis_stats e) n)\<lparr>cs_txn :=
     fst (SetMempool e now (fst (SetStats e (fst (insertBlockMain e (nd_txn n) genesis)) (genesis_stats e))) [])\<rparr>"

context adb_txn
begin

lemma first_node_chain:
  assumes "\<And>x. GetBlock e t x = (if x = h then Inr b else Inl not_found)"
    "\<And>n. GetTopo e t n = (if n = 0 then Inr h else Inl unknown_height)"
    "h = Block_Hash e b" "h \<noteq> 0" "Height b = 0" "TopHash stats = h" "CumulativeDiff stats = bl_CumulativeDiff b" "Tips stats = []" "Orphans stats = []"
  shows "node_chain e t stats [h]"
proof -
  have "(unat n < 1) = (n = 0)" for n :: u64 by (simp add: unat_eq_zero)
  then show ?thesis
    using assms by (simp add: node_chain_def main_chain_def chain_block_def blocks_ok_def tips_ok_def)
qed

text \<open>The store before the first block is applied.\<close>

lemma genesis_start_facts:
  assumes empty: "\<And>i k. kvGet e (nd_txn n) i k = None"
    and t_def: "t = cs_txn (genesis_start e now n)"
  shows "GetStats e t = Inr (genesis_stats e)" "GetMempool e t = Inr []"
    "GetBlock e t x = (if x = Block_Hash e genesis then Inr genesis else Inl (Err ''block not found''))"
    "GetTopo e t m = (if m = 0 then Inr (Block_Hash e genesis) else Inl unknown_height)"
    "total_balance e t = 0" "states_ok e t" "txs_ok e t"
proof -
  let ?t1 = "fst (insertBlockMain e (nd_txn n) genesis)"
  let ?t2 = "fst (SetStats e ?t1 (genesis_stats e))"
  have t: "t = fst (SetMempool e now ?t2 [])" by (simp add: t_def genesis_start_def)
  have get: "kvGet e t i k = kvGet e ?t1 i k" if "i \<noteq> IdxInfo" for i k
    using that by (simp add: t SetStats_def setStatsNoBroadcast_def SetMempool_def kvPut_eq)
  show "GetMempool e t = Inr []" unfolding t by (simp add: GetMempool_SetMempool Mempool_expire_def)
  show "GetStats e t = Inr (genesis_stats e)"
    using GetStats_setStats [of ?t1 "genesis_stats e"]
    by (simp add: t SetStats_def SetMempool_def kvPut_eq GetStats_def info_keys)
  show "GetBlock e t x = (if x = Block_Hash e genesis then Inr genesis else Inl (Err ''block not found''))"
    "GetTopo e t m = (if m = 0 then Inr (Block_Hash e genesis) else Inl unknown_height)"
    using GetBlock_insertBlockMain [OF genesis_wf, of "nd_txn n" x] GetTopo_insertBlockMain [of "nd_txn n" genesis m] empty
    by (simp_all add: GetBlock_def GetTopo_def get unknown_height_def)
  have none: "kvGet e t i k = None" if "i \<noteq> IdxInfo" "i \<noteq> IdxBlock" "i \<noteq> IdxTopo" for i k
    using that empty by (simp add: get insertBlockMain_def kvPut_eq Let_def)
  then have "kvForEach e t IdxState = []"
    using foreach_in [of _ _ t IdxState] by (cases "kvForEach e t IdxState") auto
  then show "total_balance e t = 0" "states_ok e t" using no_states_total by blast+
  show "txs_ok e t" by (simp add: txs_ok_def none)
qed

lemma addGenesis_eq:
  assumes empty: "\<And>i k. kvGet e (nd_txn n) i k = None" and time: "\<not> time < GENESIS_TIMESTAMP"
    and run: "ApplyBlockToState e now genesis (Block_Hash e genesis) (genesis_start e now n) = (s, None)"
    and st: "on_txn (\<lambda>t. setStatsNoBroadcast e t (cs_stats s)) s = (s', None)"
  shows "addGenesis e now time n = (close_node n s', None)"
proof -
  let ?n0 = "open_node (genesis_stats e) n"
  define s1 where "s1 = ?n0\<lparr>cs_txn := fst (insertBlockMain e (nd_txn n) genesis)\<rparr>"
  define s2 where "s2 = s1\<lparr>cs_txn := fst (SetStats e (cs_txn s1) (genesis_stats e))\<rparr>"
  have "on_txn (\<lambda>t. insertBlockMain e t genesis) ?n0 = (s1, None)"
    "on_txn (\<lambda>t. SetStats e t (genesis_stats e)) s1 = (s2, None)"
    "on_txn (\<lambda>t. SetMempool e now t []) s2 = (genesis_start e now n, None)"
    by (simp_all add: s1_def s2_def genesis_start_def on_txn_def insertBlockMain_def SetStats_def
        setStatsNoBroadcast_def SetMempool_def kvPut_eq Let_def open_node_def)
  moreover have "(genesis_start e now n)\<lparr>cs_stats := genesis_stats e\<rparr> = genesis_start e now n"
    by (simp add: genesis_start_def open_node_def)
  ultimately show ?thesis
    using time empty run st genesis_start_facts(1) [OF empty refl, of now]
    by (simp add: addGenesis_def Let_def GetBlock_def flip: genesis_stats_def)
qed

lemma addGenesis_ok:
  assumes empty: "\<And>i k. kvGet e (nd_txn n) i k = None" and time: "\<not> time < GENESIS_TIMESTAMP"
    and hash: "Block_Hash e genesis \<noteq> 0"
  obtains n' stats m where "addGenesis e now time n = (n', None)" "node_inv e n' stats [Block_Hash e genesis]"
    "total_balance e (nd_txn n') = unat (Reward 0)" "states_ok e (nd_txn n')" "GetMempool e (nd_txn n') = Inr m"
    "\<forall>x. GetBlock e (nd_txn n') x = (if x = Block_Hash e genesis then Inr genesis else Inl (Err ''block not found''))"
    "CumulativeDiff stats = Difficulty genesis" "TopHash stats = Block_Hash e genesis"
proof -
  let ?h = "Block_Hash e genesis" and ?s = "genesis_start e now n"
  note f = genesis_start_facts [where n = n and now = now, OF empty refl]
  have st: "cs_stats ?s = genesis_stats e" by (simp add: genesis_start_def open_node_def)
  obtain s1 m where s1: "ApplyBlockToState e now genesis ?h ?s = (s1, None)" "GetMempool e (cs_txn s1) = Inr m"
    using plain_block_applies [of genesis ?s "[]" now ?h] f(2,5,6) unat_lt64 [of "Reward 0"] by auto
  have coins: "total_balance e (cs_txn s1) = unat (Reward 0)" "states_ok e (cs_txn s1)"
    using ApplyBlock_coins [OF s1(1) f(6) _ f(7)] f(5) by simp_all
  have hd: "same_head e ?s s1" using head_ApplyBlock [of ?s now genesis ?h] s1(1) by (simp add: kept_def)
  have "node_chain e (cs_txn ?s) (cs_stats ?s) [?h]"
    using hash f(3,4) by (intro first_node_chain [where b = genesis]) (simp_all add: st genesis_stats_def)
  then have nc: "node_chain e (cs_txn s1) (cs_stats s1) [?h]" "heaviest (cs_stats s1)"
    using hd node_chain_same [of e "cs_txn ?s" "cs_txn s1"] st
    by (simp_all add: same_head_def heaviest_def genesis_stats_def) (simp add: node_chain_def)
  obtain s2 where s2: "on_txn (\<lambda>t. setStatsNoBroadcast e t (cs_stats s1)) s1 = (s2, None)"
    "node_inv e (close_node n s2) (cs_stats s1) [?h]" "\<forall>x. GetBlock e (cs_txn s2) x = GetBlock e (cs_txn s1) x"
    using setStats_close [OF nc] by blast
  have w: "writes e {IdxInfo} s1 (s2, None)" "GetMempool e (cs_txn s2) = GetMempool e (cs_txn s1)"
    using s2(1) by (auto simp: writes_def on_txn_def setStatsNoBroadcast_def kvPut_eq GetMempool_def info_keys [symmetric])
  have "GetBlock e (cs_txn s1) x = GetBlock e (cs_txn ?s) x" for x
    using hd same_chain_reads(1) by (auto simp: same_head_def)
  then show thesis
    using that [OF addGenesis_eq [OF empty time s1(1) s2(1)] s2(2)] writes_coins [OF w(1)] coins w(2) s1(2) s2(3) f(3) hd st
    by (simp add: close_node_def same_head_def genesis_stats_def)
qed

end

end
