(* ===== verification/Decoded.thy ===== *)
theory Decoded
  imports Blocks
begin

text \<open>
  What a peer can make a node read: whatever bytes arrive, a header or block that the decoders of
  \<^verbatim>\<open>src/block/block.go\<close> and \<^verbatim>\<open>src/block/commitment.go\<close> return is within the limits of the format.
\<close>

lemma read_n_length: "read_n f n d = Inr (xs, d') \<Longrightarrow> length xs = n"
  by (induction n arbitrary: d xs) (auto simp: outcome_iffs)

lemma read_chains_length: "read_chains n d = Inr (xs, d') \<Longrightarrow> length xs = n"
  by (induction n arbitrary: d xs) (auto simp: outcome_iffs split: option.splits prod.splits)

lemma limit_read:
  fixes n :: u64
  assumes "\<not> (sint n < 0 \<or> sint n > int k)" "k < 2 ^ 63"
  shows "unat n \<le> k"
proof -
  have "uint n = sint n" using assms by (simp add: uint_sint [of n] take_bit_eq_mod)
  then show ?thesis using assms(1) by (simp add: nat_le_iff unat_eq_nat_uint)
qed

lemma Commitment_Deserialize_wf:
  assumes "Commitment_Deserialize d = Inr (m, d')"
  shows "commitment_wf m"
proof -
  have lim: "unat n < MAX_MERGE_MINED_CHAINS"
    if "\<not> (sint n < 0 \<or> sint n > MAX_MERGE_MINED_CHAINS - 1)" for n :: u64
    using limit_read [of n "MAX_MERGE_MINED_CHAINS - 1"] that by (simp add: config_defs)
  show ?thesis
    using assms lim
    by (auto simp: Commitment_Deserialize_def commitment_wf_def outcome_iffs Let_def Des_checked_Inr case_prod_beta
        dest!: read_n_length read_chains_length split: if_splits)
qed

lemma read_side_blocks_wf:
  "read_side_blocks n d = Inr (ss, d') \<Longrightarrow> length ss = n \<and> list_all commitment_wf ss"
  by (induction n arbitrary: d ss)
    (auto simp: outcome_iffs dest: Commitment_Deserialize_wf split: option.splits)

lemma BlockHeader_Deserialize_wf:
  assumes "BlockHeader_Deserialize data = Inr (h, rest)"
  shows "header_wf h"
proof -
  have lim: "unat n < MAX_MERGE_MINED_CHAINS"
    if "\<not> (sint n < 0 \<or> sint n > MAX_MERGE_MINED_CHAINS - 1)" for n :: u64
    using limit_read [of n "MAX_MERGE_MINED_CHAINS - 1"] that by (simp add: config_defs)
  have lim2: "unat n \<le> MAX_SIDE_BLOCKS" if "\<not> (sint n < 0 \<or> sint n > MAX_SIDE_BLOCKS)" for n :: u64
    using limit_read [of n "MAX_SIDE_BLOCKS"] that by (simp add: config_defs)
  show ?thesis
    using assms lim lim2
    by (auto simp: BlockHeader_Deserialize_def header_wf_def outcome_iffs Let_def case_prod_beta
        dest!: read_n_length read_chains_length read_side_blocks_wf split: if_splits option.splits)
qed

lemma Block_DeserializeFull_wf:
  assumes "Block_DeserializeFull c data = Inr (b, txs)"
  shows "header_wf b" "length (bl_Transactions b) \<le> MAX_TX_PER_BLOCK" "bl_Transactions b = map (Tx_Hash c) txs"
proof -
  obtain h data' diff cdiff n d d' where h: "BlockHeader_Deserialize data = Inr (h, data')"
    and n: "\<not> n > (MAX_TX_PER_BLOCK :: u64)"
      "read_n (read_tx (Height h \<ge> HARDFORK_V2_HEIGHT)) (unat n) d = Inr (txs, d')"
    and b: "b = header_block h diff cdiff (map (Tx_Hash c) txs)"
    using assms by (auto simp: Block_DeserializeFull_def outcome_iffs Let_def case_prod_beta split: if_splits option.splits)
  show "bl_Transactions b = map (Tx_Hash c) txs" by (simp add: b header_block_def BlockHeader.extend_def)
  then show "length (bl_Transactions b) \<le> MAX_TX_PER_BLOCK"
    using n read_n_length by (force simp: word_less_nat_alt config_defs)
  have "header_wf b = header_wf h"
    by (simp add: b header_block_def header_wf_def BlockHeader.extend_def)
  then show "header_wf b" using BlockHeader_Deserialize_wf [OF h] by simp
qed

end
