(* ===== verification/NodeHandlers.thy ===== *)
theory NodeHandlers
  imports Validator Decoded Packets
begin

text \<open>
  What a node does with packets: \<^verbatim>\<open>src/blockchain/bc-p2p.go\<close> and the synchronization of
  \<^verbatim>\<open>src/blockchain/blockchain.go\<close>. The state of a node is its store and queue, the blocks that wait for the
  postprocessor and the statistics that its peers have announced; a handler returns the new state, or the
  panic that ends the program, and the packets it hands to connections. A connection is named by its
  address. Go iterates over the map of connections in an arbitrary order: here it is the order of an
  association list. What a handler only logs is dropped.
\<close>

section \<open>Packets and peers\<close>

definition packet_PING :: u16 where "packet_PING = 0"
definition packet_BLOCK :: u16 where "packet_BLOCK = 1"
definition packet_TX :: u16 where "packet_TX = 2"
definition packet_STATS :: u16 where "packet_STATS = 3"
definition packet_BLOCK_REQUEST :: u16 where "packet_BLOCK_REQUEST = 4"
definition packet_STAKE_SIGNATURE :: u16 where "packet_STAKE_SIGNATURE = 5"

lemmas packet_types = packet_PING_def packet_BLOCK_def packet_TX_def packet_STATS_def packet_BLOCK_REQUEST_def
  packet_STAKE_SIGNATURE_def

record Packet =
  pk_Type :: u16
  pk_Data :: bytes
  pk_Conn :: string

record PeerData =
  pd_Stats :: PacketStats
  pd_LastHeight :: u64

record 't peer_node =
  pn_node :: "'t node"
  pn_postprocess :: "PostprocessData list"
  pn_peers :: "(string \<times> PeerData) list"

type_synonym 't handled = "'t peer_node outcome \<times> Packet list"

definition ignored :: "'t peer_node \<Rightarrow> error \<Rightarrow> 't handled" where
  "ignored pn err = (drop_err (pn, Some err), [])"

text \<open>\<open>DB.Update\<close> with an error that is only logged.\<close>

definition update_store :: "('t \<Rightarrow> 't outcome) \<Rightarrow> 't peer_node \<Rightarrow> 't peer_node outcome" where
  "update_store f pn =
     (let (t, err) = drop_err (DB_Update f (nd_txn (pn_node pn)))
      in (pn\<lparr>pn_node := (pn_node pn)\<lparr>nd_txn := t\<rparr>\<rparr>, err))"

section \<open>Sending\<close>

definition stats_packet :: "Stats \<Rightarrow> string \<Rightarrow> Packet" where
  "stats_packet stats conn =
     \<lparr>pk_Type = packet_STATS,
      pk_Data = PacketStats_Serialize \<lparr>ps_Height = TopHeight stats, ps_CumulativeDiff = CumulativeDiff stats,
                  ps_Hash = TopHash stats\<rparr>,
      pk_Conn = conn\<rparr>"

definition SendStats :: "'t peer_node \<Rightarrow> Stats \<Rightarrow> Packet list" where
  "SendStats pn stats = map (\<lambda>(c, _). stats_packet stats c) (pn_peers pn)"

definition newConnection :: "('t, 'x) ext_scheme \<Rightarrow> 't peer_node \<Rightarrow> string \<Rightarrow> Packet list res" where
  "newConnection e pn conn =
     res_bind (GetStats e (nd_txn (pn_node pn))) (\<lambda>stats. Inr [stats_packet stats conn])"

definition ping_all :: "'t peer_node \<Rightarrow> Packet list" where
  "ping_all pn = map (\<lambda>(c, _). \<lparr>pk_Type = packet_PING, pk_Data = [], pk_Conn = c\<rparr>) (pn_peers pn)"

definition sendBlockToPeer :: "('t, 'x) ext_scheme \<Rightarrow> 't \<Rightarrow> Block \<Rightarrow> string \<Rightarrow> Packet list res" where
  "sendBlockToPeer e txn bl conn =
     res_bind (SerializeFullBlock e txn bl) (\<lambda>d. Inr [\<lparr>pk_Type = packet_BLOCK, pk_Data = d, pk_Conn = conn\<rparr>])"

text \<open>Only peers that are not much heavier and not too far below are told about a block.\<close>

definition wants_block :: "Block \<Rightarrow> Uint128 \<Rightarrow> PeerData \<Rightarrow> bool" where
  "wants_block bl maxCumDiff d \<longleftrightarrow>
     U128_Cmp (ps_CumulativeDiff (pd_Stats d)) maxCumDiff \<le> 0 \<and> ps_Height (pd_Stats d) + 10 \<ge> Height bl"

definition BroadcastBlock :: "('t, 'x) ext_scheme \<Rightarrow> 't peer_node \<Rightarrow> Block \<Rightarrow> Packet list res" where
  "BroadcastBlock e pn bl =
     res_bind (SerializeFullBlock e (nd_txn (pn_node pn)) bl) (\<lambda>ser.
     res_bind (U128_Mul64 (Difficulty bl) (of_nat MINIDAG_ANCESTORS + 10)) (\<lambda>x.
     res_bind (U128_Add (bl_CumulativeDiff bl) x) (\<lambda>maxCumDiff.
       Inr (map (\<lambda>(c, _). \<lparr>pk_Type = packet_BLOCK, pk_Data = ser, pk_Conn = c\<rparr>)
              (filter (\<lambda>(_, d). wants_block bl maxCumDiff d) (pn_peers pn))))))"

definition BroadcastTx :: "'t peer_node \<Rightarrow> Transaction \<Rightarrow> Packet list" where
  "BroadcastTx pn tx =
     map (\<lambda>(c, _). \<lparr>pk_Type = packet_TX, pk_Data = Tx_Serialize tx, pk_Conn = c\<rparr>) (pn_peers pn)"

definition BroadcastStakeSig :: "'t peer_node \<Rightarrow> PacketStakeSignature \<Rightarrow> Packet list" where
  "BroadcastStakeSig pn st =
     map (\<lambda>(c, _). \<lparr>pk_Type = packet_STAKE_SIGNATURE, pk_Data = PacketStakeSignature_Serialize st, pk_Conn = c\<rparr>)
       (pn_peers pn)"

section \<open>Handlers\<close>

text \<open>The transaction is sent on when it is new and valid.\<close>

definition accepts_tx :: "('t, 'x) ext_scheme \<Rightarrow> 't \<Rightarrow> Transaction \<Rightarrow> hash \<Rightarrow> u64 \<Rightarrow> bool" where
  "accepts_tx e txn tx h height \<longleftrightarrow>
     kvGet e txn IdxTx (arr_bytes h) = None \<and>
     (case GetMempool e txn of Inl _ \<Rightarrow> False | Inr mem \<Rightarrow> validateMempoolTx e txn tx h mem height = Inr ())"

definition packetTx :: "('t, 'x) ext_scheme \<Rightarrow> int \<Rightarrow> bytes \<Rightarrow> 't peer_node \<Rightarrow> 't handled" where
  "packetTx e now data pn =
     (let txn = nd_txn (pn_node pn)
      in case GetStats e txn of Inl err \<Rightarrow> ((pn, Some err), []) | Inr stats \<Rightarrow>
         case Tx_Deserialize data (TopHeight stats \<ge> HARDFORK_V2_HEIGHT) of Inl err \<Rightarrow> ignored pn err | Inr tx \<Rightarrow>
         case Tx_Prevalidate e tx (TopHeight stats + 1) of Some err \<Rightarrow> ignored pn err | None \<Rightarrow>
           let h = Tx_Hash e tx
           in (update_store (AddTransaction e now tx h True (TopHeight stats + 1)) pn,
               if accepts_tx e txn tx h (TopHeight stats + 1) then BroadcastTx pn tx else []))"

text \<open>\<open>time\<close> is the clock in milliseconds.\<close>

definition packetBlock ::
  "('t, 'x) ext_scheme \<Rightarrow> checkpoints \<Rightarrow> int \<Rightarrow> u64 \<Rightarrow> bytes \<Rightarrow> 't peer_node \<Rightarrow> 't handled" where
  "packetBlock e cp now time data pn =
     (case Block_DeserializeFull e data of Inl err \<Rightarrow> ignored pn err | Inr (bl, txs) \<Rightarrow>
        let h = Block_Hash e bl; n = pn_node pn;
            pn = pn\<lparr>pn_node := n\<lparr>nd_queue := BlockDownloaded now h (nd_queue n)\<rparr>\<rparr>
        in case PrevalidateBlock e cp time bl txs of Inl err \<Rightarrow> ignored pn err | Inr _ \<Rightarrow>
             ((pn\<lparr>pn_postprocess :=
                   fst (PostprocessBlock bl h txs (Height bl \<ge> nd_SyncHeight n) (pn_postprocess pn))\<rparr>, None), []))"

definition packetStats :: "bytes \<Rightarrow> string \<Rightarrow> 't peer_node \<Rightarrow> 't handled" where
  "packetStats data conn pn =
     (case PacketStats_Deserialize data of Inl err \<Rightarrow> ignored pn err | Inr st \<Rightarrow>
        let n = pn_node pn;
            peers = map (\<lambda>(c, d). (c, if c = conn then d\<lparr>pd_Stats := st\<rparr> else d)) (pn_peers pn);
            n = (if U128_Cmp (ps_CumulativeDiff st) (nd_SyncDiff n) > 0
                 then n\<lparr>nd_SyncHeight := ps_Height st, nd_SyncDiff := ps_CumulativeDiff st\<rparr> else n)
        in ((pn\<lparr>pn_node := n, pn_peers := peers\<rparr>, None), []))"

text \<open>The blocks of a range of heights, up to the first that is missing. The loop counts a 64-bit height,
  so a range that ends at the largest one does not end by itself.\<close>

partial_function (option) collect_blocks :: "('t, 'x) ext_scheme \<Rightarrow> 't \<Rightarrow> u64 \<Rightarrow> u64 \<Rightarrow> Block list \<Rightarrow> (Block list \<times> error option) option"
where
  [code]: "collect_blocks e txn height lastHeight bls =
     (if height > lastHeight then Some (bls, None)
      else case GetBlockByHeight e txn height of
             Inl err \<Rightarrow> Some (bls, Some err)
           | Inr bl \<Rightarrow> collect_blocks e txn (height + 1) lastHeight (bls @ [bl]))"

fun send_blocks :: "('t, 'x) ext_scheme \<Rightarrow> 't \<Rightarrow> string \<Rightarrow> Block list \<Rightarrow> Packet list \<times> error option" where
  "send_blocks e txn conn [] = ([], None)"
| "send_blocks e txn conn (bl # bls) =
     (case sendBlockToPeer e txn bl conn of
        Inl (Panic m) \<Rightarrow> ([], Some (Panic m))
      | Inl (Err m) \<Rightarrow> send_blocks e txn conn bls
      | Inr ps \<Rightarrow> let (qs, err) = send_blocks e txn conn bls in (ps @ qs, err))"

definition packetBlockRequest ::
  "('t, 'x) ext_scheme \<Rightarrow> bytes \<Rightarrow> string \<Rightarrow> 't peer_node \<Rightarrow> 't handled option" where
  "packetBlockRequest e data conn pn =
     (case PacketBlockRequest_Deserialize data of Inl err \<Rightarrow> Some (ignored pn err) | Inr st \<Rightarrow>
        if br_Count st > PARALLEL_BLOCKS_DOWNLOAD then Some ((pn, None), [])
        else
          let txn = nd_txn (pn_node pn);
              found = (if br_Height st = 0
                       then Some (case GetBlock e txn (br_Hash st) of Inl err \<Rightarrow> ([], Some err) | Inr bl \<Rightarrow> ([bl], None))
                       else collect_blocks e txn (br_Height st) (br_Height st + ucast (br_Count st)) [])
          in (case found of
                None \<Rightarrow> None
              | Some (bls, Some (Panic m)) \<Rightarrow> Some ((pn, Some (Panic m)), [])
              | Some (bls, _) \<Rightarrow>
                  let (ps, err) = send_blocks e txn conn bls in Some ((pn, err), ps)))"

definition accept_stake_signature :: "('t, 'x) ext_scheme \<Rightarrow> PacketStakeSignature \<Rightarrow> 't \<Rightarrow> 't outcome" where
  "accept_stake_signature e st txn =
     (case GetStakeSig e txn (ss_Hash st) of
        Inr _ \<Rightarrow> (txn, Some (Err ''stake signature already in database''))
      | Inl (Panic m) \<Rightarrow> (txn, Some (Panic m))
      | Inl (Err _) \<Rightarrow>
          with_res (GetBlock e txn (ss_Hash st)) txn (\<lambda>block.
            if NextDelegateId block \<noteq> ss_DelegateId st
            then (txn, Some (Err ''stake signature is not done by the correct delegate''))
            else with_res (GetDelegate e txn (ss_DelegateId st)) txn (\<lambda>delegate.
              if \<not> VerifySignature e (d_Owner delegate) (STAKE_SIGN_PREFIX @ arr_bytes (ss_Hash st)) (ss_Signature st)
              then (txn, Some (Err ''invalid StakeSignature packet: invalid signature''))
              else SetStakeSig e txn st)))"

definition HandleStakeSignature ::
  "('t, 'x) ext_scheme \<Rightarrow> PacketStakeSignature \<Rightarrow> 't peer_node \<Rightarrow> 't peer_node outcome \<times> Packet list" where
  "HandleStakeSignature e st pn =
     (let (t, err) = DB_Update (accept_stake_signature e st) (nd_txn (pn_node pn));
          pn' = pn\<lparr>pn_node := (pn_node pn)\<lparr>nd_txn := t\<rparr>\<rparr>
      in ((pn', err), if err = None then BroadcastStakeSig pn' st else []))"

definition packetStakeSignature :: "('t, 'x) ext_scheme \<Rightarrow> bytes \<Rightarrow> 't peer_node \<Rightarrow> 't handled" where
  "packetStakeSignature e data pn =
     (case PacketStakeSignature_Deserialize data of Inl err \<Rightarrow> ignored pn err | Inr st \<Rightarrow>
        let (r, ps) = HandleStakeSignature e st pn in (drop_err r, ps))"

definition incomingP2P ::
  "('t, 'x) ext_scheme \<Rightarrow> checkpoints \<Rightarrow> int \<Rightarrow> u64 \<Rightarrow> Packet \<Rightarrow> 't peer_node \<Rightarrow> 't handled option" where
  "incomingP2P e cp now time pack pn =
     (if pk_Type pack = packet_BLOCK then Some (packetBlock e cp now time (pk_Data pack) pn)
      else if pk_Type pack = packet_TX then Some (packetTx e now (pk_Data pack) pn)
      else if pk_Type pack = packet_STATS then Some (packetStats (pk_Data pack) (pk_Conn pack) pn)
      else if pk_Type pack = packet_BLOCK_REQUEST then packetBlockRequest e (pk_Data pack) (pk_Conn pack) pn
      else if pk_Type pack = packet_STAKE_SIGNATURE then Some (packetStakeSignature e (pk_Data pack) pn)
      else Some ((pn, None), []))"

section \<open>Synchronization\<close>

text \<open>\<open>peernum\<close> is the random number that picks the first peer to try.\<close>

definition can_serve :: "PacketBlockRequest \<Rightarrow> Stats \<Rightarrow> PeerData \<Rightarrow> bool" where
  "can_serve reqbl stats d \<longleftrightarrow> br_Height reqbl = 0 \<or>
     (ps_Height (pd_Stats d) \<ge> br_Height reqbl \<and> U128_Cmp (ps_CumulativeDiff (pd_Stats d)) (CumulativeDiff stats) \<ge> 0)"

definition RequestBlock :: "nat \<Rightarrow> PacketBlockRequest \<Rightarrow> Stats \<Rightarrow> (string \<times> PeerData) list \<Rightarrow> Packet list" where
  "RequestBlock peernum reqbl stats peers =
     (case find (\<lambda>(_, d). can_serve reqbl stats d) (rotate peernum peers) of
        None \<Rightarrow> []
      | Some (c, _) \<Rightarrow>
          [\<lparr>pk_Type = packet_BLOCK_REQUEST, pk_Data = PacketBlockRequest_Serialize reqbl, pk_Conn = c\<rparr>])"

text \<open>The second half of a round: the next range of blocks, unless one is still under way. \<open>n\<close> counts the
  rounds for which the node has been waiting.\<close>

definition request_range :: "nat \<Rightarrow> Stats \<Rightarrow> (string \<times> PeerData) list \<Rightarrow> nat \<Rightarrow> 't node \<Rightarrow> 't node \<times> nat \<times> Packet list" where
  "request_range peernum stats peers n nd =
     (if nd_SyncLastRequestHeight nd > TopHeight stats \<and> \<not> n > 20 then (nd, n + 1, [])
      else
        let nd = (if nd_SyncLastRequestHeight nd > TopHeight stats
                  then nd\<lparr>nd_SyncLastRequestHeight := TopHeight stats\<rparr> else nd);
            nd = nd\<lparr>nd_SyncLastRequestHeight := max (nd_SyncLastRequestHeight nd) (TopHeight stats)\<rparr>
        in if nd_SyncHeight nd > nd_SyncLastRequestHeight nd then
             let count = min (nd_SyncHeight nd - nd_SyncLastRequestHeight nd) PARALLEL_BLOCKS_DOWNLOAD;
                 reqbl = \<lparr>br_Height = nd_SyncLastRequestHeight nd + 1, br_Hash = 0, br_Count = ucast count\<rparr>
             in (nd\<lparr>nd_SyncLastRequestHeight := nd_SyncLastRequestHeight nd + count\<rparr>, 0,
                 RequestBlock peernum reqbl stats peers)
           else (nd, 0, []))"

definition sync_round ::
  "('t, 'x) ext_scheme \<Rightarrow> int \<Rightarrow> nat \<Rightarrow> nat \<Rightarrow> 't peer_node \<Rightarrow> ('t peer_node \<times> nat \<times> Packet list) res" where
  "sync_round e now peernum n pn =
     res_bind (GetStats e (nd_txn (pn_node pn))) (\<lambda>stats.
       if U128_Cmp (nd_SyncDiff (pn_node pn)) (CumulativeDiff stats) > 0 then
         let (q, r) = RequestableBlock now (nd_queue (pn_node pn));
             nd = (pn_node pn)\<lparr>nd_queue := q\<rparr>;
             reqs = (case r of None \<Rightarrow> [] | Some b \<Rightarrow>
               RequestBlock peernum \<lparr>br_Height = qb_Height b, br_Hash = qb_Hash b, br_Count = 0\<rparr> stats (pn_peers pn))
         in case r of
              Some b \<Rightarrow>
                if qb_Hash b = 0 then Inr (pn\<lparr>pn_node := nd\<lparr>nd_queue := RemoveBlock now 0 q\<rparr>\<rparr>, n, [])
                else let (nd, n, ps) = request_range peernum stats (pn_peers pn) n nd
                     in Inr (pn\<lparr>pn_node := nd\<rparr>, n, reqs @ ps)
            | None \<Rightarrow>
                let (nd, n, ps) = request_range peernum stats (pn_peers pn) n nd
                in Inr (pn\<lparr>pn_node := nd\<rparr>, n, ps)
       else Inr (pn, n, []))"

end
