(* ===== verification/Wallet.thy ===== *)
theory Wallet
  imports MempoolCheck
begin

text \<open>
  The wallet, \<^verbatim>\<open>src/wallet/wallet.go\<close>: what it keeps about its account, how it builds and signs transactions
  and what a refresh makes of the node's answers. The requests to the node are left out: their answers are
  arguments. Key files and mnemonics are in \<open>WalletFiles\<close>. The last section follows a transfer from the wallet into
  the mempool of a node and into the state.
\<close>

section \<open>The state of the wallet\<close>

record Wallet =
  wal_PrivateKey :: "512 word"
  wal_Address :: address
  wal_height :: u64
  wal_balance :: u64
  wal_lastNonce :: u64
  wal_mempoolBal :: u64
  wal_mempoolNonce :: u64
  wal_delegateId :: u64
  wal_delegateName :: bytes
  wal_stakedBalance :: u64
  wal_stakedUnlock :: u64

record GetAddressResponse =
  ga_Balance :: u64
  ga_LastNonce :: u64
  ga_LastIncoming :: u64
  ga_MempoolBalance :: u64
  ga_MempoolNonce :: u64
  ga_MempoolIncoming :: u64
  ga_DelegateId :: u64
  ga_Height :: u64

record GetDelegateResponse =
  gd_Id :: u64
  gd_Address :: address
  gd_Owner :: address
  gd_TotalAmount :: u64
  gd_Name :: bytes
  gd_Funds :: "DelegatedFund list"

definition short_name :: "bytes \<Rightarrow> bytes" where
  "short_name name = (if length name > 20 then take 20 name @ map (\<lambda>c. word_of_nat (of_char c)) ''...'' else name)"

text \<open>The node's answers come as arguments; the second one is asked for only when there is a delegate. A
  delegate without a fund of the owner leaves the old staked balance.\<close>

definition Refresh :: "GetAddressResponse res \<Rightarrow> (u64 \<Rightarrow> GetDelegateResponse res) \<Rightarrow> Wallet \<Rightarrow> Wallet outcome" where
  "Refresh addressRes delegateResOf w =
     with_res addressRes w (\<lambda>res.
       let w = w\<lparr>wal_balance := ga_Balance res, wal_lastNonce := ga_LastNonce res,
                 wal_mempoolBal := ga_MempoolBalance res, wal_mempoolNonce := ga_MempoolNonce res,
                 wal_delegateId := ga_DelegateId res, wal_height := ga_Height res\<rparr>
       in if ga_DelegateId res \<noteq> 0 then
            with_res (delegateResOf (ga_DelegateId res)) w (\<lambda>delegateRes.
              let w = w\<lparr>wal_delegateName := short_name (gd_Name delegateRes)\<rparr>
              in (case find (\<lambda>v. df_Owner v = wal_Address w) (gd_Funds delegateRes) of
                    None \<Rightarrow> (w, None)
                  | Some v \<Rightarrow> (w\<lparr>wal_stakedBalance := df_Amount v, wal_stakedUnlock := df_Unlock v\<rparr>, None)))
          else (w\<lparr>wal_stakedBalance := 0, wal_stakedUnlock := 0, wal_delegateName := []\<rparr>, None))"

definition ManualRefresh :: "State \<Rightarrow> u64 \<Rightarrow> Wallet \<Rightarrow> Wallet" where
  "ManualRefresh st height w =
     w\<lparr>wal_balance := Balance st, wal_lastNonce := LastNonce st, wal_mempoolBal := Balance st,
       wal_mempoolNonce := LastNonce st, wal_delegateId := st_DelegateId st, wal_height := height\<rparr>"

section \<open>Building transactions\<close>

definition checkAndSignTx :: "'x crypto_scheme \<Rightarrow> Wallet \<Rightarrow> Transaction \<Rightarrow> Transaction res" where
  "checkAndSignTx c w tx =
     (let tx = tx\<lparr>tx_Fee := GetVirtualSize tx * FEE_PER_BYTE_V2\<rparr>;
          addr = wal_Address w;
          amt = foldl (\<lambda>amt v. if si_Sender v = addr then amt + si_Amount v else amt) 0
                  (StateInputs c (tx_Data tx) tx addr)
      in if amt > wal_mempoolBal w then Inl (Err ''transaction spends too much money'')
         else Inr (Tx_Sign c tx (wal_PrivateKey w)))"

text \<open>Outputs to the same recipient with the same payment id become one; their sum may wrap around.\<close>

definition same_output :: "Output \<Rightarrow> Output \<Rightarrow> bool" where
  "same_output a b \<longleftrightarrow> Recipient a = Recipient b \<and> PaymentId a = PaymentId b"

function merge_outputs :: "Output list \<Rightarrow> Output list" where
  "merge_outputs [] = []"
| "merge_outputs (out # outs) =
     out\<lparr>Amount := foldl (\<lambda>s v. s + Amount v) (Amount out) (filter (same_output out) outs)\<rparr> #
     merge_outputs (filter (\<lambda>v. \<not> same_output out v) outs)"
  by pat_completeness auto
termination
  by (relation "measure length") (auto simp: le_imp_less_Suc)

definition wallet_tx :: "Wallet \<Rightarrow> u8 \<Rightarrow> TransactionData \<Rightarrow> Transaction" where
  "wallet_tx w version data =
     \<lparr>tx_Version = version, tx_Signer = Privkey_Public (wal_PrivateKey w), tx_Signature = 0, tx_Data = data,
      tx_Nonce = wal_mempoolNonce w + 1, tx_Fee = 0\<rparr>"

definition Wallet_Transfer :: "'x crypto_scheme \<Rightarrow> Wallet \<Rightarrow> Output list \<Rightarrow> bool \<Rightarrow> Transaction res" where
  "Wallet_Transfer c w outputs hasVersion =
     (if list_ex (\<lambda>out. Recipient out = wal_Address w) outputs then Inl (Err ''cannot transfer funds to self'')
      else checkAndSignTx c w (wallet_tx w (if hasVersion then 1 else 0) (Transfer (merge_outputs outputs))))"

definition Wallet_RegisterDelegate :: "'x crypto_scheme \<Rightarrow> Wallet \<Rightarrow> bytes \<Rightarrow> u64 \<Rightarrow> Transaction res" where
  "Wallet_RegisterDelegate c w name did =
     checkAndSignTx c w (wallet_tx w TX_VERSION_REGISTER_DELEGATE (RegisterDelegate name did))"

definition Wallet_SetDelegate :: "'x crypto_scheme \<Rightarrow> Wallet \<Rightarrow> u64 \<Rightarrow> u64 \<Rightarrow> Transaction res" where
  "Wallet_SetDelegate c w delegateId previousId =
     checkAndSignTx c w (wallet_tx w TX_VERSION_SET_DELEGATE (SetDelegate delegateId previousId))"

definition Wallet_Stake :: "'x crypto_scheme \<Rightarrow> Wallet \<Rightarrow> u64 \<Rightarrow> u64 \<Rightarrow> u64 \<Rightarrow> Transaction res" where
  "Wallet_Stake c w delegateId amount prevUnlock =
     checkAndSignTx c w (wallet_tx w TX_VERSION_STAKE (Stake amount delegateId prevUnlock))"

definition Wallet_Unstake :: "'x crypto_scheme \<Rightarrow> Wallet \<Rightarrow> u64 \<Rightarrow> u64 \<Rightarrow> Transaction res" where
  "Wallet_Unstake c w delegateId amount =
     checkAndSignTx c w (wallet_tx w TX_VERSION_UNSTAKE (Unstake amount delegateId))"

definition SignBlockHash :: "'x crypto_scheme \<Rightarrow> Wallet \<Rightarrow> hash \<Rightarrow> signature" where
  "SignBlockHash c w h = Sign c (STAKE_SIGN_PREFIX @ arr_bytes h) (wal_PrivateKey w)"

section \<open>Merging outputs\<close>

definition paid_to :: "address \<Rightarrow> u64 \<Rightarrow> Output list \<Rightarrow> u64" where
  "paid_to a pid outs = (\<Sum>v\<leftarrow>filter (\<lambda>v. Recipient v = a \<and> PaymentId v = pid) outs. Amount v)"

lemma foldl_amounts: "foldl (\<lambda>s v. s + Amount v) x outs = x + (\<Sum>v\<leftarrow>outs. Amount v)"
  by (induction outs arbitrary: x) (simp_all add: add.assoc)

lemma merge_outputs_paid: "paid_to a pid (merge_outputs outs) = paid_to a pid outs"
proof (induction outs rule: merge_outputs.induct)
  case (2 out outs)
  have split: "paid_to a pid outs = paid_to a pid (filter (same_output out) outs) +
      paid_to a pid (filter (\<lambda>v. \<not> same_output out v) outs)"
    by (induction outs) (auto simp: paid_to_def algebra_simps)
  show ?case
  proof (cases "Recipient out = a \<and> PaymentId out = pid")
    case True
    then have "filter (\<lambda>v. Recipient v = a \<and> PaymentId v = pid) (filter (same_output out) outs) = filter (same_output out) outs"
      by (intro filter_True) (auto simp: same_output_def)
    then show ?thesis using True 2 split by (simp add: paid_to_def foldl_amounts)
  next
    case False
    then have "filter (\<lambda>v. Recipient v = a \<and> PaymentId v = pid) (filter (same_output out) outs) = []"
      by (intro filter_False) (auto simp: same_output_def)
    then show ?thesis using False 2 split by (auto simp: paid_to_def)
  qed
qed simp

lemma merge_outputs_keys: "v \<in> set (merge_outputs outs) \<Longrightarrow> \<exists>u\<in>set outs. same_output u v"
proof (induction outs rule: merge_outputs.induct)
  case (2 out outs)
  then show ?case by (auto simp: same_output_def)
qed simp

lemma merge_outputs_distinct: "distinct (map (\<lambda>v. (Recipient v, PaymentId v)) (merge_outputs outs))"
proof (induction outs rule: merge_outputs.induct)
  case (2 out outs)
  have "(Recipient out, PaymentId out) \<notin> (\<lambda>v. (Recipient v, PaymentId v)) ` set (merge_outputs (filter (\<lambda>v. \<not> same_output out v) outs))"
    using merge_outputs_keys by (fastforce simp: same_output_def)
  then show ?case using 2 by simp
qed simp

text \<open>The coins each recipient gets, when they fit 64 bits together.\<close>

definition coins_to :: "(address \<Rightarrow> bool) \<Rightarrow> Output list \<Rightarrow> nat" where
  "coins_to P outs = (\<Sum>v\<leftarrow>filter (\<lambda>v. P (Recipient v)) outs. unat (Amount v))"

lemma coins_to_split:
  "coins_to P outs = coins_to P (filter Q outs) + coins_to P (filter (\<lambda>v. \<not> Q v) outs)"
  by (induction outs) (simp_all add: coins_to_def)

lemma coins_to_le: "coins_to P outs \<le> coins_to (\<lambda>_. True) outs"
  by (induction outs) (simp_all add: coins_to_def)

lemma unat_foldl_amounts:
  "unat x + coins_to (\<lambda>_. True) outs < 2 ^ 64 \<Longrightarrow>
   unat (foldl (\<lambda>s v. s + Amount v) x outs) = unat x + coins_to (\<lambda>_. True) outs"
  by (induction outs arbitrary: x) (simp_all add: coins_to_def unat_add64)

lemma merge_outputs_coins: "coins_to (\<lambda>_. True) outs < 2 ^ 64 \<Longrightarrow> coins_to P (merge_outputs outs) = coins_to P outs"
proof (induction outs rule: merge_outputs.induct)
  case (2 out outs)
  let ?same = "filter (same_output out) outs" and ?rest = "filter (\<lambda>v. \<not> same_output out v) outs"
  have all: "unat (Amount out) + coins_to (\<lambda>_. True) ?same + coins_to (\<lambda>_. True) ?rest < 2 ^ 64"
    using 2(2) coins_to_split [of "\<lambda>_. True" outs "same_output out"] by (simp add: coins_to_def)
  have IH: "coins_to P (merge_outputs ?rest) = coins_to P ?rest" using 2(1) all by linarith
  have same: "coins_to P ?same = (if P (Recipient out) then coins_to (\<lambda>_. True) ?same else 0)"
  proof -
    have "filter (\<lambda>v. P (Recipient v)) ?same = (if P (Recipient out) then ?same else [])"
      by (cases "P (Recipient out)") (auto simp: filter_empty_conv same_output_def intro: filter_cong)
    then show ?thesis by (simp add: coins_to_def)
  qed
  have "unat (foldl (\<lambda>s v. s + Amount v) (Amount out) ?same) = unat (Amount out) + coins_to (\<lambda>_. True) ?same"
    using all by (intro unat_foldl_amounts) linarith
  then show ?case
    using IH same coins_to_split [of P outs "same_output out"] by (simp add: coins_to_def)
qed simp

section \<open>A transfer reaches the state\<close>

text \<open>The law of the signature scheme that the wallet relies on.\<close>

definition signs :: "'x crypto_scheme \<Rightarrow> 512 word \<Rightarrow> bool" where
  "signs c k \<longleftrightarrow> (\<forall>m. ed25519_Verify c (Privkey_Public k) m (ed25519_Sign c k m))"

lemma SignatureData_Sign: "SignatureData (Tx_Sign c t k) = SignatureData t"
  by (simp add: SignatureData_def Tx_Sign_def)

lemma Tx_Sign_fields [simp]:
  "tx_Version (Tx_Sign c t k) = tx_Version t" "tx_Signer (Tx_Sign c t k) = tx_Signer t"
  "tx_Data (Tx_Sign c t k) = tx_Data t" "tx_Nonce (Tx_Sign c t k) = tx_Nonce t" "tx_Fee (Tx_Sign c t k) = tx_Fee t"
  "GetVirtualSize (Tx_Sign c t k) = GetVirtualSize t"
  by (simp_all add: Tx_Sign_def GetVirtualSize_def)

lemma transfer_vsize:
  assumes "tx_Data tx = Transfer outs" "length outs \<le> 32"
  shows "unat (GetVirtualSize tx) = 99 + length outs * 24"
proof -
  have "unat (word_of_nat (length outs) * 24 :: u64) = length outs * 24"
    using assms(2) by (subst unat_mult64) (simp_all add: unat_of_nat64)
  then have "unat (99 + word_of_nat (length outs) * 24 :: u64) = 99 + length outs * 24"
    using assms(2) by (subst unat_add64) simp_all
  then show ?thesis
    by (simp add: GetVirtualSize_def base_overhead_def assms(1) output_overhead_def SIZE_def)
qed

text \<open>What the wallet hands out: the fields, the fee and the guard.\<close>

lemma Wallet_Transfer_parts:
  assumes "Wallet_Transfer c w outs hasVersion = Inr tx"
    and "wal_Address w = FromPubKey c (Privkey_Public (wal_PrivateKey w))"
  shows "tx_Data tx = Transfer (merge_outputs outs)" "tx_Signer tx = Privkey_Public (wal_PrivateKey w)"
    "tx_Nonce tx = wal_mempoolNonce w + 1" "tx_Version tx = (if hasVersion then 1 else 0)"
    "tx_Fee tx = GetVirtualSize tx * FEE_PER_BYTE_V2"
    "tx_Signature tx = Sign c (SignatureData tx) (wal_PrivateKey w)"
    "value_or_zero (outputs_total 0 (merge_outputs outs)) + tx_Fee tx \<le> wal_mempoolBal w"
    "\<forall>v\<in>set outs. Recipient v \<noteq> wal_Address w"
  using assms
  by (auto simp: Wallet_Transfer_def checkAndSignTx_def wallet_tx_def Let_def GetVirtualSize_def SignatureData_Sign
      Transfer_TotalAmount_def list_ex_iff not_less Tx_Sign_def SignatureData_def split: if_splits)

lemma wallet_transfer_valid:
  assumes t: "Wallet_Transfer c w outs hasVersion = Inr tx" "hasVersion = (height \<ge> HARDFORK_V2_HEIGHT)"
    and addr: "wal_Address w = FromPubKey c (Privkey_Public (wal_PrivateKey w))" "wal_Address w \<noteq> INVALID_ADDRESS"
    and sig: "signs c (wal_PrivateKey w)"
    and n: "outs \<noteq> []" "length (merge_outputs outs) \<le> MAX_OUTPUTS"
    and small: "coins_to (\<lambda>_. True) outs < 2 ^ 63"
  shows "Tx_Prevalidate c tx height = None"
    "\<exists>amt. Data_TotalAmount (tx_Data tx) tx = Inr amt \<and> unat amt = coins_to (\<lambda>_. True) outs \<and>
       unat amt + unat (tx_Fee tx) \<le> unat (wal_mempoolBal w)"
proof -
  note f = Wallet_Transfer_parts [OF t(1) addr(1)]
  have len: "length (merge_outputs outs) \<le> 32" using n(2) by (simp add: config_defs)
  note vs = transfer_vsize [OF f(1) len]
  have fee: "unat (tx_Fee tx) = unat (GetVirtualSize tx) * 2000000"
    using len vs by (simp add: f(5) config_defs unat_mult64)
  have lim: "unat (tx_Fee tx) \<le> 2000000 * 2048" "GetVirtualSize tx \<le> max_tx_size"
    using fee vs len by (simp_all add: word_le_nat_alt max_tx_size_def)
  have sum: "(\<Sum>v\<leftarrow>merge_outputs outs. unat (Amount v)) = coins_to (\<lambda>_. True) outs"
    using merge_outputs_coins [of outs "\<lambda>_. True"] small by (simp add: coins_to_def)
  define amt :: u64 where "amt = word_of_nat (coins_to (\<lambda>_. True) outs)"
  have amt: "Data_TotalAmount (tx_Data tx) tx = Inr amt" "unat amt = coins_to (\<lambda>_. True) outs"
    using sum small by (simp_all add: f(1) Transfer_TotalAmount_def outputs_total_sum amt_def unat_of_nat64)
  have room: "unat amt + unat (tx_Fee tx) < 2 ^ 64" using amt(2) small lim(1) by simp
  have "amt + tx_Fee tx \<le> wal_mempoolBal w" using f(7) amt(1) by (simp add: f(1) Transfer_TotalAmount_def value_or_zero_def)
  then have "unat amt + unat (tx_Fee tx) \<le> unat (wal_mempoolBal w)"
    using room by (simp add: word_le_nat_alt unat_add64)
  then show "\<exists>amt. Data_TotalAmount (tx_Data tx) tx = Inr amt \<and> unat amt = coins_to (\<lambda>_. True) outs \<and>
       unat amt + unat (tx_Fee tx) \<le> unat (wal_mempoolBal w)" using amt by blast
  have "(if height \<ge> HARDFORK_V3_HEIGHT then FEE_PER_BYTE_V2 else FEE_PER_BYTE) * GetVirtualSize tx \<le> tx_Fee tx"
    using fee vs len by (simp add: word_le_nat_alt config_defs unat_mult64)
  moreover have "version_error height (tx_Version tx) = None"
    using t(2) by (auto simp: not_le not_less f(4) version_error_def config_defs tx_versions)
  moreover have "merge_outputs outs \<noteq> []" using n(1) by (cases outs) simp_all
  then have "Data_Prevalidate (tx_Data tx) tx = None" using n(2) by (simp add: f(1))
  moreover have "VerifySignature c (tx_Signer tx) (SignatureData tx) (tx_Signature tx)"
    using sig by (simp add: f(2,6) VerifySignature_def Sign_def signs_def)
  ultimately show "Tx_Prevalidate c tx height = None"
    using lim(2) addr amt(1) room unfolding Tx_Prevalidate_None Tx_TotalAmount_Inr by (simp add: f(2))
qed

context adb_txn
begin

lemma states_ok_load: "states_ok e t \<Longrightarrow> \<exists>st. load_state e t a = Inr st"
  by (cases "kvGet e t IdxState (arr_bytes a)")
    (fastforce simp: load_state_def GetState_def states_ok_def split: prod.splits option.splits)+

lemma states_ok_load_states: "states_ok e t \<Longrightarrow> \<exists>m. load_states e t as = Inr m"
proof (induction as)
  case (Cons a as)
  then show ?case using states_ok_load [OF Cons.prems, of a] by auto
qed simp

text \<open>A transfer on top of waiting entries: what the simulation leaves of the account decides.\<close>

lemma transfer_validates_after:
  assumes t: "tx_Data tx = Transfer outs" "tx_Version tx = 0 \<or> tx_Version tx = 1" "FromPubKey e (tx_Signer tx) = a"
    and fee: "FEE_PER_BYTE_V2 * GetVirtualSize tx \<le> tx_Fee tx"
    and amt: "Data_TotalAmount (tx_Data tx) tx = Inr amt" "unat amt + unat (tx_Fee tx) \<le> unat (Balance st)"
    and states: "load_states e txn (a # a # map Recipient outs) = Inr states"
    and sim: "sim_entries e txn h a height mem \<lparr>sim_states = states, sim_delegates = (\<lambda>_. None)\<rparr> = Inr m"
    and st: "sim_states m a = Some st" "tx_Nonce tx = LastNonce st + 1"
  shows "validateMempoolTx e txn tx h mem height = Inr ()"
proof -
  have room: "unat amt + unat (tx_Fee tx) < 2 ^ 64" using amt(2) unat_lt64 [of "Balance st"] by simp
  have tot: "Tx_TotalAmount tx = Inr (amt + tx_Fee tx)" using amt(1) room by (simp add: Tx_TotalAmount_Inr)
  have v: "outputs_total 0 outs = Inr amt" using amt(1) by (simp add: t(1) Transfer_TotalAmount_def)
  have "outputs_sum (map normal_output outs) + unat (tx_Fee tx) = unat amt + unat (tx_Fee tx)"
    using Tx_balanced [OF tot, of a e] room by (auto simp: t(1) unat_add64)
  then have sum: "foldl (\<lambda>s out. s + so_Amount out) 0 (map normal_output outs) = amt"
    using unat_lt64 [of amt] by (simp add: word_unat_eq_iff foldl_add_outputs)
  have bal: "\<not> Balance st < amt + tx_Fee tx" using amt(2) room by (simp add: word_less_nat_alt unat_add64)
  have inputs: "StateInputs e (Transfer outs) tx a = [\<lparr>si_Amount = amt + tx_Fee tx, si_Sender = a, si_Type = IN_NORMAL, si_ExtraData = 0\<rparr>]"
    by (simp add: Transfer_TotalAmount_def v value_or_zero_def)
  have outputs: "map so_Recipient (map normal_output outs) = map Recipient outs" by (simp add: normal_output_def comp_def)
  have versions: "tx_Version tx \<noteq> TX_VERSION_STAKE" "tx_Version tx \<noteq> TX_VERSION_UNSTAKE"
    "tx_Version tx \<noteq> TX_VERSION_REGISTER_DELEGATE" "tx_Version tx \<noteq> TX_VERSION_SET_DELEGATE"
    using t(2) by (auto simp: tx_versions)
  show ?thesis
    using fee tot sum bal states sim st versions unfolding validateMempoolTx_def Let_def t(1,3) inputs only_if_def StateOutputs.simps
      Transfer_StateOutputs_def res_bind.simps outputs
    by (simp add: not_less del: load_states.simps map_map)
qed

text \<open>With the state of the account at hand, an empty mempool accepts the transfer.\<close>

lemma transfer_validates:
  assumes t: "tx_Data tx = Transfer outs" "tx_Version tx = 0 \<or> tx_Version tx = 1" "FromPubKey e (tx_Signer tx) = a"
    and fee: "FEE_PER_BYTE_V2 * GetVirtualSize tx \<le> tx_Fee tx"
    and amt: "Data_TotalAmount (tx_Data tx) tx = Inr amt" "unat amt + unat (tx_Fee tx) \<le> unat (Balance st)"
    and st: "states_ok e txn" "GetState e txn a = Inr st" "tx_Nonce tx = LastNonce st + 1"
  shows "validateMempoolTx e txn tx h [] height = Inr ()"
proof -
  obtain m where m: "load_states e txn (a # a # map Recipient outs) = Inr m"
    using states_ok_load_states [OF st(1)] by blast
  then have "m a = Some st" using load_states_get [OF m, of a] st(2) by (simp add: load_state_def)
  then have loaded: "sim_states \<lparr>sim_states = m, sim_delegates = (\<lambda>_. None)\<rparr> a = Some st" by simp
  have "sim_entries e txn h a height [] \<lparr>sim_states = m, sim_delegates = (\<lambda>_. None)\<rparr> =
      Inr \<lparr>sim_states = m, sim_delegates = (\<lambda>_. None)\<rparr>" by simp
  from transfer_validates_after [OF t fee amt m this loaded st(3)] show ?thesis .
qed

text \<open>Accepted means stored, and nothing else is in the way.\<close>

lemma AddTransaction_accepts:
  assumes "validateMempoolTx e txn tx h [] height = Inr ()" "GetMempool e txn = Inr []"
    "kvGet e txn IdxTx (arr_bytes h) = None"
  shows "\<exists>t'. AddTransaction e now tx h True height txn = (t', None)"
proof -
  obtain outs where "StateOutputs (tx_Data tx) tx (FromPubKey e (tx_Signer tx)) = Inr outs"
    using assms(1) by (rule validate_empty_pool)
  then show ?thesis
    using assms by (simp add: AddTransaction_def mempool_entry_def Let_def SetTx_def kvPut_eq GetEntry_def SetMempool_def)
qed

lemma wallet_transfer_lands:
  assumes t: "Wallet_Transfer e (ManualRefresh st topHeight w) outs (height \<ge> HARDFORK_V2_HEIGHT) = Inr tx"
    and addr: "wal_Address w = FromPubKey e (Privkey_Public (wal_PrivateKey w))" "wal_Address w \<noteq> INVALID_ADDRESS"
    and sig: "signs e (wal_PrivateKey w)"
    and n: "outs \<noteq> []" "length (merge_outputs outs) \<le> MAX_OUTPUTS" "coins_to (\<lambda>_. True) outs < 2 ^ 63"
    and st: "states_ok e (cs_txn s)" "total_balance e (cs_txn s) < 2 ^ 64" "GetState e (cs_txn s) (wal_Address w) = Inr st"
    and pool: "GetMempool e (cs_txn s) = Inr []" "kvGet e (cs_txn s) IdxTx (arr_bytes h) = None"
  obtains t' s' where "Tx_Prevalidate e tx height = None" "AddTransaction e now tx h True height (cs_txn s) = (t', None)"
    "ApplyTxToState e tx (wal_Address w) bl bh h (s\<lparr>cs_txn := t'\<rparr>) = (s', None)"
    "\<And>a. balance_of e (cs_txn s') a + (if a = wal_Address w then coins_to (\<lambda>_. True) outs + unat (tx_Fee tx) else 0) =
       balance_of e (cs_txn s) a + coins_to (\<lambda>r. r = a) outs"
proof -
  let ?w = "ManualRefresh st topHeight w" and ?a = "wal_Address w"
  have w: "wal_Address ?w = ?a" "wal_PrivateKey ?w = wal_PrivateKey w" "wal_mempoolBal ?w = Balance st" "wal_mempoolNonce ?w = LastNonce st"
    by (simp_all add: ManualRefresh_def)
  note f = Wallet_Transfer_parts [OF t, unfolded w, OF addr(1)]
  note v = wallet_transfer_valid [OF t refl, unfolded w, OF addr sig n]
  obtain amt where amt: "Data_TotalAmount (tx_Data tx) tx = Inr amt" "unat amt = coins_to (\<lambda>_. True) outs"
    "unat amt + unat (tx_Fee tx) \<le> unat (Balance st)" using v(2) by blast
  have signer: "FromPubKey e (tx_Signer tx) = ?a" by (simp add: f(2) addr(1))
  have ver: "tx_Version tx = 0 \<or> tx_Version tx = 1" by (simp add: f(4))
  have val: "validateMempoolTx e (cs_txn s) tx h [] height = Inr ()"
    by (rule transfer_validates [OF f(1) ver signer _ amt(1,3) st(1,3) f(3)]) (simp add: f(5) mult.commute)
  obtain t' where add: "AddTransaction e now tx h True height (cs_txn s) = (t', None)"
    using AddTransaction_accepts [OF val pool] by blast
  have kind: "tx_matches tx" "tx_Version tx \<noteq> TX_VERSION_STAKE" "tx_Version tx \<noteq> TX_VERSION_UNSTAKE"
    by (simp_all add: tx_matches_def f(1,4) tx_versions)
  obtain s' where app: "ApplyTxToState e tx ?a bl bh h (s\<lparr>cs_txn := t'\<rparr>) = (s', None)"
    using accepted_applies [OF add pool(2,1) v(1) kind] signer by metis
  have only: "only_writes e {IdxTx, IdxInfo} (cs_txn s) t'" by (rule AddTransaction_parts [OF add pool(2,1)])
  have same: "balance_of e t' b = balance_of e (cs_txn s) b" for b
    using only_writes_GetState [OF only] by (simp add: balance_of_def)
  have ok': "states_ok e (cs_txn (s\<lparr>cs_txn := t'\<rparr>))" "total_balance e (cs_txn (s\<lparr>cs_txn := t'\<rparr>)) < 2 ^ 64"
    using st only_writes_states_ok [OF only] only_writes_total_balance [OF only] by simp_all
  have room: "unat amt + unat (tx_Fee tx) < 2 ^ 64" using amt(3) unat_lt64 [of "Balance st"] by simp
  have tot: "Tx_TotalAmount tx = Inr (amt + tx_Fee tx)" using amt(1) room by (simp add: Tx_TotalAmount_Inr)
  have outs: "StateOutputs (tx_Data tx) tx ?a = Inr (map normal_output (merge_outputs outs))" by (simp add: f(1))
  have "debits b (StateInputs e (tx_Data tx) tx ?a) = (if b = ?a then coins_to (\<lambda>_. True) outs + unat (tx_Fee tx) else 0)" for b
    using amt(1,2) room by (simp add: f(1) debits_def inputs_sum_def value_or_zero_def unat_add64)
  moreover have "credits b (map normal_output (merge_outputs outs)) = coins_to (\<lambda>r. r = b) outs" for b
    using merge_outputs_coins [of outs "\<lambda>r. r = b"] n(3)
    by (simp add: credits_def outputs_sum_def coins_to_def filter_map comp_def normal_output_def)
  ultimately have "balance_of e (cs_txn s') b + (if b = ?a then coins_to (\<lambda>_. True) outs + unat (tx_Fee tx) else 0) =
       balance_of e (cs_txn s) b + coins_to (\<lambda>r. r = b) outs" for b
    using ApplyTx_ledger(5) [OF app tot ok' outs, of b] same by simp
  then show thesis using that v(1) add app by blast
qed

end

end
