(* ===== verification/NodeRpc.thy ===== *)
theory NodeRpc
  imports NodeHandlers Wallet
begin

text \<open>
  The requests that a node answers, \<^verbatim>\<open>src/cmd/virel-node/noderpc.go\<close>: one definition for each handler, from the
  decoded parameters and the state of the node to the response. Decoding the parameters from JSON and
  encoding the response is left out, as are the log lines; a response has its numbers and hashes where the JSON
  has their text.
\<close>

section \<open>Responses\<close>

datatype 'a response = SuccessResponse 'a | ErrorResponse int string | Crashed string

definition invalidParams :: int where "invalidParams = -32602"
definition internalValidationErr :: int where "internalValidationErr = -32000"
definition internalReadFailed :: int where "internalReadFailed = -32001"
definition internalInsertFailed :: int where "internalInsertFailed = -32002"
definition TX_LIST_PAGE_SIZE :: u64 where "TX_LIST_PAGE_SIZE = 25"

text \<open>An error that the handler answers itself; a panic ends the handler.\<close>

fun answer :: "'a res \<Rightarrow> (error \<Rightarrow> 'b response) \<Rightarrow> ('a \<Rightarrow> 'b response) \<Rightarrow> 'b response" where
  "answer (Inl (Panic m)) onErr f = Crashed m"
| "answer (Inl err) onErr f = onErr err"
| "answer (Inr a) onErr f = f a"

section \<open>Blocks\<close>

record GetBlockResponse =
  gb_Block :: Block
  gb_Hash :: hash
  gb_TotalReward :: u64
  gb_MinerReward :: u64
  gb_StakerReward :: u64
  gb_GovernanceReward :: u64
  gb_Miner :: string
  gb_Delegate :: address
  gb_NextDelegate :: address

definition share :: "StateOutputType \<Rightarrow> CoinbaseOutput list \<Rightarrow> u64" where
  "share ty outs = foldl (\<lambda>s v. if co_Type v = ty then s + co_Amount v else s) 0 outs"

definition block_response :: "'x crypto_scheme \<Rightarrow> Block \<Rightarrow> GetBlockResponse response" where
  "block_response c bl =
     answer (CoinbaseTransaction bl (Block_Reward bl)) (\<lambda>_. Crashed [])
       (\<lambda>outputs. SuccessResponse
          \<lparr>gb_Block = bl, gb_Hash = Block_Hash c bl, gb_TotalReward = Block_Reward bl,
           gb_MinerReward = share OUT_COINBASE_POW outputs, gb_StakerReward = share OUT_COINBASE_POS outputs,
           gb_GovernanceReward = share OUT_COINBASE_DEV outputs, gb_Miner = Address_String (bl_Recipient bl),
           gb_Delegate = (if Version bl > 0 then NewDelegateAddress (bl_DelegateId bl) else 0),
           gb_NextDelegate = (if Version bl > 0 then NewDelegateAddress (NextDelegateId bl) else 0)\<rparr>)"

definition get_block_by_hash :: "('t, 'x) ext_scheme \<Rightarrow> 't \<Rightarrow> hash \<Rightarrow> GetBlockResponse response" where
  "get_block_by_hash e txn h =
     answer (res_bind (GetBlock e txn h) (\<lambda>bl.
             res_bind (GetTopo e txn (Height bl)) (\<lambda>topo.
               if topo \<noteq> Block_Hash e bl then Inl (Err ''block is orphan'') else Inr bl)))
       (\<lambda>err. if err = Err ''block is orphan'' then ErrorResponse internalReadFailed ''block is orphan''
              else ErrorResponse internalReadFailed ''Block not found'')
       (block_response e)"

definition get_block_by_height :: "('t, 'x) ext_scheme \<Rightarrow> 't \<Rightarrow> u64 \<Rightarrow> GetBlockResponse response" where
  "get_block_by_height e txn height =
     answer (GetBlockByHeight e txn height) (\<lambda>_. ErrorResponse internalReadFailed ''block not found'') (block_response e)"

section \<open>Transactions\<close>

record GetTransactionResponse =
  gt_Signer :: "Integrated option"
  gt_Inputs :: "StateInput list"
  gt_Outputs :: "StateOutput list"
  gt_TotalAmount :: u64
  gt_Fee :: u64
  gt_Nonce :: u64
  gt_Signature :: "signature option"
  gt_Height :: u64
  gt_Coinbase :: bool
  gt_VirtualSize :: u64

text \<open>The reward of a block with the fees of those of its transactions that are found.\<close>

fun add_fees :: "('t, 'x) ext_scheme \<Rightarrow> 't \<Rightarrow> u64 \<Rightarrow> u64 \<Rightarrow> hash list \<Rightarrow> u64 res" where
  "add_fees e txn height reward [] = Inr reward"
| "add_fees e txn height reward (v # vs) =
     (case GetTx e txn v height of
        Inl (Panic m) \<Rightarrow> Inl (Panic m)
      | Inl _ \<Rightarrow> add_fees e txn height reward vs
      | Inr (tx, _) \<Rightarrow> add_fees e txn height (reward + tx_Fee tx) vs)"

definition coinbase_response :: "('t, 'x) ext_scheme \<Rightarrow> 't \<Rightarrow> hash \<Rightarrow> GetTransactionResponse response" where
  "coinbase_response e txn txid =
     answer (res_bind (GetBlock e txn txid) (\<lambda>bl.
             res_bind (GetTopo e txn (Height bl)) (\<lambda>topoHash.
               if topoHash \<noteq> txid then Inl (Err ''coinbase tx is orphan'')
               else res_bind (add_fees e txn (Height bl) (Block_Reward bl) (bl_Transactions bl)) (\<lambda>reward. Inr (bl, reward)))))
       (\<lambda>err. if err = Err ''coinbase tx is orphan'' then ErrorResponse internalReadFailed ''coinbase transaction is orphan''
              else ErrorResponse internalReadFailed ''transaction not found'')
       (\<lambda>(bl, reward). answer (CoinbaseTransaction bl reward) (\<lambda>_. Crashed []) (\<lambda>cout.
          SuccessResponse
            \<lparr>gt_Signer = None, gt_Inputs = [],
             gt_Outputs = map (\<lambda>v. \<lparr>so_Type = co_Type v, so_Amount = co_Amount v, so_Recipient = co_Recipient v,
                                     so_PaymentId = 0, so_ExtraData = 0\<rparr>) cout,
             gt_TotalAmount = reward, gt_Fee = 0, gt_Nonce = 0, gt_Signature = None, gt_Height = Height bl,
             gt_Coinbase = True, gt_VirtualSize = 0\<rparr>))"

definition get_transaction :: "('t, 'x) ext_scheme \<Rightarrow> 't \<Rightarrow> hash \<Rightarrow> GetTransactionResponse response" where
  "get_transaction e txn txid =
     answer (res_bind (GetStats e txn) (\<lambda>stats. GetTx e txn txid (TopHeight stats)))
       (\<lambda>_. coinbase_response e txn txid)
       (\<lambda>(tx, height).
          let signer = FromPubKey e (tx_Signer tx)
          in answer (Tx_TotalAmount tx) (\<lambda>_. ErrorResponse internalReadFailed ''Invalid outputs in TX'') (\<lambda>amount.
             answer (StateOutputs (tx_Data tx) tx signer) (\<lambda>_. Crashed []) (\<lambda>outs.
               SuccessResponse
                 \<lparr>gt_Signer = Some (Address_Integrated signer), gt_Inputs = StateInputs e (tx_Data tx) tx signer,
                  gt_Outputs = outs, gt_TotalAmount = amount, gt_Fee = tx_Fee tx, gt_Nonce = tx_Nonce tx,
                  gt_Signature = Some (tx_Signature tx), gt_Height = height, gt_Coinbase = False,
                  gt_VirtualSize = GetVirtualSize tx\<rparr>)))"

text \<open>The new state of the node, its response and the packets that leave with it.\<close>

definition submit_transaction ::
  "('t, 'x) ext_scheme \<Rightarrow> int \<Rightarrow> bytes \<Rightarrow> 't peer_node \<Rightarrow> 't peer_node \<times> hash response \<times> Packet list" where
  "submit_transaction e now hex pn =
     (let txn = nd_txn (pn_node pn)
      in case GetStats e txn of Inl err \<Rightarrow> (pn, answer (Inl err) (\<lambda>_. Crashed []) SuccessResponse, []) | Inr stats \<Rightarrow>
         case Tx_Deserialize hex (TopHeight stats + 1 \<ge> HARDFORK_V2_HEIGHT) of
           Inl err \<Rightarrow> (pn, answer (Inl err) (\<lambda>_. ErrorResponse invalidParams ''invalid transaction hex data'') SuccessResponse, [])
         | Inr tx \<Rightarrow>
         case Tx_Prevalidate e tx (TopHeight stats + 1) of
           Some err \<Rightarrow> (pn, answer (Inl err) (\<lambda>_. ErrorResponse internalValidationErr ''transaction verification failed'') SuccessResponse, [])
         | None \<Rightarrow>
             let h = Tx_Hash e tx;
                 (t, err) = DB_Update (AddTransaction e now tx h True (TopHeight stats + 1)) txn
             in (pn\<lparr>pn_node := (pn_node pn)\<lparr>nd_txn := t\<rparr>\<rparr>,
                 (case err of
                    None \<Rightarrow> SuccessResponse h
                  | Some err \<Rightarrow> answer (Inl err) (\<lambda>_. ErrorResponse internalInsertFailed ''failed to add transaction to chain'') SuccessResponse),
                 if accepts_tx e txn tx h (TopHeight stats + 1) then BroadcastTx pn tx else []))"

section \<open>The state of the chain\<close>

record GetInfoResponse =
  gi_Height :: u64
  gi_TopHash :: hash
  gi_TotalSupply :: u64
  gi_CirculatingSupply :: u64
  gi_MaxSupply :: u64
  gi_SupplyCap :: u64
  gi_Burned :: u64
  gi_Stake :: u64
  gi_Coin :: u64
  gi_Difficulty :: Uint128
  gi_CumulativeDiff :: Uint128
  gi_Target :: int
  gi_BlockReward :: u64
  gi_Connections :: nat

definition get_info :: "('t, 'x) ext_scheme \<Rightarrow> 't peer_node \<Rightarrow> GetInfoResponse response" where
  "get_info e pn =
     (let txn = nd_txn (pn_node pn)
      in answer (res_bind (GetStats e txn) (\<lambda>stats. res_bind (GetBlock e txn (TopHash stats)) (\<lambda>topBl. Inr (stats, topBl))))
           (\<lambda>_. Crashed ''fatal'')
           (\<lambda>(stats, topBl).
              let burned = (case GetState e txn INVALID_ADDRESS of Inr st \<Rightarrow> Balance st | Inl _ \<Rightarrow> 0);
                  supply = GetSupplyAtHeight (TopHeight stats)
              in SuccessResponse
                   \<lparr>gi_Height = TopHeight stats, gi_TopHash = TopHash stats, gi_TotalSupply = supply,
                    gi_CirculatingSupply = supply - burned, gi_MaxSupply = MAX_SUPPLY, gi_SupplyCap = MAX_SUPPLY - burned,
                    gi_Burned = burned, gi_Stake = StakedAmount stats, gi_Coin = COIN, gi_Difficulty = Difficulty topBl,
                    gi_CumulativeDiff = CumulativeDiff stats, gi_Target = TARGET_BLOCK_TIME,
                    gi_BlockReward = Reward (TopHeight stats), gi_Connections = length (pn_peers pn)\<rparr>))"

section \<open>Accounts\<close>

definition address_input :: "address \<Rightarrow> GetAddressResponse \<Rightarrow> StateInput \<Rightarrow> GetAddressResponse" where
  "address_input addr result inp =
     (if si_Sender inp = addr then
        let result = result\<lparr>ga_MempoolBalance := ga_MempoolBalance result - si_Amount inp,
                            ga_MempoolNonce := ga_MempoolNonce result + 1\<rparr>
        in if si_Amount inp > ga_Balance result then result
           else result\<lparr>ga_Balance := ga_Balance result - si_Amount inp, ga_LastNonce := ga_LastNonce result + 1\<rparr>
      else result)"

definition address_output :: "address \<Rightarrow> GetAddressResponse \<Rightarrow> Output \<Rightarrow> GetAddressResponse" where
  "address_output addr result out =
     (if Recipient out = addr then result\<lparr>ga_MempoolBalance := ga_MempoolBalance result + Amount out\<rparr> else result)"

definition address_entry :: "address \<Rightarrow> GetAddressResponse \<Rightarrow> MempoolEntry \<Rightarrow> GetAddressResponse" where
  "address_entry addr result v =
     (if list_ex (\<lambda>inp. si_Sender inp = addr) (me_Inputs v) \<or> list_ex (\<lambda>out. Recipient out = addr) (me_Outputs v)
      then foldl (address_output addr) (foldl (address_input addr) result (me_Inputs v)) (me_Outputs v)
      else result)"

definition address_state :: "('t, 'x) ext_scheme \<Rightarrow> 't \<Rightarrow> address \<Rightarrow> GetAddressResponse res" where
  "address_state e txn addr =
     res_bind (GetState e txn addr) (\<lambda>state.
     res_bind (GetStats e txn) (\<lambda>stats.
       Inr \<lparr>ga_Balance = Balance state, ga_LastNonce = LastNonce state, ga_LastIncoming = LastIncoming state,
            ga_MempoolBalance = 0, ga_MempoolNonce = 0, ga_MempoolIncoming = 0, ga_DelegateId = st_DelegateId state,
            ga_Height = TopHeight stats\<rparr>))"

definition get_address :: "('t, 'x) ext_scheme \<Rightarrow> 't \<Rightarrow> string \<Rightarrow> GetAddressResponse response" where
  "get_address e txn text =
     answer (FromString text) (\<lambda>_. ErrorResponse invalidParams ''invalid wallet address'') (\<lambda>a.
       case a of Integrated addr _ \<Rightarrow>
       let withState = (\<lambda>result.
             let result = result\<lparr>ga_MempoolBalance := ga_Balance result, ga_MempoolNonce := ga_LastNonce result\<rparr>
             in answer (GetMempool e txn) (\<lambda>_. Crashed [])
                  (\<lambda>mem. SuccessResponse (foldl (address_entry addr) result mem)))
       in answer (address_state e txn addr)
            (\<lambda>_. withState \<lparr>ga_Balance = 0, ga_LastNonce = 0, ga_LastIncoming = 0, ga_MempoolBalance = 0,
                    ga_MempoolNonce = 0, ga_MempoolIncoming = 0, ga_DelegateId = 0, ga_Height = 0\<rparr>)
            withState)"

record GetTxListResponse =
  gl_Transactions :: "hash list"
  gl_MaxPage :: u64

fun topo_list :: "(u64 \<Rightarrow> hash res) \<Rightarrow> u64 \<Rightarrow> nat \<Rightarrow> hash list res" where
  "topo_list getTopo i 0 = Inr []"
| "topo_list getTopo i (Suc n) =
     res_bind (getTopo (i + 1)) (\<lambda>h. res_bind (topo_list getTopo (i + 1) n) (\<lambda>hs. Inr (h # hs)))"

text \<open>The numbers are those of Go's \<open>uint64\<close>; the lower end is computed in \<open>int64\<close>.\<close>

definition tx_page :: "(u64 \<Rightarrow> hash res) \<Rightarrow> u64 \<Rightarrow> u64 \<Rightarrow> GetTxListResponse res" where
  "tx_page getTopo startNum page =
     (let maxPage = (if startNum > 0 then (startNum - 1) div TX_LIST_PAGE_SIZE else 0);
          page = (if page > maxPage then maxPage else page);
          startNum = startNum - page * TX_LIST_PAGE_SIZE;
          endNum = (if sint (startNum - TX_LIST_PAGE_SIZE) > 0 then startNum - TX_LIST_PAGE_SIZE else 0)
      in if startNum < endNum then Inr \<lparr>gl_Transactions = [], gl_MaxPage = maxPage\<rparr>
         else res_bind (topo_list getTopo endNum (unat (startNum - endNum)))
                (\<lambda>list. Inr \<lparr>gl_Transactions = list, gl_MaxPage = maxPage\<rparr>))"

definition get_tx_list :: "('t, 'x) ext_scheme \<Rightarrow> 't \<Rightarrow> address \<Rightarrow> string \<Rightarrow> u64 \<Rightarrow> GetTxListResponse response" where
  "get_tx_list e txn addr txType page =
     (let notFound = SuccessResponse \<lparr>gl_Transactions = [], gl_MaxPage = 0\<rparr>
      in if txType = ''incoming'' then
           answer (res_bind (GetState e txn addr) (\<lambda>s. tx_page (GetTxTopoInc e txn addr) (LastIncoming s) page))
             (\<lambda>_. notFound) SuccessResponse
         else if txType = ''outgoing'' then
           answer (res_bind (GetState e txn addr) (\<lambda>s. tx_page (GetTxTopoOut e txn addr) (LastNonce s) page))
             (\<lambda>_. notFound) SuccessResponse
         else ErrorResponse invalidParams ''invalid transfer_type received, must be incoming or outgoing'')"

record ValidateAddressResponse =
  va_Address :: string
  va_Valid :: bool
  va_ErrorMessage :: string
  va_MainAddress :: string
  va_PaymentId :: u64

definition validate_address :: "string \<Rightarrow> ValidateAddressResponse response" where
  "validate_address text =
     answer (FromString text)
       (\<lambda>err. SuccessResponse \<lparr>va_Address = text, va_Valid = False,
                va_ErrorMessage = (case err of Err m \<Rightarrow> m | Panic m \<Rightarrow> m), va_MainAddress = [], va_PaymentId = 0\<rparr>)
       (\<lambda>a. case a of Integrated addr pid \<Rightarrow>
          SuccessResponse
            (if addr = INVALID_ADDRESS
             then \<lparr>va_Address = text, va_Valid = False, va_ErrorMessage = ''address is the zero address'',
                   va_MainAddress = [], va_PaymentId = 0\<rparr>
             else \<lparr>va_Address = text, va_Valid = True, va_ErrorMessage = [], va_MainAddress = Address_String addr,
                   va_PaymentId = pid\<rparr>))"

section \<open>Delegates\<close>

definition submit_stake_signature ::
  "('t, 'x) ext_scheme \<Rightarrow> u64 \<Rightarrow> bytes \<Rightarrow> bytes \<Rightarrow> 't peer_node \<Rightarrow> 't peer_node \<times> (bool \<times> string) response \<times> Packet list" where
  "submit_stake_signature e did h sig pn =
     (if length h \<noteq> 32 \<or> length sig \<noteq> 64 then (pn, ErrorResponse (-1) ''invalid hash or signature length'', [])
      else
        let ((pn', err), ps) = HandleStakeSignature e \<lparr>ss_DelegateId = did, ss_Hash = arr_of h, ss_Signature = arr_of sig\<rparr> pn
        in (pn', (case err of
                    None \<Rightarrow> SuccessResponse (True, [])
                  | Some err \<Rightarrow> answer (Inl err) (\<lambda>err. SuccessResponse (False, case err of Err m \<Rightarrow> m | Panic m \<Rightarrow> m)) SuccessResponse), ps))"

definition get_delegate :: "('t, 'x) ext_scheme \<Rightarrow> 't \<Rightarrow> u64 \<Rightarrow> string \<Rightarrow> GetDelegateResponse response" where
  "get_delegate e txn delegateId delegateAddress =
     (let n = length DELEGATE_ADDRESS_PREFIX;
          lookup = (\<lambda>did.
            answer (GetDelegate e txn did) (\<lambda>_. ErrorResponse internalReadFailed ''failed to get delegate'') (\<lambda>delegate.
            answer (Delegate_TotalAmount delegate) (\<lambda>_. Crashed []) (\<lambda>total.
              SuccessResponse
                \<lparr>gd_Id = did, gd_Address = NewDelegateAddress did, gd_Owner = OwnerAddress e delegate,
                 gd_TotalAmount = total, gd_Name = d_Name delegate, gd_Funds = d_Funds delegate\<rparr>)))
      in if delegateId \<noteq> 0 then lookup delegateId
         else if take n delegateAddress \<noteq> DELEGATE_ADDRESS_PREFIX
         then ErrorResponse (-1) ''invalid delegate address prefix''
         else answer (strconv_ParseUint (drop n delegateAddress))
                (\<lambda>_. ErrorResponse (-1) ''invalid delegate address'') lookup)"

definition calc_pow :: "'x crypto_scheme \<Rightarrow> bytes \<Rightarrow> hash \<Rightarrow> hash response" where
  "calc_pow c blob seedHash = SuccessResponse (randomvirel_PowHash c seedHash blob)"

text \<open>What the client of the wallet makes of a response: an error answer and a broken connection are errors.\<close>

fun client :: "'a response \<Rightarrow> 'a res" where
  "client (SuccessResponse a) = Inr a"
| "client (ErrorResponse code m) = Inl (Err m)"
| "client (Crashed m) = Inl (Err m)"

section \<open>The account as the mempool sees it\<close>

text \<open>An entry that spends from its signer alone, as every transaction but an unstake does.\<close>

definition entry_plain :: "address \<Rightarrow> MempoolEntry \<Rightarrow> bool" where
  "entry_plain a en \<longleftrightarrow> length (filter (\<lambda>inp. si_Sender inp = a) (me_Inputs en)) = (if me_Signer en = a then 1 else 0)"

definition taken :: "address \<Rightarrow> StateInput list \<Rightarrow> u64" where
  "taken a inps = (\<Sum>inp\<leftarrow>filter (\<lambda>inp. si_Sender inp = a) inps. si_Amount inp)"

definition given :: "address \<Rightarrow> Output list \<Rightarrow> u64" where
  "given a outs = (\<Sum>out\<leftarrow>filter (\<lambda>out. Recipient out = a) outs. Amount out)"

lemma sim_inputs_at:
  "sim_inputs inps m = Inr m' \<Longrightarrow> m a = Some st \<Longrightarrow>
   m' a = Some (st\<lparr>Balance := Balance st - taken a inps\<rparr>)"
proof (induction inps arbitrary: m st)
  case (Cons inp inps)
  then show ?case
    by (cases "m (si_Sender inp)") (auto simp: taken_def algebra_simps split: if_splits)
qed (simp add: taken_def)

lemma sim_outputs_at:
  "m a = Some st \<Longrightarrow>
   \<exists>st'. sim_outputs outs m a = Some st' \<and> Balance st' = Balance st + given a outs \<and> LastNonce st' = LastNonce st"
proof (induction outs arbitrary: m st)
  case (Cons out outs)
  let ?in = "\<lambda>st :: State. st\<lparr>Balance := Balance st + Amount out, LastIncoming := LastIncoming st + 1\<rparr>"
  let ?m = "case m (Recipient out) of None \<Rightarrow> m | Some st \<Rightarrow> m(Recipient out \<mapsto> ?in st)"
  have step: "sim_outputs (out # outs) m = sim_outputs outs ?m" by (simp split: option.split)
  have "?m a = Some (if Recipient out = a then ?in st else st)" using Cons.prems by (auto split: option.split)
  from Cons.IH [of ?m, OF this] obtain st' where "sim_outputs outs ?m a = Some st'"
    "Balance st' = Balance (if Recipient out = a then ?in st else st) + given a outs"
    "LastNonce st' = LastNonce (if Recipient out = a then ?in st else st)" by blast
  then show ?case unfolding step by (intro exI [of _ st']) (simp add: given_def add.assoc)
qed (simp add: given_def)

lemma sim_kind_at:
  assumes "sim_kind e txn signer topHeight nextheight en m = Inr m'" "sim_states m a = Some st"
  shows "\<exists>st'. sim_states m' a = Some st' \<and> Balance st' = Balance st \<and> LastNonce st' = LastNonce st"
  using assms unfolding sim_kind_def sim_set_delegate_def Let_def
  by (auto simp: outcome_iffs case_prod_beta split: if_splits TransactionData.splits option.splits)

lemma foldl_address_input:
  "ga_MempoolBalance (foldl (address_input a) r inps) = ga_MempoolBalance r - taken a inps"
  "ga_MempoolNonce (foldl (address_input a) r inps) =
     ga_MempoolNonce r + of_nat (length (filter (\<lambda>inp. si_Sender inp = a) inps))"
proof -
  have step: "ga_MempoolBalance (address_input a r inp) = ga_MempoolBalance r - (if si_Sender inp = a then si_Amount inp else 0)"
    "ga_MempoolNonce (address_input a r inp) = ga_MempoolNonce r + (if si_Sender inp = a then 1 else 0)" for r inp
    by (simp_all add: address_input_def Let_def)
  show "ga_MempoolBalance (foldl (address_input a) r inps) = ga_MempoolBalance r - taken a inps"
    "ga_MempoolNonce (foldl (address_input a) r inps) =
       ga_MempoolNonce r + of_nat (length (filter (\<lambda>inp. si_Sender inp = a) inps))"
    by (induction inps arbitrary: r) (simp_all add: step taken_def diff_diff_add add.assoc)
qed

lemma foldl_address_output:
  "ga_MempoolBalance (foldl (address_output a) r outs) = ga_MempoolBalance r + given a outs"
  "ga_MempoolNonce (foldl (address_output a) r outs) = ga_MempoolNonce r"
  by (induction outs arbitrary: r) (simp_all add: address_output_def given_def algebra_simps)

lemma address_entry_at:
  "ga_MempoolBalance (address_entry a r v) = ga_MempoolBalance r - taken a (me_Inputs v) + given a (me_Outputs v)"
  "ga_MempoolNonce (address_entry a r v) =
     ga_MempoolNonce r + of_nat (length (filter (\<lambda>inp. si_Sender inp = a) (me_Inputs v)))"
proof -
  have none: "\<not> list_ex P xs \<Longrightarrow> filter P xs = []" for P and xs :: "'z list"
    by (simp add: list_ex_iff filter_empty_conv)
  show "ga_MempoolBalance (address_entry a r v) = ga_MempoolBalance r - taken a (me_Inputs v) + given a (me_Outputs v)"
    "ga_MempoolNonce (address_entry a r v) =
       ga_MempoolNonce r + of_nat (length (filter (\<lambda>inp. si_Sender inp = a) (me_Inputs v)))"
    by (simp_all add: address_entry_def foldl_address_input foldl_address_output taken_def given_def none)
qed

lemma sim_entry_account:
  assumes sim: "sim_entry e txn h signer n en m = Inr m'" and st: "sim_states m a = Some st"
  shows "\<exists>st'. sim_states m' a = Some st' \<and> Balance st' = Balance st - taken a (me_Inputs en) + given a (me_Outputs en) \<and>
    LastNonce st' = LastNonce st + (if me_Signer en = a then 1 else 0)"
proof -
  let ?st = "if me_Signer en = a then st\<lparr>LastNonce := LastNonce st + 1\<rparr> else st"
  let ?states = "case sim_states m (me_Signer en) of None \<Rightarrow> sim_states m
            | Some st \<Rightarrow> (sim_states m)(me_Signer en \<mapsto> st\<lparr>LastNonce := LastNonce st + 1\<rparr>)"
  have s0: "?states a = Some ?st" using st by (auto split: option.splits)
  have "\<exists>states (stats :: Stats). sim_inputs (me_Inputs en) ?states = Inr states \<and>
    sim_kind e txn signer (TopHeight stats) n en (m\<lparr>sim_states := sim_outputs (me_Outputs en) states\<rparr>) = Inr m'"
    using sim unfolding sim_entry_def Let_def by (auto simp: outcome_iffs split: if_splits)
  then obtain states and stats :: Stats where s: "sim_inputs (me_Inputs en) ?states = Inr states"
    and k: "sim_kind e txn signer (TopHeight stats) n en (m\<lparr>sim_states := sim_outputs (me_Outputs en) states\<rparr>) = Inr m'"
    by blast
  have "states a = Some (?st\<lparr>Balance := Balance ?st - taken a (me_Inputs en)\<rparr>)"
    by (rule sim_inputs_at [OF s s0])
  from sim_outputs_at [of states a, OF this, of "me_Outputs en"] obtain st1
    where st1: "sim_outputs (me_Outputs en) states a = Some st1"
      "Balance st1 = Balance ?st - taken a (me_Inputs en) + given a (me_Outputs en)" "LastNonce st1 = LastNonce ?st" by auto
  have "sim_states (m\<lparr>sim_states := sim_outputs (me_Outputs en) states\<rparr>) a = Some st1" using st1(1) by simp
  from sim_kind_at [OF k this] show ?thesis using st1(2,3) by auto
qed

lemma sim_entries_at:
  "sim_entries e txn h signer n mem m = Inr m' \<Longrightarrow> list_all (entry_plain a) mem \<Longrightarrow>
   sim_states m a = Some st \<Longrightarrow> Balance st = ga_MempoolBalance r \<Longrightarrow> LastNonce st = ga_MempoolNonce r \<Longrightarrow>
   \<exists>st'. sim_states m' a = Some st' \<and> Balance st' = ga_MempoolBalance (foldl (address_entry a) r mem) \<and>
     LastNonce st' = ga_MempoolNonce (foldl (address_entry a) r mem)"
proof (induction mem arbitrary: m st r)
  case (Cons en mem)
  then obtain m1 where m1: "sim_entry e txn h signer n en m = Inr m1" "sim_entries e txn h signer n mem m1 = Inr m'"
    by (auto simp: outcome_iffs)
  from Cons.prems(2) have plain: "entry_plain a en" "list_all (entry_plain a) mem" by simp_all
  obtain st1 where "sim_states m1 a = Some st1" "Balance st1 = ga_MempoolBalance (address_entry a r en)"
      "LastNonce st1 = ga_MempoolNonce (address_entry a r en)"
    using sim_entry_account [OF m1(1) Cons.prems(3)] plain(1) Cons.prems(4,5)
    by (auto simp: address_entry_at entry_plain_def)
  from Cons.IH [OF m1(2) plain(2) this] show ?case by simp
qed simp

text \<open>Every transaction but an unstake makes a plain entry.\<close>

lemma mempool_entry_plain:
  assumes "mempool_entry e now tx h = Inr en" "\<not> is_Unstake (tx_Data tx)"
  shows "entry_plain a en"
  using assms by (cases "tx_Data tx") (auto simp: mempool_entry_def Let_def outcome_iffs entry_plain_def)

context adb_txn
begin

text \<open>Adding a transaction that was checked.\<close>

lemma AddTransaction_appends:
  assumes "validateMempoolTx e txn tx h mem height = Inr ()" "GetMempool e txn = Inr mem" "GetEntry mem h = None"
    "kvGet e txn IdxTx (arr_bytes h) = None" "StateOutputs (tx_Data tx) tx (FromPubKey e (tx_Signer tx)) = Inr outs"
  shows "\<exists>t' en. AddTransaction e now tx h True height txn = (t', None) \<and> mempool_entry e now tx h = Inr en \<and>
    GetMempool e t' = Inr (Mempool_expire now (mem @ [en]))"
proof -
  obtain en where en: "mempool_entry e now tx h = Inr en" using assms(5) by (simp add: mempool_entry_def Let_def)
  obtain t' where t': "AddTransaction e now tx h True height txn = (t', None)"
    using assms en by (simp add: AddTransaction_def SetTx_def kvPut_eq SetMempool_def)
  show ?thesis
    by (rule AddTransaction_parts [OF t' assms(4,2)]) (use en t' in auto)
qed

lemma validate_parts:
  assumes "validateMempoolTx e t tx h mem nextheight = Inr ()"
  obtains outs :: "StateOutput list" and states m and st :: State
  where "load_states e t (FromPubKey e (tx_Signer tx) # map si_Sender (StateInputs e (tx_Data tx) tx (FromPubKey e (tx_Signer tx))) @
       map so_Recipient outs) = Inr states"
    "sim_entries e t h (FromPubKey e (tx_Signer tx)) nextheight mem \<lparr>sim_states = states, sim_delegates = (\<lambda>_. None)\<rparr> = Inr m"
    "sim_states m (FromPubKey e (tx_Signer tx)) = Some st" "tx_Nonce tx = LastNonce st + 1"
proof -
  obtain outs where outs: "StateOutputs (tx_Data tx) tx (FromPubKey e (tx_Signer tx)) = Inr outs"
    using assms unfolding validateMempoolTx_def Let_def by (auto simp: outcome_iffs split: if_splits)
  obtain states where states: "load_states e t (FromPubKey e (tx_Signer tx) # map si_Sender (StateInputs e (tx_Data tx) tx (FromPubKey e (tx_Signer tx))) @
       map so_Recipient outs) = Inr states"
    using assms outs unfolding validateMempoolTx_def Let_def by (auto simp: outcome_iffs split: if_splits simp del: load_states.simps)
  obtain m where m: "sim_entries e t h (FromPubKey e (tx_Signer tx)) nextheight mem \<lparr>sim_states = states, sim_delegates = (\<lambda>_. None)\<rparr> = Inr m"
    using assms outs states unfolding validateMempoolTx_def Let_def by (auto simp: outcome_iffs split: if_splits simp del: load_states.simps)
  obtain st where "sim_states m (FromPubKey e (tx_Signer tx)) = Some st" "tx_Nonce tx = LastNonce st + 1"
    using assms outs states m unfolding validateMempoolTx_def Let_def
    by (auto simp: outcome_iffs split: if_splits option.splits simp del: load_states.simps)
  then show thesis by (rule that [OF states m])
qed

text \<open>An unstake that is waiting counts for the nonce in the simulation but not in the answer of the node.\<close>

lemma waiting_unstake_hides_nonce:
  assumes en: "mempool_entry e now utx uh = Inr en" "tx_Data utx = Unstake amount did" "FromPubKey e (tx_Signer utx) = a"
      "a \<noteq> NewDelegateAddress did"
    and store: "GetStats e txn = Inr stats" "GetState e txn a = Inr st" "GetMempool e txn = Inr [en]"
      "FromString (Address_String a) = Inr (Address_Integrated a)"
    and tx: "FromPubKey e (tx_Signer tx) = a" "get_address e txn (Address_String a) = SuccessResponse res"
      "tx_Nonce tx = ga_MempoolNonce res + 1"
  shows "validateMempoolTx e txn tx h [en] height \<noteq> Inr ()"
proof
  assume "validateMempoolTx e txn tx h [en] height = Inr ()"
  then obtain outs :: "StateOutput list" and states m and st' :: State where v: "load_states e txn (a # map si_Sender (StateInputs e (tx_Data tx) tx a) @ map so_Recipient outs) = Inr states"
    "sim_entries e txn h a height [en] \<lparr>sim_states = states, sim_delegates = (\<lambda>_. None)\<rparr> = Inr m"
    "sim_states m a = Some st'" "tx_Nonce tx = LastNonce st' + 1"
    unfolding tx(1) [symmetric] by (rule validate_parts)
  have "sim_states \<lparr>sim_states = states, sim_delegates = (\<lambda>_. None)\<rparr> a = Some st"
    using load_states_get [OF v(1), of a] store(2) by (simp add: load_state_def)
  moreover have parts: "me_Signer en = a" "me_Inputs en = StateInputs e (tx_Data utx) utx a"
    using en(1,3) by (auto simp: mempool_entry_def Let_def outcome_iffs)
  ultimately have "LastNonce st' = LastNonce st + 1"
    using sim_entry_account [of e txn h a height en _ m a st] v(2,3) by (auto simp: outcome_iffs)
  moreover have "filter (\<lambda>inp. si_Sender inp = a) (me_Inputs en) = []" using parts(2) en(2,4) by simp
  then have "ga_MempoolNonce res = LastNonce st"
    using tx(2) store by (auto simp: get_address_def address_state_def Address_Integrated_def address_entry_at)
  ultimately show False using tx(3) v(4) by simp
qed

text \<open>From the refresh of a wallet to the mempool of the node that answered it.\<close>

lemma Refresh_parts:
  assumes "Refresh (Inr res) del w = (w', None)"
  shows "wal_PrivateKey w' = wal_PrivateKey w" "wal_Address w' = wal_Address w"
    "wal_mempoolBal w' = ga_MempoolBalance res" "wal_mempoolNonce w' = ga_MempoolNonce res"
  using assms by (auto simp: Refresh_def Let_def outcome_iffs split: if_splits option.splits)

lemma sim_entries_new: "sim_entries e txn h signer n mem m = Inr m' \<Longrightarrow> GetEntry mem h = None"
proof (induction mem arbitrary: m)
  case (Cons en mem)
  then obtain m1 where m1: "sim_entry e txn h signer n en m = Inr m1" "sim_entries e txn h signer n mem m1 = Inr m'"
    by (auto simp: outcome_iffs)
  then have "me_TXID en \<noteq> h" by (auto simp: sim_entry_def)
  then show ?case using Cons.IH [OF m1(2)] by (simp add: GetEntry_def)
qed (simp add: GetEntry_def)

lemma wallet_submits:
  assumes a: "wal_Address w = FromPubKey e (Privkey_Public (wal_PrivateKey w))" "wal_Address w \<noteq> INVALID_ADDRESS"
      "FromString (Address_String (wal_Address w)) = Inr (Address_Integrated (wal_Address w))"
    and sig: "signs e (wal_PrivateKey w)"
    and store: "GetStats e txn = Inr stats" "GetState e txn (wal_Address w) = Inr st" "GetMempool e txn = Inr mem"
      "list_all (entry_plain (wal_Address w)) mem" "txn = nd_txn (pn_node pn)"
    and refresh: "Refresh (client (get_address e txn (Address_String (wal_Address w)))) del w = (w', None)"
    and t: "Wallet_Transfer e w' outs (TopHeight stats + 1 \<ge> HARDFORK_V2_HEIGHT) = Inr tx"
    and n: "outs \<noteq> []" "length (merge_outputs outs) \<le> MAX_OUTPUTS" "coins_to (\<lambda>_. True) outs < 2 ^ 63"
    and sim: "load_states e txn (wal_Address w # wal_Address w # map Recipient (merge_outputs outs)) = Inr states"
      "sim_entries e txn (Tx_Hash e tx) (wal_Address w) (TopHeight stats + 1) mem
         \<lparr>sim_states = states, sim_delegates = (\<lambda>_. None)\<rparr> = Inr m"
    and new: "kvGet e txn IdxTx (arr_bytes (Tx_Hash e tx)) = None"
  obtains pn' en where "submit_transaction e now (Tx_Serialize tx) pn = (pn', SuccessResponse (Tx_Hash e tx), BroadcastTx pn tx)"
    "mempool_entry e now tx (Tx_Hash e tx) = Inr en"
    "GetMempool e (nd_txn (pn_node pn')) = Inr (Mempool_expire now (mem @ [en]))"
proof -
  let ?a = "wal_Address w" and ?h = "Tx_Hash e tx" and ?height = "TopHeight stats + 1"
  let ?r = "\<lparr>ga_Balance = Balance st, ga_LastNonce = LastNonce st, ga_LastIncoming = LastIncoming st,
    ga_MempoolBalance = Balance st, ga_MempoolNonce = LastNonce st, ga_MempoolIncoming = 0,
    ga_DelegateId = st_DelegateId st, ga_Height = TopHeight stats\<rparr>"
  let ?res = "foldl (address_entry ?a) ?r mem"
  have "get_address e txn (Address_String ?a) = SuccessResponse ?res"
    using store a(3) by (simp add: get_address_def address_state_def Address_Integrated_def)
  then have r: "Refresh (Inr ?res) del w = (w', None)" using refresh by simp
  note w = Refresh_parts [OF r]
  note f = Wallet_Transfer_parts [OF t, unfolded w, OF a(1)]
  note v = wallet_transfer_valid [OF t refl, unfolded w, OF a(1,2) sig n]
  have "states ?a = Some st"
    using load_states_get [OF sim(1), of ?a] store(2) by (simp add: load_state_def)
  then have s0: "sim_states \<lparr>sim_states = states, sim_delegates = (\<lambda>_. None)\<rparr> ?a = Some st" by simp
  obtain st' where st': "sim_states m ?a = Some st'" "Balance st' = ga_MempoolBalance ?res" "LastNonce st' = ga_MempoolNonce ?res"
    using sim_entries_at [OF sim(2) store(4) s0, of ?r] by auto
  obtain amt where amt: "Data_TotalAmount (tx_Data tx) tx = Inr amt" "unat amt + unat (tx_Fee tx) \<le> unat (Balance st')"
    using v(2) st'(2) by metis
  have ver: "tx_Version tx = 0 \<or> tx_Version tx = 1" by (simp add: f(4))
  have signer: "FromPubKey e (tx_Signer tx) = ?a" by (simp add: f(2) a(1))
  have val: "validateMempoolTx e txn tx ?h mem ?height = Inr ()"
    by (rule transfer_validates_after [OF f(1) ver signer _ amt sim st'(1)]) (simp_all add: f(3,5) st'(3) mult.commute)
  have "StateOutputs (tx_Data tx) tx (FromPubKey e (tx_Signer tx)) = Inr (map normal_output (merge_outputs outs))" by (simp add: f(1))
  from AddTransaction_appends [OF val store(3) sim_entries_new [OF sim(2)] new this, of now] obtain t' en
    where add: "AddTransaction e now tx ?h True ?height txn = (t', None)" "mempool_entry e now tx ?h = Inr en"
      "GetMempool e t' = Inr (Mempool_expire now (mem @ [en]))" by blast
  have "merge_outputs outs \<noteq> []" using n(1) by (cases outs) simp_all
  then have "data_wf (tx_Data tx)" "tx_matches tx" using n(2) by (simp_all add: f(1,4) tx_matches_def tx_versions)
  from Tx_codec [OF this] have "Tx_Deserialize (Tx_Serialize tx) (?height \<ge> HARDFORK_V2_HEIGHT) = Inr tx" by (simp add: f(4) split: if_splits)
  then have "submit_transaction e now (Tx_Serialize tx) pn =
      (pn\<lparr>pn_node := (pn_node pn)\<lparr>nd_txn := t'\<rparr>\<rparr>, SuccessResponse ?h, BroadcastTx pn tx)"
    using v(1) add(1) val new store(1,3) unfolding store(5)
    by (simp add: submit_transaction_def Let_def DB_Update_def accepts_tx_def)
  then show thesis using that [of "pn\<lparr>pn_node := (pn_node pn)\<lparr>nd_txn := t'\<rparr>\<rparr>" en] add by simp
qed

end

section \<open>Pages of transactions\<close>

lemma topo_list_all:
  assumes "\<And>k. k < n \<Longrightarrow> getTopo (i + of_nat k + 1) = Inr (f (k + m))"
  shows "topo_list getTopo i n = Inr (map f [m..<m + n])"
  using assms
proof (induction n arbitrary: i m)
  case (Suc n)
  have "getTopo (i + 1 + of_nat k + 1) = Inr (f (k + Suc m))" if "k < n" for k
    using Suc.prems [of "Suc k"] that by (simp add: algebra_simps)
  from Suc.IH [of "i + 1" "Suc m", OF this] show ?case
    using Suc.prems [of 0] by (simp add: upt_conv_Cons del: upt_Suc)
qed simp

text \<open>The transactions of an account with \<open>n\<close> of them, from number \<open>a + 1\<close> up to number \<open>b\<close>.\<close>

definition page_end :: "nat \<Rightarrow> nat \<Rightarrow> nat" where
  "page_end n p = n - 25 * p"

lemma tx_page_slice:
  assumes n: "unat startNum = n" "n < 2 ^ 63" and p: "unat page = p" "p \<le> (n - 1) div 25"
    and known: "\<And>k. k < n \<Longrightarrow> getTopo (of_nat k + 1) = Inr (f k)"
  shows "tx_page getTopo startNum page =
    Inr \<lparr>gl_Transactions = map f [page_end n (p + 1)..<page_end n p], gl_MaxPage = of_nat ((n - 1) div 25)\<rparr>"
proof -
  have mp: "(if startNum > 0 then (startNum - 1) div TX_LIST_PAGE_SIZE else 0) = of_nat ((n - 1) div 25)" (is "?mp = _")
  proof (cases "n = 0")
    case False
    then have "unat (startNum - 1) = n - 1" using n by (simp add: unat_sub64 word_le_nat_alt)
    then show ?thesis
      using False n by (simp add: word_unat_eq_iff unat_of_nat64 unat_div TX_LIST_PAGE_SIZE_def word_less_nat_alt)
  qed (use n in \<open>simp add: word_unat_eq_iff word_less_nat_alt\<close>)
  have le: "\<not> page > of_nat ((n - 1) div 25)" using p n by (simp add: word_less_nat_alt unat_of_nat64)
  have pn: "25 * p \<le> n" using p(2) by (cases n) auto
  have pg: "unat (page * TX_LIST_PAGE_SIZE) = 25 * p"
    using pn p(1) n(2) by (simp add: TX_LIST_PAGE_SIZE_def unat_mult64)
  define s where "s = startNum - page * TX_LIST_PAGE_SIZE"
  have s: "unat s = page_end n p" using pg n(1) pn by (simp add: s_def unat_sub64 word_le_nat_alt page_end_def)
  define en where "en = (if sint (s - TX_LIST_PAGE_SIZE) > 0 then s - TX_LIST_PAGE_SIZE else 0)"
  have en: "unat en = page_end n (p + 1)"
  proof -
    have "s - TX_LIST_PAGE_SIZE = word_of_int (int (page_end n p) - 25)"
      using s by (simp add: TX_LIST_PAGE_SIZE_def flip: s)
    moreover have "int (page_end n p) < 2 ^ 63" using n(2) by (simp add: page_end_def)
    ultimately have "sint (s - TX_LIST_PAGE_SIZE) = int (page_end n p) - 25"
      by (simp only: sint_sbintrunc') (simp add: signed_take_bit_int_eq_self)
    then show ?thesis
      using s by (auto simp: en_def TX_LIST_PAGE_SIZE_def unat_sub64 word_le_nat_alt page_end_def)
  qed
  have cnt: "unat (s - en) = page_end n p - page_end n (p + 1)" "\<not> s < en"
    using s en by (auto simp: unat_sub64 word_le_nat_alt word_less_nat_alt page_end_def)
  have "topo_list getTopo en (unat (s - en)) = Inr (map f [page_end n (p + 1)..<page_end n (p + 1) + unat (s - en)])"
  proof (rule topo_list_all)
    fix k assume "k < unat (s - en)"
    then have "k + page_end n (p + 1) < n" using cnt(1) by (simp add: page_end_def)
    moreover have "en = of_nat (unat en)" by simp
    then have "en = of_nat (page_end n (p + 1))" unfolding en .
    ultimately show "getTopo (en + of_nat k + 1) = Inr (f (k + page_end n (p + 1)))"
      using known [of "k + page_end n (p + 1)"] by (simp add: add.commute)
  qed
  moreover have "page_end n (p + 1) + unat (s - en) = page_end n p" using cnt(1) by (simp add: page_end_def)
  ultimately show ?thesis
    unfolding tx_page_def Let_def mp if_not_P [OF le] s_def [symmetric] en_def [symmetric] if_not_P [OF cnt(2)] by simp
qed

lemma get_tx_list_page:
  assumes "GetState e txn a = Inr st" "unat (LastIncoming st) < 2 ^ 63" "p \<le> (unat (LastIncoming st) - 1) div 25"
    and "\<forall>k < unat (LastIncoming st). GetTxTopoInc e txn a (of_nat k + 1) = Inr (f k)"
  shows "get_tx_list e txn a ''incoming'' (of_nat p) =
    SuccessResponse \<lparr>gl_Transactions = map f [page_end (unat (LastIncoming st)) (p + 1)..<page_end (unat (LastIncoming st)) p],
      gl_MaxPage = of_nat ((unat (LastIncoming st) - 1) div 25)\<rparr>"
  using tx_page_slice [OF refl assms(2) unat_of_nat64 assms(3), of "GetTxTopoInc e txn a" f] assms
  by (simp add: get_tx_list_def)

lemma pages_concat:
  "concat (map (\<lambda>p. map f [page_end n (p + 1)..<page_end n p]) (rev [0..<m])) = map f [page_end n m..<n]"
proof (induction m)
  case (Suc m)
  have "page_end n (m + 1) \<le> page_end n m" "page_end n m \<le> n" by (simp_all add: page_end_def)
  then have "[page_end n (m + 1)..<n] = [page_end n (m + 1)..<page_end n m] @ [page_end n m..<n]"
    using upt_add_eq_append [of "page_end n (m + 1)" "page_end n m" "n - page_end n m"] by simp
  then show ?case using Suc by simp
qed (simp add: page_end_def)

end
