(* ===== verification/Texts.thy ===== *)
theory Texts
  imports Address
begin

text \<open>
  Text forms of bytes: Go's package \<open>encoding/hex\<close>, the type \<open>Hash\<close> of \<^verbatim>\<open>src/util/hash.go\<close> and the type \<open>Hex\<close> of
  \<^verbatim>\<open>src/util/enc/hex.go\<close>, as texts and as JSON. What is written is read back, in lower or in upper case.
\<close>

section \<open>Hexadecimal digits\<close>

definition hex_digit :: "char \<Rightarrow> nat option" where
  "hex_digit c = (case char_digit c of Some d \<Rightarrow> if d < 16 then Some d else None | None \<Rightarrow> None)"

definition hex_EncodeToString :: "bytes \<Rightarrow> string" where
  "hex_EncodeToString bs = concat (map (\<lambda>b. [digit_char (unat b div 16), digit_char (unat b mod 16)]) bs)"

fun hex_DecodeString :: "string \<Rightarrow> bytes res" where
  "hex_DecodeString [] = Inr []"
| "hex_DecodeString [c] =
     (case hex_digit c of None \<Rightarrow> Inl (Err ''invalid byte'') | Some _ \<Rightarrow> Inl (Err ''odd length hex string''))"
| "hex_DecodeString (a # b # s) =
     (case (hex_digit a, hex_digit b) of
        (Some x, Some y) \<Rightarrow> res_bind (hex_DecodeString s) (\<lambda>bs. Inr (word_of_nat (16 * x + y) # bs))
      | _ \<Rightarrow> Inl (Err ''invalid byte''))"

section \<open>Hashes\<close>

definition Hash_String :: "hash \<Rightarrow> string" where
  "Hash_String m = hex_EncodeToString (arr_bytes m)"

definition Hash_UnmarshalText :: "string \<Rightarrow> hash res" where
  "Hash_UnmarshalText c =
     (if length c \<noteq> 64 then Inl (Err ''invalid length'')
      else res_bind (hex_DecodeString c) (\<lambda>dst. Inr (arr_of dst)))"

definition quoted :: "string \<Rightarrow> string" where
  "quoted s = CHR 0x22 # s @ [CHR 0x22]"

definition Hash_MarshalJSON :: "hash \<Rightarrow> string" where
  "Hash_MarshalJSON m = quoted (Hash_String m)"

text \<open>The branch for the empty text, of two characters, comes after the check for 66 characters.\<close>

definition Hash_UnmarshalJSON :: "string \<Rightarrow> hash res" where
  "Hash_UnmarshalJSON c =
     (if length c \<noteq> 66 then Inl (Err ''invalid hex length'')
      else if length c = 2 then Inr 0
      else if hd c \<noteq> CHR 0x22 \<or> last c \<noteq> CHR 0x22 then Inl (Err ''invalid string literal'')
      else res_bind (hex_DecodeString (butlast (tl c))) (\<lambda>dst. Inr (arr_of dst)))"

section \<open>Byte strings\<close>

definition Hex_MarshalJSON :: "bytes \<Rightarrow> string" where
  "Hex_MarshalJSON h = quoted (hex_EncodeToString h)"

definition Hex_UnmarshalText :: "string \<Rightarrow> bytes res" where
  "Hex_UnmarshalText c = hex_DecodeString c"

definition Hex_UnmarshalJSON :: "string \<Rightarrow> bytes res" where
  "Hex_UnmarshalJSON c =
     (if length c < 2 then Inl (Err ''hex value is too short to be a valid string'')
      else if length c = 2 then Inr []
      else if hd c \<noteq> CHR 0x22 \<or> last c \<noteq> CHR 0x22 then Inl (Err ''hex value is not a valid string literal'')
      else hex_DecodeString (butlast (tl c)))"

section \<open>Reading back\<close>

lemma hex_digit_char: "d < 16 \<Longrightarrow> hex_digit (digit_char d) = Some d"
  by (simp add: hex_digit_def char_digit_digit_char)

lemma hex_decode_encode: "hex_DecodeString (hex_EncodeToString bs) = Inr bs"
proof (induction bs)
  case (Cons b bs)
  have "unat b < 256" using unsigned_less [of b] by simp
  then have "hex_digit (digit_char (unat b div 16)) = Some (unat b div 16)" by (intro hex_digit_char) simp
  moreover have "hex_digit (digit_char (unat b mod 16)) = Some (unat b mod 16)" by (intro hex_digit_char) simp
  ultimately show ?case using Cons by (simp add: hex_EncodeToString_def)
qed (simp add: hex_EncodeToString_def)

lemma hex_length [simp]: "length (hex_EncodeToString bs) = 2 * length bs"
  by (induction bs) (simp_all add: hex_EncodeToString_def)

lemma quoted_parts [simp]:
  "length (quoted s) = length s + 2" "hd (quoted s) = CHR 0x22" "last (quoted s) = CHR 0x22" "butlast (tl (quoted s)) = s"
  by (simp_all add: quoted_def butlast_append)

lemma Hash_length: "length (Hash_String m) = 64"
  by (simp add: Hash_String_def)

lemma Hash_texts:
  "Hash_UnmarshalText (Hash_String m) = Inr m" "Hash_UnmarshalJSON (Hash_MarshalJSON m) = Inr m"
  by (simp_all add: Hash_UnmarshalText_def Hash_UnmarshalJSON_def Hash_MarshalJSON_def Hash_String_def hex_decode_encode)

lemma Hex_texts:
  "Hex_UnmarshalText (hex_EncodeToString b) = Inr b" "Hex_UnmarshalJSON (Hex_MarshalJSON b) = Inr b"
  using hex_decode_encode [of b]
  by (cases b; simp add: Hex_UnmarshalText_def Hex_UnmarshalJSON_def Hex_MarshalJSON_def)+

text \<open>A decoded text has two digits for each byte.\<close>

lemma hex_decode_length: "hex_DecodeString s = Inr bs \<Longrightarrow> length s = 2 * length bs"
  by (induction s arbitrary: bs rule: hex_DecodeString.induct) (auto simp: res_bind_Inr split: option.splits)

end
