(* ===== verification/NodeCli.thy ===== *)
theory NodeCli
  imports NodeRpc Texts
begin

text \<open>
  The command line of the node, \<^verbatim>\<open>src/cmd/virel-node/cmds.go\<close>: one definition for each command that looks up or changes
  something, and the table that finds the command of a line. A command gives the node back with what it prints; an error of
  it is logged and a panic or \<open>Log.Fatal\<close> ends the program. Lines with statistics in floating-point numbers
  (\<open>block_times\<close>, \<open>dag_info\<close>), the list of connections and the template are left out.
\<close>

section \<open>State\<close>

datatype node_reply =
    Shown | Exit | Usage | Print_block Block bool | Print_tx Transaction u64 | Print_delegate Delegate
  | Print_tips "AltchainTip list" | Print_queue "QueuedBlock list" | Write_checkpoints u64 bytes | Mine_to address
  | Log_level u8 | Removed nat

type_synonym 't ran = "'t peer_node \<times> node_reply res"

section \<open>Looking up\<close>

definition print_block :: "('t, 'x) ext_scheme \<Rightarrow> 't \<Rightarrow> string list \<Rightarrow> node_reply res" where
  "print_block e txn args =
     (case args of
        [arg] \<Rightarrow>
          if length arg = 64 then
            res_bind (hex_DecodeString arg) (\<lambda>bhash.
            let h = arr_of bhash
            in res_bind (GetBlock e txn h) (\<lambda>bl.
                 case GetTopo e txn (Height bl) of
                   Inl (Panic m) \<Rightarrow> Inl (Panic m)
                 | Inl (Err _) \<Rightarrow> Inr (Print_block bl False)
                 | Inr topoHash \<Rightarrow> Inr (Print_block bl (topoHash = h))))
          else res_bind (strconv_ParseUint arg) (\<lambda>height.
               res_bind (GetBlockByHeight e txn height) (\<lambda>bl. Inr (Print_block bl True)))
      | _ \<Rightarrow> Inr Usage)"

definition print_tx :: "('t, 'x) ext_scheme \<Rightarrow> 't \<Rightarrow> string list \<Rightarrow> node_reply res" where
  "print_tx e txn args =
     (if length args \<noteq> 1 \<or> length (hd args) \<noteq> 64 then Inr Usage
      else res_bind (hex_DecodeString (hd args)) (\<lambda>txid.
           res_bind (GetStats e txn) (\<lambda>stats.
           res_bind (GetTx e txn (arr_of txid) (TopHeight stats)) (\<lambda>(tx, height). Inr (Print_tx tx height)))))"

text \<open>The sum of all balances; a key that is too short for an address panics.\<close>

fun sum_states :: "(bytes \<times> bytes) list \<Rightarrow> u64 \<Rightarrow> u64 res" where
  "sum_states [] acc = Inr acc"
| "sum_states ((k, v) # kvs) acc =
     (if length k < SIZE then Inl (Panic ''cannot convert slice to array'')
      else case State_Deserialize v of
             (_, Some err) \<Rightarrow> Inl err
           | (state, None) \<Rightarrow> sum_states kvs (acc + Balance state))"

definition node_print_state :: "('t, 'x) ext_scheme \<Rightarrow> 't \<Rightarrow> node_reply res" where
  "node_print_state e txn =
     res_bind (GetStats e txn) (\<lambda>stats.
     res_bind (sum_states (kvForEach e txn IdxState) 0) (\<lambda>s.
       if s \<noteq> GetSupplyAtHeight (TopHeight stats) then Inl (Panic ''invalid supply'') else Inr Shown))"

text \<open>A height that is not parsed is warned about, and then used as the number that came with the error.\<close>

definition create_checkpoints :: "('t, 'x) ext_scheme \<Rightarrow> 't \<Rightarrow> string list \<Rightarrow> node_reply res option" where
  "create_checkpoints e txn args =
     (case GetStats e txn of
        Inl err \<Rightarrow> Some (Inl err)
      | Inr stats \<Rightarrow>
          let maxHeight = (case args of [] \<Rightarrow> TopHeight stats | a # _ \<Rightarrow> ParseUint_value a)
          in map_option (\<lambda>r. res_bind r (\<lambda>bin. Inr (Write_checkpoints maxHeight bin)))
               (CreateCheckpoints e txn maxHeight DEFAULT_CHECKPOINT_INTERVAL))"

definition print_tips :: "('t, 'x) ext_scheme \<Rightarrow> 't \<Rightarrow> node_reply res" where
  "print_tips e txn =
     res_bind (GetStats e txn) (\<lambda>stats. Inr (Print_tips (sort_key tip_Height (map snd (Tips stats)))))"

definition print_delegate :: "('t, 'x) ext_scheme \<Rightarrow> 't \<Rightarrow> string list \<Rightarrow> node_reply res" where
  "print_delegate e txn args =
     (case args of
        [] \<Rightarrow> Inr Usage
      | a # _ \<Rightarrow>
          res_bind (strconv_ParseUint (strings_TrimPrefix a DELEGATE_ADDRESS_PREFIX)) (\<lambda>delid.
          res_bind (GetDelegate e txn delid) (\<lambda>delegate. Inr (Print_delegate delegate))))"

definition start_mining :: "string list \<Rightarrow> node_reply res" where
  "start_mining args =
     (case args of [a] \<Rightarrow> res_bind (FromString a) (\<lambda>addr. Inr (Mine_to (Addr addr))) | _ \<Rightarrow> Inr Usage)"

text \<open>A level that is not valid is reported and then set all the same.\<close>

definition log_level :: "string list \<Rightarrow> node_reply res" where
  "log_level args = (case args of [] \<Rightarrow> Inr Usage | a # _ \<Rightarrow> Inr (Log_level (ucast (ParseUint_value a))))"

section \<open>Changing the store\<close>

text \<open>\<open>DB.Update\<close> of the node: with an error the store is as before; what the node keeps in memory stays changed.\<close>

definition node_update :: "'t peer_node \<Rightarrow> 't cs outcome \<Rightarrow> node_reply \<Rightarrow> 't ran" where
  "node_update pn r rep =
     (case r of
        (s, None) \<Rightarrow> (pn\<lparr>pn_node := close_node (pn_node pn) s\<rparr>, Inr rep)
      | (s, Some err) \<Rightarrow>
          (pn\<lparr>pn_node := (close_node (pn_node pn) s)\<lparr>nd_txn := nd_txn (pn_node pn)\<rparr>\<rparr>, Inl err))"

text \<open>The command \<open>status\<close>: a view whose error is dropped, then a reorganisation and the check of the supply.\<close>

definition status_view :: "('t, 'x) ext_scheme \<Rightarrow> 't \<Rightarrow> unit res" where
  "status_view e txn =
     res_bind (GetStats e txn) (\<lambda>stats.
     res_bind (GetMempool e txn) (\<lambda>_.
     res_bind (GetBlock e txn (TopHash stats)) (\<lambda>topBlock.
     res_bind (GetNextDifficulty e txn topBlock) (\<lambda>_. Inr ()))))"

definition status :: "('t, 'x) ext_scheme \<Rightarrow> int \<Rightarrow> 't peer_node \<Rightarrow> 't ran option" where
  "status e now pn =
     (case status_view e (nd_txn (pn_node pn)) of
        Inl (Panic m) \<Rightarrow> Some (pn, Inl (Panic m))
      | _ \<Rightarrow>
          (case GetStats e (nd_txn (pn_node pn)) of
             Inl err \<Rightarrow> Some (pn, Inl err)
           | Inr stats \<Rightarrow>
               map_option (\<lambda>(r, reorged).
                   node_update pn
                     (and_then r (\<lambda>s.
                      and_then (if reorged then on_txn (\<lambda>t. SetStats e t (cs_stats s)) s else (s, None)) (\<lambda>s.
                        case CheckSupply e (cs_txn s) of Some (Panic m) \<Rightarrow> (s, Some (Panic m)) | _ \<Rightarrow> (s, None)))) Shown)
                 (CheckReorgs e now (open_node stats (pn_node pn)))))"

text \<open>
  \<open>DeorphanBlock\<close>. Its loop over the map of orphans deletes entries of it, also in the calls of itself, so that the next
  entry is the next one that is left. The errors of storing the block and of the calls are dropped.
\<close>

definition adopt :: "hash \<Rightarrow> hash \<Rightarrow> Orphan \<Rightarrow> Block \<Rightarrow> Stats \<Rightarrow> Stats" where
  "adopt i prevHash v bl stats =
     stats\<lparr>Orphans := AList.delete i (Orphans stats),
       Tips := AList.update (or_Hash v) \<lparr>tip_Hash = or_Hash v, tip_Height = Height bl, tip_CumulativeDiff = bl_CumulativeDiff bl\<rparr>
         (AList.delete prevHash (Tips stats))\<rparr>"

definition store_adopted :: "('t, 'x) ext_scheme \<Rightarrow> Block \<Rightarrow> Orphan \<Rightarrow> Block \<Rightarrow> 't cs \<Rightarrow> ('t cs \<times> Block) res" where
  "store_adopted e prev v bl s =
     res_bind (ContributionToCumulativeDiff bl) (\<lambda>contribution.
     res_bind (U128_Add (bl_CumulativeDiff prev) contribution) (\<lambda>cdiff.
       if \<not> U128_Equals cdiff (bl_CumulativeDiff bl)
       then let bl = bl\<lparr>bl_CumulativeDiff := cdiff\<rparr>
            in Inr (fst (on_txn (\<lambda>t. insertBlock e t bl (or_Hash v)) s), bl)
       else Inr (s, bl)))"

partial_function (option) DeorphanBlock ::
  "('t, 'x) ext_scheme \<Rightarrow> Block \<Rightarrow> hash \<Rightarrow> 't cs \<Rightarrow> 't cs outcome option"
where
  [code]: "DeorphanBlock e prev prevHash s =
     (case find (\<lambda>(i, v). or_PrevHash v = prevHash) (Orphans (cs_stats s)) of
        None \<Rightarrow> Some (s, None)
      | Some (i, v) \<Rightarrow>
          (case res_bind (GetBlock e (cs_txn s) (or_Hash v)) (\<lambda>bl. store_adopted e prev v bl s) of
             Inl err \<Rightarrow> Some (s, Some err)
           | Inr (s, bl) \<Rightarrow>
               Option.bind (DeorphanBlock e bl (or_Hash v) (s\<lparr>cs_stats := adopt i prevHash v bl (cs_stats s)\<rparr>)) (\<lambda>r.
                 (case drop_err r of
                    (s, Some err) \<Rightarrow> Some (s, Some err)
                  | (s, None) \<Rightarrow> DeorphanBlock e prev prevHash s))))"

text \<open>The command \<open>orphans\<close>: the orphans in the order of their heights. The hash of the orphan itself is put into the queue.\<close>

fun orphan_heights :: "('t, 'x) ext_scheme \<Rightarrow> 't \<Rightarrow> (hash \<times> Orphan) list \<Rightarrow> (u64 \<times> Orphan) list res" where
  "orphan_heights e txn [] = Inr []"
| "orphan_heights e txn ((i, v) # vs) =
     res_bind (GetBlock e txn (or_Hash v)) (\<lambda>bl.
     res_bind (orphan_heights e txn vs) (\<lambda>os. Inr ((Height bl, v) # os)))"

fun orphan_loop ::
  "('t, 'x) ext_scheme \<Rightarrow> int \<Rightarrow> Orphan list \<Rightarrow> BlockQueue \<Rightarrow> bool \<Rightarrow> 't cs \<Rightarrow> (BlockQueue \<times> bool \<times> 't cs outcome) option" where
  "orphan_loop e now [] q updated s = Some (q, updated, (s, None))"
| "orphan_loop e now (v # vs) q updated s =
     (if map_of (Orphans (cs_stats s)) (or_PrevHash v) \<noteq> None then orphan_loop e now vs q updated s
      else case GetBlock e (cs_txn s) (or_PrevHash v) of
             Inl (Panic m) \<Rightarrow> Some (q, updated, (s, Some (Panic m)))
           | Inl (Err _) \<Rightarrow> orphan_loop e now vs (fst (SetBlock (NewQueuedBlock now (or_Hash v)) True q)) updated s
           | Inr prevbl \<Rightarrow>
               if U128_IsZero (bl_CumulativeDiff prevbl) then orphan_loop e now vs q updated s
               else Option.bind (DeorphanBlock e prevbl (or_PrevHash v) s) (\<lambda>r.
                 (case r of
                    (s, Some err) \<Rightarrow> Some (q, updated, (s, Some err))
                  | (s, None) \<Rightarrow> orphan_loop e now vs q True s)))"

definition orphans_update ::
  "('t, 'x) ext_scheme \<Rightarrow> int \<Rightarrow> 't peer_node \<Rightarrow> Stats \<Rightarrow> Orphan list \<Rightarrow> (BlockQueue \<times> 't cs outcome) option" where
  "orphans_update e now pn stats vs =
     Option.bind (orphan_loop e now vs (nd_queue (pn_node pn)) False (open_node stats (pn_node pn))) (\<lambda>(q, updated, r).
       (case r of
          (s, Some err) \<Rightarrow> Some (q, (s, Some err))
        | (s, None) \<Rightarrow>
            if updated
            then map_option (\<lambda>(r, _). (q, and_then r (\<lambda>s. on_txn (\<lambda>t. SetStats e t (cs_stats s)) s))) (CheckReorgs e now s)
            else Some (q, (s, None))))"

definition orphans :: "('t, 'x) ext_scheme \<Rightarrow> int \<Rightarrow> 't peer_node \<Rightarrow> 't ran option" where
  "orphans e now pn =
     (case res_bind (GetStats e (nd_txn (pn_node pn))) (\<lambda>stats.
           res_bind (orphan_heights e (nd_txn (pn_node pn)) (Orphans stats)) (\<lambda>os. Inr (stats, map snd (sort_key fst os)))) of
        Inl err \<Rightarrow> Some (pn, Inl err)
      | Inr (stats, vs) \<Rightarrow>
          map_option (\<lambda>(q, r).
              let (pn, rep) = node_update pn r Shown
              in (pn\<lparr>pn_node := (pn_node pn)\<lparr>nd_queue := q\<rparr>\<rparr>, rep))
            (orphans_update e now pn stats vs))"

text \<open>The command \<open>cleanup\<close>: all stake signatures are deleted.\<close>

fun delete_keys :: "('t, 'x) ext_scheme \<Rightarrow> index \<Rightarrow> bytes list \<Rightarrow> 't \<Rightarrow> 't outcome" where
  "delete_keys e i [] t = (t, None)"
| "delete_keys e i (k # ks) t = and_then (kvDel e t i k) (delete_keys e i ks)"

definition cleanup_stakes :: "('t, 'x) ext_scheme \<Rightarrow> 't peer_node \<Rightarrow> 't ran" where
  "cleanup_stakes e pn =
     (let keys = map fst (kvForEach e (nd_txn (pn_node pn)) IdxStakeSig);
          (t, err) = DB_Update (delete_keys e IdxStakeSig keys) (nd_txn (pn_node pn))
      in (pn\<lparr>pn_node := (pn_node pn)\<lparr>nd_txn := t\<rparr>\<rparr>,
          case err of None \<Rightarrow> Inr (Removed (length keys)) | Some err \<Rightarrow> Inl err))"

section \<open>The table of commands\<close>

definition node_command :: "('t, 'x) ext_scheme \<Rightarrow> int \<Rightarrow> string \<Rightarrow> 't peer_node \<Rightarrow> 't ran option" where
  "node_command e now line pn =
     (let split = strings_Split (CHR '' '') line; name = hd split; args = tl split; txn = nd_txn (pn_node pn)
      in if name \<in> {''status'', ''info''} then status e now pn
         else if name \<in> {''exit'', ''quit''} then Some (pn, Inr Exit)
         else if name = ''start_mining'' then Some (pn, start_mining args)
         else if name = ''print_block'' then Some (pn, print_block e txn args)
         else if name \<in> {''print_tx'', ''print_transaction''} then Some (pn, print_tx e txn args)
         else if name \<in> {''print_state'', ''state''} then Some (pn, node_print_state e txn)
         else if name = ''create_checkpoints'' then map_option (\<lambda>r. (pn, r)) (create_checkpoints e txn args)
         else if name \<in> {''print_tips'', ''tips''} then Some (pn, print_tips e txn)
         else if name \<in> {''log_level'', ''loglevel'', ''set_log_level''} then Some (pn, log_level args)
         else if name \<in> {''print_delegate'', ''printdelegate'', ''delegate''} then Some (pn, print_delegate e txn args)
         else if name \<in> {''block_queue'', ''blockqueue''} then Some (pn, Inr (Print_queue (GetBlocks (nd_queue (pn_node pn)))))
         else if name = ''orphans'' then orphans e now pn
         else if name = ''cleanup'' then Some (cleanup_stakes e pn)
         else Some (pn, Inr Shown))"

text \<open>A block of the store is found by the text of its hash, and one of the main chain by its height.\<close>

lemma print_block_hash:
  assumes "GetBlock e txn h = Inr bl" "GetTopo e txn (Height bl) = Inr h'"
  shows "print_block e txn [Hash_String h] = Inr (Print_block bl (h' = h))"
  using assms by (simp add: print_block_def Hash_length) (simp add: Hash_String_def hex_decode_encode)

end
