(* ===== verification/Network.thy ===== *)
theory Network
  imports NodeCli
begin

text \<open>
  A node among peers that send what they like. The runs of a node are the sequences of its atomic steps: a
  packet is handled, the postprocessor takes one waiting block, a round of the synchronization, a block
  found by a miner, a transaction or a stake signature submitted over RPC, a command of the operator, a peer that
  comes or goes.
  A step that panics ends the run. The number of steps bounds the heights of the stored blocks, which keeps
  the 64-bit height from wrapping around.
\<close>

section \<open>Steps\<close>

text \<open>A block found by the node's own miner or by a miner that is connected to it.\<close>

definition add_found_block ::
  "('t, 'x) ext_scheme \<Rightarrow> checkpoints \<Rightarrow> int \<Rightarrow> u64 \<Rightarrow> Block \<Rightarrow> 't node \<Rightarrow> 't node outcome option" where
  "add_found_block e cp now time bl n =
     (case PrevalidateBlock e cp time bl [] of Inl err \<Rightarrow> Some (n, Some err) | Inr _ \<Rightarrow>
        (case AddBlock e now bl (Block_Hash e bl) n of
           None \<Rightarrow> None
         | Some (n', None) \<Rightarrow> Some (n', None)
         | Some (n', Some err) \<Rightarrow> Some (n'\<lparr>nd_txn := nd_txn n\<rparr>, Some err)))"

inductive node_run :: "('t, 'x) ext_scheme \<Rightarrow> checkpoints \<Rightarrow> 't peer_node \<Rightarrow> nat \<Rightarrow> 't peer_node \<Rightarrow> bool"
  for e cp start where
  init: "node_run e cp start 0 start"
| packet: "node_run e cp start k pn \<Longrightarrow> incomingP2P e cp now time pack pn = Some ((pn', None), out) \<Longrightarrow>
    node_run e cp start (Suc k) pn'"
| postprocess: "node_run e cp start k pn \<Longrightarrow> select_smallest (pn_postprocess pn) = Some (p, rest) \<Longrightarrow>
    executePostprocess e now (pp_Block p) (pp_Hash p) (pp_Txs p) (pn_node pn) = Some (n', None) \<Longrightarrow>
    node_run e cp start (Suc k) (pn\<lparr>pn_node := n', pn_postprocess := rest\<rparr>)"
| synchronize: "node_run e cp start k pn \<Longrightarrow> sync_round e now peernum n pn = Inr (pn', n', out) \<Longrightarrow>
    node_run e cp start (Suc k) pn'"
| found: "node_run e cp start k pn \<Longrightarrow> block_wf bl \<Longrightarrow>
    add_found_block e cp now time bl (pn_node pn) = Some (n', err) \<Longrightarrow> drop_err ((), err) = ((), None) \<Longrightarrow>
    node_run e cp start (Suc k) (pn\<lparr>pn_node := n'\<rparr>)"
| submit: "node_run e cp start k pn \<Longrightarrow> submit_transaction e now hex pn = (pn', r, out) \<Longrightarrow>
    (\<forall>m. r \<noteq> Crashed m) \<Longrightarrow> node_run e cp start (Suc k) pn'"
| stake_signature: "node_run e cp start k pn \<Longrightarrow> submit_stake_signature e did h sig pn = (pn', r, out) \<Longrightarrow>
    (\<forall>m. r \<noteq> Crashed m) \<Longrightarrow> node_run e cp start (Suc k) pn'"
| command: "node_run e cp start k pn \<Longrightarrow> node_command e now line pn = Some (pn', r) \<Longrightarrow>
    r \<noteq> Inr Exit \<Longrightarrow> (\<forall>m. r \<noteq> Inl (Panic m)) \<Longrightarrow> node_run e cp start (Suc k) pn'"
| peers: "node_run e cp start k pn \<Longrightarrow> node_run e cp start (Suc k) (pn\<lparr>pn_peers := ps\<rparr>)"

section \<open>The invariant\<close>

definition heights_below :: "('t, 'x) ext_scheme \<Rightarrow> 't \<Rightarrow> nat \<Rightarrow> bool" where
  "heights_below e t k \<longleftrightarrow> (\<forall>h b. GetBlock e t h = Inr b \<longrightarrow> unat (Height b) \<le> k)"

definition waiting_ok :: "'x crypto_scheme \<Rightarrow> PostprocessData \<Rightarrow> bool" where
  "waiting_ok c p \<longleftrightarrow> block_wf (pp_Block p) \<and> pp_Hash p = Block_Hash c (pp_Block p)"

definition no_zero_hash :: "'x crypto_scheme \<Rightarrow> bool" where
  "no_zero_hash c \<longleftrightarrow> (\<forall>b. Block_Hash c b \<noteq> 0)"

definition chain_from :: "('t, 'x) ext_scheme \<Rightarrow> hash \<Rightarrow> nat \<Rightarrow> nat \<Rightarrow> 't node \<Rightarrow> bool" where
  "chain_from e g d k n \<longleftrightarrow> heights_below e (nd_txn n) k \<and>
     (\<exists>stats cs. node_inv e n stats cs \<and> hd cs = g \<and> d \<le> val128 (CumulativeDiff stats))"

text \<open>A step that leaves blocks, heights and statistics alone.\<close>

definition quiet :: "('t, 'x) ext_scheme \<Rightarrow> 't \<Rightarrow> 't \<Rightarrow> bool" where
  "quiet e t t' \<longleftrightarrow> same_chain e t t' \<and> GetStats e t' = GetStats e t"

lemma quiet_refl [simp]: "quiet e t t"
  by (simp add: quiet_def same_chain_def)

interpretation quiet: frame_relation "quiet e" for e
  by unfold_locales (simp_all add: quiet_def same_chain_def)

lemma chain_from_quiet:
  assumes "chain_from e g d k n" "quiet e (nd_txn n) (nd_txn n')" "k \<le> k'"
  shows "chain_from e g d k' n'"
proof -
  have q: "same_chain e (nd_txn n) (nd_txn n')" "GetStats e (nd_txn n') = GetStats e (nd_txn n)"
    using assms(2) by (simp_all add: quiet_def)
  then have "node_inv e n' stats cs = node_inv e n stats cs" for stats cs
    by (simp add: node_inv_def node_chain_same [OF q(1)])
  moreover have "heights_below e (nd_txn n') k'"
    using assms(1,3) same_chain_reads(1) [OF q(1)] by (auto simp: chain_from_def heights_below_def intro: le_trans)
  ultimately show ?thesis using assms(1) by (simp add: chain_from_def)
qed

context adb_txn
begin

lemma quiet_puts [kept_intros]:
  "i \<notin> {IdxBlock, IdxTopo, IdxInfo} \<Longrightarrow> kept (quiet e) t (kvPut e t i k v)"
  "kept (quiet e) t (SetMempool e now t m)"
  by (auto simp: kept_def quiet_def same_chain_def GetStats_def SetMempool_def kvPut_eq info_keys)

lemma AddTransaction_quiet: "quiet e t (fst (AddTransaction e now tx h mp height t))"
proof -
  have "kept (quiet e) t (AddTransaction e now tx h mp height t)"
    unfolding AddTransaction_def SetTx_def by (intro kept_intros) simp_all
  then show ?thesis by (simp add: kept_def)
qed

lemma stake_signature_quiet: "quiet e t (fst (accept_stake_signature e st t))"
proof -
  have "kept (quiet e) t (accept_stake_signature e st t)"
    unfolding accept_stake_signature_def SetStakeSig_def
    by (auto intro!: kept_intros split: sum.split error.split)
  then show ?thesis by (simp add: kept_def)
qed

text \<open>A block that is added to the chain. Its height cannot be zero: its parent would have the largest
  64-bit number as its height.\<close>

lemma AddBlock_step:
  assumes ch: "chain_from e g d k n" and bl: "block_wf bl" "no_zero_hash e" and k: "k < 2 ^ 64 - 1"
  shows "\<exists>n' err. AddBlock e now bl (Block_Hash e bl) n = Some (n', err) \<and> (err = None \<longrightarrow> chain_from e g d (Suc k) n')"
proof -
  obtain stats cs where inv: "node_inv e n stats cs" and cs: "hd cs = g" "d \<le> val128 (CumulativeDiff stats)"
    and hb: "heights_below e (nd_txn n) k" using ch by (auto simp: chain_from_def)
  show ?thesis
  proof (cases "Height bl = 0")
    case True
    have "checkBlock e (nd_txn n) bl p stats \<noteq> Inr ()" if p: "GetBlock e (nd_txn n) (PrevHash bl) = Inr p" for p
    proof
      assume "checkBlock e (nd_txn n) bl p stats = Inr ()"
      from checkBlock_facts(1) [OF this] True have "unat (Height p + 1) = 0" by simp
      moreover have "unat (Height p) \<le> k" using hb p by (simp add: heights_below_def)
      ultimately show False using k by (simp add: unat_add64)
    qed
    then have "\<exists>n' err. AddBlock e now bl (Block_Hash e bl) n = Some (n', Some err)"
      using inv by (fastforce simp: AddBlock_def node_inv_def split: sum.split error.split)
    then show ?thesis by auto
  next
    case False
    let ?h = "Block_Hash e bl"
    have nz: "?h \<noteq> 0" using bl(2) by (simp add: no_zero_hash_def)
    obtain n' err where r: "AddBlock e now bl ?h n = Some (n', err)"
      and post: "err = None \<longrightarrow> (\<forall>x. GetBlock e (nd_txn n') x = (if x = ?h then Inr bl else GetBlock e (nd_txn n) x)) \<and>
        (\<exists>p. GetBlock e (nd_txn n) (PrevHash bl) = Inr p \<and> Height bl = Height p + 1) \<and>
        (\<exists>stats' cs'. node_inv e n' stats' cs' \<and> extends_chain bl ?h stats cs stats' cs')"
      using AddBlock_ok [OF inv bl(1) refl nz False, of now] by blast
    have "chain_from e g d (Suc k) n'" if none: "err = None"
    proof -
      obtain p stats' cs' where p: "GetBlock e (nd_txn n) (PrevHash bl) = Inr p" "Height bl = Height p + 1"
        and n': "node_inv e n' stats' cs'" "extends_chain bl ?h stats cs stats' cs'" using post none by blast
      have "unat (Height p) \<le> k" using hb p(1) by (simp add: heights_below_def)
      then have "unat (Height bl) \<le> Suc k" using k p(2) by (simp add: unat_add64)
      then have "heights_below e (nd_txn n') (Suc k)"
        using post none hb by (auto simp: heights_below_def split: if_splits intro: le_SucI)
      then show ?thesis
        using n' cs unfolding chain_from_def extends_chain_def by (meson le_trans)
    qed
    then show ?thesis using r by blast
  qed
qed

lemma executePostprocess_step:
  assumes ch: "chain_from e g d k n" and p: "waiting_ok e p" "no_zero_hash e" and k: "k < 2 ^ 64 - 1"
  shows "\<exists>n' err. executePostprocess e now (pp_Block p) (pp_Hash p) (pp_Txs p) n = Some (n', err) \<and>
    (err = None \<longrightarrow> chain_from e g d (Suc k) n')"
proof -
  obtain t err where t: "add_txs e now (Height (pp_Block p)) (pp_Txs p) (nd_txn n) = (t, err)" by fastforce
  have "only_writes e {IdxTx} (nd_txn n) t"
    using add_txs_writes [of "nd_txn n" now "Height (pp_Block p)" "pp_Txs p"] t by simp
  then have "quiet e (nd_txn n) t" by (simp add: only_writes_def quiet_def same_chain_def GetStats_def)
  then have ch': "chain_from e g d k (n\<lparr>nd_txn := t\<rparr>)" by (intro chain_from_quiet [OF ch]) simp_all
  have undone: "chain_from e g d (Suc k) n'" if "nd_txn n' = nd_txn n" for n'
    using that by (intro chain_from_quiet [OF ch]) simp_all
  have wf: "block_wf (pp_Block p)" "pp_Hash p = Block_Hash e (pp_Block p)" using p(1) by (simp_all add: waiting_ok_def)
  obtain n' err' where "AddBlock e now (pp_Block p) (pp_Hash p) (n\<lparr>nd_txn := t\<rparr>) = Some (n', err')"
    "err' = None \<longrightarrow> chain_from e g d (Suc k) n'"
    using AddBlock_step [OF ch' wf(1) p(2) k, of now] wf(2) by auto
  then show ?thesis
    using t undone by (cases err; cases err') (auto simp: executePostprocess_def split: error.split)
qed

end

section \<open>Handlers\<close>

definition net_inv :: "('t, 'x) ext_scheme \<Rightarrow> hash \<Rightarrow> nat \<Rightarrow> nat \<Rightarrow> 't peer_node \<Rightarrow> bool" where
  "net_inv e g d k pn \<longleftrightarrow> chain_from e g d k (pn_node pn) \<and> (\<forall>p\<in>set (pn_postprocess pn). waiting_ok e p)"

definition calm :: "('t, 'x) ext_scheme \<Rightarrow> 't peer_node \<Rightarrow> 't peer_node \<Rightarrow> bool" where
  "calm e pn pn' \<longleftrightarrow> quiet e (nd_txn (pn_node pn)) (nd_txn (pn_node pn')) \<and> pn_postprocess pn' = pn_postprocess pn"

lemma calm_refl [simp]: "calm e pn pn"
  by (simp add: calm_def)

lemma net_inv_calm: "net_inv e g d k pn \<Longrightarrow> calm e pn pn' \<Longrightarrow> net_inv e g d (Suc k) pn'"
  unfolding net_inv_def calm_def by (metis chain_from_quiet le_SucI order_refl)

lemma ignored_same: "fst (fst (ignored pn err)) = pn"
  by (cases err) (simp_all add: ignored_def)

lemma fst_drop_err: "fst (drop_err r) = fst r"
  by (cases r rule: drop_err.cases) simp_all

lemma update_store_calm:
  assumes "\<And>t. quiet e t (fst (f t))"
  shows "calm e pn (fst (update_store f pn))"
proof (cases "f (nd_txn (pn_node pn))")
  case (Pair t err)
  have "quiet e (nd_txn (pn_node pn)) t" using assms [of "nd_txn (pn_node pn)"] Pair by simp
  then show ?thesis
    using Pair fst_drop_err [of "DB_Update f (nd_txn (pn_node pn))"]
    by (cases err) (auto simp: update_store_def DB_Update_def calm_def split: prod.split)
qed

lemma packetStats_calm: "calm e pn (fst (fst (packetStats data conn pn)))"
  by (auto simp: packetStats_def ignored_same calm_def Let_def split: sum.split)

lemma packetBlockRequest_calm:
  "packetBlockRequest e data conn pn = Some r \<Longrightarrow> fst (fst r) = pn"
  by (auto simp: packetBlockRequest_def ignored_same Let_def split: sum.splits if_splits option.splits error.splits prod.splits)

lemma prevalidated_wf:
  assumes "Block_DeserializeFull e data = Inr (bl, txs)" "PrevalidateBlock e cp time bl txs = Inr ()"
  shows "block_wf bl"
proof -
  have "val128 (Difficulty bl) \<noteq> 0" using PrevalidateBlock_sound(2) [OF assms(2)] by (simp add: config_defs)
  then show ?thesis
    using Block_DeserializeFull_wf [OF assms(1)] by (simp add: block_wf_def U128_IsZero_def val128_zero_iff)
qed

lemma packetBlock_step:
  assumes "net_inv e g d k pn"
  shows "net_inv e g d (Suc k) (fst (fst (packetBlock e cp now time data pn)))"
proof (cases "Block_DeserializeFull e data")
  case (Inl err)
  then show ?thesis using net_inv_calm [OF assms calm_refl] by (simp add: packetBlock_def ignored_same)
next
  case (Inr r)
  obtain bl txs where r: "r = (bl, txs)" by fastforce
  let ?q = "BlockDownloaded now (Block_Hash e bl) (nd_queue (pn_node pn))"
  let ?pn = "pn\<lparr>pn_node := (pn_node pn)\<lparr>nd_queue := ?q\<rparr>\<rparr>"
  have q: "net_inv e g d (Suc k) ?pn" by (rule net_inv_calm [OF assms]) (simp add: calm_def)
  show ?thesis
  proof (cases "PrevalidateBlock e cp time bl txs")
    case (Inl err)
    then show ?thesis using Inr r q by (simp add: packetBlock_def ignored_same Let_def)
  next
    case (Inr u)
    then have "block_wf bl" using \<open>Block_DeserializeFull e data = Inr r\<close> r prevalidated_wf by auto
    then show ?thesis
      using \<open>Block_DeserializeFull e data = Inr r\<close> r Inr q
      by (auto simp: packetBlock_def net_inv_def PostprocessBlock_def waiting_ok_def Let_def)
  qed
qed

context adb_txn
begin

lemma packetTx_calm: "calm e pn (fst (fst (packetTx e now data pn)))"
  using update_store_calm [of e] AddTransaction_quiet
  by (auto simp: packetTx_def ignored_same Let_def split: sum.split option.split)

lemma HandleStakeSignature_calm: "calm e pn (fst (fst (HandleStakeSignature e st pn)))"
  using stake_signature_quiet [of "nd_txn (pn_node pn)" st]
  by (auto simp: HandleStakeSignature_def DB_Update_def calm_def Let_def split: prod.splits option.splits)

lemma packetStakeSignature_calm: "calm e pn (fst (fst (packetStakeSignature e data pn)))"
proof (cases "PacketStakeSignature_Deserialize data")
  case (Inr st)
  then show ?thesis
    using HandleStakeSignature_calm [of pn st]
    by (cases "HandleStakeSignature e st pn" rule: prod.exhaust)
      (auto simp: packetStakeSignature_def fst_drop_err)
qed (simp add: packetStakeSignature_def ignored_same)

lemma incomingP2P_step:
  assumes "net_inv e g d k pn" "incomingP2P e cp now time pack pn = Some ((pn', err), out)"
  shows "net_inv e g d (Suc k) pn'"
proof (cases "pk_Type pack = packet_BLOCK")
  case True
  then show ?thesis using assms packetBlock_step [OF assms(1), of cp now time "pk_Data pack"] by (simp add: incomingP2P_def)
next
  case False
  have "calm e pn pn'"
    using assms(2) False packetTx_calm [of pn now "pk_Data pack"] packetStats_calm [of e pn "pk_Data pack" "pk_Conn pack"]
      packetStakeSignature_calm [of pn "pk_Data pack"]
      packetBlockRequest_calm [of e "pk_Data pack" "pk_Conn pack" pn "((pn', err), out)"]
    by (auto simp: incomingP2P_def split: if_splits)
  then show ?thesis by (rule net_inv_calm [OF assms(1)])
qed

lemma request_range_store: "request_range peernum stats peers n nd = (nd', n', ps) \<Longrightarrow> nd_txn nd' = nd_txn nd"
  by (auto simp: request_range_def Let_def split: if_splits)

lemma sync_round_calm:
  assumes "sync_round e now peernum n pn = Inr (pn', n', out)"
  shows "calm e pn pn'"
  using assms
  by (auto simp: sync_round_def outcome_iffs calm_def Let_def dest!: request_range_store
      split: if_splits prod.splits option.splits)

lemma add_found_block_cases:
  assumes "add_found_block e cp now time bl n = Some (n', err)"
  shows "nd_txn n' = nd_txn n \<or> AddBlock e now bl (Block_Hash e bl) n = Some (n', None)"
proof (cases "PrevalidateBlock e cp time bl []")
  case (Inl err')
  then show ?thesis using assms by (simp add: add_found_block_def)
next
  case (Inr u)
  then obtain n2 err2 where r: "AddBlock e now bl (Block_Hash e bl) n = Some (n2, err2)"
    using assms by (auto simp: add_found_block_def split: option.splits)
  show ?thesis
  proof (cases err2)
    case None
    then show ?thesis using assms Inr r by (simp add: add_found_block_def)
  next
    case (Some err3)
    then show ?thesis using assms Inr r by (auto simp: add_found_block_def)
  qed
qed

lemma found_step:
  assumes "net_inv e g d k pn" "block_wf bl" "no_zero_hash e" "k < 2 ^ 64 - 1"
    "add_found_block e cp now time bl (pn_node pn) = Some (n', err)"
  shows "net_inv e g d (Suc k) (pn\<lparr>pn_node := n'\<rparr>)"
proof -
  have ch: "chain_from e g d k (pn_node pn)" using assms(1) by (simp add: net_inv_def)
  have "chain_from e g d (Suc k) n'"
    using add_found_block_cases [OF assms(5)]
  proof
    assume "nd_txn n' = nd_txn (pn_node pn)"
    then show ?thesis by (intro chain_from_quiet [OF ch]) simp_all
  next
    assume "AddBlock e now bl (Block_Hash e bl) (pn_node pn) = Some (n', None)"
    then show ?thesis using AddBlock_step [OF ch assms(2-4), of now] by auto
  qed
  then show ?thesis using assms(1) by (simp add: net_inv_def)
qed

lemma select_smallest_sub: "select_smallest ps = Some (p, rest) \<Longrightarrow> p \<in> set ps \<and> set rest \<subseteq> set ps"
  using select_smallest_Some(1) [of ps p rest] by (metis mset_eq_setD set_mset_add_mset_insert set_mset_mset insertI1 subset_insertI)

lemma submit_transaction_calm: "calm e pn (fst (submit_transaction e now hex pn))"
proof -
  let ?up = "\<lambda>tx h height. DB_Update (AddTransaction e now tx h True height) (nd_txn (pn_node pn))"
  have "calm e pn (pn\<lparr>pn_node := (pn_node pn)\<lparr>nd_txn := fst (?up tx h height)\<rparr>\<rparr>)" for tx h height
    using update_store_calm [of e "AddTransaction e now tx h True height" pn] AddTransaction_quiet
      fst_drop_err [of "?up tx h height"]
    by (simp add: update_store_def case_prod_beta Let_def)
  then show ?thesis
    by (auto simp: submit_transaction_def Let_def case_prod_beta split: sum.split option.split)
qed

lemma submit_stake_signature_calm: "calm e pn (fst (submit_stake_signature e did h sig pn))"
  using HandleStakeSignature_calm [of pn "\<lparr>ss_DelegateId = did, ss_Hash = arr_of h, ss_Signature = arr_of sig\<rparr>"]
  by (simp add: submit_stake_signature_def Let_def case_prod_beta)

end

text \<open>
  Commands. A node that knows no heavier tip has nothing to reorganise, and it never records an orphan: \<open>status\<close> and
  \<open>orphans\<close> leave the store alone.
\<close>

lemma best_tip_heaviest:
  assumes "heaviest stats"
  shows "best_tip stats = (CumulativeDiff stats, TopHash stats, TopHeight stats)"
proof -
  let ?f = "\<lambda>(altDiff, altHash, altHeight) (_ :: hash, v).
         if U128_Cmp (tip_CumulativeDiff v) altDiff > 0
         then (tip_CumulativeDiff v, tip_Hash v, tip_Height v) else (altDiff, altHash, altHeight)"
  have "foldl ?f (CumulativeDiff stats, h, n) tips = (CumulativeDiff stats, h, n)"
    if "\<forall>(k, v)\<in>set tips. val128 (tip_CumulativeDiff v) \<le> val128 (CumulativeDiff stats)" for tips h n
    using that by (induction tips) (auto simp: U128_Cmp_val split: if_splits)
  then show ?thesis using assms by (simp add: best_tip_def heaviest_def)
qed

lemma no_reorg: "heaviest (cs_stats s) \<Longrightarrow> CheckReorgs e now s = Some ((s, None), False)"
  by (simp add: CheckReorgs_def best_tip_heaviest)

lemma close_open: "close_node n (open_node stats n) = n"
  by (simp add: close_node_def open_node_def)

lemma status_same:
  assumes "chain_from e g d k (pn_node pn)"
  shows "\<exists>r. status e now pn = Some (pn, r)"
proof -
  obtain stats where "GetStats e (nd_txn (pn_node pn)) = Inr stats" "heaviest stats"
    using assms by (auto simp: chain_from_def node_inv_def)
  moreover have "heaviest (cs_stats (open_node stats (pn_node pn)))" using \<open>heaviest stats\<close> by (simp add: open_node_def)
  ultimately show ?thesis
    by (auto simp: status_def no_reorg node_update_def close_open open_node_def [of stats "pn_node pn"] close_node_def
        split: sum.split error.split option.split)
qed

lemma orphans_same:
  assumes "chain_from e g d k (pn_node pn)"
  shows "orphans e now pn = Some (pn, Inr Shown)"
proof -
  obtain stats where "GetStats e (nd_txn (pn_node pn)) = Inr stats" "Orphans stats = []"
    using assms by (auto simp: chain_from_def node_inv_def node_chain_def)
  then show ?thesis by (simp add: orphans_def orphans_update_def node_update_def close_open)
qed

context adb_txn
begin

lemma delete_keys_quiet: "i \<notin> {IdxBlock, IdxTopo, IdxInfo} \<Longrightarrow> kept (quiet e) t (delete_keys e i ks t)"
proof (induction ks arbitrary: t)
  case (Cons k ks)
  have "kept (quiet e) t (kvDel e t i k)"
    using Cons.prems get_del [of t i k] del_err [of t i k]
    by (cases "snd (kvDel e t i k)") (auto simp: kept_def quiet_def same_chain_def GetStats_def)
  then show ?case using Cons by (auto intro!: kept_intros)
qed (auto intro: kept_intros)

lemma cleanup_calm: "calm e pn (fst (cleanup_stakes e pn))"
  using delete_keys_quiet [of IdxStakeSig "nd_txn (pn_node pn)" "map fst (kvForEach e (nd_txn (pn_node pn)) IdxStakeSig)"]
  by (auto simp: cleanup_stakes_def DB_Update_def calm_def kept_def Let_def split: prod.split option.split)

lemma node_command_calm:
  assumes "chain_from e g d k (pn_node pn)" "node_command e now line pn = Some (pn', r)"
  shows "calm e pn pn'"
proof -
  have st: "\<exists>r. status e now pn = Some (pn, r)" "orphans e now pn = Some (pn, Inr Shown)"
    using status_same [OF assms(1)] orphans_same [OF assms(1)] by simp_all
  have "pn' = pn \<or> pn' = fst (cleanup_stakes e pn)"
    using assms(2) st by (auto simp: node_command_def Let_def split: if_splits)
  then show ?thesis using cleanup_calm by auto
qed

text \<open>Whatever arrives, the chain stays a chain.\<close>

lemma node_run_inv:
  assumes "node_run e cp start k pn" "net_inv e g d k0 start" "no_zero_hash e" "k0 + k < 2 ^ 64"
  shows "net_inv e g d (k0 + k) pn"
  using assms
proof (induction rule: node_run.induct)
  case (packet k pn now time pack pn' out)
  then show ?case using incomingP2P_step [of g d "k0 + k" pn cp now time pack pn' None out] by simp
next
  case (postprocess k pn p rest now n')
  then have inv: "net_inv e g d (k0 + k) pn" and lim: "k0 + k < 2 ^ 64 - 1" by simp_all
  have p: "p \<in> set (pn_postprocess pn)" "set rest \<subseteq> set (pn_postprocess pn)"
    using select_smallest_sub [OF postprocess.hyps(2)] by simp_all
  have "chain_from e g d (Suc (k0 + k)) n'"
    using executePostprocess_step [of g d "k0 + k" "pn_node pn" p now] inv p(1) postprocess.prems(2) lim postprocess.hyps(3)
    by (auto simp: net_inv_def)
  then show ?case using inv p(2) by (auto simp: net_inv_def)
next
  case (synchronize k pn now peernum n pn' n' out)
  then show ?case using net_inv_calm [of e g d "k0 + k" pn pn'] sync_round_calm by simp
next
  case (found k pn bl now time n' err)
  then show ?case using found_step [of g d "k0 + k" pn bl cp now time n' err] by simp
next
  case (submit k pn now hex pn' r out)
  then show ?case using net_inv_calm [of e g d "k0 + k" pn pn'] submit_transaction_calm [of pn now hex] by simp
next
  case (stake_signature k pn did h sig pn' r out)
  then show ?case using net_inv_calm [of e g d "k0 + k" pn pn'] submit_stake_signature_calm [of pn did h sig] by simp
next
  case (command k pn now line pn' r)
  then have "net_inv e g d (k0 + k) pn" by simp
  then show ?case
    using net_inv_calm [of e g d "k0 + k" pn pn'] node_command_calm [of g d "k0 + k" pn now line pn' r] command.hyps(2)
    by (simp add: net_inv_def [of e g d "k0 + k" pn])
next
  case (peers k pn ps)
  then show ?case using net_inv_calm [of e g d "k0 + k" pn "pn\<lparr>pn_peers := ps\<rparr>"] by (simp add: calm_def)
qed simp

end

text \<open>Every command returns.\<close>

lemma checkpoint_loop_ends:
  assumes "main_chain e t cs" "length cs + unat interval < 2 ^ 64" "0 < unat interval"
  shows "\<exists>r. checkpoint_loop e t maxHeight interval height acc = Some r"
proof (induction "length cs - unat height" arbitrary: height acc rule: less_induct)
  case less
  show ?case
  proof (cases "height \<le> maxHeight \<and> unat height < length cs")
    case True
    then have "unat (height + interval) = unat height + unat interval" using assms(2) by (simp add: unat_add64)
    then have "length cs - unat (height + interval) < length cs - unat height" using True assms(3) by linarith
    with less True show ?thesis
      using assms(1) by (subst checkpoint_loop.simps) (simp add: main_chain_def)
  next
    case False
    then show ?thesis using assms(1) by (subst checkpoint_loop.simps) (auto simp: main_chain_def)
  qed
qed

lemma chain_length:
  assumes "chain_from e g d k n"
  obtains cs where "main_chain e (nd_txn n) cs" "length cs \<le> Suc k"
proof -
  obtain stats cs where cs: "main_chain e (nd_txn n) cs" and hb: "heights_below e (nd_txn n) k"
    using assms by (auto simp: chain_from_def node_inv_def node_chain_def)
  obtain b where "GetBlock e (nd_txn n) (last cs) = Inr b" "unat (Height b) = length cs - 1"
    by (rule main_chain_last [OF cs])
  moreover from this(1) have "unat (Height b) \<le> k" using hb unfolding heights_below_def by blast
  ultimately have "length cs \<le> Suc k" by linarith
  then show ?thesis using that cs by blast
qed

lemma node_command_ends:
  assumes "chain_from e g d k (pn_node pn)" "k + 64 < 2 ^ 64"
  shows "\<exists>r. node_command e now line pn = Some r"
proof -
  obtain cs where cs: "main_chain e (nd_txn (pn_node pn)) cs" "length cs \<le> Suc k" by (rule chain_length [OF assms(1)])
  have "\<exists>r. CreateCheckpoints e (nd_txn (pn_node pn)) m DEFAULT_CHECKPOINT_INTERVAL = Some r" for m
    using checkpoint_loop_ends [OF cs(1), of 32] cs(2) assms(2) by (simp add: CreateCheckpoints_def config_defs)
  then have "\<exists>r. create_checkpoints e (nd_txn (pn_node pn)) args = Some r" for args
    by (auto simp: create_checkpoints_def Let_def split: sum.split)
  moreover have "\<exists>r. status e now pn = Some r" "\<exists>r. orphans e now pn = Some r"
    using status_same [OF assms(1)] orphans_same [OF assms(1)] by blast+
  ultimately show ?thesis by (auto simp: node_command_def Let_def)
qed

section \<open>Serving blocks\<close>

lemma GetBlockByHeight_chain:
  assumes "main_chain e t cs" "unat n < length cs"
  obtains b where "GetBlockByHeight e t n = Inr b" "GetBlock e t (cs ! unat n) = Inr b"
proof -
  obtain b where "chain_block e t cs (unat n) b" using main_chain_get [OF assms] by blast
  then have "GetBlock e t (cs ! unat n) = Inr b" by (simp add: chain_block_def)
  moreover have "GetTopo e t n = Inr (cs ! unat n)" using assms by (simp add: main_chain_def)
  ultimately show thesis using that by (simp add: GetBlockByHeight_def)
qed

text \<open>The loop ends and collects the blocks of the range that the main chain has.\<close>

lemma collect_blocks_ok:
  assumes mc: "main_chain e t cs"
  shows "unat n + c + 1 < 2 ^ 64 \<Longrightarrow> lastn = n + word_of_nat c \<Longrightarrow>
    \<exists>bs err. collect_blocks e t n lastn acc = Some (acc @ bs, err) \<and> length bs = min (c + 1) (length cs - unat n) \<and>
      (\<forall>i<length bs. GetBlock e t (cs ! (unat n + i)) = Inr (bs ! i))"
proof (induction c arbitrary: n acc)
  case 0
  then have l: "lastn = n" "\<not> n > lastn" "n + 1 > lastn" by (simp_all add: word_less_nat_alt unat_add64)
  show ?case
  proof (cases "unat n < length cs")
    case True
    then obtain b where b: "GetBlockByHeight e t n = Inr b" "GetBlock e t (cs ! unat n) = Inr b"
      by (rule GetBlockByHeight_chain [OF mc])
    then have "collect_blocks e t n lastn acc = Some (acc @ [b], None)"
      using l by (subst collect_blocks.simps, subst collect_blocks.simps) simp
    then show ?thesis using b True by (intro exI [of _ "[b]"]) auto
  next
    case False
    then have "GetTopo e t n = Inl unknown_height" using mc by (simp add: main_chain_def)
    then have "collect_blocks e t n lastn acc = Some (acc @ [], Some unknown_height)"
      using l by (subst collect_blocks.simps) (simp add: GetBlockByHeight_def)
    then show ?thesis using False by (intro exI [of _ "[]"]) auto
  qed
next
  case (Suc c)
  have l: "\<not> n > lastn" using Suc.prems by (simp add: word_less_nat_alt unat_add64 unat_of_nat64)
  show ?case
  proof (cases "unat n < length cs")
    case True
    then obtain b where b: "GetBlockByHeight e t n = Inr b" "GetBlock e t (cs ! unat n) = Inr b"
      by (rule GetBlockByHeight_chain [OF mc])
    have n1: "unat (n + 1) = unat n + 1" using Suc.prems(1) by (simp add: unat_add64)
    have "unat (n + 1) + c + 1 < 2 ^ 64" "lastn = n + 1 + word_of_nat c" using Suc.prems n1 by simp_all
    from Suc.IH [OF this, of "acc @ [b]"] obtain bs err where
      bs: "collect_blocks e t (n + 1) lastn (acc @ [b]) = Some ((acc @ [b]) @ bs, err)"
      "length bs = min (c + 1) (length cs - unat (n + 1))"
      "\<forall>i<length bs. GetBlock e t (cs ! (unat (n + 1) + i)) = Inr (bs ! i)" by blast
    have "collect_blocks e t n lastn acc = Some (acc @ b # bs, err)"
      using l b(1) bs(1) by (subst collect_blocks.simps) simp
    moreover have "length (b # bs) = min (Suc c + 1) (length cs - unat n)" using bs(2) n1 True by simp
    moreover have "\<forall>i<length (b # bs). GetBlock e t (cs ! (unat n + i)) = Inr ((b # bs) ! i)"
      using b(2) bs(3) n1 by (auto simp: less_Suc_eq_0_disj)
    ultimately show ?thesis by blast
  next
    case False
    then have "GetTopo e t n = Inl unknown_height" using mc by (simp add: main_chain_def)
    then have "collect_blocks e t n lastn acc = Some (acc @ [], Some unknown_height)"
      using l by (subst collect_blocks.simps) (simp add: GetBlockByHeight_def)
    then show ?thesis using False by (intro exI [of _ "[]"]) auto
  qed
qed

end
