(* ===== verification/Mining.thy ===== *)
theory Mining
  imports Network "HOL-Library.Sublist"
begin

text \<open>
  Building blocks: \<^verbatim>\<open>src/blockchain/mining.go\<close>. \<open>GetBlockTemplate\<close> is given the clock in milliseconds, the
  random bytes of the nonce and the chains that are mined together with this one, each with its difficulty;
  it returns the template with the smallest difficulty that is worth reporting. It may write to the mempool: on a
  database that is opened for reading only the put is refused and the error dropped, so that the
  transaction it returns is then thrown away. The search for a nonce runs until another thread stops it, and is left out; what is
  done with a block it finds is \<open>blockFound\<close>.
\<close>

section \<open>Side blocks\<close>

text \<open>Whether a tip can be a side block: an error is logged and the tip is skipped.\<close>

definition template_side :: "('t, 'x) ext_scheme \<Rightarrow> 't \<Rightarrow> Block \<Rightarrow> Block \<Rightarrow> AltchainTip \<Rightarrow> Commitment option res" where
  "template_side e txn bl prevBl v =
     res_bind (GetBlock e txn (tip_Hash v)) (\<lambda>tip.
       if GetSeedhashId (Timestamp tip) \<noteq> GetSeedhashId (Timestamp bl) then Inr None
       else res_bind (U128_Mul64 (Difficulty bl) 2) (\<lambda>x.
            res_bind (U128_Div64 x 3) (\<lambda>minDiff.
              if U128_Cmp (Difficulty tip) minDiff < 0 then Inr None
              else if FindCommon (bl_Ancestors bl) (bl_Ancestors tip) < 0 then Inr None
              else
                let side = Block_Commitment e tip
                in if side_of e side prevBl then Inr None
                   else if Height prevBl > 0
                   then res_bind (side_in_ancestors e txn side (tl (bl_Ancestors bl))) (\<lambda>_. Inr (Some side))
                   else Inr (Some side))))"

fun template_sides :: "('t, 'x) ext_scheme \<Rightarrow> 't \<Rightarrow> Block \<Rightarrow> (hash \<times> AltchainTip) list \<Rightarrow> Block \<Rightarrow> Block res" where
  "template_sides e txn prevBl [] bl = Inr bl"
| "template_sides e txn prevBl ((_, v) # tips) bl =
     (if length (SideBlocks bl) = MAX_SIDE_BLOCKS then Inr bl
      else if tip_Height v \<ge> Height bl \<or> tip_Height v < Height bl - of_nat MINIDAG_ANCESTORS - 1
      then template_sides e txn prevBl tips bl
      else (case template_side e txn bl prevBl v of
              Inl (Panic m) \<Rightarrow> Inl (Panic m)
            | Inr (Some side) \<Rightarrow> template_sides e txn prevBl tips (bl\<lparr>SideBlocks := SideBlocks bl @ [side]\<rparr>)
            | _ \<Rightarrow> template_sides e txn prevBl tips bl))"

section \<open>Transactions\<close>

text \<open>The entries that go into the block, in the order of the mempool: an invalid one is skipped, the
  first that does not fit ends the loop.\<close>

fun template_txs ::
  "('t, 'x) ext_scheme \<Rightarrow> 't \<Rightarrow> u64 \<Rightarrow> MempoolEntry list \<Rightarrow> u64 \<Rightarrow> MempoolEntry list \<Rightarrow> MempoolEntry list res"
where
  "template_txs e txn height [] totsize validEntries = Inr validEntries"
| "template_txs e txn height (v # vs) totsize validEntries =
     (if totsize + me_Size v > MAX_BLOCK_SIZE then Inr validEntries
      else
        (case res_bind (GetTx e txn (me_TXID v) height) (\<lambda>(memtx, _).
                validateMempoolTx e txn memtx (me_TXID v) validEntries height) of
           Inl (Panic m) \<Rightarrow> Inl (Panic m)
         | Inl (Err _) \<Rightarrow> template_txs e txn height vs totsize validEntries
         | Inr _ \<Rightarrow> template_txs e txn height vs (totsize + me_Size v) (validEntries @ [v])))"

section \<open>Stake\<close>

definition set_cumulative :: "Stats \<Rightarrow> Block \<Rightarrow> Block res" where
  "set_cumulative stats bl =
     res_bind (ContributionToCumulativeDiff bl) (\<lambda>c.
     res_bind (U128_Add (CumulativeDiff stats) c) (\<lambda>d. Inr (bl\<lparr>bl_CumulativeDiff := d\<rparr>)))"

definition template_stake :: "('t, 'x) ext_scheme \<Rightarrow> 't \<Rightarrow> Stats \<Rightarrow> Block \<Rightarrow> Block res" where
  "template_stake e txn stats bl =
     (if Version bl > 0 then
        let staked = BlockStakedHash bl
        in res_bind
             (case GetStakeSig e txn staked of
                Inl (Panic m) \<Rightarrow> Inl (Panic m)
              | Inl (Err _) \<Rightarrow> Inr bl
              | Inr stakesig \<Rightarrow>
                  if ss_Hash stakesig \<noteq> staked then Inr bl
                  else set_cumulative stats
                         (bl\<lparr>StakeSignature := ss_Signature stakesig, bl_DelegateId := ss_DelegateId stakesig\<rparr>))
             (\<lambda>bl.
                if bl_DelegateId bl = 0 then
                  (case GetBlock e txn staked of
                     Inl (Panic m) \<Rightarrow> Inl (Panic m)
                   | Inl (Err _) \<Rightarrow> Inr bl
                   | Inr stakedbl \<Rightarrow> Inr (bl\<lparr>bl_DelegateId := NextDelegateId stakedbl\<rparr>))
                else Inr bl)
      else Inr bl)"

section \<open>Merge mining\<close>

text \<open>A chain that is mined together with this one: its hashing id and difficulty, zero before its first job.\<close>

type_synonym merge = "HashingID \<times> u64"

fun template_merges :: "merge list \<Rightarrow> Block \<Rightarrow> u64 \<Rightarrow> Block \<times> u64" where
  "template_merges [] bl min_diff = (bl, min_diff)"
| "template_merges ((hid, d) # ms) bl min_diff =
     (if d = 0 then template_merges ms bl min_diff
      else template_merges ms (bl\<lparr>OtherChains := OtherChains bl @ [hid]\<rparr>) (if d < min_diff then d else min_diff))"

section \<open>The template\<close>

definition first_template :: "Stats \<Rightarrow> Block \<Rightarrow> u64 \<Rightarrow> 128 word \<Rightarrow> address \<Rightarrow> Block" where
  "first_template stats prevBl time extra addr =
     (let height = TopHeight stats + 1
      in \<lparr>Version = (if height \<ge> HARDFORK_V3_HEIGHT then 1 else 0), Height = height,
          Timestamp = max (time + 1) (Timestamp prevBl), Nonce = 0, NonceExtra = extra, OtherChains = [],
          bl_Recipient = addr, bl_Ancestors = AddHash (bl_Ancestors prevBl) (TopHash stats), SideBlocks = [],
          bl_DelegateId = 0, NextDelegateId = 0, StakeSignature = 0, Difficulty = U128_From64 MIN_DIFFICULTY,
          bl_CumulativeDiff = U128_Zero, bl_Transactions = []\<rparr>)"

definition finish_template :: "('t, 'x) ext_scheme \<Rightarrow> 't \<Rightarrow> Stats \<Rightarrow> merge list \<Rightarrow> Block \<Rightarrow> (Block \<times> u64) res" where
  "finish_template e txn stats merges bl =
     res_bind (set_cumulative stats bl) (\<lambda>bl.
     res_bind (template_stake e txn stats bl) (\<lambda>bl.
       let (bl, min_diff) = (if IS_MASTERCHAIN then template_merges merges bl (Lo (Difficulty bl)) else (bl, Lo (Difficulty bl)))
       in res_bind (if IS_MASTERCHAIN then SortOtherChains bl else Inr bl) (\<lambda>bl.
            if Version bl > 0 then
              res_bind (GetStats e txn) (\<lambda>stats.
              res_bind (GetStaker e txn (PrevHash bl) stats) (\<lambda>nextdelegate.
                Inr (bl\<lparr>NextDelegateId := d_Id nextdelegate\<rparr>, min_diff)))
            else Inr (bl, min_diff))))"

definition GetBlockTemplate ::
  "('t, 'x) ext_scheme \<Rightarrow> int \<Rightarrow> u64 \<Rightarrow> 128 word \<Rightarrow> merge list \<Rightarrow> address \<Rightarrow> 't \<Rightarrow> 't \<times> (Block \<times> u64) res" where
  "GetBlockTemplate e now time extra merges addr txn =
     (case res_bind (GetStats e txn) (\<lambda>stats.
           res_bind (GetBlock e txn (TopHash stats)) (\<lambda>prevBl.
           let bl = first_template stats prevBl time extra addr
           in res_bind (GetNextDifficulty e txn prevBl) (\<lambda>diff.
              res_bind (template_sides e txn prevBl (Tips stats) (bl\<lparr>Difficulty := diff\<rparr>)) (\<lambda>bl.
              res_bind (GetMempool e txn) (\<lambda>mem.
              res_bind (template_txs e txn (Height bl) mem 0 []) (\<lambda>validEntries.
                Inr (stats, bl\<lparr>bl_Transactions := map me_TXID validEntries\<rparr>, mem, validEntries))))))) of
        Inl err \<Rightarrow> (txn, Inl err)
      | Inr (stats, bl, mem, validEntries) \<Rightarrow>
          let txn = (if length mem \<noteq> length validEntries then fst (SetMempool e now txn validEntries) else txn)
          in (txn, finish_template e txn stats merges bl))"

section \<open>A block that was found\<close>

definition hashToDiff :: "128 word \<Rightarrow> Uint128 res" where
  "hashToDiff h = res_bind (U128_FromBytes (arr_bytes h)) (\<lambda>v. U128_Div U128_Max v)"

record FoundBlockInfo =
  fb_Hash :: hash
  fb_Height :: u64
  fb_NetworkID :: u64
  fb_Difficulty :: Uint128
  fb_Ok :: bool

text \<open>\<open>merged\<close> is what the other chains answered, and whether the proof of work was enough for one of them.\<close>

definition blockFound ::
  "('t, 'x) ext_scheme \<Rightarrow> checkpoints \<Rightarrow> int \<Rightarrow> u64 \<Rightarrow> FoundBlockInfo list \<times> bool \<Rightarrow> Block \<Rightarrow> 128 word \<Rightarrow> 't node \<Rightarrow>
   ('t node outcome \<times> FoundBlockInfo list) option" where
  "blockFound e cp now time merged bl powHash n =
     (let (foundInfo, success) = (if IS_MASTERCHAIN then merged else ([], False))
      in case ValidPowHash powHash (Difficulty bl) of
           Inl err \<Rightarrow> Some ((n, Some err), [])
         | Inr True \<Rightarrow>
             map_option (\<lambda>(n', err). ((n', err), if err = None then foundInfo @
                 [\<lparr>fb_Hash = Block_Hash e bl, fb_Height = Height bl, fb_NetworkID = NETWORK_ID,
                   fb_Difficulty = Difficulty bl, fb_Ok = True\<rparr>] else []))
               (add_found_block e cp now time bl n)
         | Inr False \<Rightarrow>
             if success then Some ((n, None), foundInfo)
             else (case hashToDiff powHash of
                     Inl err \<Rightarrow> Some ((n, Some err), [])
                   | Inr _ \<Rightarrow> Some ((n, Some (Err ''block does not match minimum difficulty requirements'')), [])))"

section \<open>Templates are valid\<close>

text \<open>What \<open>HandleStakeSignature\<close> checks of a stake signature before it stores it, and that there is stake.\<close>

definition stake_sig_valid :: "('t, 'x) ext_scheme \<Rightarrow> 't \<Rightarrow> Stats \<Rightarrow> hash \<Rightarrow> bool" where
  "stake_sig_valid e t stats h \<longleftrightarrow>
     (case GetStakeSig e t h of
        Inl err \<Rightarrow> (\<forall>m. err \<noteq> Panic m)
      | Inr st \<Rightarrow> ss_Hash st = h \<and> ss_DelegateId st \<noteq> 0 \<and> StakedAmount stats \<noteq> 0 \<and>
          (\<exists>b. GetBlock e t h = Inr b \<and> NextDelegateId b = ss_DelegateId st) \<and>
          (\<exists>d. GetDelegate e t (ss_DelegateId st) = Inr d \<and>
             VerifySignature e (d_Owner d) (STAKE_SIGN_PREFIX @ arr_bytes h) (ss_Signature st)))"

lemma set_cumulative_Inr:
  "set_cumulative stats bl = Inr bl' \<Longrightarrow> \<exists>c. ContributionToCumulativeDiff bl = Inr c \<and>
     U128_Add (CumulativeDiff stats) c = Inr (bl_CumulativeDiff bl') \<and> bl' = bl\<lparr>bl_CumulativeDiff := bl_CumulativeDiff bl'\<rparr>"
  by (auto simp: set_cumulative_def outcome_iffs)

text \<open>The last parts of the template change only fields that the checks do not read.\<close>

definition same_core :: "Block \<Rightarrow> Block \<Rightarrow> bool" where
  "same_core bl bl' \<longleftrightarrow> bl'\<lparr>OtherChains := [], NextDelegateId := 0\<rparr> = bl\<lparr>OtherChains := [], NextDelegateId := 0\<rparr>"

lemma same_core_fields:
  assumes "same_core bl bl'"
  shows "Version bl' = Version bl" "Height bl' = Height bl" "Timestamp bl' = Timestamp bl"
    "bl_Ancestors bl' = bl_Ancestors bl" "SideBlocks bl' = SideBlocks bl" "bl_DelegateId bl' = bl_DelegateId bl"
    "StakeSignature bl' = StakeSignature bl" "Difficulty bl' = Difficulty bl" "bl_CumulativeDiff bl' = bl_CumulativeDiff bl"
    "bl_Transactions bl' = bl_Transactions bl"
  using assms unfolding same_core_def
  by (auto dest: arg_cong [where f = Version] arg_cong [where f = Height] arg_cong [where f = Timestamp]
      arg_cong [where f = bl_Ancestors] arg_cong [where f = SideBlocks] arg_cong [where f = bl_DelegateId]
      arg_cong [where f = StakeSignature] arg_cong [where f = Difficulty] arg_cong [where f = bl_CumulativeDiff]
      arg_cong [where f = bl_Transactions])

lemma template_merges_core: "same_core bl (fst (template_merges ms bl d))"
  by (induction ms bl d rule: template_merges.induct) (simp_all add: same_core_def)

lemma finish_template_Inr:
  assumes "finish_template e t stats merges bl = Inr (bl', d)"
  obtains bl1 bl2 where "set_cumulative stats bl = Inr bl1" "template_stake e t stats bl1 = Inr bl2" "same_core bl2 bl'"
proof -
  obtain bl1 bl2 where b: "set_cumulative stats bl = Inr bl1" "template_stake e t stats bl1 = Inr bl2"
    using assms by (auto simp: finish_template_def outcome_iffs)
  obtain bl3 d3 where m: "(if IS_MASTERCHAIN then template_merges merges bl2 (Lo (Difficulty bl2)) else (bl2, Lo (Difficulty bl2))) = (bl3, d3)"
    by fastforce
  have "same_core bl2 bl3"
    using m template_merges_core [of bl2 merges "Lo (Difficulty bl2)"]
    by (cases IS_MASTERCHAIN) (auto simp: same_core_def)
  moreover obtain bl4 where bl4: "(if IS_MASTERCHAIN then SortOtherChains bl3 else Inr bl3) = Inr bl4"
    "bl' = bl4 \<or> (\<exists>x. bl' = bl4\<lparr>NextDelegateId := x\<rparr>)"
    using assms b m by (auto simp: finish_template_def outcome_iffs split: if_splits)
  moreover have "same_core bl3 bl4"
    using bl4(1) by (cases IS_MASTERCHAIN) (auto simp: SortOtherChains_def outcome_iffs same_core_def)
  ultimately have "same_core bl2 bl'" by (auto simp: same_core_def)
  then show thesis using that b by blast
qed

text \<open>The stake of a template passes the check of a block's stake.\<close>

lemma contribution_cong:
  "ContributionToCumulativeDiff (b\<lparr>bl_CumulativeDiff := x\<rparr>) = ContributionToCumulativeDiff b"
  "ContributionToCumulativeDiff (b\<lparr>bl_DelegateId := y\<rparr>) = ContributionToCumulativeDiff b"
  "BlockStakedHash (b\<lparr>bl_CumulativeDiff := x\<rparr>) = BlockStakedHash b"
  "BlockStakedHash (b\<lparr>bl_DelegateId := y\<rparr>) = BlockStakedHash b"
  "BlockStakedHash (b\<lparr>StakeSignature := z\<rparr>) = BlockStakedHash b"
  by (simp_all add: ContributionToCumulativeDiff_def BlockStakedHash_def)

definition weighed :: "Stats \<Rightarrow> Block \<Rightarrow> bool" where
  "weighed stats bl \<longleftrightarrow> (\<exists>c. ContributionToCumulativeDiff bl = Inr c \<and> U128_Add (CumulativeDiff stats) c = Inr (bl_CumulativeDiff bl))"

lemma set_cumulative_weighed: "set_cumulative stats bl = Inr bl' \<Longrightarrow> weighed stats bl' \<and> (\<exists>x. bl' = bl\<lparr>bl_CumulativeDiff := x\<rparr>)"
  by (auto simp: set_cumulative_def outcome_iffs weighed_def contribution_cong)

lemma weighed_delegate: "weighed stats (bl\<lparr>bl_DelegateId := x\<rparr>) = weighed stats bl"
  by (simp add: weighed_def contribution_cong)

definition staked_from :: "Block \<Rightarrow> Block \<Rightarrow> bool" where
  "staked_from bl bl' \<longleftrightarrow> bl'\<lparr>StakeSignature := 0, bl_DelegateId := 0, bl_CumulativeDiff := U128_Zero\<rparr> =
     bl\<lparr>StakeSignature := 0, bl_DelegateId := 0, bl_CumulativeDiff := U128_Zero\<rparr>"

lemma staked_from_fields:
  assumes "staked_from bl bl'"
  shows "Version bl' = Version bl" "Height bl' = Height bl" "Timestamp bl' = Timestamp bl"
    "bl_Ancestors bl' = bl_Ancestors bl" "SideBlocks bl' = SideBlocks bl" "Difficulty bl' = Difficulty bl"
    "BlockStakedHash bl' = BlockStakedHash bl" "bl_Transactions bl' = bl_Transactions bl"
  using assms unfolding staked_from_def BlockStakedHash_def
  by (auto dest: arg_cong [where f = bl_Transactions]
      arg_cong [where f = Version] arg_cong [where f = Height] arg_cong [where f = Timestamp]
      arg_cong [where f = bl_Ancestors] arg_cong [where f = SideBlocks] arg_cong [where f = Difficulty])

lemma set_cumulative_from: "set_cumulative stats bl = Inr bl' \<Longrightarrow> staked_from bl bl'"
  by (auto simp: staked_from_def dest!: set_cumulative_weighed)

lemma template_stake_from:
  assumes "template_stake e t stats bl = Inr bl'"
  shows "staked_from bl bl'"
proof (cases "Version bl > 0")
  case True
  let ?h = "BlockStakedHash bl"
  obtain bl1 where bl1: "(case GetStakeSig e t ?h of Inl (Panic m) \<Rightarrow> Inl (Panic m) | Inl (Err _) \<Rightarrow> Inr bl
      | Inr stakesig \<Rightarrow> if ss_Hash stakesig \<noteq> ?h then Inr bl
          else set_cumulative stats (bl\<lparr>StakeSignature := ss_Signature stakesig, bl_DelegateId := ss_DelegateId stakesig\<rparr>)) = Inr bl1"
    and bl': "bl' = bl1 \<or> (\<exists>x. bl' = bl1\<lparr>bl_DelegateId := x\<rparr>)"
    using assms True by (auto simp: template_stake_def Let_def outcome_iffs split: if_splits sum.splits error.splits)
  have "staked_from bl bl1"
    using bl1 set_cumulative_from by (auto simp: staked_from_def split: if_splits sum.splits error.splits)
  then show ?thesis using bl' by (auto simp: staked_from_def)
qed (use assms in \<open>simp add: template_stake_def staked_from_def\<close>)

lemma template_stake_ok:
  assumes stake: "template_stake e t stats bl = Inr bl'" and w: "weighed stats bl"
    and blank: "StakeSignature bl = 0" "bl_DelegateId bl = 0"
    and valid: "Version bl > 0 \<Longrightarrow> stake_sig_valid e t stats (BlockStakedHash bl)"
      "Version bl > 0 \<Longrightarrow> \<exists>b. GetBlock e t (BlockStakedHash bl) = Inr b"
  shows "check_stake_signature e t bl' stats = Inr () \<and> weighed stats bl'"
proof (cases "Version bl > 0")
  case False
  then show ?thesis using False stake w by (simp add: template_stake_def check_stake_signature_def)
next
  case True
  let ?h = "BlockStakedHash bl"
  obtain b where b: "GetBlock e t ?h = Inr b" using valid(2) [OF True] by blast
  note v = valid(1) [OF True, unfolded stake_sig_valid_def]
  show ?thesis
  proof (cases "GetStakeSig e t ?h")
    case (Inl err)
    then obtain m where "err = Err m" using v by (cases err) auto
    then have bl': "bl' = bl\<lparr>bl_DelegateId := NextDelegateId b\<rparr>"
      using True stake Inl b blank by (simp add: template_stake_def Let_def)
    then show ?thesis
      using True b blank w
      by (simp add: check_stake_signature_def contribution_cong weighed_delegate Let_def err_if_def BlankSignature_def)
  next
    case (Inr st)
    have st: "ss_Hash st = ?h" "ss_DelegateId st \<noteq> 0" "StakedAmount stats \<noteq> 0" "NextDelegateId b = ss_DelegateId st"
      "\<exists>d. GetDelegate e t (ss_DelegateId st) = Inr d \<and>
         VerifySignature e (d_Owner d) (STAKE_SIGN_PREFIX @ arr_bytes ?h) (ss_Signature st)"
      using v Inr b by auto
    let ?bl = "bl\<lparr>StakeSignature := ss_Signature st, bl_DelegateId := ss_DelegateId st\<rparr>"
    obtain bl1 where bl1: "set_cumulative stats ?bl = Inr bl1"
      using stake True Inr st(1) by (auto simp: template_stake_def Let_def outcome_iffs)
    obtain x where x: "bl1 = ?bl\<lparr>bl_CumulativeDiff := x\<rparr>" "weighed stats bl1" using set_cumulative_weighed [OF bl1] by blast
    have bl': "bl' = bl1" using stake True Inr st(1,2) bl1 x(1) by (simp add: template_stake_def Let_def)
    have "check_stake_signature e t bl1 stats = Inr ()"
      using b st by (auto simp: check_stake_signature_def contribution_cong x(1) Let_def err_if_def)
    then show ?thesis using bl' x(2) by simp
  qed
qed

lemma GetBlockTemplate_Inr:
  assumes "GetBlockTemplate e now time extra merges addr t = (t', Inr (bl, d))"
  obtains stats prevBl diff bl0 mem es where "GetStats e t = Inr stats" "GetBlock e t (TopHash stats) = Inr prevBl"
    "GetNextDifficulty e t prevBl = Inr diff"
    "template_sides e t prevBl (Tips stats) ((first_template stats prevBl time extra addr)\<lparr>Difficulty := diff\<rparr>) = Inr bl0"
    "GetMempool e t = Inr mem" "template_txs e t (Height bl0) mem 0 [] = Inr es"
    "t' = (if length mem \<noteq> length es then fst (SetMempool e now t es) else t)"
    "finish_template e t' stats merges (bl0\<lparr>bl_Transactions := map me_TXID es\<rparr>) = Inr (bl, d)"
  using assms by (auto simp: GetBlockTemplate_def outcome_iffs Let_def split: sum.splits prod.splits)

context adb_txn
begin

text \<open>Writing the mempool changes nothing that the checks read.\<close>

lemma mempool_reads:
  assumes "t' = (if b then fst (SetMempool e now t m) else t)"
  shows "GetBlock e t' = GetBlock e t" "GetStakeSig e t' = GetStakeSig e t" "GetDelegate e t' = GetDelegate e t"
    "GetStats e t' = GetStats e t" "GetNextDifficulty e t' = GetNextDifficulty e t"
    "check_stake_signature e t' = check_stake_signature e t"
proof -
  have get: "kvGet e t' i k = kvGet e t i k" if "i \<noteq> IdxInfo \<or> k = info_key ''stats''" for i k
    using that info_keys by (auto simp: assms SetMempool_def kvPut_eq)
  show blk: "GetBlock e t' = GetBlock e t" and "GetStakeSig e t' = GetStakeSig e t"
    and dg: "GetDelegate e t' = GetDelegate e t" and "GetStats e t' = GetStats e t"
    using get by (auto simp: GetBlock_def GetStakeSig_def GetDelegate_def GetStats_def fun_eq_iff)
  show "GetNextDifficulty e t' = GetNextDifficulty e t"
    unfolding GetNextDifficulty_def blk ..
  show "check_stake_signature e t' = check_stake_signature e t"
    unfolding check_stake_signature_def blk dg ..
qed

text \<open>A template without side blocks passes the checks on top of the chain.\<close>

lemma GetBlockTemplate_checked:
  assumes tmpl: "GetBlockTemplate e now time extra merges addr t = (t', Inr (bl, d))"
    and st: "GetStats e t = Inr stats" and nc: "node_chain e t stats cs" and tips: "Tips stats = []"
    and top: "GetBlock e t (TopHash stats) = Inr prevBl" "TopHeight stats = Height prevBl"
    and stake: "Version bl > 0 \<Longrightarrow> stake_sig_valid e t stats (BlockStakedHash bl)"
      "Version bl > 0 \<Longrightarrow> \<exists>b. GetBlock e t (BlockStakedHash bl) = Inr b"
  shows "checkBlock e t' bl prevBl stats = Inr ()" "PrevHash bl = TopHash stats" "Height bl = Height prevBl + 1"
    "GetStats e t' = Inr stats"
proof -
  obtain diff mem es where p: "GetNextDifficulty e t prevBl = Inr diff" "GetMempool e t = Inr mem"
    "t' = (if length mem \<noteq> length es then fst (SetMempool e now t es) else t)"
    "finish_template e t' stats merges ((first_template stats prevBl time extra addr)\<lparr>Difficulty := diff,
       bl_Transactions := map me_TXID es\<rparr>) = Inr (bl, d)"
    by (rule GetBlockTemplate_Inr [OF tmpl]) (use st top(1) tips in auto)
  note r = mempool_reads [OF p(3)]
  define bl0 where "bl0 = (first_template stats prevBl time extra addr)\<lparr>Difficulty := diff, bl_Transactions := map me_TXID es\<rparr>"
  have f0: "Height bl0 = Height prevBl + 1" "Timestamp prevBl \<le> Timestamp bl0" "Difficulty bl0 = diff" "SideBlocks bl0 = []"
    "bl_Ancestors bl0 = AddHash (bl_Ancestors prevBl) (TopHash stats)" "StakeSignature bl0 = 0" "bl_DelegateId bl0 = 0"
    using top(2) by (simp_all add: bl0_def first_template_def Let_def)
  obtain bl1 bl2 where f: "set_cumulative stats bl0 = Inr bl1" "template_stake e t' stats bl1 = Inr bl2" "same_core bl2 bl"
    by (rule finish_template_Inr [OF p(4) [folded bl0_def]])
  obtain x where x: "bl1 = bl0\<lparr>bl_CumulativeDiff := x\<rparr>" "weighed stats bl1" using set_cumulative_weighed [OF f(1)] by blast
  note core = same_core_fields [OF f(3)] and from1 = staked_from_fields [OF template_stake_from [OF f(2)]]
  have staked: "BlockStakedHash bl = BlockStakedHash bl1" "Version bl = Version bl1"
    using core from1 by (simp_all add: BlockStakedHash_def)
  have valid: "stake_sig_valid e t' stats h = stake_sig_valid e t stats h" for h
    unfolding stake_sig_valid_def r ..
  have "StakeSignature bl1 = 0" "bl_DelegateId bl1 = 0" using f0 x(1) by simp_all
  then have ok: "check_stake_signature e t' bl2 stats = Inr ()" "weighed stats bl2"
    using template_stake_ok [OF f(2) x(2)] stake by (simp_all add: valid r staked)
  have chk: "check_stake_signature e t' bl stats = check_stake_signature e t' bl2 stats"
    unfolding check_stake_signature_def BlockStakedHash_def core ..
  have contr: "ContributionToCumulativeDiff bl = ContributionToCumulativeDiff bl2"
    using core by (simp add: ContributionToCumulativeDiff_def)
  have fields: "Height bl = Height prevBl + 1" "Timestamp prevBl \<le> Timestamp bl" "Difficulty bl = diff" "SideBlocks bl = []"
    "bl_Ancestors bl = AddHash (bl_Ancestors prevBl) (TopHash stats)"
    using core from1 f0 x(1) by simp_all
  have cum: "bl_CumulativeDiff prevBl = CumulativeDiff stats" using nc top(1) by (auto simp: node_chain_def)
  obtain c where "ContributionToCumulativeDiff bl2 = Inr c" "U128_Add (CumulativeDiff stats) c = Inr (bl_CumulativeDiff bl2)"
    using ok(2) by (auto simp: weighed_def)
  then show "checkBlock e t' bl prevBl stats = Inr ()"
    using fields ok(1) chk contr p(1) core(9)
    by (simp add: checkBlock_def r cum err_if_def U128_Equals_def not_less)
  show "PrevHash bl = TopHash stats" by (simp add: PrevHash_def fields(5) AddHash_def)
  show "Height bl = Height prevBl + 1" by (rule fields(1))
  show "GetStats e t' = Inr stats" by (simp add: r st)
qed

text \<open>After a template was built for the miners of the stratum server, the mempool holds what is in the
  template and nothing else.\<close>

lemma template_txs_subseq: "template_txs e t h mem sz acc = Inr es \<Longrightarrow> \<exists>es'. es = acc @ es' \<and> subseq es' mem"
proof (induction mem arbitrary: sz acc)
  case (Cons v vs)
  show ?case
  proof (cases "sz + me_Size v > MAX_BLOCK_SIZE")
    case False
    then consider "template_txs e t h vs sz acc = Inr es" | "template_txs e t h vs (sz + me_Size v) (acc @ [v]) = Inr es"
      using Cons.prems by (auto split: sum.splits error.splits)
    then show ?thesis
    proof cases
      case 1
      then show ?thesis using Cons.IH by blast
    next
      case 2
      then obtain es' where "es = (acc @ [v]) @ es'" "subseq es' vs" using Cons.IH by blast
      then show ?thesis by (intro exI [of _ "v # es'"]) simp
    qed
  qed (use Cons.prems in simp)
qed simp

lemma finish_template_txs:
  assumes "finish_template e t stats merges bl = Inr (bl', d)"
  shows "bl_Transactions bl' = bl_Transactions bl"
proof -
  obtain bl1 bl2 where f: "set_cumulative stats bl = Inr bl1" "template_stake e t stats bl1 = Inr bl2" "same_core bl2 bl'"
    by (rule finish_template_Inr [OF assms])
  then show ?thesis
    using same_core_fields(10) [OF f(3)] staked_from_fields(8) [OF template_stake_from [OF f(2)]]
      staked_from_fields(8) [OF set_cumulative_from [OF f(1)]] by simp
qed

lemma GetBlockTemplate_mempool:
  assumes tmpl: "GetBlockTemplate e now time extra merges addr t = (t', Inr (bl, d))"
    and mem: "GetMempool e t = Inr mem" "\<forall>v\<in>set mem. now \<le> me_Expires v"
  shows "\<exists>es. bl_Transactions bl = map me_TXID es \<and> GetMempool e t' = Inr es \<and> subseq es mem"
proof -
  obtain stats bl0 es where p: "template_txs e t (Height bl0) mem 0 [] = Inr es"
    "t' = (if length mem \<noteq> length es then fst (SetMempool e now t es) else t)"
    "finish_template e t' stats merges (bl0\<lparr>bl_Transactions := map me_TXID es\<rparr>) = Inr (bl, d)"
    by (rule GetBlockTemplate_Inr [OF tmpl]) (use mem(1) in auto)
  have sub: "subseq es mem" using template_txs_subseq [OF p(1)] by simp
  have "Mempool_expire now es = es"
    using mem(2) list_emb_set [OF sub] by (auto simp: Mempool_expire_def filter_id_conv)
  then have "GetMempool e t' = Inr es"
    using p(2) mem(1) GetMempool_SetMempool [of now t es] subseq_same_length [OF sub] by (cases "length mem = length es") auto
  then show ?thesis using finish_template_txs [OF p(3)] sub by auto
qed

end

end
