(* ===== verification/Stratum.thy ===== *)
theory Stratum
  imports Mining
begin

text \<open>
  Miners and the chains that are mined together: \<^verbatim>\<open>src/blockchain/bc-stratum.go\<close>, \<^verbatim>\<open>mergestratum.go\<close>,
  \<^verbatim>\<open>src/stratum/stratumsrv/server.go\<close> and the search for a nonce of \<^verbatim>\<open>mining.go\<close>. The server keeps pointers to
  blocks: all connections are sent the same block, and every one writes its own recipient and nonce into it. The
  blocks are therefore a store, a list in which a pointer is an index, and jobs hold pointers. JSON is left
  out: a request is its decoded form, or \<open>None\<close> when decoding fails. Random numbers and the clock are arguments. What
  another chain answers is an argument too; its answers come in any order, which the model fixes.
\<close>

section \<open>Other chains\<close>

definition matchesDiff :: "128 word \<Rightarrow> u64 \<Rightarrow> bool res" where
  "matchesDiff h diff =
     res_bind (U128_FromBytes (arr_bytes h)) (\<lambda>val.
     res_bind (U128_Div64 U128_Max diff) (\<lambda>m. Inr (U128_Cmp val m \<le> 0)))"

record mergestratum =
  ms_Destination :: string
  ms_Permanent :: bool
  ms_HashingID :: HashingID
  ms_Difficulty :: u64
  ms_JobID :: string

record Job =
  job_Blob :: bytes
  job_JobID :: string
  job_Target :: bytes
  job_Height :: u64
  job_SeedHash :: hash

record SubmitRequest =
  sr_JobID :: string
  sr_Nonce :: string
  sr_Blob :: bytes
  sr_NonceExtra :: bytes
  sr_Result :: string

definition add_merge :: "string \<Rightarrow> bool \<Rightarrow> mergestratum list \<Rightarrow> mergestratum list option" where
  "add_merge ip permanent ms =
     (if list_ex (\<lambda>v. ms_Destination v = ip) ms then None
      else Some (ms @ [\<lparr>ms_Destination = ip, ms_Permanent = permanent, ms_HashingID = \<lparr>NetworkID = 0, hid_Hash = 0\<rparr>,
                        ms_Difficulty = 0, ms_JobID = []\<rparr>]))"

fun remove_merge :: "string \<Rightarrow> mergestratum list \<Rightarrow> mergestratum list" where
  "remove_merge ip [] = []"
| "remove_merge ip (v # vs) = (if ms_Destination v = ip then vs else v # remove_merge ip vs)"

text \<open>A job of another chain; \<open>Inr None\<close> when the connection to it is closed.\<close>

definition on_merge_job :: "Job \<Rightarrow> mergestratum \<Rightarrow> mergestratum option res" where
  "on_merge_job job m =
     (case MiningBlob_Deserialize (job_Blob job) of
        Inl (Panic msg) \<Rightarrow> Inl (Panic msg)
      | Inl (Err _) \<Rightarrow> Inr None
      | Inr mb \<Rightarrow>
          if length (mb_Chains mb) \<noteq> 1 then Inr None
          else if length (job_Target job) \<noteq> 16 \<and> length (job_Target job) \<noteq> 8 \<and> length (job_Target job) \<noteq> 4 then Inr None
          else res_bind (ByteTargetToDiff (job_Target job)) (\<lambda>diff.
               Inr (Some (m\<lparr>ms_HashingID := mb_Chains mb ! 0, ms_Difficulty := Lo diff, ms_JobID := job_JobID job\<rparr>))))"

text \<open>The template is built with the chains that have sent a job.\<close>

definition merges_of :: "mergestratum list \<Rightarrow> merge list" where
  "merges_of ms = map (\<lambda>m. (ms_HashingID m, ms_Difficulty m)) ms"

text \<open>\<open>reply\<close> is what the node of the other chain does with the block: the found blocks it reports, or \<open>None\<close>
  when it does not answer.\<close>

definition merge_found :: "(mergestratum \<Rightarrow> SubmitRequest \<Rightarrow> FoundBlockInfo list option) \<Rightarrow> SubmitRequest \<Rightarrow> mergestratum \<Rightarrow> FoundBlockInfo" where
  "merge_found reply req v =
     (case reply v (req\<lparr>sr_JobID := ms_JobID v\<rparr>) of
        Some [f] \<Rightarrow> f
      | _ \<Rightarrow> \<lparr>fb_Hash = 0, fb_Height = 0, fb_NetworkID = NetworkID (ms_HashingID v), fb_Difficulty = U128_Zero, fb_Ok = False\<rparr>)"

fun submit_merges ::
  "(mergestratum \<Rightarrow> SubmitRequest \<Rightarrow> FoundBlockInfo list option) \<Rightarrow> SubmitRequest \<Rightarrow> 128 word \<Rightarrow> mergestratum list \<Rightarrow>
   FoundBlockInfo list res" where
  "submit_merges reply req pow [] = Inr []"
| "submit_merges reply req pow (v # vs) =
     res_bind (if ms_Difficulty v \<noteq> 0 then matchesDiff pow (ms_Difficulty v) else Inr False) (\<lambda>ok.
     res_bind (submit_merges reply req pow vs) (\<lambda>founds.
       Inr (if ok then merge_found reply req v # founds else founds)))"

definition submitMergeMinedBlock ::
  "'x crypto_scheme \<Rightarrow> (mergestratum \<Rightarrow> SubmitRequest \<Rightarrow> FoundBlockInfo list option) \<Rightarrow> mergestratum list \<Rightarrow> Block \<Rightarrow> 128 word \<Rightarrow>
   (FoundBlockInfo list \<times> bool) res" where
  "submitMergeMinedBlock c reply ms bl pow =
     res_bind (Commitment_MiningBlob c (Block_Commitment c bl)) (\<lambda>mb.
       let req = \<lparr>sr_JobID = [], sr_Nonce = hex_EncodeToString (le_bytes 4 (unat (Nonce bl))),
                  sr_Blob = MiningBlob_Serialize mb, sr_NonceExtra = [], sr_Result = hex_EncodeToString (arr_bytes pow)\<rparr>
       in res_bind (submit_merges reply req pow ms) (\<lambda>founds. Inr (founds, founds \<noteq> [])))"

section \<open>The server\<close>

definition STRATUM_JOBS_HISTORY :: nat where "STRATUM_JOBS_HISTORY = MINIDAG_ANCESTORS"

record MinerJob =
  mj_JobID :: string
  mj_Block :: nat
  mj_Seed :: hash

record MinerConn =
  mc_Address :: address
  mc_Jobs :: "MinerJob list"

record Server =
  sv_Blocks :: "Block list"
  sv_LastBlock :: "nat option"
  sv_LastMinDiff :: Uint128
  sv_conns :: "(string \<times> MinerConn) list"
  sv_Merges :: "mergestratum list"
  sv_mergesUpdated :: bool
  sv_lastJob :: int

definition new_conn :: "string \<Rightarrow> Server \<Rightarrow> Server" where
  "new_conn k sv = sv\<lparr>sv_conns := filter (\<lambda>(k', _). k' \<noteq> k) (sv_conns sv) @ [(k, \<lparr>mc_Address = INVALID_ADDRESS, mc_Jobs = []\<rparr>)]\<rparr>"

definition sv_Kick :: "string \<Rightarrow> Server \<Rightarrow> Server" where
  "sv_Kick k sv = sv\<lparr>sv_conns := filter (\<lambda>(k', _). k' \<noteq> k) (sv_conns sv)\<rparr>"

definition sv_conn :: "string \<Rightarrow> Server \<Rightarrow> MinerConn option" where
  "sv_conn k sv = map_of (sv_conns sv) k"

definition set_conn :: "string \<Rightarrow> (MinerConn \<Rightarrow> MinerConn) \<Rightarrow> Server \<Rightarrow> Server" where
  "set_conn k f sv = sv\<lparr>sv_conns := map (\<lambda>(k', v). (k', if k' = k then f v else v)) (sv_conns sv)\<rparr>"

definition push_job :: "MinerJob \<Rightarrow> MinerConn \<Rightarrow> MinerConn" where
  "push_job j c =
     (let jobs = (if length (mc_Jobs c) \<ge> STRATUM_JOBS_HISTORY then tl (mc_Jobs c) else mc_Jobs c)
      in c\<lparr>mc_Jobs := jobs @ [j]\<rparr>)"

text \<open>The job of the block at \<open>ref\<close> for the connection \<open>k\<close>: the store already has the recipient.\<close>

definition give_job :: "'x crypto_scheme \<Rightarrow> nat \<Rightarrow> Uint128 \<Rightarrow> string \<Rightarrow> string \<Rightarrow> Server \<Rightarrow> (Server \<times> Job) res" where
  "give_job c ref diff jobid k sv =
     (let bl = sv_Blocks sv ! ref
      in res_bind (Commitment_MiningBlob c (Block_Commitment c bl)) (\<lambda>blob.
         res_bind (GetTargetBytes diff) (\<lambda>target.
           let seed = GetSeed c blob
           in Inr (set_conn k (push_job \<lparr>mj_JobID = jobid, mj_Block = ref, mj_Seed = seed\<rparr>) sv,
                   \<lparr>job_Blob = MiningBlob_Serialize blob, job_JobID = jobid, job_Target = target, job_Height = Height bl,
                    job_SeedHash = seed\<rparr>))))"

text \<open>One of the threads that \<open>SendJob\<close> starts, one for every connection.\<close>

definition SendJob_conn ::
  "'x crypto_scheme \<Rightarrow> nat \<Rightarrow> Uint128 \<Rightarrow> 128 word \<Rightarrow> string \<Rightarrow> string \<Rightarrow> Server \<Rightarrow> (Server \<times> Job option) res" where
  "SendJob_conn c ref diff extra jobid k sv =
     (case sv_conn k sv of
        None \<Rightarrow> Inr (sv, None)
      | Some v \<Rightarrow>
          if mc_Address v = INVALID_ADDRESS then Inr (sv, None)
          else
            let bl = (sv_Blocks sv ! ref)\<lparr>NonceExtra := extra, bl_Recipient := mc_Address v\<rparr>;
                sv = sv\<lparr>sv_Blocks := (sv_Blocks sv)[ref := bl]\<rparr>
            in res_bind (give_job c ref diff jobid k sv) (\<lambda>(sv, job). Inr (sv, Some job)))"

text \<open>A new block for all: it gets a place in the store. The threads then run one after the other, in any order.\<close>

definition SendJob :: "Block \<Rightarrow> Uint128 \<Rightarrow> Server \<Rightarrow> Server" where
  "SendJob bl diff sv =
     sv\<lparr>sv_Blocks := sv_Blocks sv @ [bl], sv_LastBlock := Some (length (sv_Blocks sv)), sv_LastMinDiff := diff\<rparr>"

fun SendJob_all ::
  "'x crypto_scheme \<Rightarrow> nat \<Rightarrow> Uint128 \<Rightarrow> (string \<times> 128 word \<times> string) list \<Rightarrow> Server \<Rightarrow> Server res" where
  "SendJob_all c ref diff [] sv = Inr sv"
| "SendJob_all c ref diff ((k, extra, jobid) # ks) sv =
     res_bind (SendJob_conn c ref diff extra jobid k sv) (\<lambda>(sv, _). SendJob_all c ref diff ks sv)"

text \<open>Milliseconds; without force a job is sent only half a second after the last. The database may change, because
  the template may write the mempool.\<close>

definition NewStratumJob ::
  "('t, 'x) ext_scheme \<Rightarrow> int \<Rightarrow> u64 \<Rightarrow> 128 word \<Rightarrow> int \<Rightarrow> bool \<Rightarrow> 't \<Rightarrow> Server \<Rightarrow> 't \<times> Server outcome" where
  "NewStratumJob e now time extra clock force t sv =
     (let sv = sv\<lparr>sv_mergesUpdated := True\<rparr>
      in if \<not> force \<and> clock - sv_lastJob sv < 500 then (t, sv, None)
         else
           let sv = sv\<lparr>sv_lastJob := clock\<rparr>
           in case GetBlockTemplate e now time extra (merges_of (sv_Merges sv)) INVALID_ADDRESS t of
                (_, Inl (Panic m)) \<Rightarrow> (t, sv, Some (Panic m))
              | (_, Inl (Err _)) \<Rightarrow> (t, sv, None)
              | (t', Inr (bl, mindiff)) \<Rightarrow> (t', SendJob bl (U128_From64 mindiff) sv, None))"

section \<open>Miners\<close>

definition merge_prefix :: string where "merge_prefix = ''merge-mining:''"

definition login_address :: "string \<Rightarrow> address response" where
  "login_address login =
     (case FromString login of
        Inl (Panic m) \<Rightarrow> Crashed m
      | Inr a \<Rightarrow> (if Addr a = INVALID_ADDRESS then ErrorResponse (-1) ''invalid wallet address'' else SuccessResponse (Addr a))
      | Inl (Err _) \<Rightarrow>
          if length login > length merge_prefix \<and> take (length merge_prefix) login = merge_prefix then
            if IS_MASTERCHAIN then ErrorResponse (-1) ''merge mining: masterchain can't connect to another masterchain''
            else (case FromString (drop (length merge_prefix) login) of
                    Inl (Panic m) \<Rightarrow> Crashed m
                  | Inl (Err _) \<Rightarrow> ErrorResponse (-1) ''invalid merge mining wallet address''
                  | Inr a \<Rightarrow> if Addr a = INVALID_ADDRESS then ErrorResponse (-1) ''invalid wallet address''
                            else SuccessResponse (Addr a))
          else ErrorResponse (-1) ''invalid wallet address'')"

definition login :: "'x crypto_scheme \<Rightarrow> string \<Rightarrow> string \<Rightarrow> string option \<Rightarrow> string \<Rightarrow> Server \<Rightarrow> Server \<times> Job response" where
  "login c k meth params jobid sv =
     (if meth \<noteq> ''login'' then (sv, ErrorResponse (-1) ''invalid method'')
      else case params of None \<Rightarrow> (sv, ErrorResponse (-1) ''failed to decode login request'') | Some login \<Rightarrow>
        (case login_address login of
           ErrorResponse i m \<Rightarrow> (sv, ErrorResponse i m)
         | Crashed m \<Rightarrow> (sv, Crashed m)
         | SuccessResponse addr \<Rightarrow>
             let sv = set_conn k (\<lambda>v. v\<lparr>mc_Address := addr\<rparr>) sv
             in case sv_LastBlock sv of
                  None \<Rightarrow> (sv, ErrorResponse (-1) ''block template is not ready yet'')
                | Some ref \<Rightarrow>
                    let sv = sv\<lparr>sv_Blocks := (sv_Blocks sv)[ref := (sv_Blocks sv ! ref)\<lparr>bl_Recipient := addr\<rparr>]\<rparr>
                    in case give_job c ref (sv_LastMinDiff sv) jobid k sv of
                         Inl err \<Rightarrow> (sv, Crashed (case err of Panic m \<Rightarrow> m | Err m \<Rightarrow> m))
                       | Inr (sv, job) \<Rightarrow> (sv, SuccessResponse job)))"

text \<open>After the login the transactions of the mempool are written to the miner.\<close>

fun login_mempool :: "('t, 'x) ext_scheme \<Rightarrow> 't \<Rightarrow> u64 \<Rightarrow> MempoolEntry list \<Rightarrow> bytes list res" where
  "login_mempool e t topheight [] = Inr []"
| "login_mempool e t topheight (me # mes) =
     res_bind (GetTx e t (me_TXID me) topheight) (\<lambda>(tx, _).
     res_bind (login_mempool e t topheight mes) (\<lambda>ps. Inr (Tx_Serialize tx # ps)))"

text \<open>The block of a submission: a copy of the job's block with what the miner has found.\<close>

definition submitted_block :: "SubmitRequest \<Rightarrow> bytes \<Rightarrow> Block \<Rightarrow> Block response" where
  "submitted_block p nonceBin jb =
     (if sr_Blob p \<noteq> [] \<and> IS_MASTERCHAIN then ErrorResponse (-1) ''masterchain node cannot accept merge mining solutions''
      else
        (case (if sr_Blob p \<noteq> [] then
                 (case MiningBlob_Deserialize (sr_Blob p) of
                    Inl (Panic m) \<Rightarrow> Crashed m
                  | Inl (Err _) \<Rightarrow> ErrorResponse (-1) ''failed to deserialize mining blob''
                  | Inr blob \<Rightarrow>
                      (case SetMiningBlob jb blob of
                         (_, Some (Panic m)) \<Rightarrow> Crashed m
                       | (_, Some (Err _)) \<Rightarrow> ErrorResponse (-1) ''failed to set mining blob''
                       | (jb, None) \<Rightarrow> SuccessResponse jb))
               else SuccessResponse jb) of
           SuccessResponse jb \<Rightarrow>
             SuccessResponse
               ((if length (sr_NonceExtra p) = 16 then jb\<lparr>NonceExtra := arr_of (sr_NonceExtra p)\<rparr> else jb)
                \<lparr>Nonce := word_of_nat (le_val (take 4 nonceBin))\<rparr>)
         | ErrorResponse i m \<Rightarrow> ErrorResponse i m
         | Crashed m \<Rightarrow> Crashed m))"

definition pow_half :: "hash \<Rightarrow> 128 word" where
  "pow_half h = arr_of (drop 16 (arr_bytes h))"

text \<open>\<open>submit\<close>: the new state of the node and the answer; \<open>None\<close> if adding the block does not return. An answer with
  an error other than \<open>stale job\<close> and \<open>invalid block\<close> closes the connection.\<close>

definition check_submitted ::
  "('t, 'x) ext_scheme \<Rightarrow> checkpoints \<Rightarrow> int \<Rightarrow> u64 \<Rightarrow> (mergestratum \<Rightarrow> SubmitRequest \<Rightarrow> FoundBlockInfo list option) \<Rightarrow>
   mergestratum list \<Rightarrow> Block \<Rightarrow> 128 word \<Rightarrow> 't node \<Rightarrow> ('t node \<times> FoundBlockInfo list response) option" where
  "check_submitted e cp now time reply ms jb pow n =
     (case (if IS_MASTERCHAIN then submitMergeMinedBlock e reply ms jb pow else Inr ([], False)) of
        Inl err \<Rightarrow> Some (n, Crashed (case err of Panic m \<Rightarrow> m | Err m \<Rightarrow> m))
      | Inr merged \<Rightarrow>
          map_option
            (\<lambda>((n', err), blocks).
               (n', case err of None \<Rightarrow> SuccessResponse blocks | Some (Panic m) \<Rightarrow> Crashed m
                    | Some (Err m) \<Rightarrow> ErrorResponse (-1) (''invalid block: '' @ m)))
            (blockFound e cp now time merged jb pow n))"

definition submit ::
  "('t, 'x) ext_scheme \<Rightarrow> checkpoints \<Rightarrow> int \<Rightarrow> u64 \<Rightarrow> (mergestratum \<Rightarrow> SubmitRequest \<Rightarrow> FoundBlockInfo list option) \<Rightarrow>
   string \<Rightarrow> SubmitRequest option \<Rightarrow> Server \<Rightarrow> 't node \<Rightarrow> ('t node \<times> FoundBlockInfo list response) option" where
  "submit e cp now time reply k params sv n =
     (case params of None \<Rightarrow> Some (n, ErrorResponse (-1) ''failed to unmarshal json'') | Some p \<Rightarrow>
      (case hex_DecodeString (sr_Nonce p) of Inl _ \<Rightarrow> Some (n, ErrorResponse (-1) ''malformed job'') | Inr nonceBin \<Rightarrow>
         if length nonceBin < 4 then Some (n, Crashed ''index out of range'')
         else
           (case (case sv_conn k sv of None \<Rightarrow> None | Some v \<Rightarrow> find (\<lambda>j. mj_JobID j = sr_JobID p) (mc_Jobs v)) of
              None \<Rightarrow> Some (n, ErrorResponse (-1) ''stale job'')
            | Some job \<Rightarrow>
                (case submitted_block p nonceBin (sv_Blocks sv ! mj_Block job) of
                   ErrorResponse i m \<Rightarrow> Some (n, ErrorResponse i m)
                 | Crashed m \<Rightarrow> Some (n, Crashed m)
                 | SuccessResponse jb \<Rightarrow>
                     (case Commitment_MiningBlob e (Block_Commitment e jb) of
                        Inl err \<Rightarrow> Some (n, Crashed (case err of Panic m \<Rightarrow> m | Err m \<Rightarrow> m))
                      | Inr mb \<Rightarrow>
                          check_submitted e cp now time reply (sv_Merges sv) jb
                            (pow_half (randomvirel_PowHash e (GetSeed e mb) (MiningBlob_Serialize mb))) n)))))"

section \<open>The integrated miner\<close>

text \<open>One round of \<open>findBlockSolution\<close>: the block and the seed for the next round, or the end with the block to report.\<close>

datatype mining = Stopped | Found Block "128 word" | Next Block hash | Broken error

definition findBlockSolution_round ::
  "'x crypto_scheme \<Rightarrow> u64 \<Rightarrow> bool \<Rightarrow> bool \<Rightarrow> Uint128 \<Rightarrow> hash \<Rightarrow> Block \<Rightarrow> mining" where
  "findBlockSolution_round c time updated mining min_diff seed bl =
     (if updated \<or> \<not> mining then Stopped
      else case Commitment_MiningBlob c (Block_Commitment c bl) of
        Inl err \<Rightarrow> Broken err
      | Inr mb \<Rightarrow>
          let (bl, seed) = (if Nonce bl AND 0xff = 0 then (bl\<lparr>Timestamp := time\<rparr>, GetSeed c mb) else (bl, seed));
              powHash = pow_half (randomvirel_PowHash c seed (MiningBlob_Serialize mb))
          in case ValidPowHash powHash min_diff of
               Inl err \<Rightarrow> Broken err
             | Inr True \<Rightarrow> Found bl powHash
             | Inr False \<Rightarrow> Next (bl\<lparr>Nonce := Nonce bl + 1\<rparr>) seed)"

section \<open>What a miner computes\<close>

text \<open>The nonce is at the bytes 39 to 42 of the blob; a miner changes only these.\<close>

definition with_nonce :: "bytes \<Rightarrow> bytes \<Rightarrow> bytes" where
  "with_nonce blob nonce = take 39 blob @ nonce @ drop 43 blob"

lemma MiningBlob_with_nonce:
  assumes "length nonce = 4"
  shows "MiningBlob_Serialize (m\<lparr>mb_Nonce := word_of_nat (le_val nonce)\<rparr>) = with_nonce (MiningBlob_Serialize m) nonce"
proof -
  let ?h = "AddUint64 (mb_Timestamp m) @ AddArray (mb_NonceExtra m) @ AddUint64 (word_of_nat (length (mb_Chains m))) @ AddFixedByteArray id_entropy"
  have h: "length ?h = 39" by (simp add: AddUint64_def AddArray_def AddFixedByteArray_def id_entropy_def)
  have n: "length (AddUint32 x) = 4" for x by (simp add: AddUint32_def)
  have "le_val nonce < 2 ^ 32" using le_val_bound [of nonce] assms by (simp add: power256)
  then have "AddUint32 (word_of_nat (le_val nonce)) = nonce"
    using assms le_bytes_le_val [of nonce] by (simp add: AddUint32_def unat_of_nat32)
  moreover have "with_nonce (?h @ AddUint32 x @ y) nonce = ?h @ nonce @ y" for x y
    using h n [of x] by (simp add: with_nonce_def del: append_assoc)
  ultimately show ?thesis by (simp add: MiningBlob_Serialize_def)
qed

lemma MiningBlob_Nonce:
  "Commitment_MiningBlob c (Block_Commitment c (bl\<lparr>Nonce := n\<rparr>)) =
     res_bind (Commitment_MiningBlob c (Block_Commitment c bl)) (\<lambda>mb. Inr (mb\<lparr>mb_Nonce := n\<rparr>))"
  by (simp add: Commitment_MiningBlob_def Block_Commitment_def BaseHash_def Commitment_HashingID_def sort_chains_def)

lemma GetSeed_Nonce: "GetSeed c (mb\<lparr>mb_Nonce := n\<rparr>) = GetSeed c mb"
  by (simp add: GetSeed_def)

text \<open>Sending a job.\<close>

lemma conn_set_conn: "sv_conn k (set_conn k f sv) = map_option f (sv_conn k sv)"
proof -
  have "map_of (map (\<lambda>(k', v). (k', if k' = k then f v else v)) conns) k = map_option f (map_of conns k)" for conns
    by (induction conns) auto
  then show ?thesis by (simp add: sv_conn_def set_conn_def)
qed

lemma conn_set_other: "k' \<noteq> k \<Longrightarrow> sv_conn k' (set_conn k f sv) = sv_conn k' sv"
proof -
  assume "k' \<noteq> k"
  then have "map_of (map (\<lambda>(k', v). (k', if k' = k then f v else v)) conns) k' = map_of conns k'" for conns
    by (induction conns) auto
  then show ?thesis by (simp add: sv_conn_def set_conn_def)
qed

lemma SendJob_conn_Inr:
  assumes "SendJob_conn c ref diff extra jobid k sv = Inr (sv', Some job)" "sv_conn k sv = Some v"
  obtains bl mb where "bl = (sv_Blocks sv ! ref)\<lparr>NonceExtra := extra, bl_Recipient := mc_Address v\<rparr>"
    "sv_Blocks sv' = (sv_Blocks sv)[ref := bl]" "sv_Merges sv' = sv_Merges sv"
    "ref < length (sv_Blocks sv) \<Longrightarrow> Commitment_MiningBlob c (Block_Commitment c bl) = Inr mb"
    "ref < length (sv_Blocks sv) \<Longrightarrow> job_Blob job = MiningBlob_Serialize mb" "ref < length (sv_Blocks sv) \<Longrightarrow> job_SeedHash job = GetSeed c mb"
    "job_JobID job = jobid" "GetTargetBytes diff = Inr (job_Target job)"
    "sv_conn k sv' = Some (push_job \<lparr>mj_JobID = jobid, mj_Block = ref, mj_Seed = job_SeedHash job\<rparr> v)"
    "\<And>k'. k' \<noteq> k \<Longrightarrow> sv_conn k' sv' = sv_conn k' sv"
proof -
  let ?bl = "(sv_Blocks sv ! ref)\<lparr>NonceExtra := extra, bl_Recipient := mc_Address v\<rparr>"
  let ?sv = "sv\<lparr>sv_Blocks := (sv_Blocks sv)[ref := ?bl]\<rparr>"
  have give: "give_job c ref diff jobid k ?sv = Inr (sv', job)"
    using assms by (auto simp: SendJob_conn_def Let_def outcome_iffs split: if_splits)
  obtain mb target where mb: "Commitment_MiningBlob c (Block_Commitment c (sv_Blocks ?sv ! ref)) = Inr mb"
    and t: "GetTargetBytes diff = Inr target"
    and sv': "sv' = set_conn k (push_job \<lparr>mj_JobID = jobid, mj_Block = ref, mj_Seed = GetSeed c mb\<rparr>) ?sv"
    and job: "job = \<lparr>job_Blob = MiningBlob_Serialize mb, job_JobID = jobid, job_Target = target,
       job_Height = Height (sv_Blocks ?sv ! ref), job_SeedHash = GetSeed c mb\<rparr>"
    using give by (auto simp: give_job_def Let_def outcome_iffs)
  have conn: "sv_conn k' ?sv = sv_conn k' sv" for k' by (simp add: sv_conn_def)
  show thesis
  proof
    show "sv_Blocks sv' = (sv_Blocks sv)[ref := ?bl]" "sv_Merges sv' = sv_Merges sv" by (simp_all add: sv' set_conn_def)
    show "sv_conn k sv' = Some (push_job \<lparr>mj_JobID = jobid, mj_Block = ref, mj_Seed = job_SeedHash job\<rparr> v)"
      using assms(2) by (simp add: sv' conn_set_conn conn job)
    show "sv_conn k' sv' = sv_conn k' sv" if "k' \<noteq> k" for k' using that by (simp add: sv' conn_set_other conn)
  qed (use mb t job in auto)
qed

lemma find_push_job:
  assumes "jid \<notin> mj_JobID ` set (mc_Jobs v)" "mj_JobID j = jid"
  shows "find (\<lambda>j. mj_JobID j = jid) (mc_Jobs (push_job j v)) = Some j"
proof -
  have "find (\<lambda>j. mj_JobID j = jid) (js @ [j]) = Some j" if "jid \<notin> mj_JobID ` set js" for js
    using that assms(2) by (induction js) auto
  moreover have "jid \<notin> mj_JobID ` set (tl (mc_Jobs v))" using assms(1) by (cases "mc_Jobs v") auto
  ultimately show ?thesis using assms(1) by (auto simp: push_job_def Let_def)
qed

text \<open>A submission with nothing but a nonce.\<close>

definition plain_submit :: "string \<Rightarrow> bytes \<Rightarrow> SubmitRequest" where
  "plain_submit jobid nonce =
     \<lparr>sr_JobID = jobid, sr_Nonce = hex_EncodeToString nonce, sr_Blob = [], sr_NonceExtra = [], sr_Result = []\<rparr>"

lemma submit_plain:
  assumes "length nonce = 4" "sv_conn k sv = Some v" "find (\<lambda>j. mj_JobID j = jobid) (mc_Jobs v) = Some j"
    and "sv_Blocks sv ! mj_Block j = bl" "Commitment_MiningBlob e (Block_Commitment e bl) = Inr mb"
  shows "submit e cp now time reply k (Some (plain_submit jobid nonce)) sv n =
    check_submitted e cp now time reply (sv_Merges sv) (bl\<lparr>Nonce := word_of_nat (le_val nonce)\<rparr>)
      (pow_half (randomvirel_PowHash e (GetSeed e mb) (with_nonce (MiningBlob_Serialize mb) nonce))) n"
  using assms MiningBlob_with_nonce [OF assms(1), of mb]
  by (simp add: submit_def plain_submit_def hex_decode_encode submitted_block_def MiningBlob_Nonce GetSeed_Nonce)

lemma submit_own_job:
  assumes send: "SendJob_conn e ref diff extra jobid k sv = Inr (sv', Some job)" and v: "sv_conn k sv = Some v"
    and ref: "ref < length (sv_Blocks sv)" and new: "jobid \<notin> mj_JobID ` set (mc_Jobs v)" and len: "length nonce = 4"
  shows "submit e cp now time reply k (Some (plain_submit (job_JobID job) nonce)) sv' n =
    check_submitted e cp now time reply (sv_Merges sv)
      ((sv_Blocks sv ! ref)\<lparr>NonceExtra := extra, bl_Recipient := mc_Address v, Nonce := word_of_nat (le_val nonce)\<rparr>)
      (pow_half (randomvirel_PowHash e (job_SeedHash job) (with_nonce (job_Blob job) nonce))) n"
proof -
  obtain bl mb where s: "bl = (sv_Blocks sv ! ref)\<lparr>NonceExtra := extra, bl_Recipient := mc_Address v\<rparr>"
    "sv_Blocks sv' = (sv_Blocks sv)[ref := bl]" "sv_Merges sv' = sv_Merges sv"
    "Commitment_MiningBlob e (Block_Commitment e bl) = Inr mb" "job_Blob job = MiningBlob_Serialize mb"
    "job_SeedHash job = GetSeed e mb" "job_JobID job = jobid"
    "sv_conn k sv' = Some (push_job \<lparr>mj_JobID = jobid, mj_Block = ref, mj_Seed = job_SeedHash job\<rparr> v)"
    by (rule SendJob_conn_Inr [OF send v]) (use ref in auto)
  have "find (\<lambda>j. mj_JobID j = jobid) (mc_Jobs (push_job \<lparr>mj_JobID = jobid, mj_Block = ref, mj_Seed = job_SeedHash job\<rparr> v)) =
      Some \<lparr>mj_JobID = jobid, mj_Block = ref, mj_Seed = job_SeedHash job\<rparr>"
    using new by (intro find_push_job) simp_all
  from submit_plain [OF len s(8) this _ s(4)] show ?thesis using s ref by simp
qed

text \<open>Two miners with the same block: the second job changes the block of the first.\<close>

lemma submit_shared_block:
  assumes send: "SendJob_conn e ref diff extra jobid k sv = Inr (sv', Some job)" "sv_conn k sv = Some v"
    and send2: "SendJob_conn e ref diff extra' jobid' k' sv' = Inr (sv'', Some job')" "sv_conn k' sv = Some v'"
    and ref: "ref < length (sv_Blocks sv)" and new: "jobid \<notin> mj_JobID ` set (mc_Jobs v)" and len: "length nonce = 4" and k: "k \<noteq> k'"
  shows "submit e cp now time reply k (Some (plain_submit (job_JobID job) nonce)) sv'' n =
    check_submitted e cp now time reply (sv_Merges sv)
      ((sv_Blocks sv ! ref)\<lparr>NonceExtra := extra', bl_Recipient := mc_Address v', Nonce := word_of_nat (le_val nonce)\<rparr>)
      (pow_half (randomvirel_PowHash e (job_SeedHash job') (with_nonce (job_Blob job') nonce))) n"
proof -
  obtain bl where s: "bl = (sv_Blocks sv ! ref)\<lparr>NonceExtra := extra, bl_Recipient := mc_Address v\<rparr>"
    "sv_Blocks sv' = (sv_Blocks sv)[ref := bl]" "sv_Merges sv' = sv_Merges sv" "job_JobID job = jobid"
    "sv_conn k sv' = Some (push_job \<lparr>mj_JobID = jobid, mj_Block = ref, mj_Seed = job_SeedHash job\<rparr> v)"
    "sv_conn k' sv' = Some v'"
    by (rule SendJob_conn_Inr [OF send]) (use send2(2) k in auto)
  have ref': "ref < length (sv_Blocks sv')" using ref s(2) by simp
  obtain bl' mb where s': "bl' = (sv_Blocks sv' ! ref)\<lparr>NonceExtra := extra', bl_Recipient := mc_Address v'\<rparr>"
    "sv_Blocks sv'' = (sv_Blocks sv')[ref := bl']" "sv_Merges sv'' = sv_Merges sv'"
    "Commitment_MiningBlob e (Block_Commitment e bl') = Inr mb" "job_Blob job' = MiningBlob_Serialize mb"
    "job_SeedHash job' = GetSeed e mb" "sv_conn k sv'' = sv_conn k sv'"
    by (rule SendJob_conn_Inr [OF send2(1) s(6)]) (use ref' k in auto)
  have bl': "bl' = (sv_Blocks sv ! ref)\<lparr>NonceExtra := extra', bl_Recipient := mc_Address v'\<rparr>"
    using s'(1) s(1,2) ref by simp
  have "find (\<lambda>j. mj_JobID j = jobid) (mc_Jobs (push_job \<lparr>mj_JobID = jobid, mj_Block = ref, mj_Seed = job_SeedHash job\<rparr> v)) =
      Some \<lparr>mj_JobID = jobid, mj_Block = ref, mj_Seed = job_SeedHash job\<rparr>"
    using new by (intro find_push_job) simp_all
  from submit_plain [OF len _ this _ s'(4), of k sv''] show ?thesis using s s' bl' ref ref' by simp
qed

text \<open>A nonce of fewer than four bytes is read past its end.\<close>

lemma submit_short_nonce:
  "length nonce < 4 \<Longrightarrow> submit e cp now time reply k (Some (plain_submit jobid nonce)) sv n = Some (n, Crashed ''index out of range'')"
  by (simp add: submit_def plain_submit_def hex_decode_encode)

section \<open>Difficulties\<close>

lemma ValidPowHash_half: "ValidPowHash (pow_half h) diff = ValidPowHash32 h diff"
proof -
  have "arr_bytes (pow_half h) = drop 16 (arr_bytes h)" unfolding pow_half_def by (rule arr_bytes_arr_of) simp
  then show ?thesis by (simp add: ValidPowHash_def ValidPowHash32_def HashToVal_def)
qed

text \<open>The check for other chains is the one for blocks.\<close>

lemma matchesDiff_valid: "d \<noteq> 0 \<Longrightarrow> matchesDiff h d = ValidPowHash h (U128_From64 d)"
  by (simp add: matchesDiff_def ValidPowHash_def U128_Div64_val U128_Div_val unat_eq_zero)

text \<open>A miner compares the last eight bytes of the hash with the target: that is enough for the difficulty.\<close>

lemma target_sound:
  assumes t: "GetTargetBytes diff = Inr t" and hi: "Hi diff = 0" and less: "le_val (drop 24 (arr_bytes h)) < le_val t"
  shows "ValidPowHash32 h diff = Inr True"
proof -
  let ?b = "drop 16 (arr_bytes h)" and ?d = "unat (Lo diff)"
  let ?hi = "le_val (drop 24 (arr_bytes h))"
  have d: "Lo diff \<noteq> 0" "t = le_bytes 8 (unat (0xffffffffffffffff div Lo diff))"
    using t by (auto simp: GetTargetBytes_def GetTarget_def outcome_iffs split: if_splits)
  then have d0: "0 < ?d" by (simp add: unat_gt_0)
  have vd: "val128 diff = ?d" using hi by (cases diff) (simp add: val128_def)
  have "le_val t = (2 ^ 64 - 1) div ?d"
    using unat_lt64 [of "0xffffffffffffffff div Lo diff"] by (simp add: d(2) le_val_le_bytes power256 unat_div)
  then have "?hi + 1 \<le> (2 ^ 64 - 1) div ?d" using less by simp
  then have bound: "(?hi + 1) * ?d \<le> 2 ^ 64 - 1" using d0 by (simp add: less_eq_div_iff_mult_less_eq)
  have app: "le_val (xs @ ys) = le_val xs + 256 ^ length xs * le_val ys" for xs ys
    by (induction xs) (simp_all add: algebra_simps)
  have "?b = take 8 ?b @ drop 24 (arr_bytes h)" using append_take_drop_id [of 8 ?b] by (simp add: drop_drop)
  then have "le_val ?b = le_val (take 8 ?b) + 2 ^ 64 * ?hi" using app [of "take 8 ?b" "drop 24 (arr_bytes h)"] by simp
  moreover have "le_val (take 8 ?b) < 2 ^ 64" using le_val_bound [of "take 8 ?b"] by simp
  ultimately have "le_val ?b \<le> 2 ^ 64 * (?hi + 1)" by simp
  then have "le_val ?b * ?d \<le> 2 ^ 64 * ((?hi + 1) * ?d)" by (metis mult.assoc mult_le_mono1)
  also have "\<dots> \<le> 2 ^ 64 * (2 ^ 64 - 1)" using bound by (rule mult_le_mono2)
  also have "\<dots> \<le> 2 ^ 128 - 1" by simp
  finally show ?thesis using ValidPowHash32_iff [of diff h] d0 by (simp add: vd)
qed

text \<open>The difficulty that a node reads from the target of another chain is not below the one of that chain.\<close>

lemma merge_difficulty:
  assumes t: "GetTargetBytes diff = Inr t" and hi: "Hi diff = 0"
  shows "\<exists>d. ByteTargetToDiff t = Inr d \<and> Hi d = 0 \<and> unat (Lo diff) \<le> unat (Lo d)"
proof -
  let ?d = "unat (Lo diff)" and ?t = "(0xffffffffffffffff div Lo diff) :: u64"
  have d: "Lo diff \<noteq> 0" "t = le_bytes 8 (unat ?t)"
    using t by (auto simp: GetTargetBytes_def GetTarget_def outcome_iffs split: if_splits)
  then have d0: "0 < ?d" by (simp add: unat_gt_0)
  have T: "unat ?t = (2 ^ 64 - 1) div ?d" by (simp add: unat_div)
  have "?d \<le> 2 ^ 64 - 1" using unat_lt64 [of "Lo diff"] by simp
  then have T1: "1 \<le> unat ?t" using T d0 by (simp add: less_eq_div_iff_mult_less_eq)
  then have t0: "?t \<noteq> 0" by auto
  have w: "word_of_nat (le_val t) = ?t" by (simp add: d(2) word_of_nat_le_bytes64)
  let ?q = "(2 ^ 64 - 1) div unat ?t"
  have "ByteTargetToDiff t = Inr (of128 ?q)"
    using t0 w d(2) by (simp add: ByteTargetToDiff_def TargetToDiff64_def U128_Div64_val U128_New_def val128_def)
  moreover have q: "?q < 2 ^ 64" by (rule le_less_trans [OF div_le_dividend]) simp
  moreover have "?d \<le> ?q"
    using T1 div_times_less_eq_dividend [of "2 ^ 64 - 1" ?d] by (simp add: T less_eq_div_iff_mult_less_eq mult.commute)
  ultimately show ?thesis by (simp add: of128_def unat_of_nat64)
qed

text \<open>A block that the integrated miner finds with a nonce that is a multiple of 256 is not the one it has hashed: the timestamp
  is set between the two.\<close>

lemma mined_block_changed:
  assumes "findBlockSolution_round c time False True min_diff seed bl = Found bl' pow" "Nonce bl AND 0xff = 0"
    and "Commitment_MiningBlob c (Block_Commitment c bl) = Inr mb"
  shows "pow = pow_half (randomvirel_PowHash c (GetSeed c mb) (MiningBlob_Serialize mb))"
    "Commitment_MiningBlob c (Block_Commitment c bl') = Inr (mb\<lparr>mb_Timestamp := time\<rparr>)"
proof -
  have "bl' = bl\<lparr>Timestamp := time\<rparr>" and pow: "pow = pow_half (randomvirel_PowHash c (GetSeed c mb) (MiningBlob_Serialize mb))"
    using assms by (auto simp: findBlockSolution_round_def Let_def split: sum.splits bool.splits)
  moreover have "BaseHash c (bl\<lparr>Timestamp := time\<rparr>) = BaseHash c bl" by (simp add: BaseHash_def)
  ultimately show "Commitment_MiningBlob c (Block_Commitment c bl') = Inr (mb\<lparr>mb_Timestamp := time\<rparr>)"
    using assms(3) by (auto simp: Commitment_MiningBlob_def Block_Commitment_def Commitment_HashingID_def outcome_iffs)
  show "pow = pow_half (randomvirel_PowHash c (GetSeed c mb) (MiningBlob_Serialize mb))" by (fact pow)
qed

section \<open>Runs of the server\<close>

inductive stratum_run :: "('t, 'x) ext_scheme \<Rightarrow> Server \<Rightarrow> bool" for e where
  start: "stratum_run e \<lparr>sv_Blocks = [], sv_LastBlock = None, sv_LastMinDiff = U128_Zero, sv_conns = [], sv_Merges = [],
    sv_mergesUpdated = False, sv_lastJob = 0\<rparr>"
| connect: "stratum_run e sv \<Longrightarrow> stratum_run e (new_conn k sv)"
| kick: "stratum_run e sv \<Longrightarrow> stratum_run e (sv_Kick k sv)"
| merges: "stratum_run e sv \<Longrightarrow> stratum_run e (sv\<lparr>sv_Merges := ms, sv_mergesUpdated := b\<rparr>)"
| new_job: "stratum_run e sv \<Longrightarrow> NewStratumJob e now time extra clock force t sv = (t', sv', None) \<Longrightarrow> stratum_run e sv'"
| send: "stratum_run e sv \<Longrightarrow> ref < length (sv_Blocks sv) \<Longrightarrow> SendJob_conn e ref diff extra jobid k sv = Inr (sv', job) \<Longrightarrow>
    stratum_run e sv'"
| login: "stratum_run e sv \<Longrightarrow> login e k meth params jobid sv = (sv', SuccessResponse job) \<Longrightarrow> stratum_run e sv'"
| refused: "stratum_run e sv \<Longrightarrow> login e k meth params jobid sv = (sv', ErrorResponse i m) \<Longrightarrow> stratum_run e sv'"

definition from_template :: "('t, 'x) ext_scheme \<Rightarrow> Block \<Rightarrow> bool" where
  "from_template e bl \<longleftrightarrow>
     (\<exists>now time extra ms t t' bl' d x a. GetBlockTemplate e now time extra ms INVALID_ADDRESS t = (t', Inr (bl', d)) \<and>
        bl = bl'\<lparr>NonceExtra := x, bl_Recipient := a\<rparr>)"

definition conn_jobs_ok :: "nat \<Rightarrow> MinerConn \<Rightarrow> bool" where
  "conn_jobs_ok n v \<longleftrightarrow> length (mc_Jobs v) \<le> STRATUM_JOBS_HISTORY \<and> (\<forall>j\<in>set (mc_Jobs v). mj_Block j < n)"

definition server_ok :: "('t, 'x) ext_scheme \<Rightarrow> Server \<Rightarrow> bool" where
  "server_ok e sv \<longleftrightarrow>
     (\<forall>bl\<in>set (sv_Blocks sv). from_template e bl) \<and>
     (\<forall>r. sv_LastBlock sv = Some r \<longrightarrow> r < length (sv_Blocks sv)) \<and>
     (\<forall>(k, v)\<in>set (sv_conns sv). conn_jobs_ok (length (sv_Blocks sv)) v)"

lemma from_template_update: "from_template e bl \<Longrightarrow> from_template e (bl\<lparr>NonceExtra := x, bl_Recipient := a\<rparr>)"
  unfolding from_template_def by force

lemma from_template_recipient: "from_template e bl \<Longrightarrow> from_template e (bl\<lparr>bl_Recipient := a\<rparr>)"
  unfolding from_template_def by force

lemma from_template_new:
  assumes "GetBlockTemplate e now time extra ms INVALID_ADDRESS t = (t', Inr (bl, d))"
  shows "from_template e bl"
proof -
  have "bl = bl\<lparr>NonceExtra := NonceExtra bl, bl_Recipient := bl_Recipient bl\<rparr>" by simp
  then show ?thesis using assms unfolding from_template_def by blast
qed

lemma push_job_ok: "conn_jobs_ok n v \<Longrightarrow> mj_Block j < n \<Longrightarrow> conn_jobs_ok n (push_job j v)"
  by (cases "mc_Jobs v") (auto simp: conn_jobs_ok_def push_job_def Let_def STRATUM_JOBS_HISTORY_def config_defs)

lemma set_conn_ok:
  assumes "server_ok e sv" "\<And>v. conn_jobs_ok (length (sv_Blocks sv)) v \<Longrightarrow> conn_jobs_ok (length (sv_Blocks sv)) (f v)"
  shows "server_ok e (set_conn k f sv)"
  using assms by (auto simp: server_ok_def set_conn_def)

lemma set_block_ok:
  assumes "server_ok e sv" "from_template e bl"
  shows "server_ok e (sv\<lparr>sv_Blocks := (sv_Blocks sv)[ref := bl]\<rparr>)"
  using assms set_update_subset_insert [of "sv_Blocks sv" ref bl] by (auto simp: server_ok_def split: option.splits)

lemma give_job_ok:
  assumes "server_ok e sv" "ref < length (sv_Blocks sv)" "give_job c ref diff jobid k sv = Inr (sv', job)"
  shows "server_ok e sv'"
  using assms by (auto simp: give_job_def Let_def outcome_iffs intro!: set_conn_ok push_job_ok)

lemma SendJob_ok:
  assumes "server_ok e sv" "from_template e bl"
  shows "server_ok e (SendJob bl diff sv)"
  using assms by (fastforce simp: server_ok_def SendJob_def conn_jobs_ok_def less_Suc_eq split: option.splits)

lemma NewStratumJob_ok:
  assumes "server_ok e sv" "NewStratumJob e now time extra clock force t sv = (t', sv', err)"
  shows "server_ok e sv'"
proof -
  have ok: "server_ok e (sv\<lparr>sv_mergesUpdated := True\<rparr>)" "server_ok e (sv\<lparr>sv_mergesUpdated := True, sv_lastJob := clock\<rparr>)"
    using assms(1) by (simp_all add: server_ok_def)
  show ?thesis
    using assms(2) ok SendJob_ok [OF ok(2) from_template_new]
    by (auto simp: NewStratumJob_def Let_def split: if_splits prod.splits sum.splits error.splits)
qed

lemma SendJob_conn_keeps:
  assumes "server_ok e sv" "ref < length (sv_Blocks sv)" "SendJob_conn c ref diff extra jobid k sv = Inr (sv', job)"
  shows "server_ok e sv'"
proof (cases "sv_conn k sv")
  case (Some v)
  let ?sv = "sv\<lparr>sv_Blocks := (sv_Blocks sv)[ref := (sv_Blocks sv ! ref)\<lparr>NonceExtra := extra, bl_Recipient := mc_Address v\<rparr>]\<rparr>"
  have "from_template e (sv_Blocks sv ! ref)" using assms(1,2) by (simp add: server_ok_def)
  then have "server_ok e ?sv" by (intro set_block_ok assms(1) from_template_update)
  then show ?thesis
    using assms Some give_job_ok [of e ?sv ref c diff jobid k]
    by (auto simp: SendJob_conn_def Let_def outcome_iffs split: if_splits)
qed (use assms in \<open>simp add: SendJob_conn_def\<close>)

lemma login_keeps:
  assumes ok: "server_ok e sv" and run: "login c k meth params jobid sv = (sv', r)" and ok': "\<And>m. r \<noteq> Crashed m"
  shows "server_ok e sv'"
proof (cases "\<exists>l addr. meth = ''login'' \<and> params = Some l \<and> login_address l = SuccessResponse addr")
  case False
  then have "sv' = sv" using run by (auto simp: login_def split: if_splits option.splits response.splits)
  then show ?thesis using ok by simp
next
  case True
  then obtain l addr where l: "meth = ''login''" "params = Some l" "login_address l = SuccessResponse addr" by blast
  let ?sv = "set_conn k (\<lambda>v. v\<lparr>mc_Address := addr\<rparr>) sv"
  have ok1: "server_ok e ?sv" using ok by (rule set_conn_ok) (simp add: conn_jobs_ok_def)
  show ?thesis
  proof (cases "sv_LastBlock ?sv")
    case None
    then show ?thesis using run l ok1 by (simp add: login_def)
  next
    case (Some ref)
    let ?sv' = "?sv\<lparr>sv_Blocks := (sv_Blocks ?sv)[ref := (sv_Blocks ?sv ! ref)\<lparr>bl_Recipient := addr\<rparr>]\<rparr>"
    have ref: "ref < length (sv_Blocks ?sv)" using ok1 Some by (simp add: server_ok_def)
    then have "from_template e (sv_Blocks ?sv ! ref)" using ok1 by (simp add: server_ok_def)
    then have ok2: "server_ok e ?sv'" by (intro set_block_ok ok1 from_template_recipient)
    obtain job where "give_job c ref (sv_LastMinDiff ?sv') jobid k ?sv' = Inr (sv', job)"
      using run l Some ok' by (auto simp: login_def Let_def split: sum.splits)
    then show ?thesis using give_job_ok [OF ok2] ref by simp
  qed
qed

lemma stratum_run_ok: "stratum_run e sv \<Longrightarrow> server_ok e sv"
proof (induction rule: stratum_run.induct)
  case (new_job sv now time extra clock force t t' sv')
  then show ?case by (blast intro: NewStratumJob_ok)
next
  case (send sv ref diff extra jobid k sv' job)
  then show ?case by (blast intro: SendJob_conn_keeps)
next
  case (login sv k meth params jobid sv' job)
  then show ?case by (blast intro: login_keeps)
next
  case (refused sv k meth params jobid sv' i m)
  then show ?case by (blast intro: login_keeps)
qed (auto simp: server_ok_def new_conn_def sv_Kick_def conn_jobs_ok_def split: option.splits)

end
