(* ===== verification/StakeLedger.thy ===== *)
theory StakeLedger
  imports Ledger
begin

text \<open>
  The stake counter of the statistics. \<open>staking_inv\<close> says that \<open>StakedAmount\<close> is the sum of all funds of
  all delegates, which \<open>GetStaker\<close> needs in order to find a delegate. Every transaction and every block
  that is applied keeps it. The number of funds of a delegate is bounded along the way, since it is
  written in a field of 64 bits.
\<close>

section \<open>Operations that do not touch the stake\<close>

definition no_stake :: "('t, 'x) ext_scheme \<Rightarrow> 't cs \<Rightarrow> 't cs outcome \<Rightarrow> bool" where
  "no_stake e s r \<longleftrightarrow>
     only_writes e (- {IdxDelegate}) (cs_txn s) (cs_txn (fst r)) \<and> cs_stats (fst r) = cs_stats s"

named_theorems no_stake_intros "operations that do not touch the stake, by their structure"

lemma no_stake_stop [no_stake_intros]: "no_stake e s (s, err)"
  by (simp add: no_stake_def)

lemma no_stake_with_res [no_stake_intros]:
  "(\<And>a. r = Inr a \<Longrightarrow> no_stake e s (f a)) \<Longrightarrow> no_stake e s (with_res r s f)"
  by (cases r) (simp_all add: no_stake_def)

lemma no_stake_and_then [no_stake_intros]:
  "no_stake e s r \<Longrightarrow> (\<And>s'. r = (s', None) \<Longrightarrow> no_stake e s' (f s')) \<Longrightarrow> no_stake e s (and_then r f)"
  by (cases r; cases "snd r") (auto simp: no_stake_def intro: only_writes_trans)

lemma no_stake_if [no_stake_intros]:
  "(b \<Longrightarrow> no_stake e s x) \<Longrightarrow> (\<not> b \<Longrightarrow> no_stake e s y) \<Longrightarrow> no_stake e s (if b then x else y)"
  by simp

lemma no_stake_let [no_stake_intros]:
  "(\<And>x. x = v \<Longrightarrow> no_stake e s (f x)) \<Longrightarrow> no_stake e s (let x = v in f x)"
  by simp

lemma no_stake_drop_err [no_stake_intros]: "no_stake e s r \<Longrightarrow> no_stake e s (drop_err r)"
  by (cases r rule: drop_err.cases) (simp_all add: no_stake_def)

lemma no_stake_trans: "no_stake e s (s', err) \<Longrightarrow> no_stake e s' r \<Longrightarrow> no_stake e s r"
  by (auto simp: no_stake_def intro: only_writes_trans)

text \<open>A bound of the number of funds of each delegate.\<close>

definition funds_bound :: "('t, 'x) ext_scheme \<Rightarrow> 't \<Rightarrow> nat \<Rightarrow> bool" where
  "funds_bound e t n \<longleftrightarrow> (\<forall>did d. GetDelegate e t did = Inr d \<longrightarrow> length (d_Funds d) \<le> n)"

definition stake_ok :: "('t, 'x) ext_scheme \<Rightarrow> nat \<Rightarrow> 't cs \<Rightarrow> bool" where
  "stake_ok e n s \<longleftrightarrow> staking_inv e s \<and> funds_bound e (cs_txn s) n"

lemma funds_bound_few: "funds_bound e t n \<Longrightarrow> Suc n < 2 ^ 64 \<Longrightarrow> few_funds e t"
  by (fastforce simp: funds_bound_def few_funds_def)

lemma funds_bound_mono: "funds_bound e t n \<Longrightarrow> n \<le> m \<Longrightarrow> funds_bound e t m"
  by (fastforce simp: funds_bound_def)

lemma stake_ok_mono: "stake_ok e n s \<Longrightarrow> n \<le> m \<Longrightarrow> stake_ok e m s"
  using funds_bound_mono by (auto simp: stake_ok_def)

context adb_txn
begin

lemma no_stake_put [no_stake_intros]:
  "i \<noteq> IdxDelegate \<Longrightarrow> no_stake e s (on_txn (\<lambda>t. kvPut e t i (k t) (v t)) s)"
  by (simp add: no_stake_def on_txn_put)

lemma no_stake_SetTxHeight [no_stake_intros]: "no_stake e s (on_txn (\<lambda>t. SetTxHeight e t h n) s)"
  by (simp add: no_stake_def on_txn_def SetTxHeight_def kvPut_eq Let_def)

lemma no_stake_SetMempool [no_stake_intros]: "no_stake e s (on_txn (\<lambda>t. SetMempool e now t m) s)"
  by (simp add: no_stake_def on_txn_def SetMempool_def kvPut_eq Let_def)

lemma no_stake_sets [no_stake_intros]:
  "no_stake e s (on_txn (\<lambda>t. SetState e t a st) s)"
  "no_stake e s (on_txn (\<lambda>t. SetTxTopoInc e t h a n) s)"
  "no_stake e s (on_txn (\<lambda>t. SetTxTopoOut e t h a n) s)"
  unfolding SetState_def SetTxTopoInc_def SetTxTopoOut_def by (intro no_stake_intros; simp)+

lemma no_stake_inputs [no_stake_intros]: "no_stake e s (apply_inputs e inps s)"
  by (induction inps arbitrary: s) (auto intro!: no_stake_intros)

lemma no_stake_outputs [no_stake_intros]:
  "\<forall>out\<in>set outs. so_Type out \<noteq> OUT_COINBASE_POS \<Longrightarrow>
   no_stake e s (ApplyTxOutputsToState e bh outs txid s)"
  by (induction outs arbitrary: s) (auto intro!: no_stake_intros simp: Let_def)

lemma no_stake_ok: "no_stake e s r \<Longrightarrow> stake_ok e n (fst r) = stake_ok e n s"
proof -
  assume a: "no_stake e s r"
  then have "only_writes e (- {IdxDelegate}) (cs_txn s) (cs_txn (fst r))" by (simp add: no_stake_def)
  note w = only_writes_total_staked [OF this] only_writes_delegates_ok [OF this]
    only_writes_GetDelegate [OF this]
  show ?thesis using a w by (simp add: stake_ok_def staking_inv_def funds_bound_def no_stake_def)
qed

section \<open>Transactions\<close>

lemma SetDelegate_bound:
  assumes "delegate_wf d" "funds_bound e t n" "length (d_Funds d) \<le> m" "n \<le> m"
  shows "funds_bound e (kv_put e t IdxDelegate (u64_key (d_Id d)) (Delegate_Serialize d)) m"
  using assms by (fastforce simp: funds_bound_def GetDelegate_put split: if_splits)

lemma ApplyStake_ok:
  assumes run: "ApplyStake e amount did prev signer txid rv s = (s', None)"
    and ok: "stake_ok e n s" and n: "Suc n < 2 ^ 64"
  shows "stake_ok e (Suc n) s'"
proof -
  have inv: "staking_inv e s'"
    using ApplyStake_inv [OF run] ok funds_bound_few [OF _ n, of e "cs_txn s"] by (simp add: stake_ok_def)
  from run show ?thesis
  proof (rule ApplyStake_cases)
    fix d funds
    assume d: "GetDelegate e (cs_txn s) did = Inr d" and f: "length funds \<le> Suc (length (d_Funds d))"
      and s': "s' = s\<lparr>cs_stats := (cs_stats s)\<lparr>StakedAmount := StakedAmount (cs_stats s) + amount\<rparr>,
           cs_txn := kv_put e (cs_txn s) IdxDelegate (u64_key (d_Id d))
             (Delegate_Serialize (d\<lparr>d_Funds := funds\<rparr>))\<rparr>"
    have len: "length (d_Funds d) \<le> n" "delegate_wf d"
      using ok d GetDelegate_ok [of "cs_txn s" did d]
      by (auto simp: stake_ok_def funds_bound_def staking_inv_def)
    have "delegate_wf (d\<lparr>d_Funds := funds\<rparr>)" using len f n by (simp add: delegate_wf_def)
    then show ?thesis
      using inv ok s' len f SetDelegate_bound [of "d\<lparr>d_Funds := funds\<rparr>" "cs_txn s" n "Suc n"]
      by (simp add: stake_ok_def)
  qed
qed

lemma ApplyUnstake_ok:
  assumes run: "ApplyUnstake e amount did signer rv prev s = (s', None)" and ok: "stake_ok e n s"
  shows "stake_ok e n s'"
proof -
  have inv: "staking_inv e s'" using ApplyUnstake_inv [OF run] ok by (simp add: stake_ok_def)
  from run show ?thesis
  proof (rule ApplyUnstake_cases)
    fix d funds
    assume d: "GetDelegate e (cs_txn s) did = Inr d" and f: "length funds \<le> length (d_Funds d)"
      and s': "s' = s\<lparr>cs_stats := (cs_stats s)\<lparr>StakedAmount := StakedAmount (cs_stats s) - amount\<rparr>,
           cs_txn := kv_put e (cs_txn s) IdxDelegate (u64_key (d_Id d))
             (Delegate_Serialize (d\<lparr>d_Funds := funds\<rparr>))\<rparr>"
    have len: "length (d_Funds d) \<le> n" "delegate_wf d"
      using ok d GetDelegate_ok [of "cs_txn s" did d]
      by (auto simp: stake_ok_def funds_bound_def staking_inv_def)
    have "delegate_wf (d\<lparr>d_Funds := funds\<rparr>)" using len f by (simp add: delegate_wf_def)
    then show ?thesis
      using inv ok s' len f SetDelegate_bound [of "d\<lparr>d_Funds := funds\<rparr>" "cs_txn s" n n]
      by (simp add: stake_ok_def)
  qed
qed

lemma register_ok:
  assumes run: "apply_register_tx e tx s = (s', None)" and ok: "stake_ok e n s"
    and wf: "data_wf (tx_Data tx)"
  shows "stake_ok e n s'"
proof (cases "s' = s")
  case False
  obtain name did m where dat: "tx_Data tx = RegisterDelegate name did"
    and no: "GetDelegate e (cs_txn s) did = Inl (Err m)"
    and s': "s' = s\<lparr>cs_txn := kv_put e (cs_txn s) IdxDelegate (u64_key did)
      (Delegate_Serialize \<lparr>d_Id = did, d_Owner = tx_Signer tx, d_Name = name, d_Funds = []\<rparr>)\<rparr>"
    using run False
    by (auto simp: apply_register_tx_def bc_SetDelegate_def on_txn_def kvPut_eq
        split: TransactionData.splits sum.splits error.splits if_splits)
  let ?d = "\<lparr>d_Id = did, d_Owner = tx_Signer tx, d_Name = name, d_Funds = []\<rparr>"
  have wfd: "delegate_wf ?d" using wf dat by (simp add: delegate_wf_def)
  have "total_staked e (cs_txn s') = total_staked e (cs_txn s)"
    using total_staked_put [OF wfd, of "cs_txn s"] no s' by simp
  moreover have "delegates_ok e (cs_txn s')"
    using delegates_ok_put [OF _ wfd, of "cs_txn s"] ok s' by (simp add: stake_ok_def staking_inv_def)
  moreover have "funds_bound e (cs_txn s') n"
    using SetDelegate_bound [OF wfd, of "cs_txn s" n n] ok s' by (simp add: stake_ok_def)
  ultimately show ?thesis using ok s' by (simp add: stake_ok_def staking_inv_def)
qed (use ok in simp)

lemma stake_txs_ok:
  assumes "apply_stake_tx e tx st a txid s = (s1, None)" "apply_unstake_tx e tx st a s1 = (s2, None)"
    "apply_register_tx e tx s2 = (s3, None)" "stake_ok e n s" "Suc n < 2 ^ 64" "data_wf (tx_Data tx)"
  shows "stake_ok e (Suc n) s3"
proof -
  have "stake_ok e (Suc n) s1"
  proof (cases "s1 = s")
    case False
    then obtain amount did prev where "ApplyStake e amount did prev a txid False s = (s1, None)"
      using assms(1) by (auto simp: apply_stake_tx_def split: TransactionData.splits if_splits)
    then show ?thesis using assms(4,5) by (rule ApplyStake_ok)
  qed (use assms(4) in \<open>auto intro: stake_ok_mono\<close>)
  then have "stake_ok e (Suc n) s2"
    using assms(2) by (cases "s2 = s1")
      (auto simp: apply_unstake_tx_def split: TransactionData.splits if_splits intro: ApplyUnstake_ok)
  from register_ok [OF assms(3) this assms(6)] show ?thesis .
qed

lemma ApplyTx_stake:
  assumes run: "ApplyTxToState e tx a bl bh txid s = (s', None)" and ok: "stake_ok e n s"
    and n: "Suc n < 2 ^ 64" and wf: "data_wf (tx_Data tx)"
  shows "stake_ok e (Suc n) s'"
proof -
  obtain st sa sb sc st' sd s2 outs s3 s4
    where "apply_stake_tx e tx st a txid s = (sa, None)" "apply_unstake_tx e tx st a sa = (sb, None)"
      "apply_register_tx e tx sb = (sc, None)"
    and outs: "StateOutputs (tx_Data tx) tx a = Inr outs"
    and r: "on_txn (\<lambda>t. SetState e t a (st'\<lparr>LastNonce := LastNonce st' + 1\<rparr>)) sc = (sd, None)"
      "apply_inputs e (StateInputs e (tx_Data tx) tx a) sd = (s2, None)"
      "drop_err (ApplyTxOutputsToState e bh outs txid s2) = (s3, None)"
      "on_txn (\<lambda>t. SetTxTopoOut e t txid a (LastNonce st' + 1)) s3 = (s4, None)"
      "on_txn (\<lambda>t. SetTxHeight e t txid (Height bl)) s4 = (s', None)"
    using run unfolding ApplyTxToState_def
    by (auto simp: with_res_None and_then_None Let_def split: if_splits)
  then have "stake_ok e (Suc n) sc" using stake_txs_ok ok n wf by blast
  moreover have "no_stake e sc (sd, None)" "no_stake e sd (s2, None)" "no_stake e s2 (s3, None)"
    "no_stake e s3 (s4, None)" "no_stake e s4 (s', None)"
    using StateOutputs_no_pos [OF outs] by (auto intro!: no_stake_intros simp flip: r)
  then have "no_stake e sc (s', None)" by (meson no_stake_trans)
  ultimately show ?thesis using no_stake_ok by force
qed

end

section \<open>Rewards and blocks\<close>

context adb_txn
begin

lemma ApplyPosReward_stake:
  assumes run: "ApplyPosReward e bh out s = (s', None)" and ok: "stake_ok e n s" and n: "Suc n < 2 ^ 64"
  shows "stake_ok e (Suc n) s'"
proof -
  obtain d ts fs where d: "so_ExtraData out \<noteq> 0" "GetDelegate e (cs_txn s) (so_ExtraData out) = Inr d"
    and ts: "Delegate_TotalAmount d = Inr ts" "ts \<noteq> 0"
    and fs: "pos_funds (OwnerAddress e d) (so_Amount out) ts (d_Funds d) = Inr fs"
    and room: "unat (StakedAmount (cs_stats s)) + unat (so_Amount out) < 2 ^ 64"
    and s': "cs_txn s' = kv_put e (kv_put e (cs_txn s) IdxDelegateHistory (arr_bytes bh) (Delegate_Serialize d))
       IdxDelegate (u64_key (d_Id d)) (Delegate_Serialize (d\<lparr>d_Funds := fs\<rparr>))"
    using run by (auto simp: ApplyPosReward_def outcome_iffs SetDelegateHistory_def bc_SetDelegate_def
        kvPut_eq split: if_splits)
  have st: "funds_sum (d_Funds d) = unat ts" using ts(1) by (simp add: Delegate_TotalAmount_Inr)
  then have nz: "funds_sum (d_Funds d) \<noteq> 0" using ts(2) by (simp add: unat_gt_0)
  have few: "few_funds e (cs_txn s)" using funds_bound_few [OF _ n, of e "cs_txn s"] ok by (simp add: stake_ok_def)
  have sinv: "staking_inv e s" using ok by (simp add: stake_ok_def)
  have inv: "staking_inv e s'" 
    using ApplyPosReward_ok [OF sinv few d nz room, of bh] run by (metis prod.inject)
  have dok: "delegates_ok e (cs_txn s)" using sinv by (simp add: staking_inv_def)
  have "funds_sum (d_Funds d) \<le> unat (StakedAmount (cs_stats s))"
    using delegate_stake_le [OF d(2)] sinv by (simp add: staking_inv_def)
  then have "length fs \<le> Suc (length (d_Funds d))"
    using st room fs ts(2) by (rule_tac pos_funds_ok [of ts "d_Funds d" "so_Amount out" "OwnerAddress e d"]) auto
  moreover have len: "length (d_Funds d) \<le> n" using ok d(2) by (auto simp: stake_ok_def funds_bound_def)
  ultimately have "length fs \<le> Suc n" "delegate_wf (d\<lparr>d_Funds := fs\<rparr>)"
    using GetDelegate_ok(2) [OF dok d(2)] n by (simp_all add: delegate_wf_def)
  moreover have "funds_bound e (kv_put e (cs_txn s) IdxDelegateHistory (arr_bytes bh) (Delegate_Serialize d)) n"
    using ok by (simp add: stake_ok_def funds_bound_def)
  ultimately show ?thesis
    using inv s' SetDelegate_bound [of "d\<lparr>d_Funds := fs\<rparr>" _ n "Suc n"] by (simp add: stake_ok_def)
qed

text \<open>Outputs with rewards, at most one new fund for each.\<close>

lemma outputs_stake:
  assumes "ApplyTxOutputsToState e bh outs txid s = (s', None)" "stake_ok e n s" "n + length outs < 2 ^ 64"
  shows "stake_ok e (n + length outs) s'"
  using assms
proof (induction outs arbitrary: s n)
  case (Cons out outs)
  note room = ApplyTxOutputs_room [OF Cons.prems(1)]
  let ?s = "s\<lparr>cs_txn := credited e (cs_txn s) txid out\<rparr>"
  obtain s1 where s1: "(if so_Type out = OUT_COINBASE_POS then ApplyPosReward e bh out ?s
       else (?s, None)) = (s1, None)"
    and rest: "ApplyTxOutputsToState e bh outs txid s1 = (s', None)"
    using Cons.prems(1) unfolding ApplyTxOutputs_step [OF room] by (auto simp: outcome_iffs)
  have "no_stake e s (?s, None)"
    by (simp add: no_stake_def only_writes_def credited_def Let_def)
  then have ok: "stake_ok e n ?s" using no_stake_ok Cons.prems(2) by force
  have "stake_ok e (Suc n) s1"
  proof (cases "so_Type out = OUT_COINBASE_POS")
    case True
    then show ?thesis using s1 ApplyPosReward_stake [OF _ ok] Cons.prems(3) by simp
  next
    case False
    then show ?thesis using s1 ok stake_ok_mono [OF ok, of "Suc n"] by simp
  qed
  from Cons.IH [OF rest this] Cons.prems(3) show ?case by simp
qed simp

lemma apply_txs_stake:
  assumes "apply_txs e bl bh txs fee s = ((s', fee'), None)" "stake_ok e n s" "n + length txs < 2 ^ 64"
    "txs_ok e (cs_txn s)"
  shows "stake_ok e (n + length txs) s'"
  using assms
proof (induction txs arbitrary: s n fee)
  case (Cons v vs)
  obtain tx m s1 where tx: "GetTx e (cs_txn s) v (Height bl) = Inr (tx, m)"
    and app: "ApplyTxToState e tx (FromPubKey e (tx_Signer tx)) bl bh v s = (s1, None)"
    and rest: "apply_txs e bl bh vs (fee + tx_Fee tx) s1 = ((s', fee'), None)"
    using Cons.prems(1) by (auto simp: Let_def split: sum.splits prod.splits option.splits if_splits)
  have wf: "data_wf (tx_Data tx)" using GetTx_valid [OF Cons.prems(4) tx] by (rule tx_valid_data_wf)
  have "stake_ok e (Suc n) s1" using ApplyTx_stake [OF app Cons.prems(2) _ wf] Cons.prems(3) by simp
  moreover have "txs_ok e (cs_txn s1)"
    using same_txs_ok [OF ApplyTx_same_txs [OF app]] Cons.prems(4) by simp
  ultimately show ?case using Cons.IH [OF rest, of "Suc n"] Cons.prems(3) by simp
qed simp

lemma ApplyBlock_stake:
  assumes run: "ApplyBlockToState e now bl bh s = (s', None)" and ok: "stake_ok e n s" "txs_ok e (cs_txn s)"
    and n: "n + length (bl_Transactions bl) + 3 < 2 ^ 64"
  shows "stake_ok e (n + length (bl_Transactions bl) + 3) s'"
proof (rule ApplyBlock_parts [OF run])
  fix s1 s2 s3 :: "'t cs" and fee outs
  assume s1: "clear_mempool e now (bl_Transactions bl) s = (s1, None)"
    and s2: "apply_txs e bl bh (bl_Transactions bl) 0 s1 = ((s2, fee), None)"
    and outs: "CoinbaseTransaction bl (Block_Reward bl + fee) = Inr outs"
    and s3: "ApplyTxOutputsToState e bh (map coinbase_output outs) bh s2 = (s3, None)"
    and s': "s' = update_sync bl s3"
  have "no_stake e s (clear_mempool e now (bl_Transactions bl) s)"
    unfolding clear_mempool_def by (intro no_stake_intros)
  then have ok1: "stake_ok e n s1" using no_stake_ok s1 ok(1) by (metis fst_conv)
  have "writes e {IdxInfo} s (clear_mempool e now (bl_Transactions bl) s)"
    unfolding clear_mempool_def by (intro frame_intros) simp
  from writes_same_txs [OF this] have "txs_ok e (cs_txn s1)" using s1 ok(2) same_txs_ok [of e "cs_txn s"] by simp
  then have "stake_ok e (n + length (bl_Transactions bl)) s2" using apply_txs_stake [OF s2 ok1] n by simp
  moreover have "length outs \<le> 3"
    using outs by (auto simp: CoinbaseTransaction_def Let_def split: if_splits)
  ultimately have "stake_ok e (n + length (bl_Transactions bl) + 3) s3"
    using outputs_stake [OF s3] n stake_ok_mono by (metis (no_types, lifting) add_le_mono1 le_less_trans length_map nat_add_left_cancel_le order_refl)
  then show ?thesis
    using s' by (simp add: update_sync_def stake_ok_def staking_inv_def)
qed

end

end
