(* ===== verification/Scenario.thy ===== *)
theory Scenario
  imports StakeLedger
begin

text \<open>
  Concrete runs of the model on the database in memory: a node with an empty store, the blocks of height
  0 and 1, and a transfer between two addresses.
\<close>

abbreviation we :: "mem ext" where "we \<equiv> mem_ext toy_crypto"

definition w_stats :: Stats where
  "w_stats = \<lparr>TopHash = 0, TopHeight = 0, CumulativeDiff = U128_Zero, Tips = [], Orphans = [],
     StakedAmount = 0\<rparr>"

definition w_start :: "mem cs" where
  "w_start = \<lparr>cs_txn = fst (SetMempool we 0 mem_empty []), cs_stats = w_stats, cs_SyncHeight = 0,
     cs_SyncDiff = U128_Zero\<rparr>"

definition w_block :: "u64 \<Rightarrow> Block" where
  "w_block h = \<lparr>Version = 0, Height = h, Timestamp = 0, Nonce = 0, NonceExtra = 0, OtherChains = [],
     bl_Recipient = 5, bl_Ancestors = [0, 0, 0], SideBlocks = [], bl_DelegateId = 0, NextDelegateId = 0,
     StakeSignature = 0, Difficulty = U128_Zero, bl_CumulativeDiff = U128_Zero, bl_Transactions = []\<rparr>"

lemma w_start_mempool: "GetMempool we (cs_txn w_start) = Inr []"
  using mem.GetMempool_SetMempool [of toy_crypto 0 mem_empty "[]"]
  by (simp add: w_start_def Mempool_expire_def)

lemma w_start_empty:
  "i \<noteq> IdxInfo \<Longrightarrow> kvForEach we (cs_txn w_start) i = []"
  "i \<noteq> IdxInfo \<Longrightarrow> kvGet we (cs_txn w_start) i k = None"
proof -
  show none: "kvGet we (cs_txn w_start) i k = None" if "i \<noteq> IdxInfo" for k
    using that by (simp add: w_start_def SetMempool_def mem_empty_def)
  show "kvForEach we (cs_txn w_start) i = []" if "i \<noteq> IdxInfo"
    using none [OF that] mem.foreach_in [of _ _ toy_crypto "cs_txn w_start" i]
    by (cases "kvForEach we (cs_txn w_start) i") (auto simp del: mem_ext_simps)
qed

lemma w_start_ok:
  "states_ok we (cs_txn w_start)" "total_balance we (cs_txn w_start) = 0" "txs_ok we (cs_txn w_start)"
  "stake_ok we 0 w_start"
  using w_start_empty
  by (simp_all add: states_ok_def total_balance_def kv_sum_def txs_ok_def stake_ok_def staking_inv_def
      delegates_ok_def total_staked_def funds_bound_def GetDelegate_def delegate_of_def)
    (simp add: w_start_def w_stats_def)

text \<open>A block without transactions is applied to any state whose coins leave room for the reward.\<close>

lemma w_block_applies:
  assumes "GetMempool we (cs_txn s) = Inr m" "states_ok we (cs_txn s)"
    "total_balance we (cs_txn s) + unat (Reward h) < 2 ^ 64"
  obtains s' m' where "ApplyBlockToState we now (w_block h) bh s = (s', None)"
    "GetMempool we (cs_txn s') = Inr m'"
  using mem.plain_block_applies [of "w_block h" toy_crypto s m now bh] assms that
  by (auto simp: w_block_def simp del: mem_ext_simps)

text \<open>The first two blocks.\<close>

lemma w_genesis: "\<exists>s' m'. ApplyBlockToState we 0 (w_block 0) 7 w_start = (s', None) \<and> GetMempool we (cs_txn s') = Inr m'"
proof -
  have "total_balance we (cs_txn w_start) + unat (Reward 0) < 2 ^ 64"
    using unat_lt64 [of "Reward 0"] w_start_ok(2) by simp
  from w_block_applies [OF w_start_mempool w_start_ok(1) this, of 0 7] show ?thesis by blast
qed

lemma w_chain: "\<exists>s. chain_state we 1 s"
proof -
  obtain s m where s: "ApplyBlockToState we 0 (w_block 0) 7 w_start = (s, None)"
    "GetMempool we (cs_txn s) = Inr m" using w_genesis by blast
  have h: "unat (Height (w_block 0)) = 0" "unat (Height (w_block 1)) = Suc 0" by (simp_all add: w_block_def)
  have c: "chain_state we 0 s"
    using w_start_empty(1) [of IdxState] w_start_ok(3) h(1) s(1) by (intro chain_state.genesis) simp_all
  note c0 = mem.chain_state_supply [OF c]
  have "total_balance we (cs_txn s) + unat (Reward 1) < 2 ^ 64"
    using c0 mem.supply_fits [of 1] by (simp add: supply_at_def unat_Reward)
  from w_block_applies [OF s(2) conjunct1 [OF c0] this, of 0 8]
  obtain s' where "ApplyBlockToState we 0 (w_block 1) 8 s = (s', None)" by blast
  from chain_state.block [OF c h(2) this] show ?thesis by auto
qed

section \<open>A transfer\<close>

definition w_tx :: Transaction where
  "w_tx = \<lparr>tx_Version = 1, tx_Signer = 3, tx_Signature = 0,
     tx_Data = Transfer [\<lparr>Recipient = 2, PaymentId = 0, Amount = 100\<rparr>], tx_Nonce = 1, tx_Fee = 10\<rparr>"

text \<open>Address 1 has 1000 coins, and the transaction is stored under the hash 9.\<close>

definition w_rich :: "mem cs" where
  "w_rich = w_start\<lparr>cs_txn := fst (SetTx we
     (fst (SetState we (cs_txn w_start) 1 (State_zero\<lparr>Balance := 1000\<rparr>))) w_tx 9 0)\<rparr>"

lemma w_tx_total: "Tx_TotalAmount w_tx = Inr 110"
  by (simp add: Tx_TotalAmount_def w_tx_def)

lemma w_rich_txn: "cs_txn w_rich = kv_put we (kv_put we (cs_txn w_start) IdxState (arr_bytes (1::address))
    (State_Serialize (State_zero\<lparr>Balance := 1000\<rparr>))) IdxTx (arr_bytes (9::hash))
    (AddUint64 0 @ AddFixedByteArray (Tx_Serialize w_tx))"
  by (simp add: w_rich_def SetTx_def SetState_def kv_put_def del: mem_ext_simps)

lemma w_rich_ok: "states_ok we (cs_txn w_rich)" "total_balance we (cs_txn w_rich) = 1000"
proof -
  show "states_ok we (cs_txn w_rich)"
    unfolding w_rich_txn using w_start_ok(1) by (simp add: mem.states_ok_put_State del: mem_ext_simps)
  have "balance_of we (cs_txn w_start) 1 = 0"
    by (simp add: balance_of_def GetState_def w_start_empty(2) del: mem_ext_simps)
  then show "total_balance we (cs_txn w_rich) = 1000"
    unfolding w_rich_txn
    using mem.total_put_State [OF w_start_ok(1), of 1 "State_zero\<lparr>Balance := 1000\<rparr>"] w_start_ok(2)
    by (simp del: mem_ext_simps)
qed

lemma w_tx_applies: "\<exists>s'. ApplyTxToState we w_tx 1 (w_block 1) 7 9 w_rich = (s', None)"
proof -
  let ?t = "cs_txn w_rich"
  have st: "GetState we ?t 1 = Inr (State_zero\<lparr>Balance := 1000\<rparr>)" "GetState we ?t 2 = Inl (Err ''not in state'')"
    "kvGet we ?t IdxTx (arr_bytes (9::hash)) = Some (AddUint64 0 @ AddFixedByteArray (Tx_Serialize w_tx))"
    unfolding w_rich_txn by (simp_all add: GetState_def w_start_empty(2) del: mem_ext_simps)
  show ?thesis
    using st
    by (simp add: ApplyTxToState_def apply_stake_tx_def apply_unstake_tx_def apply_register_tx_def
        set_delegate_tx_def w_tx_def State_zero_def mem.on_txn_puts SafeAdd_def normal_output_def
        on_txn_def SetTxHeight_def mem.kvPut_eq AddUint64_def value_or_zero_def Let_def tx_versions
        del: mem_ext_simps)
qed

lemma w_rich_stake: "stake_ok we 0 w_rich"
proof -
  have "no_stake we w_start (w_rich, None)"
    by (auto simp: no_stake_def w_rich_txn only_writes_def simp del: mem_ext_simps) (simp add: w_rich_def)
  from mem.no_stake_ok [OF this] w_start_ok(4) show ?thesis by simp
qed

definition w_wf_block :: Block where
  "w_wf_block = (w_block 3)\<lparr>Difficulty := U128_From64 5\<rparr>"

lemma w_wf_block_wf: "block_wf w_wf_block"
  by (simp add: w_wf_block_def w_block_def block_wf_def header_wf_def config_defs U128_IsZero_def
      U128_From64_def U128_New_def)

section \<open>A delegate\<close>

definition w_delegate :: Delegate where
  "w_delegate = \<lparr>d_Id = 1, d_Owner = 3, d_Name = [], d_Funds = [\<lparr>df_Owner = 4, df_Amount = 50, df_Unlock = 0\<rparr>]\<rparr>"

definition w_staked :: "mem cs" where
  "w_staked = w_start\<lparr>cs_txn := fst (bc_SetDelegate we (cs_txn w_start) w_delegate),
     cs_stats := w_stats\<lparr>StakedAmount := 50\<rparr>\<rparr>"

lemma w_delegate_wf: "delegate_wf w_delegate"
  by (simp add: delegate_wf_def w_delegate_def)

lemma w_staked_txn: "cs_txn w_staked = kv_put we (cs_txn w_start) IdxDelegate (u64_key (d_Id w_delegate))
    (Delegate_Serialize w_delegate)"
  by (simp add: w_staked_def bc_SetDelegate_def kv_put_def del: mem_ext_simps)

lemma w_staked_ok:
  "staking_inv we w_staked" "few_funds we (cs_txn w_staked)" "stake_ok we 1 w_staked"
  "GetDelegate we (cs_txn w_staked) did = (if did = 1 then Inr w_delegate else Inl (Err ''no delegate found''))"
proof -
  have none: "GetDelegate we (cs_txn w_start) n = Inl (Err ''no delegate found'')" for n
    by (simp add: GetDelegate_def delegate_of_def w_start_empty(2) del: mem_ext_simps)
  show g: "GetDelegate we (cs_txn w_staked) did =
      (if did = 1 then Inr w_delegate else Inl (Err ''no delegate found''))" for did
    unfolding w_staked_txn using none mem.GetDelegate_put [OF w_delegate_wf]
    by (simp add: w_delegate_def del: mem_ext_simps)
  show few: "few_funds we (cs_txn w_staked)"
    by (auto simp: few_funds_def g w_delegate_def split: if_splits)
  have d0: "delegates_ok we (cs_txn w_start)" "total_staked we (cs_txn w_start) = 0"
    using w_start_ok(4) by (simp_all add: stake_ok_def staking_inv_def w_start_def w_stats_def)
  show inv: "staking_inv we w_staked"
    using mem.delegates_ok_put [OF d0(1) w_delegate_wf] mem.total_staked_put [OF w_delegate_wf, of toy_crypto "cs_txn w_start"]
      none d0(2)
    unfolding staking_inv_def w_staked_txn
    by (simp add: w_staked_def w_delegate_def del: mem_ext_simps)
  show "stake_ok we 1 w_staked"
    using inv by (auto simp: stake_ok_def funds_bound_def g w_delegate_def split: if_splits)
qed

end
