(* ===== verification/ChainScenario.thy ===== *)
theory ChainScenario
  imports Scenario Mining
begin

text \<open>
  A concrete node: an empty database, the first block, and a block on top of it. The hash function of this
  scenario tells the first block from all others, which is all that is needed here.
\<close>

definition wg_crypto :: crypto where
  "wg_crypto = toy_crypto\<lparr>blake3_Sum256 := (\<lambda>b. if b = Block_Serialize genesis then 5 else 6)\<rparr>"

abbreviation wg :: "mem ext" where "wg \<equiv> mem_ext wg_crypto"

definition wg_node :: "mem node" where
  "wg_node = \<lparr>nd_txn = mem_empty, nd_queue = [], nd_SyncHeight = 0, nd_SyncDiff = U128_Zero,
     nd_SyncLastRequestHeight = 0\<rparr>"

definition wg_block :: Block where
  "wg_block = \<lparr>Version = 0, Height = 1, Timestamp = GENESIS_TIMESTAMP, Nonce = 0, NonceExtra = 0, OtherChains = [],
     bl_Recipient = 5, bl_Ancestors = [5, 0, 0], SideBlocks = [], bl_DelegateId = 0, NextDelegateId = 0,
     StakeSignature = 0, Difficulty = U128_From64 MIN_DIFFICULTY,
     bl_CumulativeDiff = U128_From64 (MIN_DIFFICULTY + 1), bl_Transactions = []\<rparr>"

lemma wg_block_wf: "block_wf wg_block"
  by (simp add: wg_block_def block_wf_def header_wf_def config_defs U128_IsZero_def U128_From64_def U128_New_def)

lemma wg_hashes: "Block_Hash wg genesis = 5" "Block_Hash wg wg_block = 6"
proof -
  have "genesis \<noteq> wg_block" by (simp add: genesis_def wg_block_def)
  then have "Block_Serialize wg_block \<noteq> Block_Serialize genesis"
    using Block_codec [OF genesis_wf] Block_codec [OF wg_block_wf] by (metis Inr_inject)
  then show "Block_Hash wg genesis = 5" "Block_Hash wg wg_block = 6"
    by (simp_all add: Block_Hash_def wg_crypto_def)
qed

lemma wg_empty: "kvGet wg (nd_txn wg_node) i k = None"
  by (simp add: wg_node_def mem_empty_def)

lemma wg_started:
  obtains n stats m where "addGenesis wg 0 GENESIS_TIMESTAMP wg_node = (n, None)" "node_inv wg n stats [5]"
    "total_balance wg (nd_txn n) = unat (Reward 0)" "states_ok wg (nd_txn n)" "GetMempool wg (nd_txn n) = Inr m"
    "\<forall>x. GetBlock wg (nd_txn n) x = (if x = 5 then Inr genesis else Inl (Err ''block not found''))"
    "CumulativeDiff stats = Difficulty genesis" "TopHash stats = 5"
  using mem.addGenesis_ok [where c = wg_crypto and n = wg_node and time = GENESIS_TIMESTAMP and now = 0, OF wg_empty]
    wg_hashes(1)
  by (simp del: mem_ext_simps) blast

lemma wg_check:
  assumes "GetBlock wg t 5 = Inr genesis"
  shows "checkBlock wg t wg_block genesis stats = Inr ()"
proof -
  have "GetNextDifficulty wg t genesis = Inr (U128_From64 MIN_DIFFICULTY)"
    by (simp add: GetNextDifficulty_def genesis_def)
  moreover have "ContributionToCumulativeDiff wg_block = Inr (U128_From64 MIN_DIFFICULTY)"
    by (simp add: ContributionToCumulativeDiff_def wg_block_def U128_Mul64_val U128_Div64_val U128_Add_val
        config_defs U128_From64_def U128_New_def val128_def of128_def)
  moreover have "U128_Add (Difficulty genesis) (U128_From64 MIN_DIFFICULTY) = Inr (U128_From64 (MIN_DIFFICULTY + 1))"
    by (simp add: genesis_def U128_Add_val config_defs U128_From64_def U128_New_def val128_def of128_def)
  ultimately show ?thesis
    by (simp add: checkBlock_def err_if_def U128_Equals_def check_stake_signature_def)
      (simp add: wg_block_def genesis_def)
qed

text \<open>The second block is accepted.\<close>

lemma wg_added:
  assumes inv: "node_inv wg n stats [5]"
    and bal: "total_balance wg (nd_txn n) = unat (Reward 0)" "states_ok wg (nd_txn n)"
    and mp: "GetMempool wg (nd_txn n) = Inr m"
    and blocks: "\<forall>x. GetBlock wg (nd_txn n) x = (if x = 5 then Inr genesis else Inl (Err ''block not found''))"
    and top: "TopHash stats = 5"
  shows "\<exists>n'. AddBlock wg 0 wg_block 6 n = Some (n', None)"
proof -
  let ?s = "open_node stats n"
  have blk: "Version wg_block = 0" "bl_Transactions wg_block = []" "Height wg_block = 1" "PrevHash wg_block = 5"
    by (simp_all add: wg_block_def PrevHash_def)
  have "unat (Reward 0) + unat (Reward 1) < 2 ^ 64"
    by (simp add: Reward_def config_defs)
  then obtain s' m' where s': "ApplyBlockToState wg 0 wg_block 6 ?s = (s', None)"
    using mem.plain_block_applies [of wg_block wg_crypto ?s m 0 6] blk bal mp
    by (auto simp: open_node_def simp del: mem_ext_simps)
  obtain s2 where s2: "addMainchainBlock wg 0 wg_block 6 ?s = (s2, None)"
    using s' by (simp add: addMainchainBlock_def on_txn_def insertBlockMain_def Let_def mem.kvPut_eq del: mem_ext_simps)
  obtain s3 where s3: "on_txn (\<lambda>t. setStatsNoBroadcast wg t (cs_stats s2)) s2 = (s3, None)"
    by (simp add: on_txn_def setStatsNoBroadcast_def mem.kvPut_eq del: mem_ext_simps)
  have "GetStats wg (nd_txn n) = Inr stats" using inv by (simp add: node_inv_def del: mem_ext_simps)
  then have "AddBlock wg 0 wg_block 6 n = Some (close_node n s3, None)"
    using blocks top wg_check [of "nd_txn n" stats] s2 s3 by (simp add: AddBlock_def blk del: mem_ext_simps)
  then show ?thesis by blast
qed

text \<open>A chain of two blocks.\<close>

lemma wg_two_blocks:
  obtains n n' stats where "addGenesis wg 0 GENESIS_TIMESTAMP wg_node = (n, None)" "node_inv wg n stats [5]"
    "AddBlock wg 0 wg_block 6 n = Some (n', None)"
proof -
  obtain n stats m where s: "addGenesis wg 0 GENESIS_TIMESTAMP wg_node = (n, None)" "node_inv wg n stats [5]"
    "total_balance wg (nd_txn n) = unat (Reward 0)" "states_ok wg (nd_txn n)" "GetMempool wg (nd_txn n) = Inr m"
    "\<forall>x. GetBlock wg (nd_txn n) x = (if x = 5 then Inr genesis else Inl (Err ''block not found''))"
    "TopHash stats = 5"
    by (rule wg_started)
  with wg_added that show thesis by blast
qed

section \<open>A full block\<close>

definition wf_tx :: Transaction where
  "wf_tx = w_tx\<lparr>tx_Version := TX_VERSION_TRANSFER\<rparr>"

definition wf_block :: Block where
  "wf_block = w_wf_block\<lparr>Height := HARDFORK_V2_HEIGHT, bl_Transactions := [Tx_Hash we wf_tx]\<rparr>"

definition wf_store :: mem where
  "wf_store = fst (SetTx we mem_empty wf_tx (Tx_Hash we wf_tx) HARDFORK_V2_HEIGHT)"

lemma wf_block_ok: 
  "block_wf wf_block" "GetTx we wf_store (Tx_Hash we wf_tx) (Height wf_block) = Inr (wf_tx, HARDFORK_V2_HEIGHT)"
  "\<exists>bs. SerializeFullBlock we wf_store wf_block = Inr bs" "tx_sendable True wf_tx"
proof -
  have tx: "data_wf (tx_Data wf_tx)" "tx_matches wf_tx" "tx_Version wf_tx \<noteq> 0"
    by (simp_all add: wf_tx_def w_tx_def tx_matches_def tx_versions config_defs)
  show "block_wf wf_block"
    using w_wf_block_wf by (simp add: wf_block_def w_wf_block_def w_block_def block_wf_def header_wf_def config_defs)
  show g: "GetTx we wf_store (Tx_Hash we wf_tx) (Height wf_block) = Inr (wf_tx, HARDFORK_V2_HEIGHT)"
    unfolding wf_store_def using tx by (intro mem.GetTx_SetTx) (simp_all add: config_defs)
  then show "\<exists>bs. SerializeFullBlock we wf_store wf_block = Inr bs"
    by (simp add: SerializeFullBlock_def wf_block_def del: mem_ext_simps)
  have "length (Tx_Serialize wf_tx) < 2 ^ 63"
    using length_AppendUvarint [of 0] length_AppendUvarint [of 1] length_AppendUvarint [of 10] length_AppendUvarint [of 100]
    by (simp add: Tx_Serialize_def wf_tx_def w_tx_def tx_versions AddUvarint_def Output_Serialize_def AddUint8_def
        AddArray_def AddFixedByteArray_def)
  then show "tx_sendable True wf_tx" using tx by (simp add: tx_sendable_def)
qed

section \<open>A block with proof of work\<close>

definition wh_crypto :: crypto where
  "wh_crypto = toy_crypto\<lparr>randomvirel_PowHash := (\<lambda>_ _. 0)\<rparr>"

lemma le_val_zero_hash: "le_val (drop k (arr_bytes (0::hash))) = 0"
proof -
  have "le_bytes n 0 = replicate n 0" for n by (induction n) simp_all
  moreover have "le_val (replicate n 0) = 0" for n by (induction n) simp_all
  ultimately show ?thesis by (simp add: arr_bytes_def del: le_bytes.simps)
qed

lemma wh_prevalidated:
  "PrevalidateBlock wh_crypto \<lparr>cp_bin = [], CheckpointInterval = 1, MaxCheckpoint = 0\<rparr> GENESIS_TIMESTAMP wg_block [] = Inr ()"
proof -
  have d: "val128 (Difficulty wg_block) = MIN_DIFFICULTY"
    by (simp add: wg_block_def config_defs U128_From64_def U128_New_def val128_def)
  have "val128 (Difficulty wg_block) \<noteq> 0" by (simp add: d config_defs)
  from ValidPowHash32_iff [OF this, of 0] have pow: "ValidPowHash32 0 (Difficulty wg_block) = Inr True"
    by (simp add: le_val_zero_hash)
  have fields: "cm_OtherChains (Block_Commitment wh_crypto wg_block) = []" "OtherChains wg_block = []"
    "SideBlocks wg_block = []" "randomvirel_PowHash wh_crypto x y = 0" for x y
    by (simp_all add: Block_Commitment_def wh_crypto_def) (simp_all add: wg_block_def)
  have "prevalidate_pow wh_crypto wg_block = Inr ()"
    using pow by (simp add: prevalidate_pow_def Commitment_MiningBlob_def fields sort_chains_def Let_def)
  then show ?thesis
    using d by (simp add: PrevalidateBlock_def IsSecured_def fields other_chain_error_def side_error_def indexed_def
        U128_Cmp64_val U128_IsZero_def) (simp add: wg_block_def config_defs U128_From64_def U128_New_def word_le_nat_alt)
qed

section \<open>A run\<close>

definition wn_checkpoints :: checkpoints where
  "wn_checkpoints = \<lparr>cp_bin = [], CheckpointInterval = 1000, MaxCheckpoint = 5\<rparr>"

definition wn_start :: "mem node \<Rightarrow> mem peer_node" where
  "wn_start n = \<lparr>pn_node = n, pn_postprocess = [], pn_peers = []\<rparr>"

lemma wg_no_zero_hash: "no_zero_hash wg"
  by (simp add: no_zero_hash_def Block_Hash_def wg_crypto_def)

lemma wn_prevalidated: "PrevalidateBlock wg wn_checkpoints GENESIS_TIMESTAMP wg_block [] = Inr ()"
proof -
  have "\<not> (1000 :: u64) \<le> 1" "(1 :: u64) mod 1000 = 1" "(1 :: u64) div 1000 = 0" by (simp_all add: word_le_nat_alt)
  then show ?thesis
    by (simp add: PrevalidateBlock_def IsSecured_def IsCheckpoint_def other_chain_error_def side_error_def indexed_def
        U128_Cmp64_val U128_IsZero_def wn_checkpoints_def wg_block_def U128_From64_def U128_New_def val128_def config_defs
        word_le_nat_alt)
qed

lemma wn_run:
  assumes "AddBlock wg 0 wg_block 6 n = Some (n', None)"
  shows "node_run wg wn_checkpoints (wn_start n) 1 ((wn_start n)\<lparr>pn_node := n'\<rparr>)"
proof -
  have "add_found_block wg wn_checkpoints 0 GENESIS_TIMESTAMP wg_block (pn_node (wn_start n)) = Some (n', None)"
    using assms by (simp add: add_found_block_def wn_prevalidated wg_hashes wn_start_def del: mem_ext_simps)
  from node_run.found [OF node_run.init wg_block_wf this] show ?thesis by simp
qed

section \<open>A template\<close>

definition wt_store :: mem where
  "wt_store = cs_txn (genesis_start wg 0 wg_node)"

lemma wt_store_reads:
  "GetStats wg wt_store = Inr (genesis_stats wg)" "GetMempool wg wt_store = Inr []"
  "GetBlock wg wt_store x = (if x = 5 then Inr genesis else Inl (Err ''block not found''))"
  "node_chain wg wt_store (genesis_stats wg) [5]"
proof -
  note f = mem.genesis_start_facts [where n = wg_node and now = 0, OF wg_empty refl, folded wt_store_def, unfolded wg_hashes]
  show "GetStats wg wt_store = Inr (genesis_stats wg)" "GetMempool wg wt_store = Inr []"
    "GetBlock wg wt_store x = (if x = 5 then Inr genesis else Inl (Err ''block not found''))"
    by (rule f)+
  show "node_chain wg wt_store (genesis_stats wg) [5]"
    using f(3,4) wg_hashes
    by (intro mem.first_node_chain [where b = genesis]) (simp_all add: genesis_stats_def del: mem_ext_simps)
qed

lemma wt_template:
  "\<exists>bl d. GetBlockTemplate wg 0 GENESIS_TIMESTAMP 0 [] a wt_store = (wt_store, Inr (bl, d)) \<and> Version bl = 0 \<and>
     OtherChains bl = [] \<and> d \<noteq> 0"
proof -
  have top: "TopHash (genesis_stats wg) = 5" "TopHeight (genesis_stats wg) = 0" "Tips (genesis_stats wg) = []"
    "CumulativeDiff (genesis_stats wg) = U128_From64 1"
    using wg_hashes by (simp_all add: genesis_stats_def genesis_def del: mem_ext_simps)
  let ?bl = "first_template (genesis_stats wg) genesis GENESIS_TIMESTAMP 0 a"
  have diff: "GetNextDifficulty wg wt_store genesis = Inr (U128_From64 MIN_DIFFICULTY)"
    by (simp add: GetNextDifficulty_def)
  have bl: "Version ?bl = 0" "OtherChains ?bl = []" "?bl\<lparr>Difficulty := U128_From64 MIN_DIFFICULTY, bl_Transactions := []\<rparr> = ?bl"
    by (simp_all add: first_template_def Let_def top config_defs word_le_nat_alt)
  have "ContributionToCumulativeDiff ?bl = Inr (U128_From64 MIN_DIFFICULTY)"
    by (simp add: ContributionToCumulativeDiff_def first_template_def Let_def top U128_Mul64_val U128_Div64_val U128_Add_val
        config_defs U128_From64_def U128_New_def val128_def of128_def word_le_nat_alt)
  then obtain bl1 where bl1: "set_cumulative (genesis_stats wg) ?bl = Inr bl1" "bl1 = ?bl\<lparr>bl_CumulativeDiff := bl_CumulativeDiff bl1\<rparr>"
    by (auto simp: set_cumulative_def top U128_Add_val val128_def config_defs U128_From64_def U128_New_def)
  have "Version bl1 = 0" "OtherChains bl1 = []" by (subst bl1(2), simp add: bl)+
  have "Lo (Difficulty bl1) \<noteq> 0"
    by (subst bl1(2)) (simp add: first_template_def Let_def U128_From64_def U128_New_def config_defs)
  have "finish_template wg wt_store (genesis_stats wg) [] ?bl = Inr (bl1\<lparr>OtherChains := []\<rparr>, Lo (Difficulty bl1))"
    using \<open>Version bl1 = 0\<close> \<open>OtherChains bl1 = []\<close>
    by (simp add: finish_template_def bl1(1) template_stake_def SortOtherChains_def sort_chains_def Let_def)
  then show ?thesis
    using diff bl \<open>Version bl1 = 0\<close> \<open>Lo (Difficulty bl1) \<noteq> 0\<close> by (simp add: GetBlockTemplate_def wt_store_reads top del: mem_ext_simps)
qed

end
