(* ===== verification/PoolScenario.thy ===== *)
theory PoolScenario
  imports Scenario Wallet
begin

text \<open>
  Concrete mempools: a transfer that is accepted, an unstake of a fund that unlocks with the next block, and a
  transfer that a wallet builds.
\<close>

definition wp_crypto :: crypto where
  "wp_crypto = toy_crypto\<lparr>blake3_Sum256 := (\<lambda>_. arr_of (replicate 32 1))\<rparr>"

abbreviation wp :: "mem ext" where "wp \<equiv> mem_ext wp_crypto"

definition wp_tx :: Transaction where
  "wp_tx = \<lparr>tx_Version = 1, tx_Signer = 3, tx_Signature = 0,
     tx_Data = Transfer [\<lparr>Recipient = 2, PaymentId = 0, Amount = 100\<rparr>], tx_Nonce = 1, tx_Fee = 1000000000\<rparr>"

definition wp_addr :: address where
  "wp_addr = arr_of (replicate 22 1)"

lemma last_arr_bytes: "last (arr_bytes (w :: address)) = word_of_nat (unat w mod 256)"
  using le_bytes.simps(2) [of 21 "unat w"]
  by (simp add: arr_bytes_def last_rev del: le_bytes.simps)

lemma wp_addr: "FromPubKey wp p = wp_addr" "wp_addr \<noteq> 0" "wp_addr \<noteq> 2"
proof -
  show "FromPubKey wp p = wp_addr"
    by (simp add: wp_addr_def FromPubKey_def wp_crypto_def SIZE_def arr_bytes_arr_of)
  have "last (arr_bytes wp_addr) = 1" by (simp add: wp_addr_def arr_bytes_arr_of)
  then show "wp_addr \<noteq> 0" "wp_addr \<noteq> 2" using last_arr_bytes [of 0] last_arr_bytes [of 2] by auto
qed

lemma wp_tx_simps:
  "tx_Version wp_tx = 1" "tx_Data wp_tx = Transfer [\<lparr>Recipient = 2, PaymentId = 0, Amount = 100\<rparr>]"
  "tx_Nonce wp_tx = 1" "tx_Fee wp_tx = 1000000000" "Tx_TotalAmount wp_tx = Inr 1000000100"
  by (simp_all add: wp_tx_def Tx_TotalAmount_def SafeAdd_def)

lemma wp_vsize: "GetVirtualSize wp_tx = 123"
  by (simp add: GetVirtualSize_def wp_tx_def base_overhead_def output_overhead_def SIZE_def)

lemma wp_sig: "VerifySignature wp p m sig"
  by (simp add: VerifySignature_def wp_crypto_def toy_crypto_def)

lemma wp_tx_prevalidated: "Tx_Prevalidate wp wp_tx 100000 = None"
proof -
  have "Data_Prevalidate (tx_Data wp_tx) wp_tx = None" by (simp add: wp_tx_def config_defs)
  then show ?thesis
    using wp_addr(2) wp_vsize
    by (simp add: Tx_Prevalidate_None wp_addr wp_tx_simps version_error_def wp_sig
        max_tx_size_def INVALID_ADDRESS_def config_defs)
qed

text \<open>A state in which the signer has coins, and an empty mempool.\<close>

definition wp_start :: "mem cs" where
  "wp_start = w_start\<lparr>cs_txn := fst (SetState wp (fst (SetMempool wp 0 mem_empty [])) wp_addr
     (State_zero\<lparr>Balance := 2000000000\<rparr>))\<rparr>"

lemma wp_start_reads:
  "GetState wp (cs_txn wp_start) a = (if a = wp_addr then Inr (State_zero\<lparr>Balance := 2000000000\<rparr>) else Inl (Err ''not in state''))"
  "kvGet wp (cs_txn wp_start) IdxTx k = None" "GetMempool wp (cs_txn wp_start) = Inr []"
proof -
  let ?t = "fst (SetMempool wp 0 mem_empty [])"
  have t: "cs_txn wp_start = kv_put wp ?t IdxState (arr_bytes wp_addr) (State_Serialize (State_zero\<lparr>Balance := 2000000000\<rparr>))"
    by (simp add: wp_start_def SetState_def kv_put_def del: mem_ext_simps)
  have none: "kvGet wp ?t i k = None" if "i \<noteq> IdxInfo" for i k
    using that by (simp add: SetMempool_def mem_empty_def)
  show "GetState wp (cs_txn wp_start) a = (if a = wp_addr then Inr (State_zero\<lparr>Balance := 2000000000\<rparr>) else Inl (Err ''not in state''))"
    "kvGet wp (cs_txn wp_start) IdxTx k = None"
    unfolding t by (simp_all add: GetState_def none del: mem_ext_simps)
  show "GetMempool wp (cs_txn wp_start) = Inr []"
    using mem.GetMempool_SetMempool [of wp_crypto 0 mem_empty "[]"]
    by (simp add: t GetMempool_def Mempool_expire_def del: mem_ext_simps)
qed

lemma wp_start_ok: "states_ok wp (cs_txn wp_start)" "total_balance wp (cs_txn wp_start) < 2 ^ 64"
proof -
  let ?t = "fst (SetMempool wp 0 mem_empty [])" and ?st = "State_zero\<lparr>Balance := 2000000000\<rparr>"
  have t: "cs_txn wp_start = kv_put wp ?t IdxState (arr_bytes wp_addr) (State_Serialize ?st)"
    by (simp add: wp_start_def SetState_def kv_put_def del: mem_ext_simps)
  have none: "kvGet wp ?t IdxState k = None" for k by (simp add: SetMempool_def mem_empty_def)
  have "kvForEach wp ?t IdxState = []"
    using none mem.foreach_in [of _ _ wp_crypto ?t IdxState]
    by (cases "kvForEach wp ?t IdxState") (auto simp del: mem_ext_simps)
  from mem.no_states_total [OF this] have e: "total_balance wp ?t = 0" "states_ok wp ?t" by simp_all
  then show "states_ok wp (cs_txn wp_start)" "total_balance wp (cs_txn wp_start) < 2 ^ 64"
    using mem.total_put_State [OF e(2), of wp_addr ?st] mem.states_ok_put_State [OF e(2)]
    by (simp_all add: t del: mem_ext_simps)
qed

lemma wp_accepted: "\<exists>t'. AddTransaction wp 0 wp_tx 9 True 100000 (cs_txn wp_start) = (t', None)"
proof -
  have ld: "load_state wp (cs_txn wp_start) wp_addr = Inr (State_zero\<lparr>Balance := 2000000000\<rparr>)"
    "load_state wp (cs_txn wp_start) 2 = Inr State_zero"
    using wp_addr by (simp_all add: load_state_def wp_start_reads del: mem_ext_simps)
  have v: "validateMempoolTx wp (cs_txn wp_start) wp_tx 9 [] 100000 = Inr ()"
    using wp_addr wp_vsize ld
    by (simp add: validateMempoolTx_def Let_def wp_tx_simps tx_versions normal_output_def value_or_zero_def
        only_if_def config_defs del: mem_ext_simps) (simp add: State_zero_def)
  obtain en where "mempool_entry wp 0 wp_tx 9 = Inr en"
    by (simp add: mempool_entry_def wp_tx_simps Let_def del: mem_ext_simps)
  then show ?thesis
    using v by (simp add: AddTransaction_def wp_start_reads SetTx_def mem.kvPut_eq GetEntry_def SetMempool_def
        del: mem_ext_simps)
qed

section \<open>A fund that unlocks with the next block\<close>

definition wu_tx :: Transaction where
  "wu_tx = \<lparr>tx_Version = TX_VERSION_UNSTAKE, tx_Signer = 3, tx_Signature = 0, tx_Data = Unstake 2000000000 1,
     tx_Nonce = 1, tx_Fee = 1000000000\<rparr>"

definition wu_delegate :: Delegate where
  "wu_delegate = \<lparr>d_Id = 1, d_Owner = 3, d_Name = [],
     d_Funds = [\<lparr>df_Owner = wp_addr, df_Amount = 2000000000, df_Unlock = 300001\<rparr>]\<rparr>"

definition wu_start :: "mem cs" where
  "wu_start = w_start\<lparr>cs_stats := w_stats\<lparr>TopHeight := 300000\<rparr>,
     cs_txn := fst (bc_SetDelegate wp (fst (SetState wp (fst (SetState wp mem_empty wp_addr
       (State_zero\<lparr>st_DelegateId := 1\<rparr>))) (NewDelegateAddress 1) (State_zero\<lparr>Balance := 2000000000\<rparr>))) wu_delegate)\<rparr>"

lemma wp_no_delegate: "wp_addr \<noteq> NewDelegateAddress 1"
proof -
  have "\<not> IsDelegate wp_addr" by (simp add: IsDelegate_def wp_addr_def arr_bytes_arr_of SIZE_def list_all_iff)
  then show ?thesis using IsDelegate_iff by blast
qed

lemma wu_start_reads:
  "GetState wp (cs_txn wu_start) wp_addr = Inr (State_zero\<lparr>st_DelegateId := 1\<rparr>)"
  "GetState wp (cs_txn wu_start) (NewDelegateAddress 1) = Inr (State_zero\<lparr>Balance := 2000000000\<rparr>)"
  "GetDelegate wp (cs_txn wu_start) 1 = Inr wu_delegate"
proof -
  have t: "cs_txn wu_start = kv_put wp (kv_put wp (kv_put wp mem_empty IdxState (arr_bytes wp_addr)
      (State_Serialize (State_zero\<lparr>st_DelegateId := 1\<rparr>))) IdxState (arr_bytes (NewDelegateAddress 1))
      (State_Serialize (State_zero\<lparr>Balance := 2000000000\<rparr>))) IdxDelegate (u64_key (d_Id wu_delegate)) (Delegate_Serialize wu_delegate)"
    by (simp add: wu_start_def SetState_def bc_SetDelegate_def kv_put_def del: mem_ext_simps)
  have wf: "delegate_wf wu_delegate" and did: "1 = d_Id wu_delegate"
    by (simp_all add: delegate_wf_def wu_delegate_def)
  show "GetDelegate wp (cs_txn wu_start) 1 = Inr wu_delegate"
    unfolding t did by (subst mem.GetDelegate_put [OF wf]) simp
  show "GetState wp (cs_txn wu_start) wp_addr = Inr (State_zero\<lparr>st_DelegateId := 1\<rparr>)"
    "GetState wp (cs_txn wu_start) (NewDelegateAddress 1) = Inr (State_zero\<lparr>Balance := 2000000000\<rparr>)"
    unfolding t using wp_no_delegate by (simp_all add: GetState_def arr_bytes_inject del: mem_ext_simps)
qed

lemma wu_accepted: "validateMempoolTx wp (cs_txn wu_start) wu_tx 9 [] 300001 = Inr ()"
proof -
  have ld: "load_state wp (cs_txn wu_start) wp_addr = Inr (State_zero\<lparr>st_DelegateId := 1\<rparr>)"
    "load_state wp (cs_txn wu_start) (NewDelegateAddress 1) = Inr (State_zero\<lparr>Balance := 2000000000\<rparr>)"
    by (simp_all add: load_state_def wu_start_reads del: mem_ext_simps)
  have "GetVirtualSize wu_tx = 107" by (simp add: GetVirtualSize_def wu_tx_def base_overhead_def)
  moreover have "tx_Version wu_tx = TX_VERSION_UNSTAKE" "tx_Data wu_tx = Unstake 2000000000 1"
    "tx_Nonce wu_tx = 1" "tx_Fee wu_tx = 1000000000" "Tx_TotalAmount wu_tx = Inr 2000000000"
    by (simp_all add: wu_tx_def Tx_TotalAmount_def)
  ultimately show ?thesis
    using ld wp_no_delegate
    by (simp add: validateMempoolTx_def wp_addr Let_def tx_versions only_if_def config_defs check_unstake_tx_def
        getOrLoadDelegate_def wu_start_reads del: mem_ext_simps)
      (simp add: require_def own_fund_def wu_delegate_def State_zero_def)
qed

section \<open>A wallet\<close>

definition ww_wallet :: Wallet where
  "ww_wallet = \<lparr>wal_PrivateKey = 5, wal_Address = wp_addr, wal_height = 0, wal_balance = 0, wal_lastNonce = 0,
     wal_mempoolBal = 0, wal_mempoolNonce = 0, wal_delegateId = 0, wal_delegateName = [], wal_stakedBalance = 0,
     wal_stakedUnlock = 0\<rparr>"

definition ww_state :: State where
  "ww_state = State_zero\<lparr>Balance := 2000000000\<rparr>"

definition ww_outs :: "Output list" where
  "ww_outs = [\<lparr>Recipient = 2, PaymentId = 0, Amount = 60\<rparr>, \<lparr>Recipient = 2, PaymentId = 0, Amount = 40\<rparr>]"

lemma ww_merged: "merge_outputs ww_outs = [\<lparr>Recipient = 2, PaymentId = 0, Amount = 100\<rparr>]"
  by (simp add: ww_outs_def same_output_def)

lemma ww_transfer: "\<exists>tx. Wallet_Transfer wp (ManualRefresh ww_state 99999 ww_wallet) ww_outs True = Inr tx"
  using wp_addr(3)
  by (simp add: Wallet_Transfer_def checkAndSignTx_def wallet_tx_def ww_merged ManualRefresh_def ww_wallet_def ww_state_def
      ww_outs_def Let_def GetVirtualSize_def base_overhead_def output_overhead_def SIZE_def Transfer_TotalAmount_def
      value_or_zero_def config_defs del: mem_ext_simps)

lemma ww_wallet_ok:
  "wal_Address ww_wallet = FromPubKey wp (Privkey_Public (wal_PrivateKey ww_wallet))"
  "wal_Address ww_wallet \<noteq> INVALID_ADDRESS" "signs wp (wal_PrivateKey ww_wallet)"
  using wp_addr(1,2) by (simp_all add: ww_wallet_def INVALID_ADDRESS_def)
    (simp add: signs_def wp_crypto_def toy_crypto_def)

lemma ww_outs_ok:
  "ww_outs \<noteq> []" "length (merge_outputs ww_outs) \<le> MAX_OUTPUTS" "coins_to (\<lambda>_. True) ww_outs < 2 ^ 63"
  by (simp_all add: ww_merged config_defs) (simp_all add: ww_outs_def coins_to_def)

end
