(* ===== verification/RpcScenario.thy ===== *)
theory RpcScenario
  imports PoolScenario NodeRpc
begin

text \<open>
  Concrete nodes for the requests: one with coins and an empty mempool, one with an unstake that is waiting, and an
  account with thirty incoming transactions.
\<close>

definition wr_stats :: Stats where
  "wr_stats = w_stats\<lparr>TopHeight := 99999\<rparr>"

definition with_stats :: "Stats \<Rightarrow> mem \<Rightarrow> mem" where
  "with_stats stats t = fst (setStatsNoBroadcast wp t stats)"

lemma with_stats_eq: "with_stats stats t = kv_put wp t IdxInfo (info_key ''stats'') (gob_encode_Stats wp stats)"
  by (simp add: with_stats_def setStatsNoBroadcast_def mem.kvPut_eq del: mem_ext_simps)

lemma with_stats_reads:
  "GetStats wp (with_stats stats t) = Inr stats" "GetMempool wp (with_stats stats t) = GetMempool wp t"
  "GetState wp (with_stats stats t) a = GetState wp t a" "i \<noteq> IdxInfo \<Longrightarrow> kvGet wp (with_stats stats t) i k = kvGet wp t i k"
  "states_ok wp (with_stats stats t) = states_ok wp t"
  using mem.GetStats_setStats [of wp_crypto t stats] info_keys
  by (simp add: with_stats_def)
    (simp_all add: with_stats_eq GetMempool_def GetState_def states_ok_def info_keys [symmetric] del: mem_ext_simps)

definition wr_node :: "mem \<Rightarrow> mem peer_node" where
  "wr_node t = \<lparr>pn_node = \<lparr>nd_txn = t, nd_queue = [], nd_SyncHeight = 0, nd_SyncDiff = U128_Zero,
     nd_SyncLastRequestHeight = 0\<rparr>, pn_postprocess = [], pn_peers = []\<rparr>"

abbreviation wr_txn :: mem where "wr_txn \<equiv> with_stats wr_stats (cs_txn wp_start)"

text \<open>The checksum is computed bit by bit on numerals.\<close>

lemma crc32_step: "crc32_bits (Suc n) c = crc32_bits n (if odd c then xor 0xEDB88320 (c div 2) else c div 2)"
  by (simp add: bit_0 drop_bit_Suc)

lemma crc32_byte: "crc32_bits 8 c = crc32_bits (Suc (Suc (Suc (Suc (Suc (Suc (Suc (Suc 0)))))))) c"
  by (simp add: numeral_eq_Suc)

definition crc32_one :: "u32 \<Rightarrow> u32" where
  "crc32_one c = crc32_bits 8 (xor c (ucast (1 :: u8)))"

lemma crc32_ones:
  "crc32_one (not 0) = 1526341860" "crc32_one (1526341860) = 3493522647" "crc32_one (3493522647) = 1868582157"
  "crc32_one (1868582157) = 165227622" "crc32_one (165227622) = 3554618839" "crc32_one (3554618839) = 1868802252"
  "crc32_one (1868802252) = 3854228901" "crc32_one (3854228901) = 3512655148" "crc32_one (3512655148) = 1158546088"
  "crc32_one (1158546088) = 2941195598" "crc32_one (2941195598) = 3872133908" "crc32_one (3872133908) = 1832593656"
  "crc32_one (1832593656) = 3289149840" "crc32_one (3289149840) = 2278338467" "crc32_one (2278338467) = 945753707"
  "crc32_one (945753707) = 2908739400" "crc32_one (2908739400) = 263038691" "crc32_one (263038691) = 1309355762"
  "crc32_one (1309355762) = 620406920" "crc32_one (620406920) = 2487271724" "crc32_one (2487271724) = 1162550452"
  "crc32_one (1162550452) = 3142454303"
  by (simp_all add: crc32_one_def crc32_byte crc32_step del: crc32_bits.simps(2))

lemma wp_crc: "crc32_ChecksumIEEE (replicate 22 1) = 1152512992"
proof -
  have fold: "foldl (\<lambda>c b. crc32_bits 8 (xor c (ucast b))) c (replicate n (1 :: u8)) = (crc32_one ^^ n) c" for c n
    by (induction n arbitrary: c) (simp_all add: crc32_one_def funpow_swap1)
  have n: "22 = Suc (Suc (Suc (Suc (Suc (Suc (Suc (Suc (Suc (Suc (Suc (Suc (Suc (Suc (Suc (Suc (Suc (Suc (Suc (Suc (Suc (Suc (0))))))))))))))))))))))" by simp
  have "(crc32_one ^^ 22) (not 0) = 3142454303"
    unfolding n by (simp only: funpow.simps o_apply id_apply crc32_ones)
  then show ?thesis unfolding crc32_ChecksumIEEE_def fold by simp
qed

lemma wp_checksum: "hd (checksum (arr_bytes wp_addr)) \<noteq> 0"
proof -
  have "hd (le_bytes 2 n) = word_of_nat (n mod 256)" for n by (simp add: numeral_2_eq_2)
  then show ?thesis by (simp add: wp_addr_def arr_bytes_arr_of checksum_def wp_crc)
qed

lemma wp_text: "FromString (Address_String wp_addr) = Inr (Address_Integrated wp_addr)"
proof -
  obtain x y where "checksum (arr_bytes wp_addr) = [x, y]" by (rule checksum_cases)
  then have "hd (Integrated_bytes (Address_Integrated wp_addr)) \<noteq> 0"
    using wp_checksum compact_Nil [of 0] by (simp add: Integrated_bytes_def Address_Integrated_def)
  moreover have "\<not> IsDelegate wp_addr" by (simp add: IsDelegate_def wp_addr_def arr_bytes_arr_of SIZE_def list_all_iff)
  ultimately show ?thesis
    using FromString_String_ok [of "Address_Integrated wp_addr"] by (simp add: Address_String_def Address_Integrated_def)
qed

section \<open>A wallet that refreshes and submits\<close>

lemma wr_reads:
  "GetStats wp wr_txn = Inr wr_stats" "GetMempool wp wr_txn = Inr []" "GetState wp wr_txn wp_addr = Inr ww_state"
  "kvGet wp wr_txn IdxTx k = None" "TopHeight wr_stats = 99999"
  by (simp_all add: with_stats_reads wp_start_reads ww_state_def del: mem_ext_simps) (simp add: wr_stats_def)

definition wr_response :: GetAddressResponse where
  "wr_response = \<lparr>ga_Balance = 2000000000, ga_LastNonce = 0, ga_LastIncoming = 0, ga_MempoolBalance = 2000000000,
     ga_MempoolNonce = 0, ga_MempoolIncoming = 0, ga_DelegateId = 0, ga_Height = 99999\<rparr>"

lemma wr_get_address: "get_address wp wr_txn (Address_String wp_addr) = SuccessResponse wr_response"
  by (simp add: get_address_def address_state_def wp_text wr_reads Address_Integrated_def wr_response_def
      del: mem_ext_simps) (simp add: ww_state_def State_zero_def)

definition wr_wallet :: Wallet where
  "wr_wallet = fst (Refresh (Inr wr_response) (\<lambda>_. Inl (Err [])) ww_wallet)"

lemma wr_refresh: "Refresh (client (get_address wp wr_txn (Address_String (wal_Address ww_wallet)))) (\<lambda>_. Inl (Err [])) ww_wallet = (wr_wallet, None)"
  by (simp add: ww_wallet_def wr_get_address wr_wallet_def del: mem_ext_simps) (simp add: Refresh_def wr_response_def)

lemma wr_transfer: "\<exists>tx. Wallet_Transfer wp wr_wallet ww_outs True = Inr tx"
  using wp_addr(3)
  by (simp add: Wallet_Transfer_def checkAndSignTx_def wallet_tx_def ww_merged ww_wallet_def wr_wallet_def Refresh_def wr_response_def
      ww_outs_def Let_def GetVirtualSize_def base_overhead_def output_overhead_def SIZE_def Transfer_TotalAmount_def
      value_or_zero_def config_defs del: mem_ext_simps)

section \<open>An unstake that is waiting\<close>

definition wx_entry :: MempoolEntry where
  "wx_entry = \<lparr>me_TXID = 9, me_TxVersion = TX_VERSION_UNSTAKE, me_Size = 107, me_Fee = 1000000000,
     me_Expires = MEMPOOL_EXPIRATION, me_Signer = wp_addr,
     me_Inputs = StateInputs wp (tx_Data wu_tx) wu_tx wp_addr,
     me_Outputs = [\<lparr>Recipient = wp_addr, PaymentId = 0, Amount = 1000000000\<rparr>]\<rparr>"

lemma wx_entry: "mempool_entry wp 0 wu_tx 9 = Inr wx_entry"
  by (simp add: mempool_entry_def Let_def wp_addr wx_entry_def wu_tx_def tx_output_def GetVirtualSize_def base_overhead_def
      del: mem_ext_simps)

definition wx_txn :: mem where
  "wx_txn = with_stats wr_stats (fst (SetMempool wp 0 (cs_txn wu_start) [wx_entry]))"

lemma wx_reads:
  "GetStats wp wx_txn = Inr wr_stats" "GetMempool wp wx_txn = Inr [wx_entry]"
  "GetState wp wx_txn wp_addr = Inr (State_zero\<lparr>st_DelegateId := 1\<rparr>)"
  using mem.GetMempool_SetMempool [of wp_crypto 0 "cs_txn wu_start" "[wx_entry]"] wu_start_reads(1)
  by (simp_all add: wx_txn_def with_stats_reads SetMempool_def mem.kvPut_eq Mempool_expire_def wx_entry_def config_defs
      del: mem_ext_simps)

definition wx_response :: GetAddressResponse where
  "wx_response = address_entry wp_addr \<lparr>ga_Balance = 0, ga_LastNonce = 0, ga_LastIncoming = 0, ga_MempoolBalance = 0,
     ga_MempoolNonce = 0, ga_MempoolIncoming = 0, ga_DelegateId = 1, ga_Height = 99999\<rparr> wx_entry"

lemma wx_get_address: "get_address wp wx_txn (Address_String wp_addr) = SuccessResponse wx_response"
  by (simp add: get_address_def address_state_def wp_text wx_reads wr_reads(5) Address_Integrated_def wx_response_def
      del: mem_ext_simps) (simp add: State_zero_def)

section \<open>Thirty incoming transactions\<close>

primrec wq_store :: "nat \<Rightarrow> mem" where
  "wq_store 0 = fst (SetState wp mem_empty wp_addr (State_zero\<lparr>LastIncoming := 30\<rparr>))"
| "wq_store (Suc n) = fst (SetTxTopoInc wp (wq_store n) (of_nat n) wp_addr (of_nat n + 1))"

lemma wq_reads:
  "GetState wp (wq_store n) wp_addr = Inr (State_zero\<lparr>LastIncoming := 30\<rparr>)"
  "n < 1000 \<Longrightarrow> k < n \<Longrightarrow> GetTxTopoInc wp (wq_store n) wp_addr (of_nat k + 1) = Inr (of_nat k)"
proof -
  have put: "wq_store (Suc n) = kv_put wp (wq_store n) IdxInTx (topo_key wp_addr (of_nat n + 1)) (arr_bytes (of_nat n :: hash))" for n
    by (simp add: SetTxTopoInc_def mem.kvPut_eq del: mem_ext_simps)
  show "GetState wp (wq_store n) wp_addr = Inr (State_zero\<lparr>LastIncoming := 30\<rparr>)"
  proof (induction n)
    case 0
    then show ?case by (simp add: mem.SetState_eq del: mem_ext_simps)
  next
    case (Suc n)
    have "GetState wp (wq_store (Suc n)) wp_addr = GetState wp (wq_store n) wp_addr"
      unfolding put by (rule mem.GetState_put_other) simp
    then show ?case using Suc by simp
  qed
  show "n < 1000 \<Longrightarrow> k < n \<Longrightarrow> GetTxTopoInc wp (wq_store n) wp_addr (of_nat k + 1) = Inr (of_nat k)"
  proof (induction n)
    case (Suc n)
    have "(of_nat k = (of_nat n :: u64)) = (k = n)"
      using Suc.prems by (simp add: word_unat_eq_iff unat_of_nat64)
    then have "(of_nat k + 1 = (of_nat n + 1 :: u64)) = (k = n)" by simp
    then have "kvGet wp (wq_store (Suc n)) IdxInTx (topo_key wp_addr (of_nat k + 1)) =
        (if k = n then Some (arr_bytes (of_nat n :: hash)) else kvGet wp (wq_store n) IdxInTx (topo_key wp_addr (of_nat k + 1)))"
      unfolding put by (simp add: topo_key_eq del: mem_ext_simps wq_store.simps)
    then show ?case using Suc by (auto simp: GetTxTopoInc_def arr_of_arr_bytes simp del: mem_ext_simps wq_store.simps split: if_splits)
  qed simp
qed

end
