(* ===== verification/StratumScenario.thy ===== *)
theory StratumScenario
  imports Stratum ChainScenario RpcScenario
begin

text \<open>A stratum server with one block and two miners, and one that a miner logs in to after the first template.\<close>

definition wj_block :: Block where
  "wj_block = \<lparr>Version = 0, Height = 1, Timestamp = 5, Nonce = 0, NonceExtra = 0, OtherChains = [], bl_Recipient = 0,
     bl_Ancestors = [0, 0, 0], SideBlocks = [], bl_DelegateId = 0, NextDelegateId = 0, StakeSignature = 0,
     Difficulty = U128_From64 10000, bl_CumulativeDiff = U128_Zero, bl_Transactions = []\<rparr>"

definition wj_server :: Server where
  "wj_server = \<lparr>sv_Blocks = [wj_block], sv_LastBlock = Some 0, sv_LastMinDiff = U128_From64 10000,
     sv_conns = [(''a'', \<lparr>mc_Address = 1, mc_Jobs = []\<rparr>), (''b'', \<lparr>mc_Address = 2, mc_Jobs = []\<rparr>)],
     sv_Merges = [], sv_mergesUpdated = False, sv_lastJob = 0\<rparr>"

definition wj_cp :: checkpoints where
  "wj_cp = \<lparr>cp_bin = [], CheckpointInterval = 0, MaxCheckpoint = 0\<rparr>"

lemma wj_blob: "OtherChains bl = [] \<Longrightarrow> \<exists>mb. Commitment_MiningBlob c (Block_Commitment c bl) = Inr mb"
  by (simp add: Commitment_MiningBlob_def Block_Commitment_def sort_chains_def)

lemma SendJob_conn_ok:
  assumes "sv_conn k sv = Some v" "mc_Address v \<noteq> INVALID_ADDRESS" "ref < length (sv_Blocks sv)"
    and "OtherChains (sv_Blocks sv ! ref) = []"
  shows "\<exists>sv' job. SendJob_conn c ref (U128_From64 10000) extra jobid k sv = Inr (sv', Some job)"
proof -
  let ?bl = "(sv_Blocks sv ! ref)\<lparr>NonceExtra := extra, bl_Recipient := mc_Address v\<rparr>"
  have "OtherChains ?bl = []" using assms(4) by simp
  then obtain mb where "Commitment_MiningBlob c (Block_Commitment c ?bl) = Inr mb" using wj_blob by blast
  moreover have "\<exists>t. GetTargetBytes (U128_From64 10000) = Inr t"
    by (simp add: GetTargetBytes_def GetTarget_def U128_From64_def U128_New_def)
  ultimately show ?thesis using assms by (auto simp: SendJob_conn_def give_job_def Let_def)
qed

lemma wj_send: "\<exists>sv' job. SendJob_conn c 0 (U128_From64 10000) extra jobid ''a'' wj_server = Inr (sv', Some job)"
  by (rule SendJob_conn_ok [where v = "\<lparr>mc_Address = 1, mc_Jobs = []\<rparr>"])
    (simp_all add: wj_server_def sv_conn_def INVALID_ADDRESS_def wj_block_def)

lemma wj_send2:
  assumes "SendJob_conn c 0 (U128_From64 10000) extra jobid ''a'' wj_server = Inr (sv', Some job)"
  shows "\<exists>sv'' job'. SendJob_conn c 0 (U128_From64 10000) extra' jobid' ''b'' sv' = Inr (sv'', Some job')"
proof -
  have a: "sv_conn ''a'' wj_server = Some \<lparr>mc_Address = 1, mc_Jobs = []\<rparr>" by (simp add: wj_server_def sv_conn_def)
  obtain bl where "sv_Blocks sv' = [bl]" "OtherChains bl = []" "sv_conn ''b'' sv' = sv_conn ''b'' wj_server"
    by (rule SendJob_conn_Inr [OF assms a]) (auto simp: wj_server_def wj_block_def)
  then show ?thesis
    by (intro SendJob_conn_ok [where v = "\<lparr>mc_Address = 2, mc_Jobs = []\<rparr>"])
      (simp_all add: wj_server_def sv_conn_def INVALID_ADDRESS_def)
qed

lemma wj_run: "\<exists>sv v. stratum_run wg sv \<and> sv_conn ''a'' sv = Some v \<and> mc_Address v = wp_addr \<and> mc_Jobs v \<noteq> []"
proof -
  let ?s = "\<lparr>sv_Blocks = [], sv_LastBlock = None, sv_LastMinDiff = U128_Zero, sv_conns = [], sv_Merges = [],
    sv_mergesUpdated = False, sv_lastJob = 0\<rparr>"
  obtain bl d where t: "GetBlockTemplate wg 0 GENESIS_TIMESTAMP 0 [] INVALID_ADDRESS wt_store = (wt_store, Inr (bl, d))"
    "OtherChains bl = []" "d \<noteq> 0"
    using wt_template by blast
  let ?s1 = "SendJob bl (U128_From64 d) (?s\<lparr>sv_mergesUpdated := True, sv_lastJob := 0\<rparr>)"
  let ?s2 = "new_conn ''a'' ?s1"
  have "NewStratumJob wg 0 GENESIS_TIMESTAMP 0 0 True wt_store ?s = (wt_store, ?s1, None)"
    using t(1) by (simp add: NewStratumJob_def merges_of_def del: mem_ext_simps)
  then have "stratum_run wg ?s2" by (intro stratum_run.connect stratum_run.new_job [OF stratum_run.start])
  moreover have addr: "login_address (Address_String wp_addr) = SuccessResponse wp_addr"
    using wp_text wp_addr(2) by (simp add: login_address_def Address_Integrated_def INVALID_ADDRESS_def)
  obtain mb where mb: "Commitment_MiningBlob wg (Block_Commitment wg (bl\<lparr>bl_Recipient := wp_addr\<rparr>)) = Inr mb"
    using wj_blob [of "bl\<lparr>bl_Recipient := wp_addr\<rparr>" wg] t(2) by auto
  obtain tg where tg: "GetTargetBytes (U128_From64 d) = Inr tg"
    using t(3) by (simp add: GetTargetBytes_def GetTarget_def U128_From64_def U128_New_def)
  have "\<exists>sv job v. login wg ''a'' ''login'' (Some (Address_String wp_addr)) ''x'' ?s2 = (sv, SuccessResponse job) \<and>
      sv_conn ''a'' sv = Some v \<and> mc_Address v = wp_addr \<and> mc_Jobs v \<noteq> []"
    using mb tg
    by (simp add: login_def addr new_conn_def SendJob_def set_conn_def give_job_def sv_conn_def push_job_def Let_def
        del: mem_ext_simps)
  ultimately show ?thesis by (blast intro: stratum_run.login)
qed

end
