(* ===== verification/StratumClient.thy ===== *)
theory StratumClient
  imports Stratum
begin

text \<open>
  The client with which a node mines another chain, \<^verbatim>\<open>src/stratum/stratumclient/client.go\<close>. A line of the server is its
  decoded form, or \<open>None\<close> when it cannot be read. The channels for jobs and responses are lists: a thread that puts
  something into a full channel waits, which delays but does not reorder. The number of lines that arrived together with the
  response to the login, the result of writing to the connection and \<open>strconv.Quote\<close> are arguments.
\<close>

section \<open>Messages and state\<close>

record 'r RequestOrResponse =
  rr_Method :: string
  rr_Params :: "Job option"
  rr_Result :: 'r
  rr_Error :: bool
  rr_Id :: "u32 option"

record 'r ResponseIn =
  ri_Result :: 'r
  ri_Error :: bool
  ri_Id :: "u32 option"

type_synonym 'r stratum_line = "'r RequestOrResponse option"

record 'r Client =
  cl_alive :: bool
  cl_clientId :: string
  cl_JobChan :: "Job list"
  cl_responseChan :: "'r ResponseIn list"
  cl_closed :: bool

section \<open>Logging in\<close>

definition login_line :: "(string \<Rightarrow> string) \<Rightarrow> bool \<Rightarrow> string \<Rightarrow> string" where
  "login_line quote isNode wallet =
     (let lg = quote (if isNode then merge_prefix @ wallet else wallet); q = [CHR 0x22]
      in ''{'' @ q @ ''id'' @ q @ '':1,'' @ q @ ''method'' @ q @ '':'' @ q @ ''login'' @ q @ '','' @ q @ ''params'' @ q @ '':{'' @
         q @ ''login'' @ q @ '':'' @ lg @ '','' @ q @ ''pass'' @ q @ '':'' @ quote ''x'' @ '','' @
         q @ ''agent'' @ q @ '':'' @ quote ''stratum-client'' @ ''}'' @ ''}'' @ [CHR 10])"

text \<open>The lines that are in the buffer of the first reader are lost: the second one reads from the connection.\<close>

definition client_Start ::
  "('r \<Rightarrow> (string \<times> Job) option) \<Rightarrow> bool \<Rightarrow> 'r stratum_line list \<Rightarrow> nat \<Rightarrow> ('r Client \<times> 'r stratum_line list) res" where
  "client_Start login_of connected input together =
     (if \<not> connected then Inl (Err ''not connected'')
      else case input of
             Some response # rest \<Rightarrow>
               if rr_Error response then Inl (Err ''stratum server error'')
               else (case login_of (rr_Result response) of
                       None \<Rightarrow> Inl (Err ''invalid login response'')
                     | Some (i, job) \<Rightarrow>
                         Inr (\<lparr>cl_alive = True, cl_clientId = i, cl_JobChan = [job], cl_responseChan = [], cl_closed = False\<rparr>,
                              drop together rest))
           | _ \<Rightarrow> Inl (Err ''cannot read the login response''))"

section \<open>Reading\<close>

definition scan_line :: "'r stratum_line \<Rightarrow> 'r Client \<Rightarrow> 'r Client" where
  "scan_line l cl =
     (case l of
        None \<Rightarrow> cl\<lparr>cl_closed := True\<rparr>
      | Some r \<Rightarrow>
          if rr_Method r = []
          then cl\<lparr>cl_responseChan := cl_responseChan cl @ [\<lparr>ri_Result = rr_Result r, ri_Error = rr_Error r, ri_Id = rr_Id r\<rparr>]\<rparr>
          else if rr_Method r \<noteq> ''job'' then cl
          else case rr_Params r of
                 None \<Rightarrow> cl\<lparr>cl_closed := True\<rparr>
               | Some job \<Rightarrow> cl\<lparr>cl_JobChan := cl_JobChan cl @ [job]\<rparr>)"

fun scanJobs :: "'r stratum_line list \<Rightarrow> 'r Client \<Rightarrow> 'r Client" where
  "scanJobs [] cl = cl\<lparr>cl_closed := True\<rparr>"
| "scanJobs (l # ls) cl = (let cl = scan_line l cl in if cl_closed cl then cl else scanJobs ls cl)"

section \<open>Requests\<close>

definition request_send :: "bool \<Rightarrow> 'r Client \<Rightarrow> unit res" where
  "request_send written cl =
     (if \<not> cl_alive cl then Inl (Err ''client is not alive'')
      else if \<not> written then Inl (Err ''failed to write work'') else Inr ())"

text \<open>The next response, whichever request it belongs to; \<open>None\<close> is a request that goes on waiting.\<close>

definition request_await :: "u32 \<Rightarrow> 'r Client \<Rightarrow> ('r Client \<times> 'r ResponseIn res) option" where
  "request_await expectedResponseId cl =
     (case cl_responseChan cl of
        [] \<Rightarrow> if cl_closed cl then Some (cl, Inl (Err ''resp chan closed'')) else None
      | response # rest \<Rightarrow>
          Some (cl\<lparr>cl_responseChan := rest\<rparr>,
            case ri_Id response of
              None \<Rightarrow> Inl (Err ''invalid type of response id'')
            | Some resId \<Rightarrow> if resId \<noteq> expectedResponseId then Inl (Err ''unexpected response'') else Inr response))"

definition client_Close :: "'r Client \<Rightarrow> 'r Client" where
  "client_Close cl = (if \<not> cl_alive cl then cl else cl\<lparr>cl_alive := False\<rparr>)"

section \<open>Submissions one after the other\<close>

text \<open>The server answers each submission with its id before the next one is made.\<close>

definition answer_to :: "u32 \<Rightarrow> 'r \<Rightarrow> 'r stratum_line" where
  "answer_to i x = Some \<lparr>rr_Method = [], rr_Params = None, rr_Result = x, rr_Error = False, rr_Id = Some i\<rparr>"

fun submissions :: "(u32 \<times> 'r) list \<Rightarrow> 'r Client \<Rightarrow> 'r res list" where
  "submissions [] cl = []"
| "submissions ((i, x) # xs) cl =
     (case request_await i (scan_line (answer_to i x) cl) of
        None \<Rightarrow> []
      | Some (cl, r) \<Rightarrow> (case r of Inl err \<Rightarrow> Inl err | Inr response \<Rightarrow> Inr (ri_Result response)) # submissions xs cl)"

lemma submissions_in_step:
  "cl_responseChan cl = [] \<Longrightarrow> submissions xs cl = map (\<lambda>(i, x). Inr x) xs"
  by (induction xs arbitrary: cl) (auto simp: scan_line_def answer_to_def request_await_def)

text \<open>
  One response that nobody waits for puts the client out of step for good: every submission gets the response to the one
  before, and fails, although the server has accepted it. Two submissions at the same time may leave such a response.
\<close>

lemma submissions_out_of_step:
  assumes "cl_responseChan cl = [stale]" "ri_Id stale = Some i" "distinct_adj (i # map fst xs)"
  shows "list_all (\<lambda>r. r = Inl (Err ''unexpected response'')) (submissions xs cl) \<and> length (submissions xs cl) = length xs"
  using assms
proof (induction xs arbitrary: cl stale i)
  case (Cons a xs)
  obtain j x where a: "a = (j, x)" by fastforce
  let ?cl = "cl\<lparr>cl_responseChan := [\<lparr>ri_Result = x, ri_Error = False, ri_Id = Some j\<rparr>]\<rparr>"
  have "request_await j (scan_line (answer_to j x) cl) = Some (?cl, Inl (Err ''unexpected response''))"
    using Cons.prems a by (simp add: scan_line_def answer_to_def request_await_def)
  moreover have "list_all (\<lambda>r. r = Inl (Err ''unexpected response'')) (submissions xs ?cl) \<and> length (submissions xs ?cl) = length xs"
    using Cons.prems a by (intro Cons.IH [where stale = "\<lparr>ri_Result = x, ri_Error = False, ri_Id = Some j\<rparr>" and i = j]) simp_all
  ultimately show ?case using a by simp
qed simp

end
