(* ===== verification/Peers.thy ===== *)
theory Peers
  imports NodeHandlers
begin

text \<open>
  The peer-to-peer layer below the packets, \<^verbatim>\<open>src/p2p\<close> with the cipher of \<^verbatim>\<open>src/bitcrypto/encryption.go\<close>: the list of
  known peers (\<^verbatim>\<open>p2p.go\<close>, \<^verbatim>\<open>client.go\<close>), the handshake (\<^verbatim>\<open>handshake.go\<close>), connections and the frames on them
  (\<^verbatim>\<open>connection.go\<close>). A connection is named by its address and port; what arrives on it is the list of the bytes that
  the other side has written, and reads do not time out. AES-GCM and X25519 are parameters, as is \<open>net.ParseIP\<close> followed
  by \<open>String\<close>. Every connection has a thread, \<open>connectionMainHandling\<close>: its parts that hold a mutex are functions here,
  and \<open>p2p_run\<close> lets the parts of all threads follow each other in any order; a part that looks at all connections is one step.
\<close>

section \<open>Cryptography\<close>

record net_crypto = crypto +
  gcm_Seal :: "hash \<Rightarrow> bytes \<Rightarrow> bytes \<Rightarrow> bytes"
  gcm_Open :: "hash \<Rightarrow> bytes \<Rightarrow> bytes \<Rightarrow> bytes option"
  x25519_Public :: "hash \<Rightarrow> hash"
  x25519_ECDH :: "hash \<Rightarrow> hash \<Rightarrow> bytes option"

definition gcm_NonceSize :: nat where "gcm_NonceSize = 12"

text \<open>A cipher without key is the zero value of the struct.\<close>

type_synonym cipher = "hash option"

definition Encrypt :: "'x net_crypto_scheme \<Rightarrow> cipher \<Rightarrow> bytes \<Rightarrow> bytes \<Rightarrow> bytes res" where
  "Encrypt c cip nonce data =
     (case cip of
        None \<Rightarrow> Inl (Err ''gcm is nil'')
      | Some key \<Rightarrow>
          let sealed = gcm_Seal c key nonce data
          in if length sealed < length data then Inl (Err ''sealed is shorter than data'') else Inr (nonce @ sealed))"

definition Decrypt :: "'x net_crypto_scheme \<Rightarrow> cipher \<Rightarrow> bytes \<Rightarrow> bytes res" where
  "Decrypt c cip data =
     (case cip of
        None \<Rightarrow> Inl (Panic ''nil pointer dereference'')
      | Some key \<Rightarrow>
          if length data < gcm_NonceSize then Inl (Err ''encrypted data is too short'')
          else (case gcm_Open c key (take gcm_NonceSize data) (drop gcm_NonceSize data) of
                  None \<Rightarrow> Inl (Err ''cipher: message authentication failed'')
                | Some msg \<Rightarrow> Inr msg))"

section \<open>Known peers\<close>

datatype PeerType = PEER_GRAY | PEER_WHITE | PEER_BLACK | PEER_RED

record KnownPeer =
  kp_IP :: bytes
  kp_Port :: u16
  kp_Type :: PeerType
  kp_Fails :: u16
  kp_LastConnect :: int
  kp_Priority :: bool

definition MAX_PEER_FAILURES :: u16 where "MAX_PEER_FAILURES = 1"
definition VERSION :: u64 where "VERSION = 3 * 2 ^ 32 + 1 * 2 ^ 16 + 11"
definition BinaryNetworkID :: bytes where "BinaryNetworkID = le_bytes 8 (unat (NETWORK_ID :: u64))"

definition IsBanned :: "int \<Rightarrow> KnownPeer \<Rightarrow> bool" where
  "IsBanned now k \<longleftrightarrow> kp_Type k = PEER_RED \<and> now < kp_LastConnect k + BAN_DURATION"

record ConnData =
  cd_IP :: bytes
  cd_Outgoing :: bool
  cd_PeerId :: hash
  cd_LastPing :: int
  cd_Cipher :: cipher

record P2P =
  p2_Privkey :: hash
  p2_Connections :: "(string \<times> ConnData) list"
  p2_BindPort :: u16
  p2_KnownPeers :: "KnownPeer list"
  p2_Exclusive :: bool

definition PeerId :: "'x net_crypto_scheme \<Rightarrow> P2P \<Rightarrow> hash" where
  "PeerId c p = x25519_Public c (p2_Privkey p)"

text \<open>The first peer with the address decides.\<close>

fun set_priority :: "bytes \<Rightarrow> KnownPeer list \<Rightarrow> KnownPeer list" where
  "set_priority ip [] = []"
| "set_priority ip (v # vs) = (if kp_IP v = ip then v\<lparr>kp_Priority := True\<rparr> # vs else v # set_priority ip vs)"

definition AddPeerToList :: "bytes \<Rightarrow> u16 \<Rightarrow> bool \<Rightarrow> P2P \<Rightarrow> P2P \<times> bool" where
  "AddPeerToList ip port force p =
     (if port = 0 then (p, False)
      else if p2_Exclusive p \<and> \<not> force then (p, force)
      else if list_ex (\<lambda>v. kp_IP v = ip) (p2_KnownPeers p)
      then (if force then p\<lparr>p2_KnownPeers := set_priority ip (p2_KnownPeers p)\<rparr> else p, False)
      else (p\<lparr>p2_KnownPeers := p2_KnownPeers p @
               [\<lparr>kp_IP = ip, kp_Port = port, kp_Type = PEER_WHITE, kp_Fails = 0, kp_LastConnect = 0,
                 kp_Priority = force\<rparr>]\<rparr>, True))"

text \<open>The peers of the command line, \<open>address:port\<close>, are added with priority when the node starts.\<close>

definition P2P_BIND_PORT :: u16 where "P2P_BIND_PORT = 6310"

definition strconv_ParseUint16 :: "string \<Rightarrow> u16 res" where
  "strconv_ParseUint16 s =
     res_bind (strconv_ParseUint s) (\<lambda>n. if n < 2 ^ 16 then Inr (ucast n) else Inl (Err ''value out of range''))"

definition string_bytes :: "string \<Rightarrow> bytes" where "string_bytes s = map of_char s"

definition start_peer :: "string \<Rightarrow> P2P \<Rightarrow> P2P" where
  "start_peer v p =
     (let splv = strings_Split CHR '':'' v
      in case (if length splv > 1 then strconv_ParseUint16 (splv ! 1) else Inr P2P_BIND_PORT) of
           Inl _ \<Rightarrow> p
         | Inr port \<Rightarrow>
             fst (AddPeerToList (string_bytes (splv ! 0)) (if port = 0 then P2P_BIND_PORT else port) True p))"

definition Start :: "hash \<Rightarrow> KnownPeer list \<Rightarrow> bool \<Rightarrow> string list \<Rightarrow> P2P" where
  "Start privkey loaded exclusive peers =
     fold start_peer peers
       \<lparr>p2_Privkey = privkey, p2_Connections = [], p2_BindPort = 0, p2_KnownPeers = loaded, p2_Exclusive = exclusive\<rparr>"

text \<open>\<open>startClient\<close> after a connection attempt: the first peer with the address and port is changed.\<close>

fun update_peer :: "bytes \<Rightarrow> u16 \<Rightarrow> (KnownPeer \<Rightarrow> KnownPeer) \<Rightarrow> KnownPeer list \<Rightarrow> KnownPeer list" where
  "update_peer addr port f [] = []"
| "update_peer addr port f (kp # kps) =
     (if kp_IP kp = addr \<and> kp_Port kp = port then f kp # kps else kp # update_peer addr port f kps)"

definition client_failed :: "int \<Rightarrow> bytes \<Rightarrow> u16 \<Rightarrow> P2P \<Rightarrow> P2P" where
  "client_failed now addr port p =
     p\<lparr>p2_KnownPeers := update_peer addr port (\<lambda>kp.
         let kp = kp\<lparr>kp_Fails := kp_Fails kp + 1, kp_LastConnect := now\<rparr>
         in if kp_Fails kp > MAX_PEER_FAILURES then kp\<lparr>kp_Type := PEER_BLACK\<rparr> else kp) (p2_KnownPeers p)\<rparr>"

definition client_connected :: "int \<Rightarrow> bytes \<Rightarrow> u16 \<Rightarrow> P2P \<Rightarrow> P2P" where
  "client_connected now addr port p =
     p\<lparr>p2_KnownPeers := update_peer addr port (\<lambda>kp.
         let kp = kp\<lparr>kp_Fails := 0\<rparr>
         in if kp_Type kp = PEER_GRAY then kp\<lparr>kp_Type := PEER_WHITE, kp_LastConnect := now\<rparr> else kp) (p2_KnownPeers p)\<rparr>"

text \<open>The choice of a peer to connect to, for one round of \<open>connectToRandomPeer\<close>: \<open>first\<close> is the first random pick and
  \<open>again\<close> the further ones, taken when a peer with priority is wanted; \<open>None\<close> when the round gives up.\<close>

fun pick_priority :: "KnownPeer \<Rightarrow> KnownPeer list \<Rightarrow> KnownPeer" where
  "pick_priority randPeer [] = randPeer"
| "pick_priority randPeer (r # rs) = (if kp_Priority randPeer then randPeer else pick_priority r rs)"

definition pick_peer :: "int \<Rightarrow> bool \<Rightarrow> KnownPeer \<Rightarrow> KnownPeer list \<Rightarrow> P2P \<Rightarrow> KnownPeer option" where
  "pick_peer now priority first again p =
     (let randPeer = (if priority then pick_priority first again else first)
      in if IsBanned now randPeer then None
         else if kp_Type randPeer = PEER_BLACK \<and> now < kp_LastConnect randPeer + BLACK_DURATION then None
         else if list_ex (\<lambda>(_, c). cd_IP c = kp_IP randPeer) (p2_Connections p) then None
         else Some randPeer)"

text \<open>The rounds of \<open>connectToRandomPeer\<close>, each with its random picks, behind the limit of \<open>StartClients\<close>.\<close>

fun connectToRandomPeer :: "int \<Rightarrow> (bool \<times> KnownPeer \<times> KnownPeer list) list \<Rightarrow> P2P \<Rightarrow> KnownPeer option" where
  "connectToRandomPeer now [] p = None"
| "connectToRandomPeer now ((priority, first, again) # rounds) p =
     (if p2_KnownPeers p = [] then None
      else case pick_peer now priority first again p of
             Some k \<Rightarrow> Some k
           | None \<Rightarrow> connectToRandomPeer now rounds p)"

definition StartClients :: "int \<Rightarrow> (bool \<times> KnownPeer \<times> KnownPeer list) list \<Rightarrow> P2P \<Rightarrow> KnownPeer option" where
  "StartClients now picks p =
     (if length (filter (\<lambda>(_, c). cd_Outgoing c) (p2_Connections p)) < P2P_CONNECTIONS
      then connectToRandomPeer now (take 5 picks) p else None)"

fun mark_and_list :: "int \<Rightarrow> bytes \<Rightarrow> KnownPeer list \<Rightarrow> KnownPeer list \<times> bytes" where
  "mark_and_list now ip [] = ([], [])"
| "mark_and_list now ip (v # vs) =
     (let (vs', s) = mark_and_list now ip vs
      in if kp_IP v = ip then (v\<lparr>kp_Type := PEER_WHITE, kp_LastConnect := now\<rparr> # vs', s)
         else if kp_Type v = PEER_WHITE then (v # vs', AddUint16 (kp_Port v) @ AddString (kp_IP v) @ s)
         else (v # vs', s))"

text \<open>The new state and the data of the packet for the peer.\<close>

definition sendPeerList :: "int \<Rightarrow> bytes \<Rightarrow> P2P \<Rightarrow> P2P \<times> bytes" where
  "sendPeerList now ip p =
     (let (ks, s) = mark_and_list now ip (p2_KnownPeers p) in (p\<lparr>p2_KnownPeers := ks\<rparr>, s))"

text \<open>\<open>OnAddPeerPacket\<close>: \<open>n\<close> is the length of the slice \<open>packetData\<close>, which gets two bytes shorter in each round,
  while the deserializer takes a whole entry. The flag says whether the list is saved.\<close>

function add_peers :: "(bytes \<Rightarrow> bytes option) \<Rightarrow> nat \<Rightarrow> Des \<Rightarrow> bool \<Rightarrow> P2P \<Rightarrow> P2P outcome \<times> bool" where
  "add_peers ParseIP n d added p =
     (if n > 3 then
        let (port, d) = ReadUint16 d
        in if port = 0 then ((p, Some (Err ''invalid AddPeer port'')), False)
           else (case ReadString d of
                   Inl err \<Rightarrow> ((p, Some err), False)
                 | Inr (s, d) \<Rightarrow>
                     (case ParseIP s of
                        None \<Rightarrow> ((p, Some (Err ''invalid AddPeer IP address'')), False)
                      | Some address \<Rightarrow>
                          (case des_err d of
                             Some err \<Rightarrow> ((p, Some err), False)
                           | None \<Rightarrow>
                               let (p, added) = AddPeerToList address port False p
                               in add_peers ParseIP (n - 2) d added p)))
      else ((p, None), added))"
  by pat_completeness auto
termination
  by (relation "measure (\<lambda>(_, n, _). n)") auto

declare add_peers.simps [simp del]

definition OnAddPeerPacket :: "(bytes \<Rightarrow> bytes option) \<Rightarrow> bytes \<Rightarrow> P2P \<Rightarrow> P2P outcome \<times> bool" where
  "OnAddPeerPacket ParseIP packetData p =
     (if length packetData < 3 then ((p, Some (Err ''invalid AddPeer packet length'')), False)
      else add_peers ParseIP (length packetData) (NewDes packetData) False p)"

section \<open>The handshake\<close>

definition MAX_HANDSHAKE_SIZE :: u32 where "MAX_HANDSHAKE_SIZE = 1024"

record Handshake =
  hs_Version :: u64
  hs_P2PVersion :: u8
  hs_PeerID :: hash
  hs_P2PPort :: u16

definition Handshake_Serialize :: "Handshake \<Rightarrow> bytes" where
  "Handshake_Serialize h = AddUint64 (hs_Version h) @ AddUint8 (hs_P2PVersion h) @ AddArray (hs_PeerID h) @ AddUint16 (hs_P2PPort h)"

definition Handshake_Deserialize :: "bytes \<Rightarrow> Handshake res" where
  "Handshake_Deserialize data =
     (let (v, d) = ReadUint64 (NewDes data); (pv, d) = ReadUint8 d; (pid, d) = ReadArray d; (port, d) = ReadUint16 d
      in case des_err d of
           Some err \<Rightarrow> Inl err
         | None \<Rightarrow>
             if RemainingData d \<noteq> [] then Inl (Err ''remaining data is not empty'')
             else Inr \<lparr>hs_Version = v, hs_P2PVersion = pv, hs_PeerID = pid, hs_P2PPort = port\<rparr>)"

definition Handshake_WriteTo :: "Handshake \<Rightarrow> bytes" where
  "Handshake_WriteTo h = (let hnds = Handshake_Serialize h in AddUint32 (word_of_nat (length hnds)) @ hnds)"

text \<open>\<open>Read\<close> fills a buffer of zeros as far as there are bytes, and fails only when there are none.\<close>

definition io_Read :: "nat \<Rightarrow> bytes \<Rightarrow> (bytes \<times> bytes) res" where
  "io_Read n stream =
     (if n = 0 then Inr ([], stream)
      else if stream = [] then Inl (Err ''EOF'')
      else Inr (take n (stream @ replicate n 0), drop n stream))"

definition Handshake_ReadFrom :: "bytes \<Rightarrow> (Handshake \<times> bytes) res" where
  "Handshake_ReadFrom stream =
     res_bind (io_Read 4 stream) (\<lambda>(hndsLength, stream).
       let l = (word_of_nat (le_val hndsLength) :: u32)
       in if l > MAX_HANDSHAKE_SIZE then Inl (Err ''invalid handshake size'')
          else res_bind (io_Read (unat l) stream) (\<lambda>(hndsData, stream).
               res_bind (Handshake_Deserialize hndsData) (\<lambda>h. Inr (h, stream))))"

definition own_handshake :: "'x net_crypto_scheme \<Rightarrow> bool \<Rightarrow> P2P \<Rightarrow> Handshake" where
  "own_handshake c private p =
     \<lparr>hs_Version = VERSION, hs_P2PVersion = P2P_VERSION, hs_PeerID = PeerId c p,
      hs_P2PPort = (if private then 0 else p2_BindPort p)\<rparr>"

section \<open>Connections\<close>

definition Kick :: "string \<Rightarrow> P2P \<Rightarrow> P2P" where
  "Kick ipPort p = p\<lparr>p2_Connections := filter (\<lambda>(k, _). k \<noteq> ipPort) (p2_Connections p)\<rparr>"

definition NewConnection :: "int \<Rightarrow> bytes \<Rightarrow> bool \<Rightarrow> ConnData" where
  "NewConnection now ip outgoing =
     \<lparr>cd_IP = ip, cd_Outgoing = outgoing, cd_PeerId = 0, cd_LastPing = now, cd_Cipher = None\<rparr>"

definition handleConnection :: "string \<Rightarrow> ConnData \<Rightarrow> P2P \<Rightarrow> P2P outcome" where
  "handleConnection ipPort conn p =
     (if map_of (p2_Connections p) ipPort \<noteq> None then (p, Some (Err ''peer is already connected''))
      else (p\<lparr>p2_Connections := p2_Connections p @ [(ipPort, conn)]\<rparr>, None))"

text \<open>One connection that the listener accepts; \<open>None\<close> when it stops because the peer is banned.\<close>

definition accept_connection :: "int \<Rightarrow> string \<Rightarrow> bytes \<Rightarrow> P2P \<Rightarrow> P2P outcome option" where
  "accept_connection now ipPort ip p =
     (if list_ex (\<lambda>v. kp_IP v = ip \<and> IsBanned now v) (p2_KnownPeers p) then None
      else Some (handleConnection ipPort (NewConnection now ip False) p))"

definition update_conn :: "string \<Rightarrow> (ConnData \<Rightarrow> ConnData) \<Rightarrow> P2P \<Rightarrow> P2P" where
  "update_conn ipPort f p =
     p\<lparr>p2_Connections := map (\<lambda>(k, v). (k, if k = ipPort then f v else v)) (p2_Connections p)\<rparr>"

text \<open>How many other connections have the peer id.\<close>

definition same_id :: "string \<Rightarrow> hash \<Rightarrow> P2P \<Rightarrow> nat" where
  "same_id ipPort pid p = length (filter (\<lambda>(k, v). k \<noteq> ipPort \<and> cd_PeerId v = pid) (p2_Connections p))"

definition session_key :: "'x net_crypto_scheme \<Rightarrow> hash \<Rightarrow> hash \<Rightarrow> hash res" where
  "session_key c privkey pid =
     (case x25519_ECDH c privkey pid of
        None \<Rightarrow> Inl (Err ''crypto/ecdh: bad X25519 remote ECDH input: low order point'')
      | Some sharedkey \<Rightarrow> Inr (blake3_Sum256 c (BinaryNetworkID @ sharedkey)))"

text \<open>The first part of the thread, under the read lock: the version, whether the other side goes to the list of known
  peers (a thread of its own adds it), and whether another connection has its id.\<close>

definition hs_check :: "string \<Rightarrow> ConnData \<Rightarrow> Handshake \<Rightarrow> P2P \<Rightarrow> error option \<times> (bytes \<times> u16) option" where
  "hs_check ipPort conn hnds p =
     (if hs_P2PVersion hnds < 2 then (Some (Err ''outdated peer''), None)
      else
        (if same_id ipPort (hs_PeerID hnds) p > 0 then Some (Err ''duplicate ID'') else None,
         if \<not> cd_Outgoing conn \<and> hs_P2PPort hnds \<noteq> 0 then Some (cd_IP conn, hs_P2PPort hnds) else None))"

text \<open>The second, under the lock of the connection: the id and the key. The last, under the read lock again: two others
  with the id are too many.\<close>

definition hs_key :: "'x net_crypto_scheme \<Rightarrow> string \<Rightarrow> Handshake \<Rightarrow> P2P \<Rightarrow> P2P outcome" where
  "hs_key c ipPort hnds p =
     (let p = update_conn ipPort (\<lambda>v. v\<lparr>cd_PeerId := hs_PeerID hnds\<rparr>) p
      in if hs_PeerID hnds = PeerId c p then (p, Some (Err ''connection to self detected''))
         else (case session_key c (p2_Privkey p) (hs_PeerID hnds) of
                 Inl err \<Rightarrow> (p, Some err)
               | Inr key \<Rightarrow> (update_conn ipPort (\<lambda>v. v\<lparr>cd_Cipher := Some key\<rparr>) p, None)))"

definition hs_again :: "string \<Rightarrow> Handshake \<Rightarrow> P2P \<Rightarrow> error option" where
  "hs_again ipPort hnds p =
     (if same_id ipPort (hs_PeerID hnds) p \<ge> 2 then Some (Err ''peer is already connected'') else None)"

section \<open>Frames\<close>

record pack =
  pack_Type :: u16
  pack_Data :: bytes

definition sendPacketLock :: "'x net_crypto_scheme \<Rightarrow> cipher \<Rightarrow> bytes \<Rightarrow> pack \<Rightarrow> bytes res" where
  "sendPacketLock c cip nonce p =
     res_bind (Encrypt c cip nonce (AddUint16 (pack_Type p) @ AddFixedByteArray (pack_Data p))) (\<lambda>data.
       Inr (AddUint32 (word_of_nat (length data)) @ AddFixedByteArray data))"

text \<open>Types 0 and 1 belong to the peer-to-peer layer.\<close>

definition SendPacket :: "Packet \<Rightarrow> pack" where
  "SendPacket p = \<lparr>pack_Type = pk_Type p + 2, pack_Data = pk_Data p\<rparr>"

definition io_ReadFull :: "nat \<Rightarrow> bytes \<Rightarrow> (bytes \<times> bytes) res" where
  "io_ReadFull n stream =
     (if n = 0 then Inr ([], stream)
      else if stream = [] then Inl (Err ''EOF'')
      else if length stream < n then Inl (Err ''unexpected EOF'')
      else Inr (take n stream, drop n stream))"

definition read_frame :: "'x net_crypto_scheme \<Rightarrow> cipher \<Rightarrow> bytes \<Rightarrow> (pack \<times> bytes) res" where
  "read_frame c cip stream =
     res_bind (io_ReadFull 4 stream) (\<lambda>(packLenBuf, stream).
       let packetLen = (word_of_nat (le_val packLenBuf) :: u32)
       in if packetLen > 1024 * 1024 * 4 then Inl (Err ''connection error: invalid packet length received'')
          else res_bind
            (case io_ReadFull (unat packetLen) stream of
               Inl _ \<Rightarrow> Inl (Err ''connection error: cannot read encrypted packet data'')
             | Inr r \<Rightarrow> Inr r) (\<lambda>(encData, stream).
            res_bind (Decrypt c cip encData) (\<lambda>data.
              let (packetType, des) = ReadUint16 (NewDes data)
              in if des_err des \<noteq> None then Inl (Err ''deserialize error'')
                 else Inr (\<lparr>pack_Type = packetType, pack_Data = RemainingData des\<rparr>, stream))))"

lemma read_frame_shorter: "read_frame c cip stream = Inr (p, rest) \<Longrightarrow> length rest < length stream"
  by (auto simp: read_frame_def io_ReadFull_def Let_def case_prod_beta outcome_iffs split: if_splits sum.splits)

text \<open>All packets that a stream holds, with the error that ends the reading; the end of the stream is no error.\<close>

function read_frames :: "'x net_crypto_scheme \<Rightarrow> cipher \<Rightarrow> bytes \<Rightarrow> pack list \<times> error option" where
  "read_frames c cip stream =
     (case read_frame c cip stream of
        Inl err \<Rightarrow> ([], if err = Err ''EOF'' then None else Some err)
      | Inr (p, rest) \<Rightarrow> let (ps, err) = read_frames c cip rest in (p # ps, err))"
  by pat_completeness auto
termination
  by (relation "measure (\<lambda>(_, _, stream). length stream)") (auto dest: read_frame_shorter)

declare read_frames.simps [simp del]

text \<open>A packet for the node leaves the layer, a list of peers is taken in.\<close>

definition onPacketReceived ::
  "(bytes \<Rightarrow> bytes option) \<Rightarrow> int \<Rightarrow> string \<Rightarrow> pack \<Rightarrow> P2P \<Rightarrow> P2P outcome \<times> Packet option" where
  "onPacketReceived ParseIP now ipPort pk p =
     (let p = update_conn ipPort (\<lambda>c. c\<lparr>cd_LastPing := now\<rparr>) p
      in if pack_Type pk = 0 then ((p, None), None)
         else if pack_Type pk = 1 then (drop_err (fst (OnAddPeerPacket ParseIP (pack_Data pk) p)), None)
         else ((p, None), Some \<lparr>pk_Type = pack_Type pk - 2, pk_Data = pack_Data pk, pk_Conn = ipPort\<rparr>))"

section \<open>Delivery\<close>

text \<open>What is documented of AES-GCM and of X25519.\<close>

definition aead_ok :: "'x net_crypto_scheme \<Rightarrow> bool" where
  "aead_ok c \<longleftrightarrow> (\<forall>k n d. gcm_Open c k n (gcm_Seal c k n d) = Some d \<and> length (gcm_Seal c k n d) = length d + 16)"

definition ecdh_ok :: "'x net_crypto_scheme \<Rightarrow> bool" where
  "ecdh_ok c \<longleftrightarrow> (\<forall>a b. x25519_ECDH c a (x25519_Public c b) = x25519_ECDH c b (x25519_Public c a))"

lemma session_key_shared: "ecdh_ok c \<Longrightarrow> session_key c (p2_Privkey p) (PeerId c q) = session_key c (p2_Privkey q) (PeerId c p)"
  by (simp add: session_key_def PeerId_def ecdh_ok_def)

lemma Handshake_codec: "Handshake_ReadFrom (Handshake_WriteTo h @ rest) = Inr (h, rest)"
proof -
  have len: "length (Handshake_Serialize h) = 43"
    by (simp add: Handshake_Serialize_def AddUint64_def AddUint8_def AddArray_def AddFixedByteArray_def AddUint16_def)
  have des: "Handshake_Deserialize (Handshake_Serialize h) = Inr h"
    using ReadUint16_AddUint16 [of "hs_P2PPort h" "[]"]
    by (simp add: Handshake_Deserialize_def Handshake_Serialize_def codec_simps RemainingData_def) (simp add: NewDes_def)
  have four: "take 4 (le_bytes 4 43) = le_bytes 4 43" by simp
  have "le_val (le_bytes 4 43) = 43" by (simp add: le_val_le_bytes)
  moreover have "Handshake_Serialize h \<noteq> []" using len by auto
  ultimately show ?thesis
    using des by (simp add: Handshake_ReadFrom_def Handshake_WriteTo_def Let_def io_Read_def AddUint32_def len MAX_HANDSHAKE_SIZE_def)
qed

lemma read_frame_send:
  assumes "aead_ok c" "length nonce = gcm_NonceSize" "length (pack_Data p) \<le> 1024 * 1024 * 4 - 30"
    and "sendPacketLock c (Some key) nonce p = Inr b"
  shows "read_frame c (Some key) (b @ rest) = Inr (p, rest)"
proof -
  let ?d = "AddUint16 (pack_Type p) @ pack_Data p"
  let ?data = "nonce @ gcm_Seal c key nonce ?d"
  have len: "length ?data = length (pack_Data p) + 30"
    using assms(1,2) by (simp add: aead_ok_def gcm_NonceSize_def AddUint16_def)
  have b: "b = AddUint32 (word_of_nat (length ?data)) @ ?data"
    using assms(1,4) by (simp add: sendPacketLock_def Encrypt_def Let_def aead_ok_def AddFixedByteArray_def split: if_splits)
  have l: "unat (word_of_nat (length ?data) :: u32) = length ?data"
    using len assms(3) by (intro unat_of_nat32) simp
  have v: "le_val (take 4 (AddUint32 (word_of_nat (length ?data)) @ ?data @ rest)) = length ?data"
    using len assms(3) l by (simp add: AddUint32_def le_val_le_bytes)
  have small: "\<not> (word_of_nat (length ?data) :: u32) > 1024 * 1024 * 4"
    using len assms(3) l by (simp add: word_less_nat_alt)
  have dec: "Decrypt c (Some key) ?data = Inr ?d"
    using assms(1,2) by (simp add: Decrypt_def aead_ok_def)
  have four: "length (AddUint32 w) = 4" for w by (simp add: AddUint32_def)
  have "io_ReadFull 4 (b @ rest) = Inr (AddUint32 (word_of_nat (length ?data)), ?data @ rest)"
    using assms(2) by (auto simp: b io_ReadFull_def AddUint32_def gcm_NonceSize_def)
  moreover have "io_ReadFull (length ?data) (?data @ rest) = Inr (?data, rest)"
    using assms(2) by (auto simp: io_ReadFull_def gcm_NonceSize_def)
  moreover have "word_of_nat (le_val (AddUint32 w)) = w" for w :: u32
    by (simp add: AddUint32_def word_of_nat_le_bytes)
  moreover have "ReadUint16 (NewDes ?d) = (pack_Type p, NewDes (pack_Data p))" by (simp add: codec_simps)
  ultimately show ?thesis
    using small l dec by (simp only: read_frame_def) (simp add: RemainingData_def NewDes_def)
qed

lemma read_frames_send:
  assumes "aead_ok c"
    and "list_all2 (\<lambda>(nonce, p) b. length nonce = gcm_NonceSize \<and> length (pack_Data p) \<le> 1024 * 1024 * 4 - 30 \<and>
       sendPacketLock c (Some key) nonce p = Inr b) ps bs"
  shows "read_frames c (Some key) (concat bs) = (map snd ps, None)"
  using assms(2)
proof (induction ps bs rule: list_all2_induct)
  case Nil
  then show ?case by (subst read_frames.simps) (simp add: read_frame_def io_ReadFull_def)
next
  case (Cons x ps b bs)
  obtain nonce p where x: "x = (nonce, p)" by fastforce
  have "read_frame c (Some key) (b @ concat bs) = Inr (p, concat bs)"
    using Cons(1) x by (intro read_frame_send [OF assms(1)]) auto
  then show ?case using Cons.IH x by (subst read_frames.simps) simp
qed

section \<open>All interleavings\<close>

text \<open>Where the thread of a connection is: before the handshake, after its first, second and last part, and at its end.\<close>

datatype hs_phase = Reading | Checked Handshake | Keyed Handshake | Serving | Closing

definition after_check :: "string \<Rightarrow> bytes \<Rightarrow> P2P \<Rightarrow> hs_phase" where
  "after_check k stream p =
     (case (map_of (p2_Connections p) k, Handshake_ReadFrom stream) of
        (Some conn, Inr (hnds, _)) \<Rightarrow> (if fst (hs_check k conn hnds p) = None then Checked hnds else Closing)
      | _ \<Rightarrow> Closing)"

definition peerlist_ok :: "KnownPeer list \<Rightarrow> bool" where
  "peerlist_ok ks \<longleftrightarrow> distinct (map kp_IP ks) \<and> (\<forall>k\<in>set ks. kp_Port k \<noteq> 0)"

inductive p2p_run :: "'x net_crypto_scheme \<Rightarrow> (bytes \<Rightarrow> bytes option) \<Rightarrow> P2P \<Rightarrow> (string \<rightharpoonup> hs_phase) \<Rightarrow> bool"
  for c ParseIP where
  start: "peerlist_ok loaded \<Longrightarrow> p2p_run c ParseIP (Start privkey loaded exclusive peers) Map.empty"
| listen: "p2p_run c ParseIP p pc \<Longrightarrow> p2p_run c ParseIP (p\<lparr>p2_BindPort := port\<rparr>) pc"
| accept: "p2p_run c ParseIP p pc \<Longrightarrow> accept_connection now k ip p = Some (p', None) \<Longrightarrow> p2p_run c ParseIP p' (pc(k \<mapsto> Reading))"
| dial: "p2p_run c ParseIP p pc \<Longrightarrow> handleConnection k (NewConnection now ip True) p = (p', None) \<Longrightarrow>
    p2p_run c ParseIP p' (pc(k \<mapsto> Reading))"
| failed: "p2p_run c ParseIP p pc \<Longrightarrow> p2p_run c ParseIP (client_failed now addr port p) pc"
| connected: "p2p_run c ParseIP p pc \<Longrightarrow> p2p_run c ParseIP (client_connected now addr port p) pc"
| add: "p2p_run c ParseIP p pc \<Longrightarrow> p2p_run c ParseIP (fst (AddPeerToList ip port force p)) pc"
| check: "p2p_run c ParseIP p pc \<Longrightarrow> pc k = Some Reading \<Longrightarrow> p2p_run c ParseIP p (pc(k \<mapsto> after_check k stream p))"
| key: "p2p_run c ParseIP p pc \<Longrightarrow> pc k = Some (Checked hnds) \<Longrightarrow> hs_key c k hnds p = (p', err) \<Longrightarrow>
    p2p_run c ParseIP p' (pc(k \<mapsto> if err = None then Keyed hnds else Closing))"
| peer_list: "p2p_run c ParseIP p pc \<Longrightarrow> p2p_run c ParseIP (fst (sendPeerList now ip p)) pc"
| again: "p2p_run c ParseIP p pc \<Longrightarrow> pc k = Some (Keyed hnds) \<Longrightarrow>
    p2p_run c ParseIP p (pc(k \<mapsto> if hs_again k hnds p = None then Serving else Closing))"
| packet: "p2p_run c ParseIP p pc \<Longrightarrow> pc k = Some Serving \<Longrightarrow> onPacketReceived ParseIP now k pk p = ((p', None), delivered) \<Longrightarrow>
    p2p_run c ParseIP p' pc"
| close: "p2p_run c ParseIP p pc \<Longrightarrow> pc k \<noteq> None \<Longrightarrow> p2p_run c ParseIP p (pc(k \<mapsto> Closing))"
| kick: "p2p_run c ParseIP p pc \<Longrightarrow> p2p_run c ParseIP (Kick k p) (pc(k := None))"

text \<open>A connection with an id and a key that fits.\<close>

definition keyed_ok :: "'x net_crypto_scheme \<Rightarrow> hash \<Rightarrow> ConnData \<Rightarrow> bool" where
  "keyed_ok c privkey v \<longleftrightarrow>
     cd_PeerId v \<noteq> x25519_Public c privkey \<and>
     (case cd_Cipher v of None \<Rightarrow> False | Some key \<Rightarrow> session_key c privkey (cd_PeerId v) = Inr key)"

definition serving_with :: "(string \<rightharpoonup> hs_phase) \<Rightarrow> hash \<Rightarrow> (string \<times> ConnData) list \<Rightarrow> (string \<times> ConnData) list" where
  "serving_with pc pid conns = filter (\<lambda>(k, v). pc k = Some Serving \<and> cd_PeerId v = pid) conns"

definition conn_ok :: "'x net_crypto_scheme \<Rightarrow> hash \<Rightarrow> hs_phase option \<Rightarrow> ConnData \<Rightarrow> bool" where
  "conn_ok c privkey ph v \<longleftrightarrow>
     (case ph of
        Some Serving \<Rightarrow> keyed_ok c privkey v
      | Some (Keyed hnds) \<Rightarrow> keyed_ok c privkey v \<and> cd_PeerId v = hs_PeerID hnds
      | _ \<Rightarrow> True)"

definition conns_ok :: "'x net_crypto_scheme \<Rightarrow> hash \<Rightarrow> (string \<times> ConnData) list \<Rightarrow> (string \<rightharpoonup> hs_phase) \<Rightarrow> bool" where
  "conns_ok c privkey conns pc \<longleftrightarrow>
     distinct (map fst conns) \<and> (\<forall>(k, v)\<in>set conns. conn_ok c privkey (pc k) v) \<and>
     (\<forall>pid. length (serving_with pc pid conns) \<le> 2)"

lemma set_priority_ok: "peerlist_ok ks \<Longrightarrow> peerlist_ok (set_priority ip ks)"
proof -
  have "map kp_IP (set_priority ip ks) = map kp_IP ks \<and> kp_Port ` set (set_priority ip ks) = kp_Port ` set ks"
    by (induction ks) auto
  then show "peerlist_ok ks \<Longrightarrow> peerlist_ok (set_priority ip ks)" unfolding peerlist_ok_def by (metis (no_types, lifting) image_iff)
qed

lemma update_peer_ok:
  assumes "\<And>kp. kp_IP (f kp) = kp_IP kp" "\<And>kp. kp_Port (f kp) = kp_Port kp" "peerlist_ok ks"
  shows "peerlist_ok (update_peer addr port f ks)"
proof -
  have "map kp_IP (update_peer addr port f ks) = map kp_IP ks \<and> kp_Port ` set (update_peer addr port f ks) = kp_Port ` set ks"
    using assms(1,2) by (induction ks) auto
  then show ?thesis using assms(3) unfolding peerlist_ok_def by (metis (no_types, lifting) image_iff)
qed

lemma mark_and_list_ok: "peerlist_ok ks \<Longrightarrow> peerlist_ok (fst (mark_and_list now ip ks))"
proof -
  have "map kp_IP (fst (mark_and_list now ip ks)) = map kp_IP ks \<and> kp_Port ` set (fst (mark_and_list now ip ks)) = kp_Port ` set ks"
    by (induction ks) (auto simp: case_prod_beta)
  then show "peerlist_ok ks \<Longrightarrow> peerlist_ok (fst (mark_and_list now ip ks))"
    unfolding peerlist_ok_def by (metis (no_types, lifting) image_iff)
qed

text \<open>A step on the known peers only.\<close>

definition peers_step :: "P2P \<Rightarrow> P2P \<Rightarrow> bool" where
  "peers_step p p' \<longleftrightarrow>
     p2_Connections p' = p2_Connections p \<and> p2_Privkey p' = p2_Privkey p \<and>
     (peerlist_ok (p2_KnownPeers p) \<longrightarrow> peerlist_ok (p2_KnownPeers p'))"

lemma AddPeerToList_step: "peers_step p (fst (AddPeerToList ip port force p))"
  using set_priority_ok [of "p2_KnownPeers p" ip]
  by (auto simp: peers_step_def AddPeerToList_def peerlist_ok_def list_ex_iff)

lemma peers_step_trans: "peers_step p p' \<Longrightarrow> peers_step p' p'' \<Longrightarrow> peers_step p p''"
  by (simp add: peers_step_def)

lemma client_step: "peers_step p (client_failed now addr port p)" "peers_step p (client_connected now addr port p)"
  by (auto simp: peers_step_def client_failed_def client_connected_def Let_def intro!: update_peer_ok)

lemma sendPeerList_step: "peers_step p (fst (sendPeerList now ip p))"
  using mark_and_list_ok [of "p2_KnownPeers p" now ip] by (simp add: peers_step_def sendPeerList_def case_prod_beta)

lemma add_peers_step: "peers_step p (fst (fst (add_peers ParseIP n d added p)))"
proof (induction n arbitrary: d added p rule: less_induct)
  case (less n)
  have refl: "peers_step p p" by (simp add: peers_step_def)
  have IH: "n > 3 \<Longrightarrow> peers_step p (fst (fst (add_peers ParseIP (n - 2) d' added' (fst (AddPeerToList a port False p)))))"
    for a port d' added' by (rule peers_step_trans [OF AddPeerToList_step less]) simp
  show ?case
    using refl IH by (subst add_peers.simps) (auto simp: case_prod_beta Let_def split: sum.splits option.splits)
qed

lemma OnAddPeerPacket_step: "peers_step p (fst (fst (OnAddPeerPacket ParseIP data p)))"
  using add_peers_step by (simp add: OnAddPeerPacket_def peers_step_def)

lemma start_peer_step: "peers_step p (start_peer v p)"
  using AddPeerToList_step by (simp add: start_peer_def Let_def peers_step_def split: sum.splits)

lemma Start_step:
  "peers_step \<lparr>p2_Privkey = privkey, p2_Connections = [], p2_BindPort = 0, p2_KnownPeers = loaded, p2_Exclusive = exclusive\<rparr>
     (Start privkey loaded exclusive peers)"
proof -
  have "peers_step p (fold start_peer peers p)" for p
  proof (induction peers arbitrary: p)
    case Nil
    then show ?case by (simp add: peers_step_def)
  next
    case (Cons v vs)
    then show ?case using peers_step_trans [OF start_peer_step [of p v] Cons.IH] by simp
  qed
  then show ?thesis by (simp add: Start_def)
qed

lemma serving_with_le:
  "(\<And>k. pc' k = Some Serving \<Longrightarrow> pc k = Some Serving) \<Longrightarrow> length (serving_with pc pid conns) \<le> 2 \<Longrightarrow>
     length (serving_with pc' pid conns) \<le> 2"
  unfolding serving_with_def by (rule order_trans [OF length_filter_mono]) auto

lemma conns_ok_phase:
  assumes ok: "conns_ok c privkey conns pc" and ph: "ph \<noteq> Some Serving"
    and new: "\<And>v. (k, v) \<in> set conns \<Longrightarrow> conn_ok c privkey ph v"
  shows "conns_ok c privkey conns (pc(k := ph))"
proof -
  have "length (serving_with (pc(k := ph)) pid conns) \<le> 2" for pid
  proof (rule serving_with_le)
    show "pc k' = Some Serving" if "(pc(k := ph)) k' = Some Serving" for k'
      using that ph by (cases "k' = k") auto
    show "length (serving_with pc pid conns) \<le> 2" using ok by (simp add: conns_ok_def)
  qed
  moreover have "conn_ok c privkey ((pc(k := ph)) k') v" if "(k', v) \<in> set conns" for k' v
    using that ok new by (cases "k' = k") (auto simp: conns_ok_def)
  ultimately show ?thesis using ok by (auto simp: conns_ok_def)
qed

lemma conns_ok_new:
  assumes "conns_ok c privkey conns pc" "k \<notin> fst ` set conns" "pc k = Some Reading"
  shows "conns_ok c privkey (conns @ [(k, v)]) pc"
  using assms by (auto simp: conns_ok_def serving_with_def conn_ok_def)

lemma conns_ok_kick: "conns_ok c privkey conns pc \<Longrightarrow> conns_ok c privkey (filter (\<lambda>(k', _). k' \<noteq> k) conns) pc"
proof -
  assume ok: "conns_ok c privkey conns pc"
  have "length (serving_with pc pid (filter (\<lambda>(k', _). k' \<noteq> k) conns)) \<le> length (serving_with pc pid conns)" for pid
    unfolding serving_with_def filter_filter by (rule length_filter_mono) auto
  also have "length (serving_with pc pid conns) \<le> 2" for pid using ok by (simp add: conns_ok_def)
  finally show "conns_ok c privkey (filter (\<lambda>(k', _). k' \<noteq> k) conns) pc"
    using ok unfolding conns_ok_def by (auto simp: distinct_map_filter)
qed

lemma conns_ok_update:
  assumes ok: "conns_ok c privkey conns pc"
    and f: "pc k = Some Closing \<or> (\<forall>v. cd_PeerId (f v) = cd_PeerId v \<and> cd_Cipher (f v) = cd_Cipher v)"
  shows "conns_ok c privkey (map (\<lambda>(k', v). (k', if k' = k then f v else v)) conns) pc"
proof -
  let ?conns = "map (\<lambda>(k', v). (k', if k' = k then f v else v)) conns"
  have keys: "map fst ?conns = map fst conns" by auto
  have num: "length (serving_with pc pid ?conns) = length (serving_with pc pid conns)" for pid
    using f unfolding serving_with_def by (induction conns) auto
  have keep: "conn_ok c privkey (pc k) (f v)" if "conn_ok c privkey (pc k) v" for v
  proof (cases "pc k = Some Closing")
    case True
    then show ?thesis by (simp add: conn_ok_def)
  next
    case False
    then have "cd_PeerId (f v) = cd_PeerId v" "cd_Cipher (f v) = cd_Cipher v" using f by auto
    then have "keyed_ok c privkey (f v) = keyed_ok c privkey v" by (simp only: keyed_ok_def)
    then show ?thesis using that \<open>cd_PeerId (f v) = cd_PeerId v\<close>
      by (simp add: conn_ok_def split: option.splits hs_phase.splits)
  qed
  have "conn_ok c privkey (pc k') v" if new: "(k', v) \<in> set ?conns" for k' v
  proof -
    obtain w where w: "(k', w) \<in> set conns" "v = (if k' = k then f w else w)" using new by auto
    then have "conn_ok c privkey (pc k') w" using ok by (auto simp: conns_ok_def)
    then show ?thesis using w keep by auto
  qed
  then show ?thesis using ok unfolding conns_ok_def keys num by blast
qed

lemma conns_ok_serving:
  assumes ok: "conns_ok c privkey (p2_Connections p) pc" and k: "pc k = Some (Keyed hnds)" and few: "hs_again k hnds p = None"
  shows "conns_ok c privkey (p2_Connections p) (pc(k \<mapsto> Serving))"
proof -
  let ?conns = "p2_Connections p" and ?pc = "pc(k \<mapsto> Serving)"
  have "conn_ok c privkey (pc k) v" if "(k, v) \<in> set ?conns" for v using ok that by (auto simp: conns_ok_def)
  then have id: "keyed_ok c privkey v" "cd_PeerId v = hs_PeerID hnds" if "(k, v) \<in> set ?conns" for v
    using that k by (auto simp: conn_ok_def)
  have two: "length (serving_with ?pc pid ?conns) \<le> 2" for pid
  proof (cases "pid = hs_PeerID hnds")
    case True
    let ?P = "\<lambda>(k', v). ?pc k' = Some Serving \<and> cd_PeerId v = pid"
    have "length (filter (\<lambda>x. ?P x \<and> fst x = k) ?conns) \<le> length (filter (\<lambda>x. fst x = k) ?conns)"
      by (rule length_filter_mono) auto
    also have "\<dots> \<le> 1" using ok by (intro distinct_one) (simp add: conns_ok_def)
    finally have one: "length (filter (\<lambda>x. ?P x \<and> fst x = k) ?conns) \<le> 1" .
    have "length (filter (\<lambda>x. ?P x \<and> fst x \<noteq> k) ?conns) \<le> same_id k pid p"
      unfolding same_id_def by (rule length_filter_mono) auto
    then have "length (filter (\<lambda>x. ?P x \<and> fst x \<noteq> k) ?conns) \<le> 1"
      using few True by (simp add: hs_again_def split: if_splits)
    then show ?thesis
      using one length_filter_split [of ?P ?conns "\<lambda>x. fst x = k"] unfolding serving_with_def by linarith
  next
    case False
    have "?pc k' = Some Serving \<and> cd_PeerId v = pid \<longleftrightarrow> pc k' = Some Serving \<and> cd_PeerId v = pid"
      if "(k', v) \<in> set ?conns" for k' v
      using that False k id(2) by (cases "k' = k") auto
    then have "serving_with ?pc pid ?conns = serving_with pc pid ?conns"
      unfolding serving_with_def by (intro filter_cong) auto
    then show ?thesis using ok by (simp add: conns_ok_def)
  qed
  have "conn_ok c privkey (?pc k') v" if "(k', v) \<in> set ?conns" for k' v
    using that ok id(1) by (cases "k' = k") (auto simp: conns_ok_def conn_ok_def)
  then show ?thesis using ok two unfolding conns_ok_def by blast
qed

definition p2p_inv :: "'x net_crypto_scheme \<Rightarrow> P2P \<Rightarrow> (string \<rightharpoonup> hs_phase) \<Rightarrow> bool" where
  "p2p_inv c p pc \<longleftrightarrow> peerlist_ok (p2_KnownPeers p) \<and> conns_ok c (p2_Privkey p) (p2_Connections p) pc"

lemma peers_step_inv: "peers_step p p' \<Longrightarrow> p2p_inv c p pc \<Longrightarrow> p2p_inv c p' pc"
  by (simp add: peers_step_def p2p_inv_def)

lemma handleConnection_inv:
  assumes "handleConnection k v p = (p', None)" "p2p_inv c p pc"
  shows "p2p_inv c p' (pc(k \<mapsto> Reading))"
proof -
  have "k \<notin> fst ` set (p2_Connections p)" and p': "p' = p\<lparr>p2_Connections := p2_Connections p @ [(k, v)]\<rparr>"
    using assms(1) by (auto simp: handleConnection_def map_of_eq_None_iff split: if_splits)
  moreover have "conns_ok c (p2_Privkey p) (p2_Connections p) (pc(k \<mapsto> Reading))"
    using assms(2) by (intro conns_ok_phase) (auto simp: p2p_inv_def conn_ok_def)
  ultimately show ?thesis using assms(2) by (auto simp: p2p_inv_def intro: conns_ok_new)
qed

lemma hs_key_inv:
  assumes run: "hs_key c k hnds p = (p', err)" and inv: "p2p_inv c p pc"
  shows "p2p_inv c p' (pc(k \<mapsto> if err = None then Keyed hnds else Closing))"
proof -
  let ?p = "update_conn k (\<lambda>v. v\<lparr>cd_PeerId := hs_PeerID hnds\<rparr>) p"
  have closing: "p2p_inv c p (pc(k \<mapsto> Closing))"
    using inv unfolding p2p_inv_def by (auto intro!: conns_ok_phase simp: conn_ok_def)
  then have set: "p2p_inv c (update_conn k f p) (pc(k \<mapsto> Closing))" if "p2p_inv c p (pc(k \<mapsto> Closing))" for f p
    using that by (auto simp: p2p_inv_def update_conn_def intro!: conns_ok_update)
  note first = set [OF closing, of "\<lambda>v. v\<lparr>cd_PeerId := hs_PeerID hnds\<rparr>"]
  show ?thesis
  proof (cases err)
    case (Some e)
    then have "p' = ?p" using run by (auto simp: hs_key_def Let_def split: if_splits sum.splits)
    then show ?thesis using first Some by simp
  next
    case None
    then obtain key where key: "session_key c (p2_Privkey p) (hs_PeerID hnds) = Inr key"
      and p': "p' = update_conn k (\<lambda>v. v\<lparr>cd_Cipher := Some key\<rparr>) ?p" and other: "hs_PeerID hnds \<noteq> x25519_Public c (p2_Privkey p)"
      using run by (auto simp: hs_key_def Let_def PeerId_def update_conn_def split: if_splits sum.splits)
    have "p2p_inv c p' (pc(k \<mapsto> Closing))" unfolding p' by (rule set [OF first])
    moreover have "conn_ok c (p2_Privkey p') (Some (Keyed hnds)) v" if "(k, v) \<in> set (p2_Connections p')" for v
      using that key other by (auto simp: p' update_conn_def conn_ok_def keyed_ok_def)
    ultimately show ?thesis
      using None conns_ok_phase [of c "p2_Privkey p'" "p2_Connections p'" "pc(k \<mapsto> Closing)" "Some (Keyed hnds)" k]
      by (simp add: p2p_inv_def)
  qed
qed

lemma onPacketReceived_inv:
  assumes "onPacketReceived ParseIP now k pk p = ((p', err), delivered)" "p2p_inv c p pc"
  shows "p2p_inv c p' pc"
proof -
  let ?p = "update_conn k (\<lambda>c. c\<lparr>cd_LastPing := now\<rparr>) p"
  have "p2p_inv c ?p pc" using assms(2) by (auto simp: p2p_inv_def update_conn_def intro!: conns_ok_update)
  moreover have "p' = ?p \<or> p' = fst (fst (OnAddPeerPacket ParseIP (pack_Data pk) ?p))"
    using assms(1) by (cases "fst (OnAddPeerPacket ParseIP (pack_Data pk) ?p)" rule: drop_err.cases)
      (auto simp: onPacketReceived_def Let_def split: if_splits)
  ultimately show ?thesis using peers_step_inv [OF OnAddPeerPacket_step] by blast
qed

lemma p2p_run_inv: "p2p_run c ParseIP p pc \<Longrightarrow> p2p_inv c p pc"
proof (induction rule: p2p_run.induct)
  case (start loaded privkey exclusive peers)
  then show ?case by (intro peers_step_inv [OF Start_step]) (simp add: p2p_inv_def conns_ok_def serving_with_def)
next
  case (accept p pc now k ip p')
  then have "handleConnection k (NewConnection now ip False) p = (p', None)"
    by (simp add: accept_connection_def split: if_splits)
  then show ?case using accept.IH by (rule handleConnection_inv)
next
  case (check p pc k stream)
  have "after_check k stream p = Closing \<or> (\<exists>hnds. after_check k stream p = Checked hnds)"
    by (simp add: after_check_def split: option.splits sum.splits)
  then show ?case using check.IH unfolding p2p_inv_def by (auto intro!: conns_ok_phase simp: conn_ok_def)
next
  case (again p pc k hnds)
  show ?case
  proof (cases "hs_again k hnds p = None")
    case True
    then show ?thesis using again conns_ok_serving [of c "p2_Privkey p" p pc k hnds] unfolding p2p_inv_def by simp
  next
    case False
    then show ?thesis using again.IH unfolding p2p_inv_def by (auto intro!: conns_ok_phase simp: conn_ok_def)
  qed
next
  case (close p pc k)
  then show ?case unfolding p2p_inv_def by (auto intro!: conns_ok_phase simp: conn_ok_def)
next
  case (kick p pc k)
  then have "conns_ok c (p2_Privkey p) (p2_Connections p) (pc(k := None))"
    unfolding p2p_inv_def by (intro conns_ok_phase) (auto simp: conn_ok_def)
  from conns_ok_kick [OF this, of k] show ?case using kick.IH by (simp add: p2p_inv_def Kick_def del: fun_upd_apply)
next
  case (listen p pc port)
  then show ?case by (simp add: p2p_inv_def)
next
  case (dial p pc k now ip p')
  then show ?case by (blast intro: handleConnection_inv)
next
  case (key p pc k hnds p' err)
  then show ?case by (blast intro: hs_key_inv)
next
  case (packet p pc k now pk p' delivered)
  then show ?case by (blast intro: onPacketReceived_inv)
qed (erule peers_step_inv [rotated], rule AddPeerToList_step client_step sendPeerList_step)+

section \<open>Delivery between two nodes\<close>

text \<open>The handshakes that two nodes send each other, each dealt with by the other side, give one key.\<close>

lemma hs_key_cipher:
  assumes "hs_key c k hnds p = (p', None)" "map_of (p2_Connections p) k = Some conn"
  shows "\<exists>key conn'. session_key c (p2_Privkey p) (hs_PeerID hnds) = Inr key \<and>
     map_of (p2_Connections p') k = Some conn' \<and> cd_Cipher conn' = Some key"
proof -
  obtain key where "session_key c (p2_Privkey p) (hs_PeerID hnds) = Inr key"
    and "p' = update_conn k (\<lambda>v. v\<lparr>cd_Cipher := Some key\<rparr>) (update_conn k (\<lambda>v. v\<lparr>cd_PeerId := hs_PeerID hnds\<rparr>) p)"
    using assms(1) by (auto simp: hs_key_def Let_def update_conn_def split: if_splits sum.splits)
  moreover have "map_of (map (\<lambda>(k', v). (k', if k' = k then f v else v)) conns) k = map_option f (map_of conns k)"
    for f :: "ConnData \<Rightarrow> ConnData" and conns by (induction conns) auto
  ultimately show ?thesis using assms(2) by (simp add: update_conn_def del: map_map)
qed

definition conn_cipher :: "string \<Rightarrow> P2P \<Rightarrow> cipher" where
  "conn_cipher k p = (case map_of (p2_Connections p) k of None \<Rightarrow> None | Some v \<Rightarrow> cd_Cipher v)"

text \<open>What a node takes out of the bytes of a connection, in order.\<close>

definition delivered :: "'x net_crypto_scheme \<Rightarrow> (bytes \<Rightarrow> bytes option) \<Rightarrow> int \<Rightarrow> string \<Rightarrow> bytes \<Rightarrow> P2P \<Rightarrow> Packet option list" where
  "delivered c ParseIP now k stream p =
     map (\<lambda>pk. snd (onPacketReceived ParseIP now k pk p)) (fst (read_frames c (conn_cipher k p) stream))"

lemma delivered_SendPacket:
  assumes "pk_Type pk < 0xfffe"
  shows "snd (onPacketReceived ParseIP now k (SendPacket pk) p) = Some (pk\<lparr>pk_Conn := k\<rparr>)"
proof -
  have "unat (pk_Type pk + 2) = unat (pk_Type pk) + 2"
    using assms by (simp add: word_less_nat_alt unat_word_ariths)
  then have "pk_Type pk + 2 \<noteq> 0" "pk_Type pk + 2 \<noteq> 1" by (metis add_is_0 numeral_neq_zero unat_0, force)
  then show ?thesis by (simp add: onPacketReceived_def SendPacket_def Let_def)
qed

lemma delivered_all:
  assumes crypto: "aead_ok c" "ecdh_ok c"
    and p: "hs_key c k (own_handshake c privq q) p = (p', None)" "map_of (p2_Connections p) k = Some conn"
    and q: "hs_key c l (own_handshake c privp p) q = (q', None)" "map_of (p2_Connections q) l = Some conn'"
    and sent: "list_all2 (\<lambda>(nonce, pk) b. length nonce = gcm_NonceSize \<and> length (pk_Data pk) \<le> 1024 * 1024 * 4 - 30 \<and>
        pk_Type pk < 0xfffe \<and> sendPacketLock c (conn_cipher k p') nonce (SendPacket pk) = Inr b) pks bs"
  shows "delivered c ParseIP now l (concat bs) q' = map (\<lambda>(_, pk). Some (pk\<lparr>pk_Conn := l\<rparr>)) pks"
proof -
  obtain key where key: "session_key c (p2_Privkey p) (PeerId c q) = Inr key" "conn_cipher k p' = Some key"
    using hs_key_cipher [OF p] by (auto simp: conn_cipher_def own_handshake_def)
  moreover have "session_key c (p2_Privkey q) (PeerId c p) = Inr key"
    using key(1) session_key_shared [OF crypto(2)] by metis
  ultimately have cipher: "conn_cipher l q' = Some key"
    using hs_key_cipher [OF q] by (auto simp: conn_cipher_def own_handshake_def)
  have "list_all2 (\<lambda>(nonce, p) b. length nonce = gcm_NonceSize \<and> length (pack_Data p) \<le> 1024 * 1024 * 4 - 30 \<and>
       sendPacketLock c (Some key) nonce p = Inr b) (map (\<lambda>(nonce, pk). (nonce, SendPacket pk)) pks) bs"
    using sent unfolding list_all2_map1 by (rule list_all2_mono) (auto simp: key(2) SendPacket_def)
  then have "read_frames c (Some key) (concat bs) = (map (SendPacket \<circ> snd) pks, None)"
    using read_frames_send [OF crypto(1)] by (fastforce simp: case_prod_beta comp_def)
  moreover have "\<forall>x\<in>set pks. pk_Type (snd x) < 0xfffe"
    using sent by (induction rule: list_all2_induct) auto
  ultimately show ?thesis
    by (simp add: delivered_def cipher case_prod_beta delivered_SendPacket)
qed

section \<open>Peer lists\<close>

text \<open>A length that does not fit an \<open>int\<close> makes the reader of the list slice with a negative bound.\<close>

lemma ReadByteSlice_huge:
  assumes "2 ^ 63 \<le> n" "length rest < 2 ^ 63"
  shows "ReadByteSlice (NewDes (AppendUvarint n @ rest)) = Inl (Panic ''slice bounds out of range'')"
proof -
  have n: "unat n \<ge> 2 ^ 63" using assms(1) by (simp add: word_le_nat_alt)
  have "unat n div 2 ^ 63 = 1" using n unat_lt64 [of n] by (simp add: div_nat_eqI)
  then have "bit (unat n) 63" by (simp add: bit_iff_odd)
  then have "bit n 63" by (simp add: bit_unsigned_iff)
  then have "sint n < 0" using bit_last_iff [of n] by simp
  then have "\<not> int (length rest) < sint n" by linarith
  moreover have "length rest < unat n" using n assms(2) by linarith
  ultimately show ?thesis
    by (simp add: ReadByteSlice_def NewDes_def Uvarint_AppendUvarint Suc_le_eq)
qed

lemma AddPeer_crash:
  assumes "port \<noteq> 0" "2 ^ 63 \<le> n" "length rest < 2 ^ 63"
    and pk: "pack_Type pk = 1" "pack_Data pk = AddUint16 port @ AppendUvarint n @ rest"
  shows "snd (fst (onPacketReceived ParseIP now k pk p)) = Some (Panic ''slice bounds out of range'')"
proof -
  have "n \<ge> 0x80" using assms(2) by (rule order_trans [rotated]) simp
  then have "length (AppendUvarint n) \<ge> 2" by (subst AppendUvarint.simps) (simp add: Suc_le_eq)
  then have "length (AddUint16 port @ AppendUvarint n @ rest) > 3" by (simp add: AddUint16_def)
  then show ?thesis
    using assms(1) ReadByteSlice_huge [OF assms(2,3)]
    by (simp add: onPacketReceived_def Let_def pk OnAddPeerPacket_def add_peers.simps codec_simps ReadString_def
        del: length_append)
qed

text \<open>The list that a node sends. Its first entry is taken in, and more than one or any entry of more than three bytes
  leaves the loop at a read past the end.\<close>

lemma add_peers_end: "n > 3 \<Longrightarrow> add_peers ParseIP n (NewDes []) added p = ((p, Some (Err ''invalid AddPeer port'')), False)"
  by (subst add_peers.simps) (simp add: ReadUint16_def des_read_def NewDes_def)

text \<open>\<open>net.ParseIP\<close> takes no text of fewer than two characters.\<close>

definition ParseIP_ok :: "(bytes \<Rightarrow> bytes option) \<Rightarrow> bool" where
  "ParseIP_ok ParseIP \<longleftrightarrow> (\<forall>s. length s < 2 \<longrightarrow> ParseIP s = None)"

lemma ReadUint16_consumes:
  "ReadUint16 d = (port, d') \<Longrightarrow> port \<noteq> 0 \<Longrightarrow> des_err d' = None \<and> length (des_data d') + 2 = length (des_data d)"
  by (auto simp: ReadUint16_def des_read_def split: if_splits)

lemma uvarint_loop_zero: "uvarint_loop bs i x s = (v, 0) \<Longrightarrow> v = 0"
  by (induction bs i x s rule: uvarint_loop.induct) (auto split: if_splits)

lemma ReadString_consumes:
  assumes "ReadString d = Inr (s, d')" "s \<noteq> []"
  shows "length (des_data d') + length s + 1 \<le> length (des_data d)"
proof -
  obtain len rd where u: "Uvarint (des_data d) = (len, rd)" by fastforce
  let ?r = "drop (nat rd) (des_data d)"
  have run: "des_err d = None" "length (des_data d) \<ge> 1" "rd \<ge> 0" "unat len \<le> length ?r"
    "s = take (unat len) ?r" "des_data d' = drop (unat len) ?r"
    using assms by (auto simp: ReadString_def ReadByteSlice_def u Let_def split: if_splits)
  have "rd \<noteq> 0" using u uvarint_loop_zero assms(2) run(5) by (fastforce simp: Uvarint_def)
  then show ?thesis using run by auto
qed

lemma add_peers_error:
  assumes "ParseIP_ok ParseIP" "n > 3" "length (des_data d) + 3 \<le> n \<or> n > 5 \<and> length (des_data d) \<le> n"
  shows "snd (fst (add_peers ParseIP n d added p)) \<noteq> None \<and> \<not> snd (add_peers ParseIP n d added p)"
  using assms(2,3)
proof (induction n arbitrary: d added p rule: less_induct)
  case (less n)
  obtain port d1 where port: "ReadUint16 d = (port, d1)" by fastforce
  show ?case
  proof (cases "port = 0 \<or> (\<exists>err. ReadString d1 = Inl err)")
    case True
    then show ?thesis using less.prems port by (subst (1 2) add_peers.simps) auto
  next
    case False
    then obtain s d2 where s: "ReadString d1 = Inr (s, d2)" by (cases "ReadString d1") auto
    show ?thesis
    proof (cases "ParseIP s = None \<or> des_err d2 \<noteq> None")
      case True
      then show ?thesis using less.prems port s False by (subst (1 2) add_peers.simps) (auto split: option.splits)
    next
      case ok: False
      then obtain a where a: "ParseIP s = Some a" "des_err d2 = None" by auto
      then have "length s \<ge> 2" using assms(1) by (metis ParseIP_ok_def not_le option.distinct(1))
      then have "length (des_data d2) + 5 \<le> length (des_data d)"
        using ReadUint16_consumes [OF port] False ReadString_consumes [OF s] by fastforce
      then have "snd (fst (add_peers ParseIP (n - 2) d2 added' p')) \<noteq> None \<and> \<not> snd (add_peers ParseIP (n - 2) d2 added' p')"
        for added' p' using less.prems by (intro less.IH) auto
      then show ?thesis using less.prems port s a False by (subst (1 2) add_peers.simps) (auto simp: case_prod_beta)
    qed
  qed
qed

text \<open>So no list of more than five bytes, which is any list with an address other than \<open>::\<close>, is saved.\<close>

lemma AddPeer_not_saved:
  assumes "ParseIP_ok ParseIP" "length packetData > 5"
  shows "snd (fst (OnAddPeerPacket ParseIP packetData p)) \<noteq> None \<and> \<not> snd (OnAddPeerPacket ParseIP packetData p)"
  using add_peers_error [OF assms(1), of "length packetData" "NewDes packetData"] assms(2)
  by (simp add: OnAddPeerPacket_def NewDes_def)

end
