(* ===== verification/RpcServer.thy ===== *)
theory RpcServer
  imports Prelude
begin

text \<open>
  The HTTP server that is in front of the requests of the node and of the wallet: the limit on the number of
  requests, \<^verbatim>\<open>src/util/ratelimit/ratelimit.go\<close>, and the checks that a request passes before its handler runs,
  \<^verbatim>\<open>src/rpc/rpcserver\<close>. The handlers are the map of functions that they are in the code, on a state of any type
  (the wallet, the node). What the server reads of an HTTP request is a record; \<open>json.Unmarshal\<close> is a parameter;
  the values of type \<open>any\<close> are those of JSON, of a type of its own. A server handles its requests one after the
  other here. Counts and times are integers: they stay far below the bounds of Go's 64-bit integers.
\<close>

section \<open>Sequences of steps\<close>

text \<open>A component that takes one action after the other, with its outputs.\<close>

primrec run :: "('a \<Rightarrow> 's \<Rightarrow> 's \<times> 'o) \<Rightarrow> 'a list \<Rightarrow> 's \<Rightarrow> 's \<times> 'o list" where
  "run step [] s = (s, [])"
| "run step (a # as) s = (let (s, out) = step a s; (s, outs) = run step as s in (s, out # outs))"

text \<open>The outputs of the actions that satisfy a predicate.\<close>

definition outputs_of :: "('a \<Rightarrow> bool) \<Rightarrow> 'a list \<Rightarrow> 'o list \<Rightarrow> 'o list" where
  "outputs_of P as outs = map snd (filter (\<lambda>(a, _). P a) (zip as outs))"

lemma outputs_of_simps [simp]:
  "outputs_of P [] outs = []"
  "outputs_of P (a # as) (out # outs) = (if P a then out # outputs_of P as outs else outputs_of P as outs)"
  by (simp_all add: outputs_of_def)

lemma run_append:
  "run step (as @ bs) s = (case run step as s of (s1, outs1) \<Rightarrow> case run step bs s1 of (s2, outs2) \<Rightarrow> (s2, outs1 @ outs2))"
  by (induction as arbitrary: s) (auto simp: split_beta)

lemma run_length: "length (snd (run step as s)) = length as"
  by (induction as arbitrary: s) (auto simp: split_beta)

lemma outputs_of_all: "(\<forall>a\<in>set as. P a) \<Longrightarrow> length outs = length as \<Longrightarrow> outputs_of P as outs = outs"
  by (induction as arbitrary: outs) (auto simp: length_Suc_conv)

text \<open>
  The actions that are shown to an observer: the other actions do not change what the observer can tell apart,
  and what it can tell apart decides the outputs of its actions. Then the other actions may be left out.
\<close>

locale unwinding =
  fixes step :: "'a \<Rightarrow> 's \<Rightarrow> 's \<times> 'o"
    and allowed :: "'a \<Rightarrow> bool"
    and shown :: "'a \<Rightarrow> bool"
    and alike :: "'s \<Rightarrow> 's \<Rightarrow> bool"
  assumes respects: "allowed a \<Longrightarrow> \<not> shown a \<Longrightarrow> alike s t \<Longrightarrow> alike (fst (step a s)) t"
    and consistent: "allowed a \<Longrightarrow> shown a \<Longrightarrow> alike s t \<Longrightarrow>
      alike (fst (step a s)) (fst (step a t)) \<and> snd (step a s) = snd (step a t)"
begin

lemma purge:
  assumes "\<forall>a\<in>set as. allowed a" and "alike s t"
  shows "alike (fst (run step as s)) (fst (run step (filter shown as) t)) \<and>
         outputs_of shown as (snd (run step as s)) = snd (run step (filter shown as) t)"
  using assms
proof (induction as arbitrary: s t)
  case (Cons a as)
  show ?case
  proof (cases "shown a")
    case True
    with Cons.prems consistent [of a s t]
    have "alike (fst (step a s)) (fst (step a t))" "snd (step a s) = snd (step a t)" by auto
    with Cons.prems Cons.IH [of "fst (step a s)" "fst (step a t)"] True
    show ?thesis by (simp add: split_beta)
  next
    case False
    with Cons.prems respects [of a s t] Cons.IH [of "fst (step a s)" t]
    show ?thesis by (simp add: split_beta)
  qed
qed simp

end

section \<open>The limit on the number of requests\<close>

record info =
  Count :: int
  LastClear :: int
  BanEnds :: int

record Limit =
  maxPerMinute :: int
  li_info :: "string \<Rightarrow> info option"

definition ratelimit_New :: "int \<Rightarrow> Limit" where
  "ratelimit_New m = \<lparr>maxPerMinute = m, li_info = (\<lambda>_. None)\<rparr>"

definition info_of :: "Limit \<Rightarrow> string \<Rightarrow> info" where
  "info_of l ip = (case li_info l ip of None \<Rightarrow> \<lparr>Count = 0, LastClear = 0, BanEnds = 0\<rparr> | Some inf_ip \<Rightarrow> inf_ip)"

definition CanAct :: "int \<Rightarrow> string \<Rightarrow> int \<Rightarrow> Limit \<Rightarrow> Limit \<times> bool" where
  "CanAct t ip amount l =
     (let inf_ip = info_of l ip;
          set_info = (\<lambda>inf_ip. l\<lparr>li_info := (li_info l)(ip \<mapsto> inf_ip)\<rparr>)
      in if BanEnds inf_ip > t then (set_info inf_ip, False)
         else if LastClear inf_ip + 60 < t then (set_info (inf_ip\<lparr>LastClear := t, Count := 0\<rparr>), True)
         else let inf_ip = inf_ip\<lparr>Count := Count inf_ip + amount\<rparr>
              in if Count inf_ip > maxPerMinute l then (set_info (inf_ip\<lparr>BanEnds := t + 120\<rparr>), False)
                 else (set_info inf_ip, True))"

text \<open>A call of \<^const>\<open>CanAct\<close> by one of the threads: the time, the address and the amount.\<close>

type_synonym act = "int \<times> string \<times> int"

fun can_act :: "act \<Rightarrow> Limit \<Rightarrow> Limit \<times> bool" where
  "can_act (t, ip, amount) l = CanAct t ip amount l"

abbreviation act_ip :: "act \<Rightarrow> string" where "act_ip a \<equiv> fst (snd a)"

lemma CanAct_max [simp]: "maxPerMinute (fst (CanAct t ip n l)) = maxPerMinute l"
  by (simp add: CanAct_def Let_def)

lemma CanAct_other [simp]: "ip' \<noteq> ip \<Longrightarrow> info_of (fst (CanAct t ip n l)) ip' = info_of l ip'"
  by (simp add: CanAct_def Let_def info_of_def)

lemma CanAct_same:
  "maxPerMinute l = maxPerMinute l' \<Longrightarrow> info_of l ip = info_of l' ip \<Longrightarrow>
   info_of (fst (CanAct t ip n l)) ip = info_of (fst (CanAct t ip n l')) ip \<and>
   snd (CanAct t ip n l) = snd (CanAct t ip n l')"
  by (simp add: CanAct_def Let_def info_of_def)

text \<open>The calls for some addresses do not notice the calls for others.\<close>

definition same_for :: "(string \<Rightarrow> bool) \<Rightarrow> Limit \<Rightarrow> Limit \<Rightarrow> bool" where
  "same_for P l l' \<longleftrightarrow> maxPerMinute l = maxPerMinute l' \<and> (\<forall>ip. P ip \<longrightarrow> info_of l ip = info_of l' ip)"

lemma CanAct_respects: "same_for P l l' \<Longrightarrow> \<not> P ip \<Longrightarrow> same_for P (fst (CanAct t ip n l)) l'"
  unfolding same_for_def by (auto intro!: trans [OF CanAct_other])

lemma CanAct_consistent:
  "same_for P l l' \<Longrightarrow> P ip \<Longrightarrow>
   same_for P (fst (CanAct t ip n l)) (fst (CanAct t ip n l')) \<and> snd (CanAct t ip n l) = snd (CanAct t ip n l')"
proof -
  assume same: "same_for P l l'" and "P ip"
  then have at: "info_of (fst (CanAct t ip n l)) ip = info_of (fst (CanAct t ip n l')) ip \<and>
      snd (CanAct t ip n l) = snd (CanAct t ip n l')"
    using CanAct_same [of l l' ip t n] by (simp add: same_for_def)
  have "info_of (fst (CanAct t ip n l)) x = info_of (fst (CanAct t ip n l')) x" if "P x" for x
    using same at that by (cases "x = ip") (simp_all add: same_for_def)
  with same at show ?thesis by (simp add: same_for_def)
qed

interpretation rate: unwinding can_act "\<lambda>_. True" "\<lambda>a. P (act_ip a)" "same_for P" for P
proof unfold_locales
  fix a :: act and s t
  assume "same_for P s t"
  then show "\<not> P (act_ip a) \<Longrightarrow> same_for P (fst (can_act a s)) t"
    and "P (act_ip a) \<Longrightarrow> same_for P (fst (can_act a s)) (fst (can_act a t)) \<and> snd (can_act a s) = snd (can_act a t)"
    by (cases a; simp add: CanAct_respects CanAct_consistent)+
qed

subsection \<open>How many actions an address has in a minute\<close>

text \<open>Calls for one address within a minute.\<close>

definition in_minute :: "string \<Rightarrow> int \<Rightarrow> act \<Rightarrow> bool" where
  "in_minute ip T = (\<lambda>(t, ip', n). ip' = ip \<and> T \<le> t \<and> t \<le> T + 60 \<and> 1 \<le> n)"

definition counts_ok :: "Limit \<Rightarrow> bool" where
  "counts_ok l \<longleftrightarrow> (\<forall>ip. 0 \<le> Count (info_of l ip))"

lemma counts_ok_New: "counts_ok (ratelimit_New m)"
  by (simp add: counts_ok_def ratelimit_New_def info_of_def)

lemma CanAct_info:
  "info_of (fst (CanAct t ip n l)) ip =
     (let inf_ip = info_of l ip in
      if BanEnds inf_ip > t then inf_ip
      else if LastClear inf_ip + 60 < t then inf_ip\<lparr>LastClear := t, Count := 0\<rparr>
      else if Count inf_ip + n > maxPerMinute l then inf_ip\<lparr>Count := Count inf_ip + n, BanEnds := t + 120\<rparr>
      else inf_ip\<lparr>Count := Count inf_ip + n\<rparr>)"
  by (simp add: CanAct_def Let_def info_of_def)

lemma CanAct_answer:
  "snd (CanAct t ip n l) \<longleftrightarrow>
     (let inf_ip = info_of l ip in
      \<not> BanEnds inf_ip > t \<and> (LastClear inf_ip + 60 < t \<or> \<not> Count inf_ip + n > maxPerMinute l))"
  by (simp add: CanAct_def Let_def)

lemma CanAct_ok: "counts_ok l \<Longrightarrow> 0 \<le> n \<Longrightarrow> counts_ok (fst (CanAct t ip n l))"
  unfolding counts_ok_def
proof
  fix ip'
  assume "\<forall>ip. 0 \<le> Count (info_of l ip)" "0 \<le> n"
  then show "0 \<le> Count (info_of (fst (CanAct t ip n l)) ip')"
    by (cases "ip' = ip") (auto simp: CanAct_info Let_def)
qed

lemma run_counts_ok: "counts_ok l \<Longrightarrow> \<forall>(t, ip, n)\<in>set as. 0 \<le> n \<Longrightarrow> counts_ok (fst (run can_act as l))"
  by (induction as arbitrary: l) (auto simp: split_beta CanAct_ok)

lemma run_max [simp]: "maxPerMinute (fst (run can_act as l)) = maxPerMinute l"
  by (induction as arbitrary: l) (auto simp: split_beta)

text \<open>The count is not cleared again in the minute in which it was cleared.\<close>

lemma no_clear:
  assumes "\<forall>a\<in>set as. in_minute ip T a" "T \<le> LastClear (info_of l ip)" "counts_ok l"
  shows "length (filter (\<lambda>b. b) (snd (run can_act as l))) \<le> nat (maxPerMinute l - Count (info_of l ip))"
  using assms
proof (induction as arbitrary: l)
  case (Cons a as)
  obtain t n where a: "a = (t, ip, n)" "T \<le> t" "t \<le> T + 60" "1 \<le> n"
    using Cons.prems(1) by (cases a) (auto simp: in_minute_def)
  let ?l = "fst (CanAct t ip n l)"
  have ok: "counts_ok ?l" using Cons.prems(3) a(4) by (simp add: CanAct_ok)
  have "T \<le> LastClear (info_of ?l ip)"
    using Cons.prems(2) a by (simp add: CanAct_info Let_def)
  with Cons.IH [of ?l] Cons.prems(1) ok
  have "length (filter (\<lambda>b. b) (snd (run can_act as ?l))) \<le> nat (maxPerMinute l - Count (info_of ?l ip))" by simp
  moreover have "(if snd (CanAct t ip n l) then 1 else 0) + nat (maxPerMinute l - Count (info_of ?l ip))
      \<le> nat (maxPerMinute l - Count (info_of l ip))"
    using Cons.prems(2) a by (auto simp: CanAct_info CanAct_answer Let_def)
  ultimately show ?case by (auto simp: a(1) split_beta)
qed simp

lemma minute_bound:
  assumes "\<forall>a\<in>set as. in_minute ip T a" "counts_ok l"
  shows "length (filter (\<lambda>b. b) (snd (run can_act as l)))
    \<le> nat (maxPerMinute l - Count (info_of l ip)) + 1 + nat (maxPerMinute l)"
  using assms
proof (induction as arbitrary: l)
  case (Cons a as)
  obtain t n where a: "a = (t, ip, n)" "T \<le> t" "t \<le> T + 60" "1 \<le> n"
    using Cons.prems(1) by (cases a) (auto simp: in_minute_def)
  let ?l = "fst (CanAct t ip n l)"
  have ok: "counts_ok ?l" using Cons.prems(2) a(4) by (simp add: CanAct_ok)
  show ?case
  proof (cases "\<not> BanEnds (info_of l ip) > t \<and> LastClear (info_of l ip) + 60 < t")
    case True
    then have cleared: "info_of ?l ip = (info_of l ip)\<lparr>LastClear := t, Count := 0\<rparr>" "snd (CanAct t ip n l)"
      by (simp_all add: CanAct_info CanAct_answer Let_def)
    with no_clear [of as ip T ?l] Cons.prems(1) ok a(2)
    have "length (filter (\<lambda>b. b) (snd (run can_act as ?l))) \<le> nat (maxPerMinute l)" by simp
    with cleared(2) show ?thesis by (simp add: a(1) split_beta)
  next
    case False
    with a(4) have "(if snd (CanAct t ip n l) then 1 else 0) + nat (maxPerMinute l - Count (info_of ?l ip))
      \<le> nat (maxPerMinute l - Count (info_of l ip))"
      by (auto simp: CanAct_info CanAct_answer Let_def)
    with Cons.IH [of ?l] Cons.prems(1) ok show ?thesis by (auto simp: a(1) split_beta)
  qed
qed simp

text \<open>An address that was refused is refused for two minutes.\<close>

lemma CanAct_banned:
  assumes "CanAct t ip n l = (l', False)" and "\<not> t < BanEnds (info_of l ip)" and "t' < t + 120"
  shows "\<not> snd (CanAct t' ip n' l')"
proof -
  from assms(1,2) have "BanEnds (info_of l' ip) = t + 120"
    by (auto simp: CanAct_def Let_def info_of_def split: if_splits)
  with assms(3) show ?thesis by (simp add: CanAct_def Let_def)
qed

lemma rate_in_minute:
  assumes "0 \<le> m" and "\<forall>(t, ip, n)\<in>set before. 1 \<le> n"
    and "\<forall>(t, ip, n)\<in>set acts. T \<le> t \<and> t \<le> T + 60 \<and> 1 \<le> n"
  shows "int (length (filter (\<lambda>b. b) (outputs_of (\<lambda>a. act_ip a = ip) acts
           (snd (run can_act acts (fst (run can_act before (ratelimit_New m)))))))) \<le> 2 * m + 1"
proof -
  let ?l = "fst (run can_act before (ratelimit_New m))"
  let ?own = "filter (\<lambda>a. act_ip a = ip) acts"
  have ok: "counts_ok ?l"
    using assms(2) by (intro run_counts_ok counts_ok_New) auto
  have own: "\<forall>a\<in>set ?own. in_minute ip T a"
    using assms(3) by (auto simp: in_minute_def)
  have purged: "outputs_of (\<lambda>a. act_ip a = ip) acts (snd (run can_act acts ?l)) = snd (run can_act ?own ?l)"
    using rate.purge [of acts "\<lambda>ip'. ip' = ip" ?l ?l] by (simp add: same_for_def)
  have "length (filter (\<lambda>b. b) (snd (run can_act ?own ?l))) \<le> nat (m - Count (info_of ?l ip)) + 1 + nat m"
    using minute_bound [OF own ok] by (simp add: ratelimit_New_def)
  moreover have "0 \<le> Count (info_of ?l ip)" using ok by (simp add: counts_ok_def)
  ultimately show ?thesis using assms(1) unfolding purged by linarith
qed

section \<open>Requests and responses\<close>

text \<open>A value of type \<open>any\<close>: none, a number of the program, or a value of JSON.\<close>

datatype 'j any = Nil_any | Int_any int | Json_any 'j

record 'j RequestIn =
  in_JsonRpc :: string
  in_Method :: string
  in_Params :: "string option"
  in_Id :: "'j any"

record rpc_Error =
  er_Code :: int
  er_Message :: string

record 'j ResponseOut =
  out_JsonRpc :: string
  out_Result :: "'j any"
  out_Error :: "rpc_Error option"
  out_Id :: "'j any"

text \<open>
  The parts of an HTTP request that the server reads: the header Origin is empty when it is missing, the result of
  \<open>BasicAuth\<close> is none when there are no credentials, the body is none when it cannot be read. Of the response, the
  status, the headers and the documents that were written.
\<close>

record HttpRequest =
  hr_Method :: string
  hr_RemoteAddr :: string
  hr_Origin :: string
  hr_BasicAuth :: "(string \<times> string) option"
  hr_Body :: "string option"

record 'j HttpResponse =
  rs_Status :: int
  rs_Headers :: "string \<Rightarrow> string option"
  rs_Body :: "'j ResponseOut list"

definition new_response :: "'j HttpResponse" where
  "new_response = \<lparr>rs_Status = 200, rs_Headers = (\<lambda>_. None), rs_Body = []\<rparr>"

definition Header_Set :: "string \<Rightarrow> string \<Rightarrow> 'j HttpResponse \<Rightarrow> 'j HttpResponse" where
  "Header_Set k v res = res\<lparr>rs_Headers := (rs_Headers res)(k \<mapsto> v)\<rparr>"

definition WriteJSON :: "'j ResponseOut \<Rightarrow> 'j HttpResponse \<Rightarrow> 'j HttpResponse" where
  "WriteJSON v res = res\<lparr>rs_Body := rs_Body res @ [v]\<rparr>"

definition error_out :: "int \<Rightarrow> string \<Rightarrow> 'j any \<Rightarrow> 'j ResponseOut" where
  "error_out code message i =
     \<lparr>out_JsonRpc = ''2.0'', out_Result = Nil_any, out_Error = Some \<lparr>er_Code = code, er_Message = message\<rparr>, out_Id = i\<rparr>"

subsection \<open>The context of a handler\<close>

record 'j Context =
  cx_res :: "'j HttpResponse"
  cx_Body :: "'j RequestIn"

definition NewContext :: "'j HttpResponse \<Rightarrow> 'j RequestIn \<Rightarrow> 'j Context" where
  "NewContext res body = \<lparr>cx_res = res, cx_Body = body\<rparr>"

definition cx_Response :: "'j ResponseOut \<Rightarrow> 'j Context \<Rightarrow> 'j Context" where
  "cx_Response v c = c\<lparr>cx_res := WriteJSON v (cx_res c)\<rparr>"

definition cx_SuccessResponse :: "'j any \<Rightarrow> 'j Context \<Rightarrow> 'j Context" where
  "cx_SuccessResponse r c =
     cx_Response \<lparr>out_JsonRpc = ''2.0'', out_Result = r, out_Error = None, out_Id = in_Id (cx_Body c)\<rparr> c"

definition cx_ErrorResponse :: "rpc_Error \<Rightarrow> 'j Context \<Rightarrow> 'j Context" where
  "cx_ErrorResponse err c =
     cx_Response \<lparr>out_JsonRpc = ''2.0'', out_Result = Nil_any, out_Error = Some err, out_Id = in_Id (cx_Body c)\<rparr> c"

definition invalidJson :: int where "invalidJson = -32700"
definition sInvalidJson :: string where "sInvalidJson = ''Parse error''"
definition invalidMethod :: int where "invalidMethod = -32601"
definition sInvalidMethod :: string where "sInvalidMethod = ''Method not found''"
definition invalidRequest :: int where "invalidRequest = -32600"

text \<open>The parameters, read by \<open>json.Unmarshal\<close>; when it fails, the response is written here.\<close>

definition GetParams :: "(string \<Rightarrow> 'p option) \<Rightarrow> 'j Context \<Rightarrow> 'j Context \<times> 'p option" where
  "GetParams unmarshal c =
     (case unmarshal (case in_Params (cx_Body c) of None \<Rightarrow> [] | Some p \<Rightarrow> p) of
        None \<Rightarrow> (cx_Response (error_out invalidJson sInvalidJson (in_Id (cx_Body c))) c, None)
      | Some p \<Rightarrow> (c, Some p))"

section \<open>The server\<close>

record Server_Config =
  Restricted :: bool
  Authentication :: string
  RateLimit :: int

type_synonym ('s, 'j) Handler = "'j Context \<Rightarrow> 's \<Rightarrow> 's \<times> 'j Context"

text \<open>The server with the state that its handlers work on.\<close>

record ('s, 'j) rpc_Server =
  sv_handlers :: "string \<Rightarrow> ('s, 'j) Handler option"
  sv_config :: Server_Config
  sv_limit :: Limit
  sv_state :: 's

definition Server_New :: "Server_Config \<Rightarrow> 's \<Rightarrow> ('s, 'j) rpc_Server" where
  "Server_New config st =
     (let config = (if RateLimit config = 0 then config\<lparr>RateLimit := 5000\<rparr> else config)
      in \<lparr>sv_handlers = (\<lambda>_. None), sv_config = config, sv_limit = ratelimit_New (RateLimit config), sv_state = st\<rparr>)"

definition Handle :: "string \<Rightarrow> ('s, 'j) Handler \<Rightarrow> ('s, 'j) rpc_Server \<Rightarrow> ('s, 'j) rpc_Server" where
  "Handle method f s = s\<lparr>sv_handlers := (sv_handlers s)(method \<mapsto> f)\<rparr>"

text \<open>\<open>strings.ToLower\<close> on ASCII, and the part of an address before its first colon.\<close>

definition lower_char :: "char \<Rightarrow> char" where
  "lower_char c = (let n = of_char c :: nat in if 65 \<le> n \<and> n \<le> 90 then char_of (n + 32) else c)"

definition strings_ToLower :: "string \<Rightarrow> string" where
  "strings_ToLower s = map lower_char s"

definition request_ip :: "HttpRequest \<Rightarrow> string" where
  "request_ip req = takeWhile (\<lambda>c. c \<noteq> CHR '':'') (hr_RemoteAddr req)"

definition origin_ok :: "string \<Rightarrow> bool" where
  "origin_ok origin \<longleftrightarrow> origin = [] \<or> origin = ''127.0.0.1'' \<or> origin = ''localhost''"

definition authorized :: "string \<Rightarrow> HttpRequest \<Rightarrow> bool" where
  "authorized auth req \<longleftrightarrow> (case hr_BasicAuth req of None \<Rightarrow> False | Some (uname, pw) \<Rightarrow> uname @ '':'' @ pw = auth)"

text \<open>
  From the body of an authorized request on: the document is decoded, by a parameter that also gives what was
  decoded before an error, and the handler of its method runs.
\<close>

definition handle_body ::
  "(string \<Rightarrow> 'j RequestIn \<times> bool) \<Rightarrow> HttpRequest \<Rightarrow> ('s, 'j) rpc_Server \<Rightarrow> ('s, 'j) rpc_Server \<times> 'j HttpResponse \<times> error option" where
  "handle_body unmarshal req s =
     (let res = new_response
      in case hr_Body req of
           None \<Rightarrow> (s, WriteJSON (error_out invalidJson sInvalidJson (Int_any 0)) res, Some (Err ''invalid json''))
         | Some body \<Rightarrow>
             if length body < 2
             then (s, WriteJSON (error_out invalidJson sInvalidJson (Int_any 0)) res, Some (Err ''invalid json''))
             else let (jsonBody, ok) = unmarshal body
             in if \<not> ok
                then (s, WriteJSON (error_out invalidJson sInvalidJson (in_Id jsonBody)) res,
                      Some (Err ''invalid rpc request body''))
                else
             let res = Header_Set ''Content-Type'' ''application/json'' res;
                 res = (if Authentication (sv_config s) = [] then Header_Set ''Access-Control-Allow-Origin'' ''*'' res else res)
             in if in_JsonRpc jsonBody \<noteq> ''2.0''
                then (s, WriteJSON (error_out invalidRequest ''invalid json_rpc version, expected 2.0'' (in_Id jsonBody)) res,
                      Some (Err ''invalid json_rpc version, expected 2.0''))
                else
             let jsonBody = (if in_Params jsonBody = None then jsonBody\<lparr>in_Params := Some []\<rparr> else jsonBody);
                 jsonBody = jsonBody\<lparr>in_Method := strings_ToLower (in_Method jsonBody)\<rparr>
             in case sv_handlers s (in_Method jsonBody) of
                  None \<Rightarrow> (s, WriteJSON (error_out invalidMethod sInvalidMethod (in_Id jsonBody)) res, Some (Err ''invalid method''))
                | Some h \<Rightarrow>
                    let (st, ctx) = h (NewContext res jsonBody) (sv_state s)
                    in (s\<lparr>sv_state := st\<rparr>, cx_res ctx, None))"

text \<open>The whole handler, with the times of its first and of its second call of \<^const>\<open>CanAct\<close>.\<close>

definition handler ::
  "(string \<Rightarrow> 'j RequestIn \<times> bool) \<Rightarrow> int \<times> int \<times> HttpRequest \<Rightarrow> ('s, 'j) rpc_Server \<Rightarrow>
   ('s, 'j) rpc_Server \<times> 'j HttpResponse \<times> error option" where
  "handler unmarshal = (\<lambda>(t, t', req) s.
     let config = sv_config s;
         ip = request_ip req;
         fail = (\<lambda>code message. WriteJSON (error_out code message Nil_any) (new_response\<lparr>rs_Status := code\<rparr>))
     in if hr_Method req = ''OPTIONS'' \<and> Authentication config = []
        then (s, (Header_Set ''Access-Control-Allow-Methods'' ''POST''
                 (Header_Set ''Access-Control-Allow-Headers'' ''content-type,user-agent''
                 (Header_Set ''Access-Control-Allow-Origin'' ''*'' new_response)))\<lparr>rs_Status := 204\<rparr>, None)
        else if hr_Method req \<noteq> ''POST''
        then (s, fail 405 ''Method Not Allowed'', Some (Err ''method not allowed''))
        else let (l, can) = CanAct t ip 1 (sv_limit s);
                 s = s\<lparr>sv_limit := l\<rparr>
        in if \<not> can then (s, fail 429 ''Too Many Requests'', Some (Err ''too many requests''))
           else if Restricted config \<and> \<not> origin_ok (hr_Origin req)
           then (s, fail 400 ''invalid origin'', Some (Err ''invalid origin''))
           else if Authentication config \<noteq> [] \<and> \<not> authorized (Authentication config) req
           then (s\<lparr>sv_limit := fst (CanAct t' ip 9 l)\<rparr>, fail 400 ''unauthorized'', Some (Err ''unauthorized''))
           else handle_body unmarshal req s)"

section \<open>Who reaches a handler\<close>

text \<open>
  With credentials configured, a request without them changes nothing but the limit of its own address; and the
  requests of other addresses do not notice it.
\<close>

lemma handle_body_limit:
  "handle_body u req (s\<lparr>sv_limit := l\<rparr>) = (case handle_body u req s of (s', out) \<Rightarrow> (s'\<lparr>sv_limit := l\<rparr>, out))"
  by (auto simp: handle_body_def Let_def split: option.split prod.split)

lemma handle_body_keeps:
  "sv_config (fst (handle_body u req s)) = sv_config s" "sv_limit (fst (handle_body u req s)) = sv_limit s"
  by (auto simp: handle_body_def Let_def split: option.split prod.split)

text \<open>Two servers that differ at most in the limits of addresses outside \<open>P\<close>.\<close>

definition alike_for :: "string \<Rightarrow> (string \<Rightarrow> bool) \<Rightarrow> ('s, 'j) rpc_Server \<Rightarrow> ('s, 'j) rpc_Server \<Rightarrow> bool" where
  "alike_for auth P s t \<longleftrightarrow> auth \<noteq> [] \<and> Authentication (sv_config t) = auth \<and>
     s = t\<lparr>sv_limit := sv_limit s\<rparr> \<and> same_for P (sv_limit s) (sv_limit t)"

lemma alike_state:
  assumes "alike_for auth P s t"
  shows "sv_state s = sv_state t"
proof -
  have st: "s = t\<lparr>sv_limit := sv_limit s\<rparr>" using assms by (simp add: alike_for_def)
  show ?thesis by (subst st) simp
qed

lemma handler_unauthorized:
  assumes "Authentication (sv_config s) = auth" "auth \<noteq> []" "\<not> authorized auth req" "\<not> P (request_ip req)"
    and "same_for P (sv_limit s) l"
  shows "\<exists>l'. fst (handler u (t, t', req) s) = s\<lparr>sv_limit := l'\<rparr> \<and> same_for P l' l"
proof -
  let ?ip = "request_ip req"
  let ?l = "fst (CanAct t ?ip 1 (sv_limit s))"
  have "same_for P ?l l" "same_for P (fst (CanAct t' ?ip 9 ?l)) l"
    using assms(4,5) by (simp_all add: CanAct_respects)
  with assms show ?thesis
    by (auto simp: handler_def Let_def split_beta intro: exI [of _ "sv_limit s"])
qed

lemma handler_other:
  assumes "alike_for auth P s t" "P (request_ip req) \<or> \<not> authorized auth req" "\<not> P (request_ip req)"
  shows "alike_for auth P (fst (handler u (n, n', req) s)) t"
proof -
  have auth: "auth \<noteq> []" "Authentication (sv_config t) = auth" and st: "s = t\<lparr>sv_limit := sv_limit s\<rparr>"
    and same: "same_for P (sv_limit s) (sv_limit t)"
    using assms(1) by (simp_all add: alike_for_def)
  have cfg: "Authentication (sv_config s) = auth" using auth(2) by (subst st) simp
  obtain l' where l': "fst (handler u (n, n', req) s) = s\<lparr>sv_limit := l'\<rparr>" "same_for P l' (sv_limit t)"
    using handler_unauthorized [OF cfg auth(1) _ assms(3) same] assms(2,3) by blast
  have "s\<lparr>sv_limit := l'\<rparr> = t\<lparr>sv_limit := l'\<rparr>" by (subst st) simp
  with l' auth show ?thesis by (simp add: alike_for_def)
qed

lemma handler_own:
  assumes "alike_for auth P s t" "P (request_ip req)"
  shows "alike_for auth P (fst (handler u (n, n', req) s)) (fst (handler u (n, n', req) t)) \<and>
         snd (handler u (n, n', req) s) = snd (handler u (n, n', req) t)"
proof -
  let ?ip = "request_ip req"
  have auth: "auth \<noteq> []" "Authentication (sv_config t) = auth" and same: "same_for P (sv_limit s) (sv_limit t)"
    using assms(1) by (simp_all add: alike_for_def)
  obtain l where s: "s = t\<lparr>sv_limit := l\<rparr>" and l: "l = sv_limit s"
    using assms(1) by (auto simp: alike_for_def)
  let ?ls = "fst (CanAct n ?ip 1 l)" and ?lt = "fst (CanAct n ?ip 1 (sv_limit t))"
  have one: "same_for P ?ls ?lt" "snd (CanAct n ?ip 1 l) = snd (CanAct n ?ip 1 (sv_limit t))"
    using CanAct_consistent [OF same assms(2)] by (simp_all add: l)
  have nine: "same_for P (fst (CanAct n' ?ip 9 ?ls)) (fst (CanAct n' ?ip 9 ?lt))"
    using CanAct_consistent [OF one(1) assms(2)] by simp
  show ?thesis
    using auth same one nine unfolding s
    by (simp add: handler_def Let_def split_beta alike_for_def handle_body_limit handle_body_keeps)
qed

interpretation rpc: unwinding "handler u" "\<lambda>(_, _, req). P (request_ip req) \<or> \<not> authorized auth req"
  "\<lambda>(_, _, req). P (request_ip req)" "alike_for auth P" for u P auth
  by unfold_locales (auto simp: handler_other handler_own split: prod.splits)

lemma handler_purged:
  assumes "Authentication (sv_config s) = auth" "auth \<noteq> []"
    and "\<forall>(_, _, req)\<in>set rs. P (request_ip req) \<or> \<not> authorized auth req"
  shows "sv_state (fst (run (handler u) rs s)) =
           sv_state (fst (run (handler u) (filter (\<lambda>(_, _, req). P (request_ip req)) rs) s)) \<and>
         outputs_of (\<lambda>(_, _, req). P (request_ip req)) rs (snd (run (handler u) rs s)) =
           snd (run (handler u) (filter (\<lambda>(_, _, req). P (request_ip req)) rs) s)"
proof -
  have "alike_for auth P s s" using assms(1,2) by (simp add: alike_for_def same_for_def)
  from rpc.purge [OF assms(3) this, of u] show ?thesis by (auto dest: alike_state)
qed

text \<open>A request that passes every check runs the handler of its method.\<close>

lemma handler_runs:
  assumes "hr_Method req = ''POST''" "snd (CanAct t (request_ip req) 1 (sv_limit s))"
    and "Restricted (sv_config s) \<Longrightarrow> origin_ok (hr_Origin req)"
    and "Authentication (sv_config s) \<noteq> [] \<Longrightarrow> authorized (Authentication (sv_config s)) req"
    and "hr_Body req = Some body" "2 \<le> length body" "u body = (r, True)" "in_JsonRpc r = ''2.0''"
    and "sv_handlers s (strings_ToLower (in_Method r)) = Some h"
  obtains res l where "rs_Body res = []" "rs_Status res = 200"
    "handler u (t, t', req) s =
       (let (st, ctx) = h (NewContext res (r\<lparr>in_Params := Some (case in_Params r of None \<Rightarrow> [] | Some p \<Rightarrow> p),
                                               in_Method := strings_ToLower (in_Method r)\<rparr>)) (sv_state s)
        in (s\<lparr>sv_limit := l, sv_state := st\<rparr>, cx_res ctx, None))"
proof -
  let ?res = "(if Authentication (sv_config s) = [] then Header_Set ''Access-Control-Allow-Origin'' ''*'' else id)
     (Header_Set ''Content-Type'' ''application/json'' new_response) :: 'b HttpResponse"
  have params: "in_Params r = Some p \<Longrightarrow> r\<lparr>in_Params := Some p, in_Method := m\<rparr> = r\<lparr>in_Method := m\<rparr>" for p m
    by (cases r) simp
  show ?thesis
  proof (rule that [of ?res "fst (CanAct t (request_ip req) 1 (sv_limit s))"])
    show "rs_Body ?res = []" "rs_Status ?res = 200" by (simp_all add: Header_Set_def new_response_def)
  qed (use assms in \<open>auto simp: handler_def handle_body_def Let_def split_beta params\<close>)
qed

text \<open>
  The address of an IPv6 client is in brackets and counts as the text before its first colon: all clients with the
  same first group of digits share one limit.
\<close>

lemma ipv6_shared: "hr_RemoteAddr req = ''['' @ a @ '':'' @ rest \<Longrightarrow> CHR '':'' \<notin> set a \<Longrightarrow> request_ip req = ''['' @ a"
  by (auto simp: request_ip_def takeWhile_tail takeWhile_eq_all_conv)

end
