(* ===== verification/WalletRpc.thy ===== *)
theory WalletRpc
  imports NodeRpc Mining Peers RpcServer
begin

text \<open>
  The programs around the wallet: the handlers of \<^verbatim>\<open>src/cmd/virel-wallet-cli/walletrpc.go\<close>, the staker of
  \<^verbatim>\<open>staker.go\<close> and the key file of \<^verbatim>\<open>src/wallet/dbread.go\<close>. The node that the wallet asks is a record of the answers
  to its requests. Parameters are decoded from JSON before a handler runs. For the staker the node is
  the one of \<open>NodeRpc\<close>, so that its theorem follows a signature from the wallet into the node's database.
\<close>

section \<open>The daemon\<close>

record daemon =
  dm_GetAddress :: "string \<Rightarrow> GetAddressResponse res"
  dm_GetDelegate :: "u64 \<Rightarrow> GetDelegateResponse res"
  dm_GetTxList :: "address \<Rightarrow> string \<Rightarrow> u64 \<Rightarrow> GetTxListResponse res"
  dm_GetTransaction :: "hash \<Rightarrow> GetTransactionResponse res"
  dm_SubmitTx :: "bytes \<Rightarrow> hash res"

definition wallet_Refresh :: "daemon \<Rightarrow> Wallet \<Rightarrow> Wallet outcome" where
  "wallet_Refresh dm w = Refresh (dm_GetAddress dm (Address_String (wal_Address w))) (dm_GetDelegate dm) w"

definition GetTransactions :: "daemon \<Rightarrow> Wallet \<Rightarrow> bool \<Rightarrow> u64 \<Rightarrow> GetTxListResponse res" where
  "GetTransactions dm w inc page = dm_GetTxList dm (wal_Address w) (if inc then ''incoming'' else ''outgoing'') page"

text \<open>A handler that needs a fresh wallet.\<close>

definition refreshed :: "daemon \<Rightarrow> int \<Rightarrow> string \<Rightarrow> Wallet \<Rightarrow> (Wallet \<Rightarrow> 'a response) \<Rightarrow> Wallet \<times> 'a response" where
  "refreshed dm code m w f =
     (case wallet_Refresh dm w of
        (w', None) \<Rightarrow> (w', f w')
      | (w', Some (Panic msg)) \<Rightarrow> (w', Crashed msg)
      | (w', Some (Err _)) \<Rightarrow> (w', ErrorResponse code m))"

section \<open>Balance and history\<close>

record GetBalanceResponse =
  gw_Balance :: u64
  gw_MempoolBalance :: u64
  gw_LastNonce :: u64
  gw_MempoolLastNonce :: u64
  gw_DelegateId :: u64

definition get_balance :: "daemon \<Rightarrow> Wallet \<Rightarrow> Wallet \<times> GetBalanceResponse response" where
  "get_balance dm w =
     refreshed dm internalReadFailed ''failed to refresh wallet'' w (\<lambda>w.
       SuccessResponse \<lparr>gw_Balance = wal_balance w, gw_MempoolBalance = wal_mempoolBal w, gw_LastNonce = wal_lastNonce w,
         gw_MempoolLastNonce = wal_mempoolBal w, gw_DelegateId = wal_delegateId w\<rparr>)"

type_synonym TxInfo = "hash \<times> GetTransactionResponse option"

record GetHistoryRequest =
  hr_IncludeTxData :: bool
  hr_FilterIncomingByPaymentId :: u64
  hr_TransferType :: string
  hr_Page :: u64

fun history_info :: "daemon \<Rightarrow> address \<Rightarrow> u64 \<Rightarrow> hash list \<Rightarrow> TxInfo list res" where
  "history_info dm a pid [] = Inr []"
| "history_info dm a pid (txid # txids) =
     (case dm_GetTransaction dm txid of
        Inl (Panic m) \<Rightarrow> Inl (Panic m)
      | Inl (Err _) \<Rightarrow> Inl (Err ''failed to get transaction'')
      | Inr resp \<Rightarrow>
          res_bind (history_info dm a pid txids) (\<lambda>rest.
            Inr (if pid \<noteq> 0 \<and> \<not> list_ex (\<lambda>out. so_PaymentId out = pid \<and> so_Recipient out = a) (gt_Outputs resp)
                 then rest else (txid, Some resp) # rest)))"

definition get_history :: "daemon \<Rightarrow> Wallet \<Rightarrow> GetHistoryRequest \<Rightarrow> (TxInfo list \<times> u64) response" where
  "get_history dm w r =
     (if hr_FilterIncomingByPaymentId r \<noteq> 0 \<and> \<not> hr_IncludeTxData r
      then ErrorResponse (-2) ''include_tx_data must be true when using filter_incoming_by_payment_id''
      else
        answer (GetTransactions dm w (take 3 (strings_ToLower (hr_TransferType r)) = ''inc'') (hr_Page r))
          (\<lambda>_. ErrorResponse internalReadFailed ''failed to get transactions'') (\<lambda>txns.
          if hr_IncludeTxData r then
            answer (history_info dm (wal_Address w) (hr_FilterIncomingByPaymentId r) (gl_Transactions txns))
              (\<lambda>_. ErrorResponse internalReadFailed ''failed to get transaction'')
              (\<lambda>infos. SuccessResponse (infos, gl_MaxPage txns))
          else SuccessResponse (map (\<lambda>v. (v, None)) (gl_Transactions txns), gl_MaxPage txns)))"

section \<open>What a subaddress has received\<close>

record received =
  rc_Total :: u64
  rc_Mempool :: u64
  rc_Transactions :: "TxInfo list"

text \<open>One transaction: \<open>confs\<close> is the number of confirmations, \<open>height\<close> the height of the wallet.\<close>

definition received_output :: "address \<Rightarrow> u64 \<Rightarrow> u64 \<Rightarrow> u64 \<Rightarrow> u64 \<Rightarrow> StateOutput \<Rightarrow> received \<Rightarrow> received" where
  "received_output a pid confs height txheight v r =
     (if so_Recipient v = a \<and> so_PaymentId v = pid then
        if txheight = 0 \<or> txheight + confs \<ge> height then r\<lparr>rc_Mempool := rc_Mempool r + so_Amount v\<rparr>
        else r\<lparr>rc_Total := rc_Total r + so_Amount v\<rparr>
      else r)"

definition received_tx :: "address \<Rightarrow> u64 \<Rightarrow> u64 \<Rightarrow> u64 \<Rightarrow> hash \<Rightarrow> GetTransactionResponse \<Rightarrow> received \<Rightarrow> received" where
  "received_tx a pid confs height txid txres r =
     (let r = fold (received_output a pid confs height (gt_Height txres)) (gt_Outputs txres) r
      in if list_ex (\<lambda>v. so_Recipient v = a \<and> so_PaymentId v = pid) (gt_Outputs txres)
         then r\<lparr>rc_Transactions := rc_Transactions r @ [(txid, Some txres)]\<rparr> else r)"

text \<open>A transaction that cannot be read is skipped.\<close>

fun received_txs :: "daemon \<Rightarrow> address \<Rightarrow> u64 \<Rightarrow> u64 \<Rightarrow> u64 \<Rightarrow> hash list \<Rightarrow> received \<Rightarrow> received" where
  "received_txs dm a pid confs height [] r = r"
| "received_txs dm a pid confs height (txid # txids) r =
     received_txs dm a pid confs height txids
       (case dm_GetTransaction dm txid of Inl _ \<Rightarrow> r | Inr txres \<Rightarrow> received_tx a pid confs height txid txres r)"

partial_function (option) received_pages ::
  "(u64 \<Rightarrow> GetTxListResponse res) \<Rightarrow> (hash list \<Rightarrow> received \<Rightarrow> received) \<Rightarrow> u64 \<Rightarrow> u64 \<Rightarrow> received \<Rightarrow> received res option" where
  "received_pages getList takeIn maxPage page r =
     (case getList page of
        Inl err \<Rightarrow> Some (Inl err)
      | Inr txlist \<Rightarrow>
          let r = takeIn (gl_Transactions txlist) r; page = page + 1
          in if gl_MaxPage txlist \<le> page then Some (Inr r)
             else if maxPage \<noteq> 0 \<and> page > maxPage then Some (Inr r)
             else received_pages getList takeIn maxPage page r)"

record GetSubaddressRequest =
  gs_PaymentId :: u64
  gs_Subaddress :: "Integrated option"
  gs_Confirmations :: u64
  gs_MaxPage :: u64

definition received_none :: received where
  "received_none = \<lparr>rc_Total = 0, rc_Mempool = 0, rc_Transactions = []\<rparr>"

definition get_subaddress :: "daemon \<Rightarrow> Wallet \<Rightarrow> GetSubaddressRequest \<Rightarrow> (Wallet \<times> received response) option" where
  "get_subaddress dm w r =
     (let sub = (case gs_Subaddress r of None \<Rightarrow> (wal_Address w, gs_PaymentId r) | Some s \<Rightarrow> (Addr s, Integrated.PaymentId s));
          confs = (if gs_Confirmations r = 0 then 1 else gs_Confirmations r)
      in if fst sub = INVALID_ADDRESS then Some (w, ErrorResponse (-1) ''invalid subaddress'')
         else if fst sub \<noteq> wal_Address w
         then Some (w, ErrorResponse (-1) ''the subaddress specified does not belong to this wallet'')
         else if snd sub = 0 then Some (w, ErrorResponse (-1) ''you must specify a valid subaddress or payment id'')
         else
           (case wallet_Refresh dm w of
              (w', Some (Panic m)) \<Rightarrow> Some (w', Crashed m)
            | (w', Some (Err _)) \<Rightarrow> Some (w', ErrorResponse internalReadFailed ''refresh failed'')
            | (w', None) \<Rightarrow>
                map_option
                  (\<lambda>res. (w', answer res (\<lambda>_. ErrorResponse internalReadFailed ''failed to get transactions'') SuccessResponse))
                  (received_pages (GetTransactions dm w' True)
                     (received_txs dm (fst sub) (snd sub) confs (wal_height w')) (gs_MaxPage r) 0 received_none)))"

section \<open>Transactions\<close>

record CreateTransactionResponse =
  ct_TxBlob :: bytes
  ct_TXID :: hash
  ct_Fee :: u64

definition created :: "'x crypto_scheme \<Rightarrow> Transaction res \<Rightarrow> CreateTransactionResponse response" where
  "created c tx =
     answer tx (\<lambda>_. ErrorResponse (-2) ''transfer failed'')
       (\<lambda>tx. SuccessResponse \<lparr>ct_TxBlob = Tx_Serialize tx, ct_TXID = Tx_Hash c tx, ct_Fee = tx_Fee tx\<rparr>)"

definition create_transaction ::
  "'x crypto_scheme \<Rightarrow> daemon \<Rightarrow> Wallet \<Rightarrow> (u64 \<times> Integrated) list \<Rightarrow> Wallet \<times> CreateTransactionResponse response" where
  "create_transaction c dm w outputs =
     (if outputs = [] then (w, ErrorResponse (-1) ''there must be at least 1 output'')
      else if length outputs > MAX_OUTPUTS then (w, ErrorResponse (-1) ''too many outputs'')
      else refreshed dm (-1) ''refresh failed for transfer'' w (\<lambda>w.
        let outs = map (\<lambda>(amount, r). \<lparr>Recipient = Addr r, PaymentId = Integrated.PaymentId r, Amount = amount\<rparr>) outputs
        in if list_ex (\<lambda>out. Recipient out = INVALID_ADDRESS) outs
           then ErrorResponse (-1) ''cannot transfer to invalid address''
           else created c (Wallet_Transfer c w outs (wal_height w \<ge> HARDFORK_V2_HEIGHT))))"

definition set_delegate_transaction :: "'x crypto_scheme \<Rightarrow> daemon \<Rightarrow> Wallet \<Rightarrow> u64 \<Rightarrow> Wallet \<times> CreateTransactionResponse response" where
  "set_delegate_transaction c dm w did =
     refreshed dm (-1) ''refresh failed for transfer'' w (\<lambda>w. created c (Wallet_SetDelegate c w did (wal_delegateId w)))"

definition stake_transaction :: "'x crypto_scheme \<Rightarrow> daemon \<Rightarrow> Wallet \<Rightarrow> u64 \<Rightarrow> Wallet \<times> CreateTransactionResponse response" where
  "stake_transaction c dm w amount =
     refreshed dm (-1) ''refresh failed for transfer'' w (\<lambda>w.
       created c (Wallet_Stake c w (wal_delegateId w) amount (wal_stakedUnlock w)))"

definition unstake_transaction :: "'x crypto_scheme \<Rightarrow> daemon \<Rightarrow> Wallet \<Rightarrow> u64 \<Rightarrow> Wallet \<times> CreateTransactionResponse response" where
  "unstake_transaction c dm w amount =
     refreshed dm (-1) ''refresh failed for transfer'' w (\<lambda>w. created c (Wallet_Unstake c w (wal_delegateId w) amount))"

definition wallet_submit_transaction :: "daemon \<Rightarrow> Wallet \<Rightarrow> bytes \<Rightarrow> hash response" where
  "wallet_submit_transaction dm w blob =
     answer (Tx_Deserialize blob (wal_height w > HARDFORK_V2_HEIGHT))
       (\<lambda>_. ErrorResponse (-1) ''could not deserialize transaction'') (\<lambda>tx.
       answer (dm_SubmitTx dm (Tx_Serialize tx))
         (\<lambda>_. ErrorResponse (-1) ''could not submit transaction to daemon'') SuccessResponse)"

definition wallet_refresh :: "daemon \<Rightarrow> Wallet \<Rightarrow> Wallet \<times> bool response" where
  "wallet_refresh dm w =
     (case wallet_Refresh dm w of
        (w', Some (Panic m)) \<Rightarrow> (w', Crashed m)
      | (w', err) \<Rightarrow> (w', SuccessResponse (err = None)))"

section \<open>The staker\<close>

text \<open>The hash of a block is sent as hexadecimal text and read back, which is left out.\<close>

definition checkStakeHeight ::
  "('t, 'x) ext_scheme \<Rightarrow> Wallet \<Rightarrow> u64 \<Rightarrow> address \<Rightarrow> 't peer_node \<Rightarrow> 't peer_node outcome \<times> Packet list" where
  "checkStakeHeight e w height delegateAddress pn =
     (case client (get_block_by_height e (nd_txn (pn_node pn)) height) of
        Inl err \<Rightarrow> ((pn, Some err), [])
      | Inr bl \<Rightarrow>
          if \<not> IsDelegate delegateAddress then ((pn, Some (Err ''address is not delegate'')), [])
          else if gb_NextDelegate bl = delegateAddress then
            let (pn', res, ps) =
                  submit_stake_signature e (DecodeDelegateId delegateAddress) (arr_bytes (gb_Hash bl))
                    (arr_bytes (SignBlockHash e w (gb_Hash bl))) pn
            in (case client res of
                  Inl err \<Rightarrow> ((pn', Some err), ps)
                | Inr (accepted, m) \<Rightarrow> ((pn', if accepted then None else Some (Err (''stake signature not accepted: '' @ m))), ps))
          else ((pn, None), []))"

text \<open>A round of \<open>staker\<close>: the heights that are checked and the new last height.\<close>

definition staker_heights :: "u64 \<Rightarrow> u64 \<Rightarrow> u64 list \<times> u64" where
  "staker_heights lastHeight height =
     (if lastHeight < height then
        let lastHeight = (if height > 20 then max lastHeight (height - 20) else lastHeight)
        in (map word_of_nat [unat lastHeight + 1..<unat height + 1], height)
      else ([], lastHeight))"

fun stake_all :: "('t, 'x) ext_scheme \<Rightarrow> Wallet \<Rightarrow> address \<Rightarrow> u64 list \<Rightarrow> 't peer_node \<Rightarrow> 't peer_node \<times> Packet list" where
  "stake_all e w a [] pn = (pn, [])"
| "stake_all e w a (h # hs) pn =
     (let ((pn, _), ps) = checkStakeHeight e w h a pn; (pn, ps') = stake_all e w a hs pn in (pn, ps @ ps'))"

definition staker_round ::
  "('t, 'x) ext_scheme \<Rightarrow> daemon \<Rightarrow> address \<Rightarrow> u64 \<Rightarrow> Wallet \<Rightarrow> 't peer_node \<Rightarrow> u64 \<times> Wallet \<times> 't peer_node \<times> Packet list" where
  "staker_round e dm a lastHeight w pn =
     (case wallet_Refresh dm w of
        (w', Some _) \<Rightarrow> (lastHeight, w', pn, [])
      | (w', None) \<Rightarrow>
          let (hs, lastHeight) = staker_heights lastHeight (wal_height w'); (pn, ps) = stake_all e w' a hs pn
          in (lastHeight, w', pn, ps))"

section \<open>The key file\<close>

record dbInfo =
  db_NetworkID :: u64
  db_Mnemonic :: string
  db_PrivateKey :: "512 word"
  db_Address :: Integrated
  db_PubKey :: pubkey

definition saveDatabase ::
  "'x net_crypto_scheme \<Rightarrow> (bytes \<Rightarrow> bytes \<Rightarrow> u32 \<Rightarrow> u32 \<Rightarrow> hash) \<Rightarrow> (dbInfo \<Rightarrow> bytes) \<Rightarrow> bytes \<Rightarrow> bytes \<Rightarrow> dbInfo \<Rightarrow> bytes \<Rightarrow>
   u32 \<Rightarrow> u32 \<Rightarrow> bytes res" where
  "saveDatabase c KDF marshal salt nonce info pass time mem =
     res_bind (Encrypt c (Some (KDF pass salt time mem)) nonce (marshal info)) (\<lambda>enc.
       Inr (AddFixedByteArray salt @ AddUint32 time @ AddUint32 mem @ enc))"

definition decodeDatabase ::
  "'x net_crypto_scheme \<Rightarrow> (bytes \<Rightarrow> bytes \<Rightarrow> u32 \<Rightarrow> u32 \<Rightarrow> hash) \<Rightarrow> (bytes \<Rightarrow> dbInfo res) \<Rightarrow> bytes \<Rightarrow> bytes \<Rightarrow> dbInfo res" where
  "decodeDatabase c KDF unmarshal data pass =
     (let (salt, d) = ReadFixedByteArray 16 (NewDes data); (time, d) = ReadUint32 d; (mem, d) = ReadUint32 d
      in case des_err d of
           Some err \<Rightarrow> Inl err
         | None \<Rightarrow>
             res_bind (Decrypt c (Some (KDF pass salt time mem)) (RemainingData d)) (\<lambda>dec.
             res_bind (unmarshal dec) (\<lambda>info.
               Inr (if db_PubKey info = 0 then info\<lparr>db_PubKey := Privkey_Public (db_PrivateKey info)\<rparr> else info))))"

section \<open>Pages\<close>

text \<open>The pages that are read: all before the last, or the only one.\<close>

lemma received_pages_all:
  assumes list: "\<And>p. p \<le> M \<Longrightarrow> getList (of_nat p) = Inr \<lparr>gl_Transactions = pages p, gl_MaxPage = of_nat M\<rparr>"
    and M: "M < 2 ^ 63" and p: "p = 0 \<or> p < M"
  shows "received_pages getList takeIn 0 (of_nat p) r = Some (Inr (fold takeIn (map pages [p..<max 1 M]) r))"
  using p
proof (induction "M - p" arbitrary: p r rule: less_induct)
  case less
  have pM: "p \<le> M" using less.prems by auto
  have le: "(of_nat M :: u64) \<le> of_nat p + 1 \<longleftrightarrow> M \<le> p + 1"
  proof -
    have "unat (of_nat p + 1 :: u64) = p + 1"
      using M pM unat_of_nat64 [of "p + 1"] by (simp add: algebra_simps)
    moreover have "unat (of_nat M :: u64) = M" using M by (simp add: unat_of_nat64)
    ultimately show ?thesis by (simp add: word_le_nat_alt)
  qed
  show ?case
  proof (cases "M \<le> p + 1")
    case True
    then have "[p..<max 1 M] = [p]" using less.prems by (auto simp: max_def upt_conv_Cons)
    then show ?thesis using list [OF pM] le True by (subst received_pages.simps) simp
  next
    case False
    then have "[p..<max 1 M] = p # [p + 1..<max 1 M]" by (simp add: upt_conv_Cons)
    moreover have "received_pages getList takeIn 0 (of_nat (p + 1)) r' =
        Some (Inr (fold takeIn (map pages [p + 1..<max 1 M]) r'))" for r'
      using False by (intro less.hyps) auto
    ultimately show ?thesis
      using list [OF pM] le False by (subst received_pages.simps) (simp add: algebra_simps)
  qed
qed

lemma received_txs_append:
  "received_txs dm a pid confs height (xs @ ys) r = received_txs dm a pid confs height ys (received_txs dm a pid confs height xs r)"
  by (induction xs arbitrary: r) auto

lemma fold_received_txs:
  "fold (received_txs dm a pid confs height) pss r = received_txs dm a pid confs height (concat pss) r"
  by (induction pss arbitrary: r) (simp_all add: received_txs_append)

lemma wallet_Refresh_address: "wallet_Refresh dm w = (w', err) \<Longrightarrow> wal_Address w' = wal_Address w"
  by (cases "dm_GetAddress dm (Address_String (wal_Address w))";
      cases "dm_GetDelegate dm (ga_DelegateId (projr (dm_GetAddress dm (Address_String (wal_Address w)))))")
    (auto simp: wallet_Refresh_def Refresh_def Let_def split: if_splits option.splits)

lemma mset_concat_rev: "mset (concat (rev xss)) = mset (concat xss)"
  by (induction xss) simp_all

text \<open>With more than one page at the node, the transactions of the last page, the oldest ones, are never read.\<close>

lemma get_subaddress_node:
  assumes st: "GetState e txn (wal_Address w) = Inr st" "unat (LastIncoming st) = n" "25 < n" "n < 2 ^ 63"
    and txs: "\<forall>k < n. GetTxTopoInc e txn (wal_Address w) (of_nat k + 1) = Inr (f k)"
    and w: "wal_Address w \<noteq> INVALID_ADDRESS" "wallet_Refresh dm w = (w', None)"
    and dm: "dm_GetTxList dm = (\<lambda>a ty p. client (get_tx_list e txn a ty p))"
    and r: "gs_Subaddress r = None" "gs_PaymentId r \<noteq> 0" "gs_MaxPage r = 0"
  shows "\<exists>ks. distinct ks \<and> set ks = {n - 25 * ((n - 1) div 25)..<n} \<and> get_subaddress dm w r =
    Some (w', SuccessResponse (received_txs dm (wal_Address w) (gs_PaymentId r)
      (if gs_Confirmations r = 0 then 1 else gs_Confirmations r) (wal_height w') (map f ks) received_none))"
proof -
  let ?M = "(n - 1) div 25" and ?pages = "\<lambda>p. map f [page_end n (p + 1)..<page_end n p]"
  let ?ks = "concat (map (\<lambda>p. [page_end n (p + 1)..<page_end n p]) [0..<?M])"
  have list: "GetTransactions dm w' True (of_nat p) = Inr \<lparr>gl_Transactions = ?pages p, gl_MaxPage = of_nat ?M\<rparr>" if "p \<le> ?M" for p
    using get_tx_list_page [OF st(1), of p f] st that txs
    by (simp add: GetTransactions_def dm wallet_Refresh_address [OF w(2)])
  have "?M < 2 ^ 63" "max 1 ?M = ?M" using st(3,4) by auto
  then have pages: "received_pages (GetTransactions dm w' True) takeIn 0 0 r0 = Some (Inr (fold takeIn (map ?pages [0..<?M]) r0))"
    for takeIn r0 using received_pages_all [of ?M "GetTransactions dm w' True" ?pages 0 takeIn r0] list by simp
  have "mset ?ks = mset (concat (map (\<lambda>p. [page_end n (p + 1)..<page_end n p]) (rev [0..<?M])))"
    unfolding rev_map [symmetric] by (rule mset_concat_rev [symmetric])
  also have "\<dots> = mset [page_end n ?M..<n]" using pages_concat [of id n ?M] by simp
  finally have ks: "mset ?ks = mset [n - 25 * ?M..<n]" by (simp add: page_end_def)
  then have "distinct ?ks" "set ?ks = {n - 25 * ?M..<n}"
    by (metis distinct_upt mset_eq_imp_distinct_iff, metis set_mset_mset set_upt)
  moreover have "concat (map ?pages [0..<?M]) = map f ?ks" by (simp add: map_concat comp_def)
  ultimately show ?thesis
    using w r pages by (intro exI [of _ ?ks]) (simp add: get_subaddress_def Let_def fold_received_txs)
qed

section \<open>A stake signature reaches the node\<close>

context adb_txn
begin

lemma checkStakeHeight_accepted:
  assumes key: "signs e (wal_PrivateKey w)" and a: "did = NextDelegateId bl"
    and block: "GetBlockByHeight e (nd_txn (pn_node pn)) h = Inr bl" "GetBlock e (nd_txn (pn_node pn)) (Block_Hash e bl) = Inr bl"
      "Version bl > 0" "CoinbaseTransaction bl (Block_Reward bl) = Inr outs"
    and del: "GetDelegate e (nd_txn (pn_node pn)) did = Inr d" "d_Owner d = Privkey_Public (wal_PrivateKey w)"
    and new: "GetStakeSig e (nd_txn (pn_node pn)) (Block_Hash e bl) = Inl (Err m)"
    and staked: "did \<noteq> 0" "StakedAmount stats \<noteq> 0"
  shows "\<exists>pn' ps. checkStakeHeight e w h (NewDelegateAddress did) pn = ((pn', None), ps) \<and>
    GetStakeSig e (nd_txn (pn_node pn')) (Block_Hash e bl) =
      Inr \<lparr>ss_DelegateId = did, ss_Hash = Block_Hash e bl, ss_Signature = SignBlockHash e w (Block_Hash e bl)\<rparr> \<and>
    stake_sig_valid e (nd_txn (pn_node pn')) stats (Block_Hash e bl)"
proof -
  let ?h = "Block_Hash e bl" and ?t = "nd_txn (pn_node pn)"
  let ?st = "\<lparr>ss_DelegateId = did, ss_Hash = ?h, ss_Signature = SignBlockHash e w ?h\<rparr>"
  obtain br where br: "get_block_by_height e ?t h = SuccessResponse br" "gb_Hash br = ?h" "gb_NextDelegate br = NewDelegateAddress did"
    using block a by (simp add: get_block_by_height_def block_response_def)
  have ver: "VerifySignature e (d_Owner d) (STAKE_SIGN_PREFIX @ arr_bytes ?h) (SignBlockHash e w ?h)"
    using key by (simp add: VerifySignature_def SignBlockHash_def Sign_def del(2) signs_def)
  obtain t' where put: "SetStakeSig e ?t ?st = (t', None)" by (simp add: SetStakeSig_def kvPut_eq)
  have acc: "DB_Update (accept_stake_signature e ?st) ?t = (t', None)"
    using block(2) del(1) ver put a new by (simp add: DB_Update_def accept_stake_signature_def)
  have get: "GetStakeSig e t' ?h = Inr ?st" using GetStakeSig_SetStakeSig [of ?t ?st] put by simp
  have same: "kvGet e t' i k = kvGet e ?t i k" if "i \<noteq> IdxStakeSig" for i k
    using that put by (auto simp: SetStakeSig_def kvPut_eq)
  have "GetBlock e t' ?h = Inr bl" "GetDelegate e t' did = Inr d"
    using block(2) del(1) by (simp_all add: GetBlock_def GetDelegate_def same)
  then have valid: "stake_sig_valid e t' stats ?h" using get staked ver a by (auto simp: stake_sig_valid_def)
  have "arr_of (arr_bytes ?h) = ?h" "arr_of (arr_bytes (SignBlockHash e w ?h)) = SignBlockHash e w ?h" by simp_all
  then show ?thesis
    using br acc get valid by (simp add: checkStakeHeight_def submit_stake_signature_def HandleStakeSignature_def Let_def)
qed

end

text \<open>As long as the chain grows, every height of the last twenty is checked, and none twice.\<close>

lemma staker_heights_ok:
  assumes "staker_heights l h = (hs, l')" "h < 2 ^ 63"
  shows "distinct hs \<and> l' = max l h \<and> set hs = {x. max l (if h > 20 then h - 20 else 0) < x \<and> x \<le> h}"
proof (cases "l < h")
  case False
  then have "hs = []" "l' = l" using assms(1) by (simp_all add: staker_heights_def)
  moreover have "{x. max l (if h > 20 then h - 20 else 0) < x \<and> x \<le> h} = {}" using False by auto
  ultimately show ?thesis using False by simp
next
  case True
  let ?l = "if h > 20 then max l (h - 20) else l"
  have hs: "hs = map word_of_nat [unat ?l + 1..<unat h + 1]" "l' = h"
    using True assms(1) by (auto simp: staker_heights_def Let_def simp del: upt_Suc)
  have l: "?l = max l (if h > 20 then h - 20 else 0)" by simp
  have inj: "inj_on (word_of_nat :: nat \<Rightarrow> u64) {..<2 ^ 64}" by (rule inj_onI) (metis lessThan_iff unat_of_nat64)
  have "set [unat ?l + 1..<unat h + 1] \<subseteq> {..<2 ^ 64}" using unat_lt64 [of h] by auto
  then have "distinct hs" using inj by (auto simp: hs distinct_map intro: inj_on_subset)
  moreover have "set hs = {x. ?l < x \<and> x \<le> h}"
  proof -
    have "x \<in> word_of_nat ` {unat ?l + 1..<unat h + 1} \<longleftrightarrow> ?l < x \<and> x \<le> h" for x :: u64
    proof
      assume "x \<in> word_of_nat ` {unat ?l + 1..<unat h + 1}"
      then obtain n where "x = word_of_nat n" "unat ?l < n" "n \<le> unat h" by auto
      then show "?l < x \<and> x \<le> h"
        using unat_lt64 [of h] by (simp add: word_less_nat_alt word_le_nat_alt unat_of_nat64)
    next
      assume "?l < x \<and> x \<le> h"
      then have "unat x \<in> {unat ?l + 1..<unat h + 1}" by (simp add: word_less_nat_alt word_le_nat_alt)
      then show "x \<in> word_of_nat ` {unat ?l + 1..<unat h + 1}" by (intro image_eqI [of _ _ "unat x"]) simp_all
    qed
    then have "word_of_nat ` {unat ?l + 1..<unat h + 1} = {x. ?l < x \<and> x \<le> h}" by blast
    then show ?thesis by (simp only: hs(1) set_map set_upt)
  qed
  ultimately show ?thesis using True by (simp add: hs(2) l)
qed

section \<open>The key file is read back\<close>

lemma database_roundtrip:
  assumes "aead_ok c" "length salt = 16" "length nonce = gcm_NonceSize" "unmarshal (marshal info) = Inr info" "db_PubKey info \<noteq> 0"
  shows "\<exists>file. saveDatabase c KDF marshal salt nonce info pass time mem = Inr file \<and>
    decodeDatabase c KDF unmarshal file pass = Inr info"
proof -
  let ?k = "KDF pass salt time mem"
  let ?enc = "nonce @ gcm_Seal c ?k nonce (marshal info)"
  have enc: "Encrypt c (Some ?k) nonce (marshal info) = Inr ?enc"
    using assms(1) by (simp add: Encrypt_def aead_ok_def Let_def)
  have dec: "Decrypt c (Some ?k) ?enc = Inr (marshal info)"
    using assms(1,3) by (simp add: Decrypt_def aead_ok_def)
  have "decodeDatabase c KDF unmarshal (AddFixedByteArray salt @ AddUint32 time @ AddUint32 mem @ ?enc) pass = Inr info"
    using assms(2,4,5) dec by (simp add: decodeDatabase_def codec_simps RemainingData_def) (simp add: NewDes_def)
  then show ?thesis by (simp add: saveDatabase_def enc)
qed

end
