(* ===== verification/Amounts.thy ===== *)
theory Amounts
  imports Address Complex_Main
begin

text \<open>
  Amounts of coins as text, \<open>FormatCoin\<close> of \<^verbatim>\<open>src/util/util.go\<close>, and the part of Go's float64 that the command line of the wallet uses for amounts: reading a decimal number, multiplying it by
  a constant and truncating the product. A finite value is its sign, a natural number and a power of two; rounding is to
  the nearest value, ties to the even one, with 53 bits and exponents of at least \<open>- 1074\<close>.
\<close>

section \<open>Values and rounding\<close>

datatype float64 = Finite bool nat int | Inf64 bool | NaN64

fun bit_len :: "nat \<Rightarrow> nat" where
  "bit_len n = (if n = 0 then 0 else Suc (bit_len (n div 2)))"

declare bit_len.simps [simp del]

text \<open>The natural number nearest to a fraction.\<close>

definition round_even :: "nat \<Rightarrow> nat \<Rightarrow> nat" where
  "round_even p q =
     (let d = p div q; r = p mod q
      in if 2 * r < q then d else if 2 * r > q then d + 1 else if even d then d else d + 1)"

text \<open>Whether \<open>2 ^ k\<close> is at most the fraction, and the greatest such \<open>k\<close>.\<close>

definition pow_le :: "int \<Rightarrow> nat \<Rightarrow> nat \<Rightarrow> bool" where
  "pow_le k p q \<longleftrightarrow> q * 2 ^ nat k \<le> p * 2 ^ nat (- k)"

definition log2_floor :: "nat \<Rightarrow> nat \<Rightarrow> int" where
  "log2_floor p q = (let k = int (bit_len p) - int (bit_len q) in if pow_le k p q then k else k - 1)"

text \<open>The float nearest to a fraction.\<close>

definition float_of :: "bool \<Rightarrow> nat \<Rightarrow> nat \<Rightarrow> float64" where
  "float_of neg p q =
     (if p = 0 then Finite neg 0 0
      else let e = max (log2_floor p q - 52) (- 1074); m = round_even (p * 2 ^ nat (- e)) (q * 2 ^ nat e)
           in if e > 971 \<or> e = 971 \<and> m = 2 ^ 53 then Inf64 neg else Finite neg m e)"

fun float_mul :: "float64 \<Rightarrow> float64 \<Rightarrow> float64" where
  "float_mul (Finite s m e) (Finite s' m' e') =
     float_of (s \<noteq> s') (m * m' * 2 ^ nat (e + e')) (2 ^ nat (- (e + e')))"
| "float_mul (Finite s m e) (Inf64 s') = (if m = 0 then NaN64 else Inf64 (s \<noteq> s'))"
| "float_mul (Inf64 s) (Finite s' m e) = (if m = 0 then NaN64 else Inf64 (s \<noteq> s'))"
| "float_mul (Inf64 s) (Inf64 s') = Inf64 (s \<noteq> s')"
| "float_mul NaN64 _ = NaN64"
| "float_mul _ NaN64 = NaN64"

text \<open>The integer part of a finite value; Go leaves open what the other conversions give.\<close>

fun float_trunc :: "float64 \<Rightarrow> int option" where
  "float_trunc (Finite s m e) =
     (let n = int (if e \<ge> 0 then m * 2 ^ nat e else m div 2 ^ nat (- e)) in Some (if s then - n else n))"
| "float_trunc _ = None"

text \<open>Comparison with zero.\<close>

fun float_le_zero :: "float64 \<Rightarrow> bool" where
  "float_le_zero (Finite s m e) \<longleftrightarrow> s \<or> m = 0"
| "float_le_zero (Inf64 s) \<longleftrightarrow> s"
| "float_le_zero NaN64 \<longleftrightarrow> False"

section \<open>Reading numbers\<close>

text \<open>A plain decimal number: digits, at most one point, at least one digit.\<close>

definition is_digit :: "char \<Rightarrow> bool" where
  "is_digit c \<longleftrightarrow> (case char_digit c of Some d \<Rightarrow> d < 10 | None \<Rightarrow> False)"

definition decimal :: "string \<Rightarrow> (nat \<times> nat) option" where
  "decimal s =
     (let a = takeWhile is_digit s; rest = dropWhile is_digit s; b = (case rest of [] \<Rightarrow> [] | c # cs \<Rightarrow> cs)
      in if (rest = [] \<or> hd rest = CHR ''.'') \<and> list_all is_digit b \<and> a @ b \<noteq> []
         then map_option (\<lambda>p. (p, 10 ^ length b)) (parse_digits 10 0 (a @ b)) else None)"

text \<open>
  \<open>strconv.ParseFloat\<close> reads plain decimal numbers as the nearest float. The other forms (signs, exponents, hexadecimal
  numbers, infinities) and the texts that are no number are left to a parameter.
\<close>

definition ParseFloat :: "(string \<Rightarrow> float64 res) \<Rightarrow> string \<Rightarrow> float64 res" where
  "ParseFloat other s =
     (case decimal s of
        Some (p, q) \<Rightarrow>
          (case float_of False p q of Inf64 _ \<Rightarrow> Inl (Err ''value out of range'') | x \<Rightarrow> Inr x)
      | None \<Rightarrow> other s)"

section \<open>Errors of rounding\<close>

lemma bit_len_bounds: "n > 0 \<Longrightarrow> 2 ^ (bit_len n - 1) \<le> n \<and> n < 2 ^ bit_len n"
proof (induction n rule: bit_len.induct)
  case (1 n)
  then show ?case
  proof (cases "n div 2 = 0")
    case True
    then have "n = 1" using "1.prems" by presburger
    then show ?thesis by (simp add: bit_len.simps)
  next
    case False
    define k where "k = bit_len (n div 2)"
    have IH: "2 ^ (k - 1) \<le> n div 2" "n div 2 < 2 ^ k" and k: "k > 0"
      using "1.IH" "1.prems" False bit_len.simps [of "n div 2"] by (auto simp: k_def)
    have "2 * 2 ^ (k - 1) = (2 :: nat) ^ k" using k by (cases k) simp_all
    moreover have "bit_len n = Suc k" using "1.prems" by (simp add: bit_len.simps [of n] k_def)
    moreover have "2 * (n div 2) \<le> n" "n < 2 * (n div 2) + 2" by presburger+
    ultimately show ?thesis using IH by simp
  qed
qed

lemma round_even_error:
  assumes "q > 0"
  shows "\<bar>real (round_even p q) - p / q\<bar> \<le> 1 / 2"
proof -
  have "real p = real (q * (p div q) + p mod q)" by simp
  also have "\<dots> = real q * real (p div q) + real (p mod q)" unfolding of_nat_add of_nat_mult ..
  finally have x: "p / q = (p div q) + (p mod q) / q" using assms by (simp add: field_simps)
  have r: "0 \<le> (p mod q) / q" "(p mod q) / q \<le> 1" using assms by (simp_all add: less_imp_le)
  show ?thesis
    unfolding x round_even_def Let_def using r assms by (auto simp: field_simps abs_le_iff)
qed

lemma pow_le_iff: "q > 0 \<Longrightarrow> pow_le k p q \<longleftrightarrow> 2 powi k \<le> real p / q"
proof -
  assume q: "q > 0"
  have "pow_le k p q \<longleftrightarrow> real q * 2 ^ nat k \<le> real p * 2 ^ nat (- k)"
    unfolding pow_le_def using of_nat_le_iff [of "q * 2 ^ nat k" "p * 2 ^ nat (- k)", where ?'a = real] by simp
  also have "\<dots> \<longleftrightarrow> 2 powi k \<le> real p / q"
    using q by (cases "k \<ge> 0") (simp_all add: power_int_def field_simps)
  finally show ?thesis .
qed

lemma log2_floor_bounds:
  assumes "p > 0" "q > 0"
  shows "2 powi log2_floor p q \<le> real p / q" "real p / q < 2 powi (log2_floor p q + 1)"
proof -
  let ?a = "bit_len p" and ?b = "bit_len q"
  have pos: "?a > 0" "?b > 0" using assms by (simp_all add: bit_len.simps [of p] bit_len.simps [of q])
  have "real (2 ^ (?a - 1)) \<le> p" "real p < real (2 ^ ?a)" "real (2 ^ (?b - 1)) \<le> q" "real q < real (2 ^ ?b)"
    using bit_len_bounds assms by (simp_all only: of_nat_le_iff of_nat_less_iff)
  then have b: "2 powi (int ?a - 1) \<le> p" "p < 2 powi int ?a" "2 powi (int ?b - 1) \<le> q" "q < 2 powi int ?b"
    using pos by (simp_all add: power_int_def nat_diff_distrib)
  have "2 powi (int ?a - int ?b - 1) = 2 powi (int ?a - 1) / (2 powi int ?b :: real)"
    by (simp add: power_int_diff)
  also have "\<dots> \<le> real p / q" using b assms by (intro frac_le) auto
  finally have low: "2 powi (int ?a - int ?b - 1) \<le> real p / q" .
  have "real p / q < 2 powi int ?a / (2 powi (int ?b - 1))"
    using b assms by (intro frac_less) auto
  also have "\<dots> = 2 powi (int ?a - int ?b + 1)" by (simp add: power_int_diff power_int_add)
  finally have up: "real p / q < 2 powi (int ?a - int ?b + 1)" .
  show "2 powi log2_floor p q \<le> real p / q" "real p / q < 2 powi (log2_floor p q + 1)"
    using low up pow_le_iff [OF assms(2), of "int ?a - int ?b" p] by (auto simp: log2_floor_def Let_def)
qed

text \<open>In the normal range, rounding changes a number by at most a part of \<open>2 ^ 53\<close> of it.\<close>

lemma scaled: "(real p * 2 ^ nat (- e)) / (real q * 2 ^ nat e) = real p / q * 2 powi (- e)"
  by (cases "e \<ge> 0") (simp_all add: power_int_def field_simps)

lemma float_of_close:
  assumes "p > 0" "q > 0" "2 powi (- 1000) \<le> real p / q" "real p / q < 2 powi 1000"
  shows "\<exists>m e. float_of neg p q = Finite neg m e \<and> \<bar>m * 2 powi e - p / q\<bar> \<le> p / q * 2 powi (- 53)"
proof -
  define L where "L = log2_floor p q"
  have L: "2 powi L \<le> real p / q" "real p / q < 2 powi (L + 1)"
    using log2_floor_bounds [OF assms(1,2)] by (simp_all add: L_def)
  have "2 powi (- 1000) < (2 :: real) powi (L + 1)" using assms(3) L(2) by linarith
  moreover have "2 powi L < (2 :: real) powi 1000" using assms(4) L(1) by linarith
  ultimately have range: "- 1000 < L + 1" "L < 1000"
    using power_int_increasing [of "L + 1" "- 1000" "2 :: real"] power_int_increasing [of 1000 L "2 :: real"] by linarith+
  define e where "e = L - 52"
  define m where "m = round_even (p * 2 ^ nat (- e)) (q * 2 ^ nat e)"
  have f: "float_of neg p q = Finite neg m e"
    using assms(1) range unfolding float_of_def L_def [symmetric] e_def m_def by (simp add: Let_def)
  have "\<bar>real m - p / q * 2 powi (- e)\<bar> \<le> 1 / 2"
    using round_even_error [of "q * 2 ^ nat e" "p * 2 ^ nat (- e)"] assms(2) scaled [of p e q] by (simp add: m_def)
  then have "\<bar>real m - p / q * 2 powi (- e)\<bar> * 2 powi e \<le> 1 / 2 * 2 powi e"
    by (intro mult_right_mono) simp_all
  moreover have "\<bar>real m - p / q * 2 powi (- e)\<bar> * 2 powi e = \<bar>m * 2 powi e - p / q\<bar>"
  proof -
    have "(real m - p / q * 2 powi (- e)) * 2 powi e = m * 2 powi e - p / q"
      by (simp add: left_diff_distrib mult.assoc power_int_minus)
    then show ?thesis by (metis abs_mult abs_of_nonneg zero_le_power_int zero_le_numeral)
  qed
  moreover have "1 / 2 * 2 powi e \<le> p / q * (2 powi (- 53) :: real)"
  proof -
    have "1 / 2 * 2 powi e = 2 powi L * (2 powi (- 53) :: real)"
      by (simp add: e_def power_int_diff power_int_minus)
    also have "\<dots> \<le> p / q * 2 powi (- 53)" using L(1) by (intro mult_right_mono) simp_all
    finally show ?thesis .
  qed
  ultimately have "\<bar>m * 2 powi e - p / q\<bar> \<le> p / q * 2 powi (- 53)" by linarith
  with f show ?thesis by blast
qed

lemma float_trunc_floor: "float_trunc (Finite False m e) = Some \<lfloor>m * (2 powi e :: real)\<rfloor>"
proof (cases "e \<ge> 0")
  case False
  then have "real m * 2 powi e = real m / real (2 ^ nat (- e))" by (simp add: power_int_def power_divide field_simps)
  then have "\<lfloor>real m * 2 powi e\<rfloor> = int (m div 2 ^ nat (- e))" by (simp only: floor_divide_of_nat_eq)
  with False show ?thesis by simp
next
  case True
  then have "real m * 2 powi e = of_int (int (m * 2 ^ nat e))" by (simp add: power_int_def)
  then have "\<lfloor>real m * 2 powi e\<rfloor> = int (m * 2 ^ nat e)" by (simp only: floor_of_int)
  with True show ?thesis by simp
qed

section \<open>Amounts of coins\<close>

text \<open>The product of a number and \<^const>\<open>COIN\<close>, and its integer part.\<close>

definition coins_of :: "float64 \<Rightarrow> int option" where
  "coins_of x = float_trunc (float_mul x (Finite False COIN 0))"

lemma two_roundings:
  fixes n y z :: real
  assumes "1 \<le> n" "n \<le> 4503599627370495" "\<bar>y - n\<bar> \<le> n / 9007199254740992"
  shows "1 / 2 \<le> y" "y < 9007199254740992" "\<bar>z - y\<bar> \<le> y / 9007199254740992 \<Longrightarrow> \<bar>z - n\<bar> < 1"
  using assms by (simp_all only: abs_le_iff abs_less_iff) linarith+

text \<open>
  An amount below \<open>2 ^ 52\<close> atomic units that is written with as many decimals as needed is read as this amount or as
  one unit less.
\<close>

lemma coins_of_close:
  assumes n: "p * 10 ^ 9 = n * q" "q > 0" "0 < n" "n < 2 ^ 52"
  shows "\<exists>m e. float_of False p q = Finite False m e \<and> m \<noteq> 0 \<and>
    (coins_of (Finite False m e) = Some (int n) \<or> coins_of (Finite False m e) = Some (int n - 1))"
proof -
  have p: "p > 0" using n by (metis mult_is_0 neq0_conv power_eq_0_iff zero_neq_numeral)
  define x where "x = real p / q"
  have "real p * 10 ^ 9 = real n * q" using n(1) by (metis of_nat_mult of_nat_numeral of_nat_power)
  then have x: "x * 10 ^ 9 = n" using n(2) by (simp add: x_def field_simps)
  have n': "1 \<le> real n" "real n \<le> 4503599627370495"
    using n(3) of_nat_mono [of n "2 ^ 52 - 1", where ?'a = real] n(4) by simp_all
  have small: "(2 :: real) powi (- 1000) \<le> 1 / 10 ^ 10" "(9007199254740992 :: real) < 2 powi 1000"
    by (simp_all add: power_int_def divide_simps)
  have "2 powi (- 1000) \<le> real p / q" "real p / q < 2 powi 1000"
    using x n' small by (simp_all add: x_def [symmetric])
  then obtain m e where f: "float_of False p q = Finite False m e" and me: "\<bar>m * 2 powi e - x\<bar> \<le> x * 2 powi (- 53)"
    using float_of_close [OF p n(2), of False] by (auto simp: x_def)
  define y where "y = m * (2 powi e :: real) * 10 ^ 9"
  have "y - n = (m * 2 powi e - x) * 10 ^ 9" by (simp only: y_def x [symmetric] left_diff_distrib)
  then have "\<bar>y - n\<bar> = \<bar>m * 2 powi e - x\<bar> * 10 ^ 9" by (simp only: abs_mult) simp
  also have "\<dots> \<le> x * 2 powi (- 53) * 10 ^ 9" by (intro mult_right_mono me) simp
  also have "\<dots> = n / 2 ^ 53" by (simp add: x [symmetric] power_int_def field_simps)
  finally have y: "\<bar>y - n\<bar> \<le> n / 2 ^ 53" .
  let ?P = "m * COIN * 2 ^ nat e" and ?Q = "2 ^ nat (- e) :: nat"
  have y': "y = real ?P / ?Q" by (cases "e \<ge> 0") (simp_all add: y_def power_int_def COIN_def field_simps)
  note near = two_roundings [OF n', of y]
  have ypos: "1 / 2 \<le> y" "y < 9007199254740992" using near y by simp_all
  have m: "m \<noteq> 0" using ypos(1) by (cases "m = 0") (simp_all add: y_def)
  have P: "?P > 0" using y' ypos(1) by (cases "?P = 0") simp_all
  have "2 powi (- 1000) \<le> real ?P / ?Q" "real ?P / ?Q < 2 powi 1000"
    unfolding y' [symmetric] using ypos small by simp_all
  then obtain m' e' where g: "float_of False ?P ?Q = Finite False m' e'" and z: "\<bar>m' * 2 powi e' - y\<bar> \<le> y * 2 powi (- 53)"
    using float_of_close [OF P, of ?Q False] unfolding y' [symmetric] by auto
  have "y * 2 powi (- 53) = y / 9007199254740992" by (simp add: power_int_def field_simps)
  then have "\<bar>m' * 2 powi e' - n\<bar> < 1" using near(3) y z by simp
  then have "\<lfloor>m' * (2 powi e' :: real)\<rfloor> = int n \<or> \<lfloor>m' * (2 powi e' :: real)\<rfloor> = int n - 1" by linarith
  then show ?thesis using m by (auto simp: coins_of_def f g float_trunc_floor simp del: float_trunc.simps)
qed

lemma short_201: "coins_of (float_of False 201 100) = Some 2009999999"
proof -
  have "float_of False 201 100 = Finite False 4526117625507348 (- 51)"
    by (simp add: float_of_def log2_floor_def pow_le_def round_even_def bit_len.simps)
  then show ?thesis
    by (simp add: coins_of_def COIN_def float_of_def log2_floor_def pow_le_def round_even_def bit_len.simps)
qed

text \<open>The text of an amount, with nine decimals, and that it is read as a fraction of the same value.\<close>

definition ATOMIC :: nat where "ATOMIC = 9"

definition FormatCoin :: "u64 \<Rightarrow> string" where
  "FormatCoin n =
     (let s = text_base 10 (unat n); s = replicate (ATOMIC + 1 - length s) (CHR ''0'') @ s
      in take (length s - ATOMIC) s @ ''.'' @ drop (length s - ATOMIC) s)"

lemma is_digit_text: "c \<in> set (text_base 10 n) \<Longrightarrow> is_digit c"
  using text_base_digits [of 10 n] by (auto simp: is_digit_def char_digit_digit_char)

lemma is_digit_zero: "is_digit (CHR ''0'')" and not_digit_point: "\<not> is_digit (CHR ''.'')"
  by (simp_all add: is_digit_def char_digit_def)

lemma parse_zeros: "parse_digits 10 0 (replicate k (CHR ''0'') @ s) = parse_digits 10 0 s"
  by (induction k) (simp_all add: char_digit_def)

lemma decimal_point:
  assumes "\<forall>c\<in>set a. is_digit c" "\<forall>c\<in>set b. is_digit c" "a \<noteq> []" "parse_digits 10 0 (a @ b) = Some p"
  shows "decimal (a @ ''.'' @ b) = Some (p, 10 ^ length b)"
proof -
  have "takeWhile is_digit (a @ CHR ''.'' # b) = a" "dropWhile is_digit (a @ CHR ''.'' # b) = CHR ''.'' # b"
    using assms(1) not_digit_point by (induction a) simp_all
  then show ?thesis using assms by (simp add: decimal_def list_all_iff)
qed

lemma decimal_FormatCoin: "decimal (FormatCoin n) = Some (unat n, 10 ^ 9)"
proof -
  define s where "s = replicate (10 - length (text_base 10 (unat n))) (CHR ''0'') @ text_base 10 (unat n)"
  have len: "10 \<le> length s" by (simp add: s_def)
  have digits: "\<forall>c\<in>set s. is_digit c" using is_digit_text is_digit_zero by (auto simp: s_def)
  have "parse_digits 10 0 (take (length s - 9) s @ drop (length s - 9) s) = Some (unat n)"
    unfolding append_take_drop_id by (simp add: s_def parse_zeros parse_text_base)
  moreover have "take (length s - 9) s \<noteq> []" "length (drop (length s - 9) s) = 9"
    using len by auto
  ultimately have "decimal (take (length s - 9) s @ ''.'' @ drop (length s - 9) s) = Some (unat n, 10 ^ 9)"
    using decimal_point [of "take (length s - 9) s" "drop (length s - 9) s"] digits
    by (metis in_set_dropD in_set_takeD)
  then show ?thesis by (simp add: FormatCoin_def ATOMIC_def s_def Let_def)
qed

text \<open>An amount that the wallet has printed is read as this amount or as one unit less.\<close>

definition amount_text :: "string \<Rightarrow> nat \<Rightarrow> bool" where
  "amount_text s n \<longleftrightarrow> (case decimal s of Some (p, q) \<Rightarrow> p * 10 ^ 9 = n * q | None \<Rightarrow> False)"

lemma amount_FormatCoin: "amount_text (FormatCoin n) (unat n)"
  by (simp add: amount_text_def decimal_FormatCoin)

lemma decimal_denominator: "decimal s = Some (p, q) \<Longrightarrow> q > 0"
  by (auto simp: decimal_def Let_def split: if_splits)

lemma ParseFloat_amount:
  assumes "amount_text s n" "0 < n" "n < 2 ^ 52"
  shows "\<exists>x. ParseFloat other s = Inr x \<and> \<not> float_le_zero x \<and> (coins_of x = Some (int n) \<or> coins_of x = Some (int n - 1))"
proof -
  obtain p q where pq: "decimal s = Some (p, q)" "p * 10 ^ 9 = n * q"
    using assms(1) by (auto simp: amount_text_def split: option.splits)
  have q: "q > 0" using pq(1) by (rule decimal_denominator)
  obtain m e where "float_of False p q = Finite False m e" "m \<noteq> 0"
    "coins_of (Finite False m e) = Some (int n) \<or> coins_of (Finite False m e) = Some (int n - 1)"
    using coins_of_close [OF pq(2) q assms(2,3)] by blast
  then show ?thesis by (auto simp: ParseFloat_def pq)
qed

end
