(* ===== verification/WalletCli.thy ===== *)
theory WalletCli
  imports WalletRpc Amounts
begin

text \<open>
  The command line of the wallet, \<^verbatim>\<open>src/cmd/virel-wallet-cli/walletcmd.go\<close>: one definition for each command and the loop
  that reads lines and runs them. What happens is a list of events: the messages of errors and of ends, a transaction
  for which the user is asked, the line that is read, and the transaction that is sent to the node with the answer.
  Lines of information and the completion of names are left out.
\<close>

section \<open>State and input\<close>

datatype cli_event = Message string | Asked Transaction | ReadLine "string option" | Sent Transaction "hash res"

record cli =
  cli_wallet :: Wallet
  cli_input :: "string option list"
  cli_events :: "cli_event list"
  cli_exited :: bool

text \<open>What Go leaves open of numbers: texts that are no plain decimal numbers, and conversions out of range.\<close>

record go_float =
  gf_parse :: "string \<Rightarrow> float64 res"
  gf_uint64 :: "float64 \<Rightarrow> u64"
  gf_int64 :: "float64 \<Rightarrow> u64"

definition coins_uint64 :: "go_float \<Rightarrow> float64 \<Rightarrow> u64" where
  "coins_uint64 g x =
     (case coins_of x of
        Some n \<Rightarrow> if 0 \<le> n \<and> n < 2 ^ 64 then word_of_int n else gf_uint64 g x
      | None \<Rightarrow> gf_uint64 g x)"

definition coins_int64 :: "go_float \<Rightarrow> float64 \<Rightarrow> u64" where
  "coins_int64 g x =
     (case coins_of x of
        Some n \<Rightarrow> if - (2 ^ 63) \<le> n \<and> n < 2 ^ 63 then word_of_int n else gf_int64 g x
      | None \<Rightarrow> gf_int64 g x)"

definition add_event :: "cli_event \<Rightarrow> cli \<Rightarrow> cli" where
  "add_event ev s = s\<lparr>cli_events := cli_events s @ [ev]\<rparr>"

definition say :: "string \<Rightarrow> cli \<Rightarrow> cli" where
  "say m = add_event (Message m)"

definition read_line :: "cli \<Rightarrow> string option \<times> cli" where
  "read_line s =
     (case cli_input s of
        [] \<Rightarrow> (None, add_event (ReadLine None) s)
      | line # rest \<Rightarrow> (line, add_event (ReadLine line) (s\<lparr>cli_input := rest\<rparr>)))"

section \<open>Parts of commands\<close>

definition with_ok :: "'a res \<Rightarrow> string \<Rightarrow> ('a \<Rightarrow> cli \<Rightarrow> cli) \<Rightarrow> cli \<Rightarrow> cli" where
  "with_ok r m k s = (case r of Inl _ \<Rightarrow> say m s | Inr x \<Rightarrow> k x s)"

definition with_refresh :: "daemon \<Rightarrow> (cli \<Rightarrow> cli) \<Rightarrow> cli \<Rightarrow> cli" where
  "with_refresh dm k s =
     (case wallet_Refresh dm (cli_wallet s) of
        (w, None) \<Rightarrow> k (s\<lparr>cli_wallet := w\<rparr>)
      | (w, Some _) \<Rightarrow> say ''failed to refresh wallet'' (s\<lparr>cli_wallet := w\<rparr>))"

definition says_yes :: "string option \<Rightarrow> bool" where
  "says_yes line \<longleftrightarrow> (case line of None \<Rightarrow> False | Some l \<Rightarrow> take 1 (strings_ToLower l) = ''y'')"

definition ask_submit :: "daemon \<Rightarrow> Transaction \<Rightarrow> cli \<Rightarrow> cli" where
  "ask_submit dm txn s =
     (let (line, s) = read_line (add_event (Asked txn) s)
      in if \<not> says_yes line then say ''Cancelled.'' s
         else let submitRes = dm_SubmitTx dm (Tx_Serialize txn)
              in with_ok submitRes ''not submitted'' (\<lambda>_. say ''transaction has been submit'') (add_event (Sent txn submitRes) s))"

text \<open>The total amount has the fee in it; the commands that check it add the fee again.\<close>

definition check_submit :: "daemon \<Rightarrow> bool \<Rightarrow> Transaction res \<Rightarrow> cli \<Rightarrow> cli" where
  "check_submit dm check r =
     with_ok r ''no transaction'' (\<lambda>txn.
       with_ok (Tx_TotalAmount txn) ''invalid amount'' (\<lambda>totalamt s.
         if check \<and> totalamt + tx_Fee txn > wal_balance (cli_wallet s) then say ''not enough money'' s
         else ask_submit dm txn s))"

definition delegate_id :: "string \<Rightarrow> u64 res" where
  "delegate_id s =
     strconv_ParseUint (strings_TrimPrefix s DELEGATE_ADDRESS_PREFIX)"

fun strings_Join :: "string list \<Rightarrow> string \<Rightarrow> string" where
  "strings_Join [] sep = []"
| "strings_Join [a] sep = a"
| "strings_Join (a # b # as) sep = a @ sep @ strings_Join (b # as) sep"

section \<open>Commands\<close>

definition cmd_status :: "daemon \<Rightarrow> cli \<Rightarrow> cli" where
  "cmd_status dm s =
     (case wallet_Refresh dm (cli_wallet s) of
        (w, None) \<Rightarrow> s\<lparr>cli_wallet := w\<rparr>
      | (w, Some _) \<Rightarrow> say ''refresh failed'' (s\<lparr>cli_wallet := w\<rparr>))"

definition cmd_register_delegate :: "'x crypto_scheme \<Rightarrow> daemon \<Rightarrow> string list \<Rightarrow> cli \<Rightarrow> cli" where
  "cmd_register_delegate c dm args s =
     (case args of
        [] \<Rightarrow> say ''Usage: register_delegate <delegate id or address> <delegate name>'' s
      | a # names \<Rightarrow>
          with_ok (delegate_id a) ''invalid delegate id'' (\<lambda>delegateId.
            with_refresh dm (\<lambda>s.
              check_submit dm True
                (Wallet_RegisterDelegate c (cli_wallet s) (string_bytes (strings_Join names '' '')) delegateId) s)) s)"

definition cmd_set_delegate :: "'x crypto_scheme \<Rightarrow> daemon \<Rightarrow> string list \<Rightarrow> cli \<Rightarrow> cli" where
  "cmd_set_delegate c dm args s =
     (case args of
        [] \<Rightarrow> say ''Usage: set_delegate <delegate id or address>'' s
      | a # _ \<Rightarrow>
          with_ok (delegate_id a) ''invalid delegate id'' (\<lambda>delegateId.
            with_refresh dm (\<lambda>s.
              check_submit dm True (Wallet_SetDelegate c (cli_wallet s) delegateId (wal_delegateId (cli_wallet s))) s)) s)"

text \<open>The unlock height of the last of the funds of the owner.\<close>

definition prev_unlock :: "address \<Rightarrow> DelegatedFund list \<Rightarrow> u64" where
  "prev_unlock addr funds = foldl (\<lambda>u v. if df_Owner v = addr then df_Unlock v else u) 0 funds"

definition cmd_stake :: "'x crypto_scheme \<Rightarrow> go_float \<Rightarrow> daemon \<Rightarrow> string list \<Rightarrow> cli \<Rightarrow> cli" where
  "cmd_stake c g dm args s =
     (case args of
        [] \<Rightarrow> say ''Usage: stake <amount>'' s
      | a # _ \<Rightarrow>
          with_ok (ParseFloat (gf_parse g) a) ''failed to parse amount'' (\<lambda>amtFloat s.
            if float_le_zero amtFloat then say ''failed to parse amount'' s
            else let amt = coins_uint64 g amtFloat
            in if amt < MIN_STAKE_AMOUNT then say ''stake amount is too small'' s
            else with_refresh dm (\<lambda>s.
              if wal_delegateId (cli_wallet s) = 0 then say ''you must have a delegate set to stake'' s
              else with_ok (dm_GetDelegate dm (wal_delegateId (cli_wallet s))) ''no delegate'' (\<lambda>delegate s.
                check_submit dm True
                  (Wallet_Stake c (cli_wallet s) (wal_delegateId (cli_wallet s)) amt
                     (prev_unlock (wal_Address (cli_wallet s)) (gd_Funds delegate))) s) s) s) s)"

definition cmd_unstake :: "'x crypto_scheme \<Rightarrow> go_float \<Rightarrow> daemon \<Rightarrow> string list \<Rightarrow> cli \<Rightarrow> cli" where
  "cmd_unstake c g dm args s =
     (case args of
        [] \<Rightarrow> say ''Usage: unstake <amount>'' s
      | a # _ \<Rightarrow>
          with_ok (ParseFloat (gf_parse g) a) ''failed to parse amount'' (\<lambda>amtFloat s.
            if float_le_zero amtFloat then say ''failed to parse amount'' s
            else let amt = coins_uint64 g amtFloat
            in with_refresh dm (\<lambda>s.
              if amt > wal_stakedBalance (cli_wallet s) then say ''trying to stake more than staked balance'' s
              else check_submit dm False (Wallet_Unstake c (cli_wallet s) (wal_delegateId (cli_wallet s)) amt) s) s) s)"

text \<open>Destinations and amounts in turn; an argument that is left over is not looked at.\<close>

fun transfer_outputs :: "go_float \<Rightarrow> u64 \<Rightarrow> u64 \<Rightarrow> string list \<Rightarrow> Output list res" where
  "transfer_outputs g bal totalAmt (a # b # args) =
     res_bind (FromString a) (\<lambda>dst.
     res_bind (ParseFloat (gf_parse g) b) (\<lambda>xbal.
       let amt = coins_int64 g xbal
       in if sint amt < 1 then Inl (Err ''invalid output amount'')
          else let totalAmt = totalAmt + amt
          in if totalAmt > bal then Inl (Err ''transaction spends too much money'')
             else res_bind (transfer_outputs g bal totalAmt args) (\<lambda>outs.
               Inr (\<lparr>Recipient = Addr dst, PaymentId = Integrated.PaymentId dst, Amount = amt\<rparr> # outs))))"
| "transfer_outputs g bal totalAmt _ = Inr []"

definition cmd_transfer :: "'x crypto_scheme \<Rightarrow> go_float \<Rightarrow> daemon \<Rightarrow> string list \<Rightarrow> cli \<Rightarrow> cli" where
  "cmd_transfer c g dm args s =
     (if length args < 2 then say ''Usage: transfer <destination> <amount> [<destination 2>] [<amount 2>]'' s
      else with_ok (transfer_outputs g (wal_balance (cli_wallet s)) 0 args) ''invalid output'' (\<lambda>outputs.
        with_refresh dm (\<lambda>s.
          with_ok (Wallet_Transfer c (cli_wallet s) outputs (wal_height (cli_wallet s) \<ge> HARDFORK_V2_HEIGHT)) ''no transaction''
            (ask_submit dm) s)) s)"

text \<open>A page that is no number is warned about and then counted down all the same.\<close>

definition list_page :: "string list \<Rightarrow> u64" where
  "list_page args =
     (case args of
        [] \<Rightarrow> 0
      | a # _ \<Rightarrow> ParseUint_value a - 1)"

definition cmd_list :: "daemon \<Rightarrow> string list \<Rightarrow> cli \<Rightarrow> cli" where
  "cmd_list dm args s =
     with_ok (GetTransactions dm (cli_wallet s) True (list_page args)) ''failed to get transactions'' (\<lambda>_.
       with_ok (GetTransactions dm (cli_wallet s) False (list_page args)) ''failed to get transactions'' (\<lambda>_ s. s)) s"

section \<open>The loop\<close>

definition run_command :: "'x crypto_scheme \<Rightarrow> go_float \<Rightarrow> daemon \<Rightarrow> string \<Rightarrow> cli \<Rightarrow> cli" where
  "run_command c g dm line s =
     (let split = strings_Split (CHR '' '') line; name = hd split; args = tl split
      in if name \<in> {''status'', ''info'', ''balance'', ''addr'', ''address''} then cmd_status dm s
         else if name \<in> {''exit'', ''quit''} then s\<lparr>cli_exited := True\<rparr>
         else if name = ''help'' then s
         else if name \<in> {''register_delegate'', ''registerdelegate''} then cmd_register_delegate c dm args s
         else if name \<in> {''set_delegate'', ''setdelegate''} then cmd_set_delegate c dm args s
         else if name = ''stake'' then cmd_stake c g dm args s
         else if name = ''unstake'' then cmd_unstake c g dm args s
         else if name = ''transfer'' then cmd_transfer c g dm args s
         else if name \<in> {''list'', ''list_transactions'', ''list_tx'', ''list_txs''} then cmd_list dm args s
         else if name \<in> {''seedphrase'', ''seed'', ''mnemonic''} then s
         else say ''command not found'' s)"

section \<open>What a session sends\<close>

text \<open>Everything that was sent was asked for just before, and the answer was yes.\<close>

definition asked_first :: "cli_event list \<Rightarrow> bool" where
  "asked_first es \<longleftrightarrow> (\<forall>pre tx r post. es = pre @ Sent tx r # post \<longrightarrow>
     (\<exists>before line. pre = before @ [Asked tx, ReadLine line] \<and> says_yes line))"

lemma asked_first_Nil [simp]: "asked_first []"
  by (simp add: asked_first_def)

lemma asked_first_snoc:
  "asked_first (es @ [ev]) \<longleftrightarrow> asked_first es \<and>
     (\<forall>tx r. ev = Sent tx r \<longrightarrow> (\<exists>before line. es = before @ [Asked tx, ReadLine line] \<and> says_yes line))"
  (is "?l \<longleftrightarrow> ?r")
proof
  assume ?l
  then show ?r unfolding asked_first_def by (metis append_Cons append_assoc)
next
  assume r: ?r
  show ?l unfolding asked_first_def
  proof (intro allI impI)
    fix pre tx rs post
    assume es: "es @ [ev] = pre @ Sent tx rs # post"
    show "\<exists>before line. pre = before @ [Asked tx, ReadLine line] \<and> says_yes line"
    proof (cases post rule: rev_cases)
      case Nil
      then show ?thesis using es r by auto
    next
      case (snoc post' x)
      then have "es = pre @ Sent tx rs # post'" using es by auto
      then show ?thesis using r unfolding asked_first_def by blast
    qed
  qed
qed

text \<open>The invariant of a session with a key: it is the key of the wallet, and of all that the user was asked for.\<close>

definition cli_ok :: "'x crypto_scheme \<Rightarrow> 512 word \<Rightarrow> cli \<Rightarrow> bool" where
  "cli_ok c key s \<longleftrightarrow> wal_PrivateKey (cli_wallet s) = key \<and> asked_first (cli_events s) \<and>
     (\<forall>tx. Asked tx \<in> set (cli_events s) \<longrightarrow> (\<exists>tx'. tx = Tx_Sign c tx' key))"

text \<open>What the parts of a command have in common: they keep the invariant, and read forward.\<close>

definition cli_step :: "'x crypto_scheme \<Rightarrow> cli \<Rightarrow> cli \<Rightarrow> bool" where
  "cli_step c s s' \<longleftrightarrow> (\<forall>key. cli_ok c key s \<longrightarrow> cli_ok c key s') \<and> length (cli_input s') \<le> length (cli_input s)"

lemma step_refl: "cli_step c s s"
  by (simp add: cli_step_def)

lemma step_trans: "cli_step c s s' \<Longrightarrow> cli_step c s' s'' \<Longrightarrow> cli_step c s s''"
  by (auto simp: cli_step_def)

lemma step_say: "cli_step c s (say m s)"
  by (simp add: cli_step_def cli_ok_def say_def add_event_def asked_first_snoc)

lemma step_exit: "cli_step c s (s\<lparr>cli_exited := True\<rparr>)"
  by (simp add: cli_step_def cli_ok_def)

lemma step_ok: "(\<And>x. r = Inr x \<Longrightarrow> cli_step c s (k x s)) \<Longrightarrow> cli_step c s (with_ok r m k s)"
  by (cases r) (simp_all add: with_ok_def step_say)

lemma Refresh_key: "wallet_Refresh dm w = (w', err) \<Longrightarrow> wal_PrivateKey w' = wal_PrivateKey w"
  by (cases "dm_GetAddress dm (Address_String (wal_Address w))";
      cases "dm_GetDelegate dm (ga_DelegateId (projr (dm_GetAddress dm (Address_String (wal_Address w)))))")
    (auto simp: wallet_Refresh_def Refresh_def Let_def split: if_splits option.splits)

lemma step_wallet: "wallet_Refresh dm (cli_wallet s) = (w, err) \<Longrightarrow> cli_step c s (s\<lparr>cli_wallet := w\<rparr>)"
  using Refresh_key [of dm "cli_wallet s" w err] by (simp add: cli_step_def cli_ok_def)

lemma step_refresh:
  assumes "\<And>w. cli_step c (s\<lparr>cli_wallet := w\<rparr>) (k (s\<lparr>cli_wallet := w\<rparr>))"
  shows "cli_step c s (with_refresh dm k s)"
proof (cases "wallet_Refresh dm (cli_wallet s)")
  case (Pair w err)
  show ?thesis
    using step_trans [OF step_wallet [OF Pair] assms] step_trans [OF step_wallet [OF Pair] step_say]
    by (cases err) (simp_all add: with_refresh_def Pair)
qed

lemma step_ask:
  assumes "\<exists>tx'. tx = Tx_Sign c tx' (wal_PrivateKey (cli_wallet s))"
  shows "cli_step c s (ask_submit dm tx s)"
proof -
  obtain line s1 where r: "read_line (add_event (Asked tx) s) = (line, s1)" by force
  have s1: "cli_events s1 = cli_events s @ [Asked tx, ReadLine line]" "cli_wallet s1 = cli_wallet s"
    "length (cli_input s1) \<le> length (cli_input s)"
    using r by (auto simp: read_line_def add_event_def split: list.splits)
  have asked: "cli_step c s s1"
    using assms s1 asked_first_snoc [of "cli_events s @ [Asked tx]" "ReadLine line"]
    by (auto simp: cli_step_def cli_ok_def asked_first_snoc)
  show ?thesis
  proof (cases "says_yes line")
    case True
    let ?s2 = "add_event (Sent tx (dm_SubmitTx dm (Tx_Serialize tx))) s1"
    have "asked_first (cli_events s1 @ [Sent tx r]) \<longleftrightarrow> asked_first (cli_events s1)" for r
      using s1(1) True asked_first_snoc [of "cli_events s1" "Sent tx r"] by auto
    then have "cli_step c s1 ?s2" by (auto simp: cli_step_def cli_ok_def add_event_def)
    then show ?thesis
      unfolding ask_submit_def using True
      by (auto simp: r Let_def intro!: step_trans [OF asked] step_trans [of c s1 ?s2] step_ok step_say)
  next
    case False
    then show ?thesis using step_trans [OF asked step_say] by (simp add: ask_submit_def r)
  qed
qed

lemma step_check:
  assumes "\<And>tx. r = Inr tx \<Longrightarrow> \<exists>tx'. tx = Tx_Sign c tx' (wal_PrivateKey (cli_wallet s))"
  shows "cli_step c s (check_submit dm check r s)"
  unfolding check_submit_def using assms by (intro step_ok) (auto intro: step_say step_ask)

text \<open>What the wallet builds is signed with its key.\<close>

lemma built_signed:
  "Wallet_Transfer c w outs v = Inr tx \<Longrightarrow> \<exists>tx'. tx = Tx_Sign c tx' (wal_PrivateKey w)"
  "Wallet_RegisterDelegate c w name did = Inr tx \<Longrightarrow> \<exists>tx'. tx = Tx_Sign c tx' (wal_PrivateKey w)"
  "Wallet_SetDelegate c w did prev = Inr tx \<Longrightarrow> \<exists>tx'. tx = Tx_Sign c tx' (wal_PrivateKey w)"
  "Wallet_Stake c w did amt prevUnlock = Inr tx \<Longrightarrow> \<exists>tx'. tx = Tx_Sign c tx' (wal_PrivateKey w)"
  "Wallet_Unstake c w did amt = Inr tx \<Longrightarrow> \<exists>tx'. tx = Tx_Sign c tx' (wal_PrivateKey w)"
  by (auto simp: Wallet_Transfer_def Wallet_RegisterDelegate_def Wallet_SetDelegate_def Wallet_Stake_def Wallet_Unstake_def
      checkAndSignTx_def Let_def split: if_splits)

lemmas cli_steps = step_refl step_say step_exit step_ok step_refresh step_check step_ask built_signed

lemma step_status: "cli_step c s (cmd_status dm s)"
  by (auto simp: cmd_status_def split: prod.split option.split intro: step_wallet step_trans [OF step_wallet step_say])

lemma step_register: "cli_step c s (cmd_register_delegate c dm args s)"
  unfolding cmd_register_delegate_def by (cases args) (auto intro!: cli_steps(2,4,5,6) dest: built_signed)

lemma step_set: "cli_step c s (cmd_set_delegate c dm args s)"
  unfolding cmd_set_delegate_def by (cases args) (auto intro!: cli_steps(2,4,5,6) dest: built_signed)

lemma step_stake: "cli_step c s (cmd_stake c g dm args s)"
  unfolding cmd_stake_def Let_def by (cases args) (auto intro!: cli_steps(2,4,5,6) simp: built_signed(4))

lemma step_unstake: "cli_step c s (cmd_unstake c g dm args s)"
  unfolding cmd_unstake_def Let_def by (cases args) (auto intro!: cli_steps(2,4,5,6) simp: built_signed(5))

lemma step_transfer: "cli_step c s (cmd_transfer c g dm args s)"
  unfolding cmd_transfer_def by (auto intro!: cli_steps(2,4,5,7) dest: built_signed)

lemma step_list: "cli_step c s (cmd_list dm args s)"
  unfolding cmd_list_def by (intro step_ok step_refl)

lemma step_command: "cli_step c s (run_command c g dm line s)"
  by (simp add: run_command_def Let_def step_status step_exit step_refl step_register step_set step_stake step_unstake
      step_transfer step_list step_say)

lemma command_reads: "length (cli_input (run_command c g dm line (s\<lparr>cli_input := rest\<rparr>))) \<le> length rest"
  using step_command [of c "s\<lparr>cli_input := rest\<rparr>" g dm line] by (simp add: cli_step_def)

text \<open>The loop ends with the input or with the command for it.\<close>

function prompts :: "'x crypto_scheme \<Rightarrow> go_float \<Rightarrow> daemon \<Rightarrow> cli \<Rightarrow> cli" where
  "prompts c g dm s =
     (case cli_input s of
        [] \<Rightarrow> s\<lparr>cli_exited := True\<rparr>
      | None # rest \<Rightarrow> s\<lparr>cli_input := rest, cli_exited := True\<rparr>
      | Some line # rest \<Rightarrow>
          let s = run_command c g dm line (s\<lparr>cli_input := rest\<rparr>)
          in if cli_exited s then s else prompts c g dm s)"
  by pat_completeness auto
termination
  by (relation "measure (\<lambda>(c, g, dm, s). length (cli_input s))") (auto intro!: le_imp_less_Suc command_reads)

declare prompts.simps [simp del]

lemma prompts_ok: "cli_ok c key s \<Longrightarrow> cli_ok c key (prompts c g dm s) \<and> cli_exited (prompts c g dm s)"
proof (induction c g dm s rule: prompts.induct)
  case (1 c g dm s)
  show ?case
  proof (cases "cli_input s")
    case Nil
    then show ?thesis using 1 by (simp add: prompts.simps [of c g dm s] cli_ok_def)
  next
    case (Cons line rest)
    let ?s = "s\<lparr>cli_input := rest\<rparr>"
    show ?thesis
    proof (cases line)
      case None
      then show ?thesis using 1 Cons by (simp add: prompts.simps [of c g dm s] cli_ok_def)
    next
      case (Some l)
      have "cli_ok c key ?s" using "1.prems" by (simp add: cli_ok_def)
      then have "cli_ok c key (run_command c g dm l ?s)"
        using step_command [of c ?s g dm l] by (simp add: cli_step_def)
      then show ?thesis using "1.IH" [OF Cons Some refl] Cons Some by (simp add: prompts.simps [of c g dm s] Let_def)
    qed
  qed
qed

section \<open>What a transfer pays\<close>

lemma coins_int64_amount:
  assumes "coins_of x = Some (int k)" "k < 2 ^ 63"
  shows "unat (coins_int64 g x) = k" "sint (coins_int64 g x) = int k"
proof -
  have c: "coins_int64 g x = word_of_nat k" using assms by (simp add: coins_int64_def)
  then show u: "unat (coins_int64 g x) = k" using assms(2) by (simp add: unat_of_nat64)
  show "sint (coins_int64 g x) = int k"
    using assms(2) u by (simp add: sint_small64)
qed

text \<open>
  A payment that the user types: the text of the address, the text of the amount, and what they mean. Each of the
  amounts is paid, or one unit less.
\<close>

record payment =
  py_address :: string
  py_amount :: string
  py_to :: Integrated
  py_units :: nat

definition typed_args :: "payment \<Rightarrow> string list" where
  "typed_args p = [py_address p, py_amount p]"

definition typed :: "payment \<Rightarrow> bool" where
  "typed p \<longleftrightarrow> FromString (py_address p) = Inr (py_to p) \<and> amount_text (py_amount p) (py_units p) \<and>
     2 \<le> py_units p \<and> py_units p < 2 ^ 52"

definition pays :: "payment \<Rightarrow> Output \<Rightarrow> bool" where
  "pays p out \<longleftrightarrow> Recipient out = Addr (py_to p) \<and> Output.PaymentId out = Integrated.PaymentId (py_to p) \<and>
     (unat (Amount out) = py_units p \<or> unat (Amount out) = py_units p - 1)"

lemma transfer_outputs_pays:
  assumes "list_all typed ps" "unat tot + (\<Sum>p\<leftarrow>ps. py_units p) \<le> unat bal"
  shows "\<exists>outs. transfer_outputs g bal tot (concat (map typed_args ps)) = Inr outs \<and> list_all2 pays ps outs"
  using assms
proof (induction ps arbitrary: tot)
  case (Cons p ps)
  let ?n = "py_units p"
  have ty: "FromString (py_address p) = Inr (py_to p)" "amount_text (py_amount p) ?n" "2 \<le> ?n" "?n < 2 ^ 52"
    using Cons.prems(1) by (simp_all add: typed_def)
  obtain x k where x: "ParseFloat (gf_parse g) (py_amount p) = Inr x" "coins_of x = Some (int k)" "k = ?n \<or> k = ?n - 1"
    using ParseFloat_amount [OF ty(2) _ ty(4), of "gf_parse g"] ty(3) that [of _ ?n] that [of _ "?n - 1"]
    by (auto simp: of_nat_diff)
  have k: "1 \<le> k" "k \<le> ?n" "k < 2 ^ 63" using x(3) ty(3,4) by auto
  let ?amt = "coins_int64 g x"
  have amt: "unat ?amt = k" "sint ?amt = int k" using coins_int64_amount [OF x(2) k(3)] by auto
  have sum: "unat tot + ?n + (\<Sum>p\<leftarrow>ps. py_units p) \<le> unat bal" using Cons.prems(2) by simp
  then have tot: "unat (tot + ?amt) = unat tot + k"
    using unat_lt64 [of bal] k amt by (subst unat_add64) auto
  have small: "\<not> bal < tot + ?amt" using tot sum k by (simp add: word_less_nat_alt)
  have "unat (tot + ?amt) + (\<Sum>p\<leftarrow>ps. py_units p) \<le> unat bal" using tot sum k by simp
  then obtain outs where "transfer_outputs g bal (tot + ?amt) (concat (map typed_args ps)) = Inr outs" "list_all2 pays ps outs"
    using Cons.IH [of "tot + ?amt"] Cons.prems(1) by auto
  moreover have "\<not> sint ?amt < 1" using amt k by simp
  ultimately show ?case
    using ty(1) x(1,3) amt(1) small by (simp add: typed_args_def [of p] Let_def pays_def [of p])
qed simp

text \<open>The command: with the input at a line, the user is asked for the transfer of these outputs.\<close>

lemma cmd_transfer_asks:
  assumes "ps \<noteq> []" "list_all typed ps" "(\<Sum>p\<leftarrow>ps. py_units p) \<le> unat (wal_balance (cli_wallet s))"
    and "wallet_Refresh dm (cli_wallet s) = (w, None)"
  shows "\<exists>outs. list_all2 pays ps outs \<and>
    cmd_transfer c g dm (concat (map typed_args ps)) s =
      with_ok (Wallet_Transfer c w outs (wal_height w \<ge> HARDFORK_V2_HEIGHT)) ''no transaction'' (ask_submit dm) (s\<lparr>cli_wallet := w\<rparr>)"
proof -
  obtain outs where outs: "transfer_outputs g (wal_balance (cli_wallet s)) 0 (concat (map typed_args ps)) = Inr outs"
    "list_all2 pays ps outs"
    using transfer_outputs_pays [of ps 0 "wal_balance (cli_wallet s)" g] assms(2,3) by auto
  have "\<not> length (concat (map typed_args ps)) < 2" using assms(1) by (cases ps) (simp_all add: typed_args_def)
  then show ?thesis using outs assms(4) by (auto simp: cmd_transfer_def with_ok_def [of "Inr outs"] with_refresh_def)
qed

end
