(* ===== verification/WalletFiles.thy ===== *)
theory WalletFiles
  imports WalletRpc Amounts
begin

text \<open>
  How a wallet comes about and is kept: keys from entropy and from mnemonics (\<^verbatim>\<open>src/wallet/seed.go\<close>,
  \<^verbatim>\<open>src/bitcrypto/slip10/slip10.go\<close>), creating, restoring and opening key files (\<^verbatim>\<open>src/wallet/wallet.go\<close>) and the first
  prompt of the program (\<open>initialPrompt\<close> of \<^verbatim>\<open>src/cmd/virel-wallet-cli/wallet.go\<close>). Files are a map from names to
  contents, in which every write succeeds. HMAC-SHA512, the key pair of a seed, argon2, BIP-39 and the JSON object of
  the key file are the functions of a record; the JSON text of the address in it is the one of \<open>Address\<close>. Random bytes are
  arguments.
\<close>

section \<open>Deriving keys\<close>

record seed_lib =
  sl_hmac512 :: "bytes \<Rightarrow> bytes \<Rightarrow> 512 word"
  sl_keypair :: "bytes \<Rightarrow> 512 word"
  sl_NewMnemonic :: "bytes \<Rightarrow> string res"
  sl_EntropyFromMnemonic :: "string \<Rightarrow> bytes res"
  sl_KDF :: "bytes \<Rightarrow> bytes \<Rightarrow> u32 \<Rightarrow> u32 \<Rightarrow> hash"
  sl_marshal :: "u64 \<times> string \<times> 512 word \<times> string \<times> pubkey \<Rightarrow> bytes"
  sl_unmarshal :: "bytes \<Rightarrow> (u64 \<times> string \<times> 512 word \<times> string \<times> pubkey) res"

record slip10_node =
  sn_key :: bytes
  sn_chainCode :: bytes

definition FirstHardenedIndex :: u32 where "FirstHardenedIndex = 0x80000000"

definition seedModifier :: bytes where "seedModifier = string_bytes ''ed25519 seed''"

definition node_of :: "512 word \<Rightarrow> slip10_node" where
  "node_of mac = \<lparr>sn_key = take 32 (arr_bytes mac), sn_chainCode = drop 32 (arr_bytes mac)\<rparr>"

definition NewMasterNode :: "'x seed_lib_scheme \<Rightarrow> bytes \<Rightarrow> slip10_node" where
  "NewMasterNode lib seed = node_of (sl_hmac512 lib seedModifier seed)"

definition Derive :: "'x seed_lib_scheme \<Rightarrow> u32 \<Rightarrow> slip10_node \<Rightarrow> slip10_node res" where
  "Derive lib i k =
     (if i < FirstHardenedIndex then Inl (Err ''no public derivation for ed25519'')
      else Inr (node_of (sl_hmac512 lib (sn_chainCode k) ([0] @ sn_key k @ arr_bytes i))))"

definition Keypair :: "'x seed_lib_scheme \<Rightarrow> slip10_node \<Rightarrow> 512 word" where
  "Keypair lib k = sl_keypair lib (sn_key k)"

text \<open>The regular expression \<^verbatim>\<open>^m(/[0-9]+')*$\<close>, and the numbers between the slashes.\<close>

definition quote_char :: char where "quote_char = CHR 0x27"

definition path_segment :: "string \<Rightarrow> bool" where
  "path_segment s \<longleftrightarrow> 2 \<le> length s \<and> last s = quote_char \<and> list_all is_digit (butlast s)"

definition TrimRight :: "char \<Rightarrow> string \<Rightarrow> string" where
  "TrimRight c s = rev (dropWhile (\<lambda>d. d = c) (rev s))"

definition segment_index :: "string \<Rightarrow> u32 res" where
  "segment_index s =
     res_bind (strconv_ParseUint (TrimRight quote_char s)) (\<lambda>n.
       if n < 2 ^ 32 then Inr (ucast n) else Inl (Err ''value out of range''))"

definition IsValidPath :: "string \<Rightarrow> bool" where
  "IsValidPath p =
     (let segments = strings_Split (CHR ''/'') p
      in hd segments = ''m'' \<and> list_all path_segment (tl segments) \<and>
         list_all (\<lambda>s. case segment_index s of Inl _ \<Rightarrow> False | Inr _ \<Rightarrow> True) (tl segments))"

fun derive_segments :: "'x seed_lib_scheme \<Rightarrow> string list \<Rightarrow> slip10_node \<Rightarrow> slip10_node res" where
  "derive_segments lib [] k = Inr k"
| "derive_segments lib (s # ss) k =
     res_bind (segment_index s) (\<lambda>i.
     res_bind (Derive lib (i + FirstHardenedIndex) k) (\<lambda>k.
       derive_segments lib ss k))"

definition DeriveForPath :: "'x seed_lib_scheme \<Rightarrow> string \<Rightarrow> bytes \<Rightarrow> slip10_node res" where
  "DeriveForPath lib p seed =
     (if \<not> IsValidPath p then Inl (Err ''invalid derivation path'')
      else derive_segments lib (tl (strings_Split (CHR ''/'') p)) (NewMasterNode lib seed))"

section \<open>Mnemonics\<close>

definition SEED_ENTROPY :: nat where "SEED_ENTROPY = 24"

definition HD_COIN_TYPE :: nat where "HD_COIN_TYPE = 6310"

definition wallet_path :: string where
  "wallet_path =
     ''m/44'' @ [quote_char] @ ''/'' @ text_base 10 HD_COIN_TYPE @ [quote_char] @ ''/0'' @ [quote_char] @ ''/0'' @ [quote_char] @
     ''/0'' @ [quote_char]"

definition derived_key :: "'x seed_lib_scheme \<Rightarrow> bytes \<Rightarrow> 512 word res" where
  "derived_key lib entropy =
     (case DeriveForPath lib wallet_path entropy of Inl _ \<Rightarrow> Inl (Panic ''derivation'') | Inr k \<Rightarrow> Inr (Keypair lib k))"

definition newMnemonic :: "'x seed_lib_scheme \<Rightarrow> bytes \<Rightarrow> (string \<times> 512 word) res" where
  "newMnemonic lib entropy =
     (case sl_NewMnemonic lib entropy of
        Inl _ \<Rightarrow> Inl (Panic ''mnemonic'')
      | Inr seed \<Rightarrow> res_bind (derived_key lib entropy) (\<lambda>k. Inr (seed, k)))"

definition decodeMnemonic :: "'x seed_lib_scheme \<Rightarrow> string \<Rightarrow> 512 word res" where
  "decodeMnemonic lib seed = res_bind (sl_EntropyFromMnemonic lib seed) (derived_key lib)"

section \<open>Key files\<close>

type_synonym files = "string \<Rightarrow> bytes option"

text \<open>Salt and nonce of a new file.\<close>

type_synonym random = "bytes \<times> bytes"

definition db_marshal :: "'x seed_lib_scheme \<Rightarrow> dbInfo \<Rightarrow> bytes" where
  "db_marshal lib info =
     sl_marshal lib (db_NetworkID info, db_Mnemonic info, db_PrivateKey info, Integrated_MarshalJSON (db_Address info), db_PubKey info)"

definition db_unmarshal :: "'x seed_lib_scheme \<Rightarrow> bytes \<Rightarrow> dbInfo res" where
  "db_unmarshal lib data =
     res_bind (sl_unmarshal lib data) (\<lambda>(nid, mn, key, addr, pub).
     res_bind (Integrated_UnmarshalJSON addr) (\<lambda>a.
       Inr \<lparr>db_NetworkID = nid, db_Mnemonic = mn, db_PrivateKey = key, db_Address = a, db_PubKey = pub\<rparr>))"

definition OpenWallet :: "'y net_crypto_scheme \<Rightarrow> 'x seed_lib_scheme \<Rightarrow> bytes \<Rightarrow> string \<Rightarrow> dbInfo res" where
  "OpenWallet c lib walletdb pass = decodeDatabase c (sl_KDF lib) (db_unmarshal lib) walletdb (string_bytes pass)"

definition OpenWalletFile :: "'y net_crypto_scheme \<Rightarrow> 'x seed_lib_scheme \<Rightarrow> files \<Rightarrow> string \<Rightarrow> string \<Rightarrow> dbInfo res" where
  "OpenWalletFile c lib fs filename pass =
     (case fs filename of None \<Rightarrow> Inl (Err ''no such file or directory'') | Some walletdb \<Rightarrow> OpenWallet c lib walletdb pass)"

definition save_new :: "'y net_crypto_scheme \<Rightarrow> 'x seed_lib_scheme \<Rightarrow> random \<Rightarrow> dbInfo \<Rightarrow> string \<Rightarrow> bool \<Rightarrow> bytes res" where
  "save_new c lib rnd info pass fastkdf =
     (let (kdfMemory, kdfIterations) = (if fastkdf then (2, 128) else (6, 512))
      in saveDatabase c (sl_KDF lib) (db_marshal lib) (fst rnd) (snd rnd) info (string_bytes pass) kdfIterations (kdfMemory * 1024))"

definition CreateWallet ::
  "'y net_crypto_scheme \<Rightarrow> 'x seed_lib_scheme \<Rightarrow> bytes \<Rightarrow> random \<Rightarrow> string \<Rightarrow> bool \<Rightarrow> (dbInfo \<times> bytes) res" where
  "CreateWallet c lib entropy rnd pass fastkdf =
     res_bind (newMnemonic lib entropy) (\<lambda>(mnemonic, key).
       let pub = Privkey_Public key;
           info = \<lparr>db_NetworkID = 0, db_Mnemonic = mnemonic, db_PrivateKey = key,
                   db_Address = Address_Integrated (FromPubKey c pub), db_PubKey = pub\<rparr>
       in res_bind (save_new c lib rnd info pass fastkdf) (\<lambda>dbEnc. Inr (info, dbEnc)))"

definition CreateWalletFromMnemonic ::
  "'y net_crypto_scheme \<Rightarrow> 'x seed_lib_scheme \<Rightarrow> random \<Rightarrow> string \<Rightarrow> string \<Rightarrow> bool \<Rightarrow> (dbInfo \<times> bytes) res" where
  "CreateWalletFromMnemonic c lib rnd mnemonic pass fastkdf =
     res_bind (decodeMnemonic lib mnemonic) (\<lambda>key.
       let info = \<lparr>db_NetworkID = 0, db_Mnemonic = mnemonic, db_PrivateKey = key,
                   db_Address = Address_Integrated (FromPubKey c (Privkey_Public key)), db_PubKey = 0\<rparr>
       in res_bind (save_new c lib rnd info pass fastkdf) (\<lambda>dbEnc. Inr (info, dbEnc)))"

text \<open>A new file: an old one is not overwritten.\<close>

definition create_file :: "files \<Rightarrow> string \<Rightarrow> (dbInfo \<times> bytes) res \<Rightarrow> files \<times> dbInfo res" where
  "create_file fs filename made =
     (case fs filename of
        Some _ \<Rightarrow> (fs, Inl (Err ''wallet already exists''))
      | None \<Rightarrow>
          (case made of
             Inl err \<Rightarrow> (fs, Inl err)
           | Inr (info, dbEnc) \<Rightarrow> (fs(filename \<mapsto> dbEnc), Inr info)))"

definition CreateWalletFile ::
  "'y net_crypto_scheme \<Rightarrow> 'x seed_lib_scheme \<Rightarrow> bytes \<Rightarrow> random \<Rightarrow> files \<Rightarrow> string \<Rightarrow> string \<Rightarrow> files \<times> dbInfo res" where
  "CreateWalletFile c lib entropy rnd fs filename pass = create_file fs filename (CreateWallet c lib entropy rnd pass False)"

definition CreateWalletFileFromMnemonic ::
  "'y net_crypto_scheme \<Rightarrow> 'x seed_lib_scheme \<Rightarrow> random \<Rightarrow> files \<Rightarrow> string \<Rightarrow> string \<Rightarrow> string \<Rightarrow> files \<times> dbInfo res" where
  "CreateWalletFileFromMnemonic c lib rnd fs filename mnemonic pass =
     create_file fs filename (CreateWalletFromMnemonic c lib rnd mnemonic pass False)"

section \<open>The first prompt\<close>

text \<open>Lines and passwords are read in turn; \<open>None\<close> is an input that cannot be read, of which nothing is left.\<close>

fun next_line :: "string option list \<Rightarrow> string option \<times> string option list" where
  "next_line [] = (None, [])"
| "next_line (x # xs) = (x, xs)"

fun single_spaces :: "string \<Rightarrow> string" where
  "single_spaces (a # b # s) =
     (if a = CHR '' '' \<and> b = CHR '' '' then CHR '' '' # single_spaces s else a # single_spaces (b # s))"
| "single_spaces s = s"

datatype prompt_end = Quit | Again | Got dbInfo

definition got :: "dbInfo res \<Rightarrow> prompt_end" where
  "got r = (case r of Inr info \<Rightarrow> Got info | Inl (Panic _) \<Rightarrow> Quit | Inl (Err _) \<Rightarrow> Again)"

text \<open>The name and the password are known: what each of the three commands does.\<close>

definition prompt_command ::
  "'y net_crypto_scheme \<Rightarrow> 'x seed_lib_scheme \<Rightarrow> bytes \<Rightarrow> random \<Rightarrow> string \<Rightarrow> string \<Rightarrow> string \<Rightarrow> files \<Rightarrow> string option list \<Rightarrow>
   files \<times> string option list \<times> prompt_end" where
  "prompt_command c lib entropy rnd cmd filename password fs ins =
     (if cmd = ''open'' then (fs, ins, got (OpenWalletFile c lib fs filename password))
      else let (confirmPass, ins) = next_line ins
      in if confirmPass \<noteq> Some password then (fs, ins, Again)
         else if cmd = ''create'' then
           let (fs, r) = CreateWalletFile c lib entropy rnd fs filename password in (fs, ins, got r)
         else let (mnemonic, ins) = next_line ins
         in case mnemonic of
              None \<Rightarrow> (fs, ins, Quit)
            | Some m \<Rightarrow> let (fs, r) = CreateWalletFileFromMnemonic c lib rnd fs filename m password in (fs, ins, got r))"

definition prompt_round ::
  "'y net_crypto_scheme \<Rightarrow> 'x seed_lib_scheme \<Rightarrow> bytes \<Rightarrow> random \<Rightarrow> files \<Rightarrow> string option list \<Rightarrow>
   files \<times> string option list \<times> prompt_end" where
  "prompt_round c lib entropy rnd fs ins =
     (let (line, ins) = next_line ins
      in case line of
           None \<Rightarrow> (fs, ins, Quit)
         | Some line \<Rightarrow>
             let cmds = strings_Split (CHR '' '') (strings_ToLower (single_spaces line)); cmd = hd cmds
             in if cmd \<noteq> ''open'' \<and> cmd \<noteq> ''create'' \<and> cmd \<noteq> ''restore'' then (fs, ins, Again)
                else let (name, ins) = (if length cmds = 1 then next_line ins else (Some (cmds ! 1), ins))
                in case name of
                     None \<Rightarrow> (fs, ins, Quit)
                   | Some name \<Rightarrow>
                       if length cmds = 1 \<and> name = [] then (fs, ins, Again)
                       else let (password, ins) = next_line ins
                       in prompt_command c lib entropy rnd cmd (name @ ''.keys'') (case password of None \<Rightarrow> [] | Some p \<Rightarrow> p) fs ins)"

lemma next_line_length: "length (snd (next_line ins)) \<le> length ins" "ins \<noteq> [] \<Longrightarrow> length (snd (next_line ins)) < length ins"
  by (cases ins; simp)+

text \<open>A round reads forward and keeps the files that are there.\<close>

lemma create_file_keeps: "fs \<subseteq>\<^sub>m fst (create_file fs name made)"
  by (auto simp: create_file_def map_le_def split: option.split sum.split)

lemma prompt_command_keeps:
  assumes "prompt_command c lib entropy rnd cmd name pass fs ins = (fs', ins', r)"
  shows "fs \<subseteq>\<^sub>m fs' \<and> length ins' \<le> length ins"
proof -
  obtain x ins1 where i1: "next_line ins = (x, ins1)" by force
  obtain y ins2 where i2: "next_line ins1 = (y, ins2)" by force
  have len: "length ins1 \<le> length ins" "length ins2 \<le> length ins1"
    using next_line_length(1) [of ins] next_line_length(1) [of ins1] by (simp_all add: i1 i2)
  show ?thesis
    using assms len create_file_keeps [of fs name] i1 i2
    by (auto simp: prompt_command_def CreateWalletFile_def CreateWalletFileFromMnemonic_def split_beta
        split: if_splits option.splits)
qed

lemma prompt_round_keeps:
  assumes "prompt_round c lib entropy rnd fs ins = (fs', ins', r)"
  shows "fs \<subseteq>\<^sub>m fs'" "r = Again \<Longrightarrow> length ins' < length ins"
proof -
  obtain x ins1 where i1: "next_line ins = (x, ins1)" by force
  obtain y ins2 where i2: "next_line ins1 = (y, ins2)" by force
  have len: "length (snd (next_line ins1)) \<le> length ins1" "length (snd (next_line ins2)) \<le> length ins2"
    by (rule next_line_length)+
  have start: "x \<noteq> None \<Longrightarrow> length ins1 < length ins" using i1 by (cases ins) auto
  have "fs \<subseteq>\<^sub>m fs' \<and> (r = Again \<longrightarrow> length ins' < length ins)"
  proof (cases x)
    case None
    then show ?thesis using assms by (auto simp: prompt_round_def i1 map_le_def)
  next
    case (Some line)
    have "fs \<subseteq>\<^sub>m fs' \<and> length ins' \<le> length ins1"
      using assms len i2
      by (auto simp: prompt_round_def i1 Some Let_def split_beta split: if_splits option.splits
          dest!: prompt_command_keeps intro: order_trans)
    then show ?thesis using start Some by auto
  qed
  then show "fs \<subseteq>\<^sub>m fs'" "r = Again \<Longrightarrow> length ins' < length ins" by auto
qed

text \<open>The loop ends with a wallet or with the input; random bytes come for each round.\<close>

function initialPrompt ::
  "'y net_crypto_scheme \<Rightarrow> 'x seed_lib_scheme \<Rightarrow> (nat \<Rightarrow> bytes \<times> random) \<Rightarrow> files \<Rightarrow> string option list \<Rightarrow> files \<times> dbInfo option" where
  "initialPrompt c lib rnds fs ins =
     (case prompt_round c lib (fst (rnds (length ins))) (snd (rnds (length ins))) fs ins of
        (fs', ins', Quit) \<Rightarrow> (fs', None)
      | (fs', ins', Got info) \<Rightarrow> (fs', Some info)
      | (fs', ins', Again) \<Rightarrow> initialPrompt c lib rnds fs' ins')"
  by pat_completeness auto
termination
  by (relation "measure (\<lambda>(c, lib, rnds, fs, ins). length ins)") (auto dest: prompt_round_keeps(2) [OF sym])

declare initialPrompt.simps [simp del]

lemma initialPrompt_keeps: "fs \<subseteq>\<^sub>m fst (initialPrompt c lib rnds fs ins)"
proof (induction c lib rnds fs ins rule: initialPrompt.induct)
  case (1 c lib rnds fs ins)
  obtain fs' ins' r where p: "prompt_round c lib (fst (rnds (length ins))) (snd (rnds (length ins))) fs ins = (fs', ins', r)"
    by (cases "prompt_round c lib (fst (rnds (length ins))) (snd (rnds (length ins))) fs ins") auto
  have "fs \<subseteq>\<^sub>m fs'" using prompt_round_keeps(1) [OF p] .
  with 1 p show ?case
    by (cases r) (auto simp: initialPrompt.simps [of c lib rnds fs ins] intro: map_le_trans)
qed

section \<open>A wallet is found again\<close>

text \<open>What is assumed of the libraries: BIP-39 reads back what it has written, and so does JSON.\<close>

definition seed_lib_ok :: "'x seed_lib_scheme \<Rightarrow> bool" where
  "seed_lib_ok lib \<longleftrightarrow>
     (\<forall>entropy. length entropy = SEED_ENTROPY \<longrightarrow>
        (\<exists>m. sl_NewMnemonic lib entropy = Inr m \<and> sl_EntropyFromMnemonic lib m = Inr entropy)) \<and>
     (\<forall>x. sl_unmarshal lib (sl_marshal lib x) = Inr x)"

definition random_ok :: "random \<Rightarrow> bool" where
  "random_ok rnd \<longleftrightarrow> length (fst rnd) = 16 \<and> length (snd rnd) = gcm_NonceSize"

lemma wallet_segments:
  "tl (strings_Split (CHR ''/'') wallet_path) =
     [''44'' @ [quote_char], ''6310'' @ [quote_char], ''0'' @ [quote_char], ''0'' @ [quote_char], ''0'' @ [quote_char]]"
  "hd (strings_Split (CHR ''/'') wallet_path) = ''m''"
  by (simp_all add: wallet_path_def quote_char_def HD_COIN_TYPE_def text_base.simps digit_char_def)

lemma wallet_indices:
  "segment_index (''44'' @ [quote_char]) = Inr 44" "segment_index (''6310'' @ [quote_char]) = Inr 6310"
  "segment_index (''0'' @ [quote_char]) = Inr 0"
  by (simp_all add: segment_index_def TrimRight_def quote_char_def strconv_ParseUint_def char_digit_def)

lemma derived_key_total: "\<exists>k. derived_key lib entropy = Inr k"
proof -
  have "IsValidPath wallet_path"
    by (simp add: IsValidPath_def wallet_segments wallet_indices del: append.simps)
      (simp add: path_segment_def quote_char_def is_digit_def char_digit_def)
  moreover obtain k where "derive_segments lib (tl (strings_Split (CHR ''/'') wallet_path)) (NewMasterNode lib entropy) = Inr k"
    by (simp add: wallet_segments wallet_indices Derive_def FirstHardenedIndex_def del: append.simps)
  ultimately show ?thesis by (simp add: derived_key_def DeriveForPath_def)
qed

lemma Integrated_JSON: "Integrated_UnmarshalJSON (Integrated_MarshalJSON a) = FromString (Integrated_String a)"
  by (simp add: Integrated_UnmarshalJSON_def Integrated_MarshalJSON_def nth_append)

lemma db_JSON:
  assumes "seed_lib_ok lib"
  shows "db_unmarshal lib (db_marshal lib info) =
    res_bind (FromString (Integrated_String (db_Address info))) (\<lambda>a. Inr (info\<lparr>db_Address := a\<rparr>))"
  using assms by (cases info) (simp add: db_unmarshal_def db_marshal_def seed_lib_ok_def Integrated_JSON)

text \<open>A new key file is opened with its password exactly when the text of the address is read back.\<close>

lemma saved_opens:
  assumes "aead_ok c" "seed_lib_ok lib" "random_ok rnd"
  obtains db where "save_new c lib rnd info pass fast = Inr db"
    "OpenWallet c lib db pass =
       res_bind (FromString (Integrated_String (db_Address info))) (\<lambda>a.
         Inr (info\<lparr>db_Address := a, db_PubKey := if db_PubKey info = 0 then Privkey_Public (db_PrivateKey info) else db_PubKey info\<rparr>))"
proof -
  obtain time mem where tm: "save_new c lib rnd info pass fast =
      saveDatabase c (sl_KDF lib) (db_marshal lib) (fst rnd) (snd rnd) info (string_bytes pass) time mem"
    by (cases fast) (simp_all add: save_new_def)
  let ?k = "sl_KDF lib (string_bytes pass) (fst rnd) time mem"
  let ?enc = "snd rnd @ gcm_Seal c ?k (snd rnd) (db_marshal lib info)"
  let ?file = "AddFixedByteArray (fst rnd) @ AddUint32 time @ AddUint32 mem @ ?enc"
  have enc: "Encrypt c (Some ?k) (snd rnd) (db_marshal lib info) = Inr ?enc"
    using assms(1) by (simp add: Encrypt_def aead_ok_def Let_def)
  have dec: "Decrypt c (Some ?k) ?enc = Inr (db_marshal lib info)"
    using assms(1,3) by (simp add: Decrypt_def aead_ok_def random_ok_def)
  have "OpenWallet c lib ?file pass = res_bind (db_unmarshal lib (db_marshal lib info)) (\<lambda>info.
      Inr (if db_PubKey info = 0 then info\<lparr>db_PubKey := Privkey_Public (db_PrivateKey info)\<rparr> else info))"
    using assms(3) dec
    by (simp add: OpenWallet_def decodeDatabase_def codec_simps RemainingData_def random_ok_def) (simp add: NewDes_def)
  moreover have "save_new c lib rnd info pass fast = Inr ?file" by (simp add: tm saveDatabase_def enc)
  ultimately show ?thesis
    using that db_JSON [OF assms(2)] by (cases "FromString (Integrated_String (db_Address info))") auto
qed

text \<open>What a wallet is made of: the key of the entropy, its address, and the mnemonic that gives the entropy back.\<close>

definition wallet_info :: "'y net_crypto_scheme \<Rightarrow> string \<Rightarrow> 512 word \<Rightarrow> pubkey \<Rightarrow> dbInfo" where
  "wallet_info c mnemonic key pub =
     \<lparr>db_NetworkID = 0, db_Mnemonic = mnemonic, db_PrivateKey = key,
      db_Address = Address_Integrated (FromPubKey c (Privkey_Public key)), db_PubKey = pub\<rparr>"

lemma created_wallet:
  assumes "aead_ok c" "seed_lib_ok lib" "random_ok rnd" "length entropy = SEED_ENTROPY" "fs name = None"
  obtains mnemonic key db where "derived_key lib entropy = Inr key" "decodeMnemonic lib mnemonic = Inr key"
    "CreateWalletFile c lib entropy rnd fs name pass =
       (fs(name \<mapsto> db), Inr (wallet_info c mnemonic key (Privkey_Public key)))"
    "OpenWallet c lib db pass =
       res_bind (FromString (Address_String (FromPubKey c (Privkey_Public key)))) (\<lambda>a.
         Inr ((wallet_info c mnemonic key (Privkey_Public key))\<lparr>db_Address := a\<rparr>))"
proof -
  obtain m where m: "sl_NewMnemonic lib entropy = Inr m" "sl_EntropyFromMnemonic lib m = Inr entropy"
    using assms(2,4) by (auto simp: seed_lib_ok_def)
  obtain key where key: "derived_key lib entropy = Inr key" using derived_key_total by blast
  let ?info = "wallet_info c m key (Privkey_Public key)"
  obtain db where db: "save_new c lib rnd ?info pass False = Inr db" "OpenWallet c lib db pass =
       res_bind (FromString (Integrated_String (db_Address ?info))) (\<lambda>a.
         Inr (?info\<lparr>db_Address := a, db_PubKey := if db_PubKey ?info = 0 then Privkey_Public (db_PrivateKey ?info) else db_PubKey ?info\<rparr>))"
    by (rule saved_opens [OF assms(1-3)])
  show ?thesis
  proof (rule that [OF key])
    show "decodeMnemonic lib m = Inr key" by (simp add: decodeMnemonic_def m key)
    show "CreateWalletFile c lib entropy rnd fs name pass = (fs(name \<mapsto> db), Inr ?info)"
      using db(1) by (simp add: CreateWalletFile_def create_file_def assms(5) CreateWallet_def newMnemonic_def m key wallet_info_def Let_def)
    show "OpenWallet c lib db pass = res_bind (FromString (Address_String (FromPubKey c (Privkey_Public key)))) (\<lambda>a.
         Inr (?info\<lparr>db_Address := a\<rparr>))"
      using db(2) by (simp add: wallet_info_def Address_String_def)
  qed
qed

lemma restored_wallet:
  assumes "aead_ok c" "seed_lib_ok lib" "random_ok rnd" "decodeMnemonic lib mnemonic = Inr key" "fs name = None"
  obtains db where
    "CreateWalletFileFromMnemonic c lib rnd fs name mnemonic pass = (fs(name \<mapsto> db), Inr (wallet_info c mnemonic key 0))"
    "OpenWallet c lib db pass =
       res_bind (FromString (Address_String (FromPubKey c (Privkey_Public key)))) (\<lambda>a.
         Inr ((wallet_info c mnemonic key (Privkey_Public key))\<lparr>db_Address := a\<rparr>))"
proof -
  let ?info = "wallet_info c mnemonic key 0"
  obtain db where db: "save_new c lib rnd ?info pass False = Inr db" "OpenWallet c lib db pass =
       res_bind (FromString (Integrated_String (db_Address ?info))) (\<lambda>a.
         Inr (?info\<lparr>db_Address := a, db_PubKey := if db_PubKey ?info = 0 then Privkey_Public (db_PrivateKey ?info) else db_PubKey ?info\<rparr>))"
    by (rule saved_opens [OF assms(1-3)])
  show ?thesis
  proof (rule that)
    show "CreateWalletFileFromMnemonic c lib rnd fs name mnemonic pass = (fs(name \<mapsto> db), Inr ?info)"
      using db(1) by (simp add: CreateWalletFileFromMnemonic_def create_file_def assms(4,5) CreateWalletFromMnemonic_def wallet_info_def Let_def)
    show "OpenWallet c lib db pass = res_bind (FromString (Address_String (FromPubKey c (Privkey_Public key)))) (\<lambda>a.
         Inr ((wallet_info c mnemonic key (Privkey_Public key))\<lparr>db_Address := a\<rparr>))"
      using db(2) by (simp add: wallet_info_def Address_String_def)
  qed
qed

text \<open>The same at the prompt: the lines that the user types for each of the three commands.\<close>

definition prompt_result :: "files \<times> dbInfo res \<Rightarrow> files \<times> dbInfo option" where
  "prompt_result r = (fst r, case snd r of Inl _ \<Rightarrow> None | Inr info \<Rightarrow> Some info)"

lemma prompt_words:
  "strings_Split (CHR '' '') (strings_ToLower ''create'') = [''create'']"
  "strings_Split (CHR '' '') (strings_ToLower ''restore'') = [''restore'']"
  "strings_Split (CHR '' '') (strings_ToLower ''open'') = [''open'']"
  by code_simp+

lemma prompt_ends:
  assumes "prompt_round c lib (fst (rnds (length ins))) (snd (rnds (length ins))) fs ins = (fst x, [], got (snd x))"
  shows "initialPrompt c lib rnds fs ins = prompt_result x"
proof -
  have none: "initialPrompt c lib rnds fs' [] = (fs', None)" for fs'
    by (subst initialPrompt.simps) (simp add: prompt_round_def)
  show ?thesis
    unfolding initialPrompt.simps [of c lib rnds fs ins] assms
    by (auto simp: got_def prompt_result_def none split: sum.split error.split)
qed

lemma prompt_lines:
  assumes "name \<noteq> []"
  shows "initialPrompt c lib rnds fs [Some ''create'', Some name, Some pass, Some pass] =
      prompt_result (CreateWalletFile c lib (fst (rnds 4)) (snd (rnds 4)) fs (name @ ''.keys'') pass)"
    "initialPrompt c lib rnds fs [Some ''restore'', Some name, Some pass, Some pass, Some mnemonic] =
      prompt_result (CreateWalletFileFromMnemonic c lib (snd (rnds 5)) fs (name @ ''.keys'') mnemonic pass)"
    "initialPrompt c lib rnds fs [Some ''open'', Some name, Some pass] =
      prompt_result (fs, OpenWalletFile c lib fs (name @ ''.keys'') pass)"
  using assms
  by (intro prompt_ends; simp add: prompt_round_def prompt_words prompt_command_def Let_def split_beta eval_nat_numeral)+

end
