(* ===== verification/WalletServer.thy ===== *)
theory WalletServer
  imports WalletRpc
begin

text \<open>
  The server of the wallet, \<open>startRpcServer\<close> of \<^verbatim>\<open>src/cmd/virel-wallet-cli/walletrpc.go\<close>: the handlers of \<open>WalletRpc\<close>
  behind the checks of \<open>RpcServer\<close>. The JSON forms of parameters and results are the functions of a record.
\<close>

section \<open>Handlers on the server\<close>

record 'j wallet_json =
  wj_request :: "string \<Rightarrow> 'j RequestIn \<times> bool"
  wj_get_balance :: "string \<Rightarrow> unit option"
  wj_get_history :: "string \<Rightarrow> GetHistoryRequest option"
  wj_get_subaddress :: "string \<Rightarrow> GetSubaddressRequest option"
  wj_create_transaction :: "string \<Rightarrow> (u64 \<times> Integrated) list option"
  wj_set_delegate_transaction :: "string \<Rightarrow> u64 option"
  wj_stake_transaction :: "string \<Rightarrow> u64 option"
  wj_unstake_transaction :: "string \<Rightarrow> u64 option"
  wj_submit_transaction :: "string \<Rightarrow> bytes option"
  wj_refresh :: "string \<Rightarrow> unit option"
  wj_GetBalanceResponse :: "GetBalanceResponse \<Rightarrow> 'j any"
  wj_GetHistoryResponse :: "TxInfo list \<times> u64 \<Rightarrow> 'j any"
  wj_GetSubaddressResponse :: "received \<Rightarrow> 'j any"
  wj_CreateTransactionResponse :: "CreateTransactionResponse \<Rightarrow> 'j any"
  wj_SubmitTransactionResponse :: "hash \<Rightarrow> 'j any"
  wj_RefreshResponse :: "bool \<Rightarrow> 'j any"
  wj_ResponseOut :: "'j ResponseOut \<Rightarrow> 'j any"

text \<open>What is written for the outcome of a handler; \<open>net/http\<close> ends a request whose handler panics.\<close>

fun write_reply :: "('r \<Rightarrow> 'j any) \<Rightarrow> 'r response \<Rightarrow> 'j Context \<Rightarrow> 'j Context" where
  "write_reply marshal (SuccessResponse r) c = cx_SuccessResponse (marshal r) c"
| "write_reply marshal (ErrorResponse code m) c = cx_ErrorResponse \<lparr>er_Code = code, er_Message = m\<rparr> c"
| "write_reply marshal (Crashed m) c = c"

definition on_params ::
  "(string \<Rightarrow> 'p option) \<Rightarrow> ('r \<Rightarrow> 'j any) \<Rightarrow> ('p \<Rightarrow> Wallet \<Rightarrow> Wallet \<times> 'r response) \<Rightarrow> (Wallet, 'j) Handler" where
  "on_params unmarshal marshal f c w =
     (case GetParams unmarshal c of
        (c, None) \<Rightarrow> (w, c)
      | (c, Some p) \<Rightarrow> let (w, r) = f p w in (w, write_reply marshal r c))"

text \<open>Two handlers write an error of their own after the one of \<^const>\<open>GetParams\<close>.\<close>

definition on_params_again ::
  "(string \<Rightarrow> 'p option) \<Rightarrow> ('j Context \<Rightarrow> 'r \<Rightarrow> 'j any) \<Rightarrow> ('p \<Rightarrow> Wallet \<Rightarrow> Wallet \<times> 'r response) \<Rightarrow> (Wallet, 'j) Handler" where
  "on_params_again unmarshal marshal f c w =
     (case GetParams unmarshal c of
        (c, None) \<Rightarrow> (w, cx_ErrorResponse \<lparr>er_Code = invalidJson, er_Message = sInvalidJson\<rparr> c)
      | (c, Some p) \<Rightarrow> let (w, r) = f p w in (w, write_reply (marshal c) r c))"

text \<open>A list of pages without an end is read forever: the wallet was refreshed, nothing is written.\<close>

definition on_subaddress :: "daemon \<Rightarrow> 'j wallet_json \<Rightarrow> (Wallet, 'j) Handler" where
  "on_subaddress dm js c w =
     (case GetParams (wj_get_subaddress js) c of
        (c, None) \<Rightarrow> (w, c)
      | (c, Some p) \<Rightarrow>
          (case get_subaddress dm w p of
             None \<Rightarrow> (fst (wallet_Refresh dm w), c)
           | Some (w, r) \<Rightarrow> (w, write_reply (wj_GetSubaddressResponse js) r c)))"

text \<open>The result of \<open>refresh\<close> is a whole response inside the response.\<close>

definition refresh_result :: "'j wallet_json \<Rightarrow> 'j Context \<Rightarrow> bool \<Rightarrow> 'j any" where
  "refresh_result js c ok =
     wj_ResponseOut js \<lparr>out_JsonRpc = ''2.0'', out_Result = wj_RefreshResponse js ok, out_Error = None, out_Id = in_Id (cx_Body c)\<rparr>"

definition startRpcServer :: "'x crypto_scheme \<Rightarrow> daemon \<Rightarrow> 'j wallet_json \<Rightarrow> Wallet \<Rightarrow> string \<Rightarrow> (Wallet, 'j) rpc_Server" where
  "startRpcServer e dm js w auth =
     fold (\<lambda>(method, f). Handle method f)
       [(''get_balance'', on_params (wj_get_balance js) (wj_GetBalanceResponse js) (\<lambda>_. get_balance dm)),
        (''get_history'', on_params (wj_get_history js) (wj_GetHistoryResponse js) (\<lambda>p w. (w, get_history dm w p))),
        (''get_subaddress'', on_subaddress dm js),
        (''create_transaction'', on_params (wj_create_transaction js) (wj_CreateTransactionResponse js)
           (\<lambda>p w. create_transaction e dm w p)),
        (''set_delegate_transaction'', on_params (wj_set_delegate_transaction js) (wj_CreateTransactionResponse js)
           (\<lambda>p w. set_delegate_transaction e dm w p)),
        (''stake_transaction'', on_params (wj_stake_transaction js) (wj_CreateTransactionResponse js)
           (\<lambda>p w. stake_transaction e dm w p)),
        (''unstake_transaction'', on_params (wj_unstake_transaction js) (wj_CreateTransactionResponse js)
           (\<lambda>p w. unstake_transaction e dm w p)),
        (''submit_transaction'', on_params_again (wj_submit_transaction js) (\<lambda>_. wj_SubmitTransactionResponse js)
           (\<lambda>p w. (w, wallet_submit_transaction dm w p))),
        (''refresh'', on_params_again (wj_refresh js) (refresh_result js) (\<lambda>_. wallet_refresh dm))]
       (Server_New \<lparr>Restricted = True, Authentication = auth, RateLimit = 250\<rparr> w)"

text \<open>
  The end of the main function of the wallet: credentials with fewer than seven characters only make a line of the
  log. The option has no default other than the empty text.
\<close>

definition wallet_main_rpc ::
  "'x crypto_scheme \<Rightarrow> daemon \<Rightarrow> 'j wallet_json \<Rightarrow> Wallet \<Rightarrow> nat \<Rightarrow> string \<Rightarrow> string list \<times> (Wallet, 'j) rpc_Server option" where
  "wallet_main_rpc e dm js w rpc_bind_port rpc_auth =
     (if rpc_bind_port \<noteq> 0
      then (if length rpc_auth < 7 then [''rpc-auth is invalid or too short''] else [],
            Some (startRpcServer e dm js w rpc_auth))
      else ([], None))"

section \<open>What the server answers\<close>

lemma wallet_server:
  "sv_config (startRpcServer e dm js w auth) = \<lparr>Restricted = True, Authentication = auth, RateLimit = 250\<rparr>"
  "sv_limit (startRpcServer e dm js w auth) = ratelimit_New 250"
  "sv_state (startRpcServer e dm js w auth) = w"
  by (simp_all add: startRpcServer_def Handle_def Server_New_def)

lemma wallet_handlers:
  "sv_handlers (startRpcServer e dm js w auth) ''create_transaction'' =
     Some (on_params (wj_create_transaction js) (wj_CreateTransactionResponse js) (\<lambda>p w. create_transaction e dm w p))"
  "sv_handlers (startRpcServer e dm js w auth) ''submit_transaction'' =
     Some (on_params_again (wj_submit_transaction js) (\<lambda>_. wj_SubmitTransactionResponse js)
             (\<lambda>p w. (w, wallet_submit_transaction dm w p)))"
  by (simp_all add: startRpcServer_def Handle_def Server_New_def)

lemma first_action: "0 \<le> t \<Longrightarrow> 0 < m \<Longrightarrow> snd (CanAct t ip 1 (ratelimit_New m))"
  by (simp add: CanAct_answer ratelimit_New_def info_of_def Let_def)

text \<open>The documents that a reply writes.\<close>

fun written :: "('r \<Rightarrow> 'j any) \<Rightarrow> 'j any \<Rightarrow> 'r response \<Rightarrow> 'j ResponseOut list" where
  "written marshal i (SuccessResponse r) = [\<lparr>out_JsonRpc = ''2.0'', out_Result = marshal r, out_Error = None, out_Id = i\<rparr>]"
| "written marshal i (ErrorResponse code m) = [error_out code m i]"
| "written marshal i (Crashed m) = []"

lemma write_reply_body: "rs_Body (cx_res (write_reply marshal r c)) = rs_Body (cx_res c) @ written marshal (in_Id (cx_Body c)) r"
  by (cases r) (simp_all add: cx_SuccessResponse_def cx_ErrorResponse_def cx_Response_def WriteJSON_def error_out_def)

lemma on_params_body:
  assumes "unmarshal (case in_Params (cx_Body c) of None \<Rightarrow> [] | Some p \<Rightarrow> p) = Some p" and "f p w = (w', r)"
  shows "fst (on_params unmarshal marshal f c w) = w'"
    "rs_Body (cx_res (snd (on_params unmarshal marshal f c w))) =
       rs_Body (cx_res c) @ written marshal (in_Id (cx_Body c)) r"
  using assms by (simp_all add: on_params_def GetParams_def write_reply_body)

lemma create_transaction_answered:
  assumes req: "hr_Method req = ''POST''" "origin_ok (hr_Origin req)" "auth \<noteq> [] \<longrightarrow> authorized auth req"
    and body: "hr_Body req = Some body" "2 \<le> length body" "wj_request js body = (r, True)" "in_JsonRpc r = ''2.0''"
    and call: "strings_ToLower (in_Method r) = ''create_transaction''"
      "wj_create_transaction js (case in_Params r of None \<Rightarrow> [] | Some p \<Rightarrow> p) = Some outputs"
    and made: "create_transaction e dm w outputs = (w', resp)" and t: "0 \<le> t"
  shows "\<exists>s res. handler (wj_request js) (t, t', req) (startRpcServer e dm js w auth) = (s, res, None) \<and>
           sv_state s = w' \<and> rs_Body res = written (wj_CreateTransactionResponse js) (in_Id r) resp"
proof -
  let ?s = "startRpcServer e dm js w auth"
  let ?f = "on_params (wj_create_transaction js) (wj_CreateTransactionResponse js) (\<lambda>p w. create_transaction e dm w p)"
  have can: "snd (CanAct t (request_ip req) 1 (sv_limit ?s))"
    using t by (simp add: wallet_server first_action)
  have h: "sv_handlers ?s (strings_ToLower (in_Method r)) = Some ?f"
    by (simp add: call wallet_handlers)
  obtain res l where res: "rs_Body res = []"
    and run: "handler (wj_request js) (t, t', req) ?s =
       (let (st, ctx) = ?f (NewContext res (r\<lparr>in_Params := Some (case in_Params r of None \<Rightarrow> [] | Some p \<Rightarrow> p),
                                               in_Method := strings_ToLower (in_Method r)\<rparr>)) w
        in (?s\<lparr>sv_limit := l, sv_state := st\<rparr>, cx_res ctx, None))"
  proof (rule handler_runs [of req t ?s body "wj_request js" r ?f t'])
    show "Restricted (sv_config ?s) \<Longrightarrow> origin_ok (hr_Origin req)"
      "Authentication (sv_config ?s) \<noteq> [] \<Longrightarrow> authorized (Authentication (sv_config ?s)) req"
      using req(2,3) by (simp_all add: wallet_server)
  qed (use req(1) can body h in \<open>simp_all add: wallet_server\<close>)
  show ?thesis
    unfolding run
    using on_params_body [of "wj_create_transaction js" "NewContext res (r\<lparr>in_Params :=
        Some (case in_Params r of None \<Rightarrow> [] | Some p \<Rightarrow> p), in_Method := strings_ToLower (in_Method r)\<rparr>)" outputs
        "\<lambda>p w. create_transaction e dm w p" w w' resp "wj_CreateTransactionResponse js"]
      call(2) made res
    by (simp add: split_beta NewContext_def)
qed

text \<open>Parameters that cannot be read: two documents are written for \<open>submit_transaction\<close>.\<close>

lemma submit_params_twice:
  assumes "wj_submit_transaction js (case in_Params (cx_Body c) of None \<Rightarrow> [] | Some p \<Rightarrow> p) = None"
  shows "rs_Body (cx_res (snd (on_params_again (wj_submit_transaction js) marshal f c w))) =
    rs_Body (cx_res c) @ replicate 2 (error_out invalidJson sInvalidJson (in_Id (cx_Body c)))"
  using assms
  by (simp add: on_params_again_def GetParams_def cx_ErrorResponse_def cx_Response_def WriteJSON_def error_out_def numeral_2_eq_2)

end
