(* ===== verification/WalletMain.thy ===== *)
theory WalletMain
  imports WalletCli WalletFiles WalletServer
begin

text \<open>
  The main function of the wallet, \<^verbatim>\<open>src/cmd/virel-wallet-cli/wallet.go\<close>: the key file is opened, the server and the staker
  are started, and the session reads its commands. The parts are those of \<open>WalletFiles\<close>, \<open>WalletServer\<close> and \<open>WalletCli\<close>;
  what a run is made of is the record \<open>wallet_run\<close>. The server and the staker share the wallet with the session and run
  beside it, which is not modelled: the session is the one without requests to the server.
\<close>

record wallet_flags =
  fl_rpc_bind_port :: nat
  fl_rpc_auth :: string
  fl_open_wallet :: string
  fl_wallet_password :: string
  fl_non_interactive :: bool
  fl_start_staking :: string

text \<open>A wallet with the keys of a file, before it has asked the node for anything.\<close>

definition loaded :: "dbInfo \<Rightarrow> Wallet" where
  "loaded info =
     \<lparr>wal_PrivateKey = db_PrivateKey info, wal_Address = Addr (db_Address info), wal_height = 0, wal_balance = 0,
      wal_lastNonce = 0, wal_mempoolBal = 0, wal_mempoolNonce = 0, wal_delegateId = 0, wal_delegateName = [],
      wal_stakedBalance = 0, wal_stakedUnlock = 0\<rparr>"

text \<open>The characters that the name of a wallet given as an option must not have: a slash, a dot, a space, a backslash, a dollar.\<close>

definition wallet_name_ok :: "string \<Rightarrow> bool" where
  "wallet_name_ok wallname \<longleftrightarrow> list_all (\<lambda>ch. ch \<notin> {CHR ''/'', CHR ''.'', CHR '' '', CHR 0x5C, CHR ''$''}) wallname"

definition open_flag :: "'y net_crypto_scheme \<Rightarrow> 'x seed_lib_scheme \<Rightarrow> files \<Rightarrow> wallet_flags \<Rightarrow> dbInfo option" where
  "open_flag c lib fs fl =
     (if \<not> wallet_name_ok (fl_open_wallet fl) then None
      else case OpenWalletFile c lib fs (fl_open_wallet fl @ ''.keys'') (fl_wallet_password fl) of
             Inl _ \<Rightarrow> None | Inr info \<Rightarrow> Some info)"

record 'j wallet_run =
  run_files :: files
  run_info :: "dbInfo option"
  run_log :: "string list"
  run_server :: "(Wallet, 'j) rpc_Server option"
  run_staking :: "address option"
  run_session :: "cli option"

text \<open>The first refresh may fail; without interaction, the program then waits forever.\<close>

definition start_session :: "'y crypto_scheme \<Rightarrow> go_float \<Rightarrow> daemon \<Rightarrow> wallet_flags \<Rightarrow> Wallet \<Rightarrow> string option list \<Rightarrow> cli option" where
  "start_session c g dm fl w ins =
     (let s = \<lparr>cli_wallet = w, cli_input = ins, cli_events = [], cli_exited = False\<rparr>
      in if fl_non_interactive fl then None else Some (prompts c g dm (cmd_status dm s)))"

definition wallet_main ::
  "'y net_crypto_scheme \<Rightarrow> 'x seed_lib_scheme \<Rightarrow> go_float \<Rightarrow> daemon \<Rightarrow> 'j wallet_json \<Rightarrow> (nat \<Rightarrow> bytes \<times> random) \<Rightarrow>
   wallet_flags \<Rightarrow> files \<Rightarrow> string option list \<Rightarrow> string option list \<Rightarrow> 'j wallet_run" where
  "wallet_main c lib g dm js rnds fl fs ins ins' =
     (let (fs, opened) =
        (if fl_open_wallet fl \<noteq> [] then (fs, open_flag c lib fs fl) else initialPrompt c lib rnds fs ins)
      in case opened of
           None \<Rightarrow> \<lparr>run_files = fs, run_info = None, run_log = [], run_server = None, run_staking = None, run_session = None\<rparr>
         | Some info \<Rightarrow>
             let w = loaded info; (log, server) = wallet_main_rpc c dm js w (fl_rpc_bind_port fl) (fl_rpc_auth fl);
                 run = \<lparr>run_files = fs, run_info = Some info, run_log = log, run_server = server, run_staking = None, run_session = None\<rparr>
             in if wal_Address w = INVALID_ADDRESS then run\<lparr>run_server := None\<rparr>
                else if fl_start_staking fl \<noteq> [] then
                  case FromString (fl_start_staking fl) of
                    Inl _ \<Rightarrow> run\<lparr>run_server := None\<rparr>
                  | Inr delegateAddr \<Rightarrow> run\<lparr>run_staking := Some (Addr delegateAddr), run_session := start_session c g dm fl w ins'\<rparr>
                else run\<lparr>run_session := start_session c g dm fl w ins'\<rparr>)"

section \<open>Whose keys a session signs with\<close>

lemma loaded_fields [simp]:
  "wal_PrivateKey (loaded info) = db_PrivateKey info" "wal_Address (loaded info) = Addr (db_Address info)"
  by (simp_all add: loaded_def)

lemma main_files:
  assumes "wallet_main c lib g dm js rnds fl fs ins ins' = r"
  shows "fs \<subseteq>\<^sub>m run_files r"
  using assms initialPrompt_keeps [of fs c lib rnds ins]
  by (auto simp: wallet_main_def Let_def split_beta split: if_splits option.splits sum.splits)

lemma session_ok:
  assumes "start_session c g dm fl w ins = Some s"
  shows "cli_exited s" "cli_ok c (wal_PrivateKey w) s"
proof -
  let ?s = "\<lparr>cli_wallet = w, cli_input = ins, cli_events = [], cli_exited = False\<rparr>"
  have "cli_ok c (wal_PrivateKey w) ?s" by (simp add: cli_ok_def)
  then have "cli_ok c (wal_PrivateKey w) (cmd_status dm ?s)" using step_status [of c ?s dm] by (simp add: cli_step_def)
  from prompts_ok [OF this, of g dm] show "cli_exited s" "cli_ok c (wal_PrivateKey w) s"
    using assms by (auto simp: start_session_def Let_def split: if_splits)
qed

lemma main_session:
  assumes "wallet_main c lib g dm js rnds fl fs ins ins' = r" "run_session r = Some s"
  obtains info where "run_info r = Some info" "Addr (db_Address info) \<noteq> INVALID_ADDRESS"
    "start_session c g dm fl (loaded info) ins' = Some s"
  using assms that
  by (auto simp: wallet_main_def Let_def split_beta split: if_splits option.splits sum.splits)

end
