(* ===== verification/PeerScenario.thy ===== *)
theory PeerScenario
  imports Peers
begin

text \<open>
  Concrete nodes for the theorems on peers: a cipher that appends sixteen zeros, a key exchange that is exclusive or, a
  node that is dialled twice by the same peer at the same time, and two nodes that exchange a packet.
\<close>

definition nc :: net_crypto where
  "nc = \<lparr>blake3_Sum256 = \<lambda>b. arr_of (take 32 (rev b @ replicate 32 0)), randomvirel_PowHash = \<lambda>_ _. 0,
     ed25519_Verify = \<lambda>_ _ _. True, ed25519_Sign = \<lambda>_ _. 0,
     gcm_Seal = \<lambda>_ _ d. d @ replicate 16 0, gcm_Open = \<lambda>_ _ d. Some (take (length d - 16) d),
     x25519_Public = \<lambda>a. a, x25519_ECDH = \<lambda>a b. Some (arr_bytes (a XOR b))\<rparr>"

lemma nc_ok: "aead_ok nc" "ecdh_ok nc"
  by (simp_all add: aead_ok_def ecdh_ok_def nc_def xor.commute)

definition nc_ParseIP :: "bytes \<Rightarrow> bytes option" where
  "nc_ParseIP s = (if length s < 2 then None else Some s)"

text \<open>Both connections are checked before either has the id of the peer.\<close>

definition tw_start :: P2P where "tw_start = Start 5 [] False []"
definition tw_hand :: Handshake where
  "tw_hand = \<lparr>hs_Version = VERSION, hs_P2PVersion = P2P_VERSION, hs_PeerID = 7, hs_P2PPort = 0\<rparr>"
definition tw_conn :: ConnData where
  "tw_conn = \<lparr>cd_IP = [1], cd_Outgoing = False, cd_PeerId = 7, cd_LastPing = 0,
     cd_Cipher = Some (blake3_Sum256 nc (BinaryNetworkID @ arr_bytes (5 XOR 7 :: hash)))\<rparr>"
abbreviation tw_conns :: "(string \<times> ConnData) list \<Rightarrow> P2P" where
  "tw_conns conns \<equiv> tw_start\<lparr>p2_Connections := conns\<rparr>"

abbreviation tw_new :: ConnData where "tw_new \<equiv> NewConnection 0 [1] False"

definition tw_end :: P2P where "tw_end = tw_conns [(''a'', tw_conn), (''b'', tw_conn)]"
definition tw_pc :: "string \<rightharpoonup> hs_phase" where "tw_pc = [''a'' \<mapsto> Serving, ''b'' \<mapsto> Serving]"

lemma tw_check:
  "after_check ''a'' (Handshake_WriteTo tw_hand) (tw_conns [(''a'', tw_new), (''b'', tw_new)]) = Checked tw_hand"
  "after_check ''b'' (Handshake_WriteTo tw_hand) (tw_conns [(''a'', tw_new), (''b'', tw_new)]) = Checked tw_hand"
  using Handshake_codec [of tw_hand "[]"]
  by (simp_all add: after_check_def hs_check_def same_id_def NewConnection_def tw_hand_def P2P_VERSION_def)

lemma tw_session: "session_key nc (p2_Privkey tw_start) 7 = Inr (blake3_Sum256 nc (BinaryNetworkID @ arr_bytes (5 XOR 7 :: hash)))"
  by (simp add: session_key_def nc_def tw_start_def Start_def)

lemma tw_key:
  "hs_key nc ''a'' tw_hand (tw_conns [(''a'', tw_new), (''b'', tw_new)]) = (tw_conns [(''a'', tw_conn), (''b'', tw_new)], None)"
  "hs_key nc ''b'' tw_hand (tw_conns [(''a'', tw_conn), (''b'', tw_new)]) = (tw_conns [(''a'', tw_conn), (''b'', tw_conn)], None)"
proof -
  have "PeerId nc tw_start = 5" by (simp add: PeerId_def nc_def tw_start_def Start_def)
  then have self: "PeerId nc (tw_start\<lparr>p2_Connections := x\<rparr>) \<noteq> 7" for x by (simp add: PeerId_def)
  note tw = hs_key_def update_conn_def NewConnection_def tw_conn_def tw_hand_def
  show "hs_key nc ''a'' tw_hand (tw_conns [(''a'', tw_new), (''b'', tw_new)]) = (tw_conns [(''a'', tw_conn), (''b'', tw_new)], None)"
    using self tw_session by (auto simp: tw)
  show "hs_key nc ''b'' tw_hand (tw_conns [(''a'', tw_conn), (''b'', tw_new)]) = (tw_conns [(''a'', tw_conn), (''b'', tw_conn)], None)"
    using self tw_session by (auto simp: tw)
qed

lemma tw_run: "p2p_run nc nc_ParseIP tw_end tw_pc"
proof -
  let ?p = "tw_conns [(''a'', tw_new), (''b'', tw_new)]"
  have "p2p_run nc nc_ParseIP tw_start Map.empty"
    unfolding tw_start_def by (rule p2p_run.start) (simp add: peerlist_ok_def)
  then have "p2p_run nc nc_ParseIP (tw_conns [(''a'', tw_new)]) [''a'' \<mapsto> Reading]"
    by (rule p2p_run.accept [where now = 0 and ip = "[1]"])
      (simp add: accept_connection_def handleConnection_def tw_start_def Start_def)
  then have "p2p_run nc nc_ParseIP ?p [''a'' \<mapsto> Reading, ''b'' \<mapsto> Reading]"
    by (rule p2p_run.accept [where now = 0 and ip = "[1]"])
      (simp add: accept_connection_def handleConnection_def tw_start_def Start_def)
  from p2p_run.check [OF this, of "''a''" "Handshake_WriteTo tw_hand"]
  have "p2p_run nc nc_ParseIP ?p [''a'' \<mapsto> Checked tw_hand, ''b'' \<mapsto> Reading]" by (simp add: tw_check fun_upd_twist)
  from p2p_run.check [OF this, of "''b''" "Handshake_WriteTo tw_hand"]
  have "p2p_run nc nc_ParseIP ?p [''a'' \<mapsto> Checked tw_hand, ''b'' \<mapsto> Checked tw_hand]" by (simp add: tw_check fun_upd_twist)
  from p2p_run.key [OF this _ tw_key(1)]
  have "p2p_run nc nc_ParseIP (tw_conns [(''a'', tw_conn), (''b'', tw_new)]) [''a'' \<mapsto> Keyed tw_hand, ''b'' \<mapsto> Checked tw_hand]"
    by (simp add: fun_upd_twist)
  from p2p_run.key [OF this _ tw_key(2)]
  have "p2p_run nc nc_ParseIP tw_end [''a'' \<mapsto> Keyed tw_hand, ''b'' \<mapsto> Keyed tw_hand]"
    by (simp add: fun_upd_twist tw_end_def)
  then have keyed: "p2p_run nc nc_ParseIP tw_end [''a'' \<mapsto> Keyed tw_hand, ''b'' \<mapsto> Keyed tw_hand]" .
  have ok: "hs_again ''a'' tw_hand tw_end = None" "hs_again ''b'' tw_hand tw_end = None"
    by (simp_all add: hs_again_def same_id_def tw_end_def tw_conn_def tw_hand_def)
  from p2p_run.again [OF keyed, of "''a''" tw_hand]
  have "p2p_run nc nc_ParseIP tw_end [''a'' \<mapsto> Serving, ''b'' \<mapsto> Keyed tw_hand]"
    by (simp add: fun_upd_twist ok)
  from p2p_run.again [OF this, of "''b''" tw_hand]
  show ?thesis by (simp add: fun_upd_twist ok tw_pc_def)
qed

text \<open>Two nodes with one connection each, and a packet with three bytes.\<close>

definition dl_p :: P2P where "dl_p = tw_conns [(''q'', tw_new)]"
definition dl_q :: P2P where "dl_q = (tw_conns [(''p'', tw_new)])\<lparr>p2_Privkey := 7\<rparr>"
definition dl_p' :: P2P where "dl_p' = fst (hs_key nc ''q'' (own_handshake nc False dl_q) dl_p)"
definition dl_q' :: P2P where "dl_q' = fst (hs_key nc ''p'' (own_handshake nc False dl_p) dl_q)"
definition dl_packet :: Packet where "dl_packet = \<lparr>pk_Type = 3, pk_Data = [1, 2, 3], pk_Conn = ''q''\<rparr>"
definition dl_bytes :: bytes where
  "dl_bytes = AddUint32 33 @ replicate 12 9 @ AddUint16 5 @ [1, 2, 3] @ replicate 16 0"

lemma dl_ids: "PeerId nc dl_p = 5" "PeerId nc dl_q = 7"
  by (simp_all add: PeerId_def nc_def dl_p_def dl_q_def tw_start_def Start_def)

lemma dl_keys:
  "hs_key nc ''q'' (own_handshake nc False dl_q) dl_p = (dl_p', None)"
  "hs_key nc ''p'' (own_handshake nc False dl_p) dl_q = (dl_q', None)"
proof -
  have "session_key nc (p2_Privkey p) pid = Inr (blake3_Sum256 nc (BinaryNetworkID @ arr_bytes (p2_Privkey p XOR pid)))" for p :: P2P and pid
    by (simp add: session_key_def nc_def)
  moreover have "PeerId nc (update_conn k f p) = PeerId nc p" for k f and p :: P2P by (simp add: PeerId_def update_conn_def)
  ultimately show "hs_key nc ''q'' (own_handshake nc False dl_q) dl_p = (dl_p', None)"
    "hs_key nc ''p'' (own_handshake nc False dl_p) dl_q = (dl_q', None)"
    by (simp_all add: dl_p'_def dl_q'_def hs_key_def Let_def own_handshake_def dl_ids)
qed

lemma dl_sent: "sendPacketLock nc (conn_cipher ''q'' dl_p') (replicate 12 9) (SendPacket dl_packet) = Inr dl_bytes"
proof -
  have "map_of (p2_Connections dl_p) ''q'' = Some tw_new" by (simp add: dl_p_def)
  then obtain key where "conn_cipher ''q'' dl_p' = Some key"
    using hs_key_cipher [OF dl_keys(1)] by (auto simp: conn_cipher_def)
  then show ?thesis
    by (simp add: sendPacketLock_def Encrypt_def nc_def SendPacket_def dl_packet_def dl_bytes_def AddFixedByteArray_def AddUint16_def)
qed

end
