(* ===== verification/WalletScenario.thy ===== *)
theory WalletScenario
  imports WalletServer RpcScenario
begin

text \<open>
  A delegate whose staker signs a block of the node, a wallet with thirty incoming transactions, and the server of a
  wallet with clients of two addresses.
\<close>

definition sk_wallet :: Wallet where
  "sk_wallet = \<lparr>wal_PrivateKey = 0, wal_Address = wp_addr, wal_height = 0, wal_balance = 0, wal_lastNonce = 0, wal_mempoolBal = 0,
     wal_mempoolNonce = 0, wal_delegateId = 0, wal_delegateName = [], wal_stakedBalance = 0, wal_stakedUnlock = 0\<rparr>"

definition sk_block :: Block where
  "sk_block = w_wf_block\<lparr>Version := 1, NextDelegateId := 1\<rparr>"

definition sk_delegate :: Delegate where
  "sk_delegate = \<lparr>d_Id = 1, d_Owner = Privkey_Public 0, d_Name = [], d_Funds = []\<rparr>"

definition sk_store :: mem where
  "sk_store = fst (bc_SetDelegate we (fst (insertBlockMain we mem_empty sk_block)) sk_delegate)"

lemma sk_wf: "block_wf sk_block" "delegate_wf sk_delegate"
  using w_wf_block_wf by (simp_all add: sk_block_def sk_delegate_def block_wf_def header_wf_def delegate_wf_def)

lemma sk_reads:
  "GetBlockByHeight we sk_store (Height sk_block) = Inr sk_block" "GetBlock we sk_store (Block_Hash we sk_block) = Inr sk_block"
  "GetDelegate we sk_store 1 = Inr sk_delegate" "GetStakeSig we sk_store h = Inl (Err ''no stake signature found'')"
proof -
  let ?t = "kv_put we (kv_put we mem_empty IdxBlock (arr_bytes (Block_Hash we sk_block)) (Block_Serialize sk_block))
    IdxTopo (u64_key (Height sk_block)) (arr_bytes (Block_Hash we sk_block))"
  have store: "sk_store = kv_put we ?t IdxDelegate (u64_key (d_Id sk_delegate)) (Delegate_Serialize sk_delegate)"
    by (simp add: sk_store_def bc_SetDelegate_def insertBlockMain_def Let_def mem.kvPut_eq del: mem_ext_simps)
  show "GetDelegate we sk_store 1 = Inr sk_delegate"
    unfolding store using mem.GetDelegate_put [OF sk_wf(2)] by (simp add: sk_delegate_def del: mem_ext_simps)
  show bl: "GetBlock we sk_store (Block_Hash we sk_block) = Inr sk_block"
    using mem.GetBlock_insertBlock [OF sk_wf(1), of toy_crypto mem_empty "Block_Hash we sk_block" "Block_Hash we sk_block"]
    by (simp add: store insertBlock_def mem.kvPut_eq GetBlock_def del: mem_ext_simps)
  have "GetTopo we sk_store (Height sk_block) = Inr (Block_Hash we sk_block)"
    by (simp add: store GetTopo_def del: mem_ext_simps)
  then show "GetBlockByHeight we sk_store (Height sk_block) = Inr sk_block" using bl by (simp add: GetBlockByHeight_def)
  have "kvGet we mem_empty i k = None" for i k by (simp add: mem_empty_def)
  then show "GetStakeSig we sk_store h = Inl (Err ''no stake signature found'')"
    by (simp add: store GetStakeSig_def del: mem_ext_simps)
qed

lemma sk_signs: "signs we k"
  by (simp add: signs_def toy_crypto_def)

definition sa_daemon :: daemon where
  "sa_daemon = \<lparr>dm_GetAddress = \<lambda>_. Inr \<lparr>ga_Balance = 5, ga_LastNonce = 0, ga_LastIncoming = 30, ga_MempoolBalance = 5,
       ga_MempoolNonce = 0, ga_MempoolIncoming = 30, ga_DelegateId = 0, ga_Height = 9\<rparr>,
     dm_GetDelegate = \<lambda>_. Inl (Err []), dm_GetTxList = \<lambda>a ty p. client (get_tx_list wp (wq_store 30) a ty p),
     dm_GetTransaction = \<lambda>_. Inl (Err []), dm_SubmitTx = \<lambda>_. Inl (Err [])\<rparr>"

lemma sa_refresh: "\<exists>w'. wallet_Refresh sa_daemon sk_wallet = (w', None)"
  by (simp add: wallet_Refresh_def Refresh_def sa_daemon_def)

section \<open>Clients of the server of a wallet\<close>

text \<open>The JSON of one method: every body is a request for two payments, every result is a number of JSON.\<close>

definition ws_json :: "nat wallet_json" where
  "ws_json = \<lparr>wj_request = \<lambda>_. (\<lparr>in_JsonRpc = ''2.0'', in_Method = ''Create_Transaction'', in_Params = None, in_Id = Json_any 3\<rparr>, True),
     wj_get_balance = \<lambda>_. None, wj_get_history = \<lambda>_. None, wj_get_subaddress = \<lambda>_. None,
     wj_create_transaction = \<lambda>_. Some [(60, Integrated 2 0), (40, Integrated 2 0)],
     wj_set_delegate_transaction = \<lambda>_. None, wj_stake_transaction = \<lambda>_. None, wj_unstake_transaction = \<lambda>_. None,
     wj_submit_transaction = \<lambda>_. None, wj_refresh = \<lambda>_. None, wj_GetBalanceResponse = \<lambda>_. Nil_any,
     wj_GetHistoryResponse = \<lambda>_. Nil_any, wj_GetSubaddressResponse = \<lambda>_. Nil_any,
     wj_CreateTransactionResponse = \<lambda>r. Json_any (unat (ct_Fee r)), wj_SubmitTransactionResponse = \<lambda>_. Nil_any,
     wj_RefreshResponse = \<lambda>_. Nil_any, wj_ResponseOut = \<lambda>_. Nil_any\<rparr>"

definition ws_daemon :: daemon where
  "ws_daemon = \<lparr>dm_GetAddress = \<lambda>_. Inr wr_response, dm_GetDelegate = \<lambda>_. Inl (Err []), dm_GetTxList = \<lambda>_ _ _. Inl (Err []),
     dm_GetTransaction = \<lambda>_. Inl (Err []), dm_SubmitTx = \<lambda>_. Inl (Err [])\<rparr>"

definition ws_request :: "string \<Rightarrow> (string \<times> string) option \<Rightarrow> HttpRequest" where
  "ws_request a login =
     \<lparr>hr_Method = ''POST'', hr_RemoteAddr = a @ '':4000'', hr_Origin = [], hr_BasicAuth = login, hr_Body = Some ''{}''\<rparr>"

lemma ws_transfer: "\<exists>tx. Wallet_Transfer wp wr_wallet ww_outs False = Inr tx"
  using wp_addr(3)
  by (simp add: Wallet_Transfer_def checkAndSignTx_def wallet_tx_def ww_merged ww_wallet_def wr_wallet_def Refresh_def wr_response_def
      ww_outs_def Let_def GetVirtualSize_def base_overhead_def output_overhead_def SIZE_def Transfer_TotalAmount_def
      value_or_zero_def config_defs del: mem_ext_simps)

lemma ws_created:
  "\<exists>x. create_transaction wp ws_daemon ww_wallet [(60, Integrated 2 0), (40, Integrated 2 0)] = (wr_wallet, SuccessResponse x)"
proof -
  have refresh: "wallet_Refresh ws_daemon ww_wallet = (wr_wallet, None)"
    by (simp add: wallet_Refresh_def ws_daemon_def wr_wallet_def Refresh_def wr_response_def)
  have height: "wal_height wr_wallet = 99999" by (simp add: wr_wallet_def Refresh_def wr_response_def)
  obtain tx where "Wallet_Transfer wp wr_wallet ww_outs False = Inr tx" using ws_transfer by blast
  then show ?thesis
    by (simp add: create_transaction_def refreshed_def refresh height created_def ww_outs_def config_defs INVALID_ADDRESS_def
        del: mem_ext_simps)
qed

lemma ws_method: "strings_ToLower ''Create_Transaction'' = ''create_transaction''"
  by code_simp

lemma ws_call:
  "request_ip (ws_request ''10.0.0.1'' login) = ''10.0.0.1''" "request_ip (ws_request ''10.0.0.2'' login) = ''10.0.0.2''"
  by (simp_all add: request_ip_def ws_request_def)

end
