(* ===== verification/CliScenario.thy ===== *)
theory CliScenario
  imports WalletMain PeerScenario WalletScenario
begin

text \<open>
  A wallet that is created at the first prompt, with libraries that write texts byte by byte, and that then sends a
  payment that the user has typed.
\<close>

section \<open>Libraries\<close>

definition byte_char :: "u8 \<Rightarrow> char" where "byte_char b = char_of (unat b)"

definition char_byte :: "char \<Rightarrow> u8" where "char_byte ch = word_of_nat (of_char ch)"

lemma byte_chars: "byte_char (char_byte ch) = ch" "char_byte (byte_char b) = b"
proof -
  have "(of_char ch :: nat) < 256" by (rule nat_of_char_less_256)
  then show "byte_char (char_byte ch) = ch"
    by (simp add: byte_char_def char_byte_def unat_of_nat take_bit_nat_eq_self)
  have "unat b < 256" using unsigned_less [of b] by simp
  then show "char_byte (byte_char b) = b" by (simp add: byte_char_def char_byte_def)
qed

text \<open>A text with a mark before each byte and another one at its end.\<close>

fun put_text :: "string \<Rightarrow> bytes" where
  "put_text [] = [0]"
| "put_text (ch # cs) = 1 # char_byte ch # put_text cs"

fun get_text :: "bytes \<Rightarrow> string \<times> bytes" where
  "get_text (m # b # bs) = (if m = 0 then ([], b # bs) else let (s, rest) = get_text bs in (byte_char b # s, rest))"
| "get_text [m] = ([], [])"
| "get_text [] = ([], [])"

lemma get_put_text: "get_text (put_text s @ rest) = (s, rest)"
proof (induction s)
  case Nil
  show ?case by (cases rest) simp_all
qed (simp add: byte_chars)

definition cs_lib :: seed_lib where
  "cs_lib = \<lparr>sl_hmac512 = \<lambda>_ _. 0, sl_keypair = \<lambda>seed. arr_of (seed @ replicate 32 1),
     sl_NewMnemonic = \<lambda>b. Inr (map byte_char b), sl_EntropyFromMnemonic = \<lambda>s. Inr (map char_byte s), sl_KDF = \<lambda>_ _ _ _. 0,
     sl_marshal = \<lambda>(nid, mn, key, addr, pub). arr_bytes nid @ arr_bytes key @ arr_bytes pub @ put_text mn @ put_text addr,
     sl_unmarshal = \<lambda>b. let (mn, r) = get_text (drop 104 b); (addr, _) = get_text r
       in Inr (arr_of (take 8 b), mn, arr_of (take 64 (drop 8 b)), addr, arr_of (take 32 (drop 72 b)))\<rparr>"

lemma cs_lib_ok: "seed_lib_ok cs_lib"
proof -
  have "map (char_byte \<circ> byte_char) b = b" for b by (rule map_idI) (simp add: byte_chars)
  moreover have "sl_unmarshal cs_lib (sl_marshal cs_lib (nid, mn, key, addr, pub)) = Inr (nid, mn, key, addr, pub)" for nid mn key addr pub
    using get_put_text [of mn "put_text addr"] get_put_text [of addr "[]"]
    by (simp add: cs_lib_def arr_of_arr_bytes)
  ultimately show ?thesis by (auto simp: seed_lib_ok_def cs_lib_def)
qed

text \<open>The address of every key is the one of the other scenarios.\<close>

definition cs_crypto :: net_crypto where
  "cs_crypto = nc\<lparr>blake3_Sum256 := \<lambda>_. arr_of (replicate 32 1)\<rparr>"

lemma cs_crypto_ok: "aead_ok cs_crypto"
  using nc_ok by (simp add: aead_ok_def cs_crypto_def)

lemma cs_address: "FromPubKey cs_crypto p = wp_addr"
  by (simp add: FromPubKey_def cs_crypto_def wp_addr_def SIZE_def arr_bytes_arr_of)

definition cs_random :: random where
  "cs_random = (replicate 16 0, replicate 12 0)"

lemma cs_random_ok: "random_ok cs_random"
  by (simp add: random_ok_def cs_random_def gcm_NonceSize_def)

section \<open>A session\<close>

definition cs_float :: go_float where
  "cs_float = \<lparr>gf_parse = \<lambda>_. Inl (Err []), gf_uint64 = \<lambda>_. 0, gf_int64 = \<lambda>_. 0\<rparr>"

definition cs_response :: GetAddressResponse where
  "cs_response = \<lparr>ga_Balance = 9000000000, ga_LastNonce = 0, ga_LastIncoming = 0, ga_MempoolBalance = 9000000000,
     ga_MempoolNonce = 0, ga_MempoolIncoming = 0, ga_DelegateId = 0, ga_Height = 99999\<rparr>"

definition cs_daemon :: daemon where
  "cs_daemon = \<lparr>dm_GetAddress = \<lambda>_. Inr cs_response, dm_GetDelegate = \<lambda>_. Inl (Err []), dm_GetTxList = \<lambda>_ _ _. Inl (Err []),
     dm_GetTransaction = \<lambda>_. Inl (Err []), dm_SubmitTx = \<lambda>_. Inr 5\<rparr>"

definition cs_wallet :: "512 word \<Rightarrow> Wallet" where
  "cs_wallet key = \<lparr>wal_PrivateKey = key, wal_Address = wp_addr, wal_height = 99999, wal_balance = 9000000000, wal_lastNonce = 0,
     wal_mempoolBal = 9000000000, wal_mempoolNonce = 0, wal_delegateId = 0, wal_delegateName = [], wal_stakedBalance = 0,
     wal_stakedUnlock = 0\<rparr>"

lemma cs_refresh:
  "wal_PrivateKey w = key \<Longrightarrow> wal_Address w = wp_addr \<Longrightarrow> wallet_Refresh cs_daemon w = (cs_wallet key, None)"
  by (cases w) (simp add: wallet_Refresh_def Refresh_def cs_daemon_def cs_response_def cs_wallet_def)

definition cs_out :: Output where "cs_out = \<lparr>Recipient = 0, PaymentId = 0, Amount = 2009999999\<rparr>"

lemma cs_parse: "ParseFloat other ''2.01'' = Inr (float_of False 201 100)"
  using short_201
  by (cases "float_of False 201 100") (simp_all add: ParseFloat_def decimal_def is_digit_def char_digit_def coins_of_def split: if_splits)

lemma cs_typed: "FromString ''burnaddress'' = Inr (Integrated 0 0)" "amount_text ''2.01'' 2010000000"
  by (simp_all add: FromString_def INVALID_ADDRESS_def Address_Integrated_def amount_text_def decimal_def is_digit_def char_digit_def)

lemma cs_outputs: "transfer_outputs cs_float 9000000000 0 [''burnaddress'', ''2.01''] = Inr [cs_out]"
  using short_201
  by (simp add: cs_parse cs_typed coins_int64_def cs_out_def)

lemma cs_transfer: "\<exists>tx. Wallet_Transfer cs_crypto (cs_wallet key) [cs_out] False = Inr tx"
  using wp_addr(2)
  by (simp add: Wallet_Transfer_def checkAndSignTx_def wallet_tx_def cs_wallet_def
      cs_out_def Let_def GetVirtualSize_def base_overhead_def output_overhead_def SIZE_def Transfer_TotalAmount_def
      value_or_zero_def config_defs)

definition cs_key :: "512 word" where "cs_key = projr (derived_key cs_lib (replicate 24 0))"

definition cs_flags :: wallet_flags where
  "cs_flags = \<lparr>fl_rpc_bind_port = 0, fl_rpc_auth = [], fl_open_wallet = [], fl_wallet_password = [], fl_non_interactive = False,
     fl_start_staking = []\<rparr>"

definition cs_run :: "nat wallet_run" where
  "cs_run = wallet_main cs_crypto cs_lib cs_float cs_daemon ws_json (\<lambda>_. (replicate 24 0, cs_random)) cs_flags Map.empty
     [Some ''create'', Some ''a'', Some ''pw'', Some ''pw''] [Some ''transfer burnaddress 2.01'', Some ''Yes'', Some ''exit'']"

lemma cs_prompt:
  obtains info where "snd (initialPrompt cs_crypto cs_lib (\<lambda>_. (replicate 24 0, cs_random)) Map.empty
      [Some ''create'', Some ''a'', Some ''pw'', Some ''pw'']) = Some info"
    "db_PrivateKey info = cs_key" "Addr (db_Address info) = wp_addr"
proof -
  obtain mnemonic key db where "derived_key cs_lib (replicate 24 0) = Inr key"
    "CreateWalletFile cs_crypto cs_lib (replicate 24 0) cs_random Map.empty ''a.keys'' ''pw'' =
       (Map.empty(''a.keys'' \<mapsto> db), Inr (wallet_info cs_crypto mnemonic key (Privkey_Public key)))"
    by (rule created_wallet [OF cs_crypto_ok cs_lib_ok cs_random_ok, of "replicate 24 0" Map.empty "''a.keys''" "''pw''"])
      (simp_all add: SEED_ENTROPY_def)
  then show ?thesis
    using that [of "wallet_info cs_crypto mnemonic key (Privkey_Public key)"]
    by (simp add: prompt_lines prompt_result_def cs_key_def wallet_info_def cs_address Address_Integrated_def)
qed

lemma cs_words:
  "strings_Split (CHR '' '') ''transfer burnaddress 2.01'' = [''transfer'', ''burnaddress'', ''2.01'']"
  "strings_Split (CHR '' '') ''exit'' = [''exit'']" "says_yes (Some ''Yes'')"
  by (simp, simp) code_simp

lemma cs_session:
  assumes "Wallet_Transfer cs_crypto (cs_wallet cs_key) [cs_out] False = Inr tx"
  shows "run_session cs_run = Some \<lparr>cli_wallet = cs_wallet cs_key, cli_input = [],
    cli_events = [Asked tx, ReadLine (Some ''Yes''), Sent tx (Inr 5), Message ''transaction has been submit''], cli_exited = True\<rparr>"
proof -
  obtain info where prompt: "snd (initialPrompt cs_crypto cs_lib (\<lambda>_. (replicate 24 0, cs_random)) Map.empty
      [Some ''create'', Some ''a'', Some ''pw'', Some ''pw'']) = Some info"
    "db_PrivateKey info = cs_key" "Addr (db_Address info) = wp_addr" by (rule cs_prompt)
  have load: "wallet_Refresh cs_daemon (loaded info) = (cs_wallet cs_key, None)" by (simp add: cs_refresh prompt)
  have again: "wallet_Refresh cs_daemon (cs_wallet cs_key) = (cs_wallet cs_key, None)"
    by (simp add: cs_refresh cs_wallet_def)
  let ?s = "\<lparr>cli_wallet = cs_wallet cs_key, cli_input = [Some ''Yes'', Some ''exit''], cli_events = [], cli_exited = False\<rparr>"
  have "cmd_transfer cs_crypto cs_float cs_daemon [''burnaddress'', ''2.01''] ?s =
    \<lparr>cli_wallet = cs_wallet cs_key, cli_input = [Some ''exit''],
     cli_events = [Asked tx, ReadLine (Some ''Yes''), Sent tx (Inr 5), Message ''transaction has been submit''], cli_exited = False\<rparr>"
    using assms cs_outputs again cs_words(3)
    by (simp add: cmd_transfer_def with_ok_def with_refresh_def ask_submit_def read_line_def add_event_def say_def cs_wallet_def
        HARDFORK_V2_HEIGHT_def cs_daemon_def)
  then show ?thesis
    using prompt load wp_addr(2)
    by (simp add: cs_run_def wallet_main_def cs_flags_def split_beta wallet_main_rpc_def start_session_def cmd_status_def
        INVALID_ADDRESS_def prompts.simps run_command_def cs_words)
qed

end
