(* ===== verification/RichList.thy ===== *)
theory RichList
  imports NodeRpc
begin

text \<open>
  The request \<open>get_rich_list\<close> of \<^verbatim>\<open>src/cmd/virel-node/noderpc.go\<close>: the hundred richest accounts, collected in one pass over
  the states. Sorting is by a key; the order of accounts with equal keys, which \<open>sort.Slice\<close> leaves open, is kept.
  The last sort compares with a signed difference, which is the signed order for amounts of less than \<open>2 ^ 62\<close>.
\<close>

section \<open>Definitions\<close>

record StateInfo =
  si_Address :: string
  si_State :: State
  si_Staked :: u64

definition Total :: "StateInfo \<Rightarrow> u64" where
  "Total s = Balance (si_State s) + si_Staked s"

definition COUNT :: nat where "COUNT = 100"

text \<open>The accounts in the order of their keys; delegates are left out.\<close>

definition staked_with :: "('t, 'x) ext_scheme \<Rightarrow> 't \<Rightarrow> address \<Rightarrow> State \<Rightarrow> u64 res" where
  "staked_with e txn addr st =
     (if st_DelegateId st = 0 then Inr 0
      else res_bind (GetDelegate e txn (st_DelegateId st)) (\<lambda>deleg.
        Inr (case find (\<lambda>v. df_Owner v = addr) (d_Funds deleg) of None \<Rightarrow> 0 | Some v \<Rightarrow> df_Amount v)))"

definition rich_add :: "StateInfo list \<Rightarrow> StateInfo \<Rightarrow> StateInfo list" where
  "rich_add richest x =
     (if length richest < COUNT then
        let richest = richest @ [x]
        in if length richest = COUNT then sort_key (\<lambda>v. - uint (Balance (si_State v))) richest else richest
      else if Total x > Total (richest ! (COUNT - 1))
      then sort_key (\<lambda>v. - uint (Total v)) (richest[COUNT - 1 := x])
      else richest)"

fun rich_loop :: "('t, 'x) ext_scheme \<Rightarrow> 't \<Rightarrow> (bytes \<times> bytes) list \<Rightarrow> StateInfo list \<Rightarrow> StateInfo list res" where
  "rich_loop e txn [] richest = Inr richest"
| "rich_loop e txn ((k, v) # kvs) richest =
     (if length k \<noteq> SIZE then Inl (Err ''invalid address length'')
      else let addr = arr_of k
      in if IsDelegate addr then rich_loop e txn kvs richest
      else case State_Deserialize v of
             (_, Some err) \<Rightarrow> Inl err
           | (st, None) \<Rightarrow>
               res_bind (staked_with e txn addr st) (\<lambda>staked.
                 rich_loop e txn kvs (rich_add richest \<lparr>si_Address = Address_String addr, si_State = st, si_Staked = staked\<rparr>)))"

definition get_rich_list :: "('t, 'x) ext_scheme \<Rightarrow> 't \<Rightarrow> StateInfo list response" where
  "get_rich_list e txn =
     answer (rich_loop e txn (kvForEach e txn IdxState) [])
       (\<lambda>_. ErrorResponse internalReadFailed [])
       (\<lambda>richest. SuccessResponse (sort_key (\<lambda>v. - sint (Total v)) richest))"

section \<open>What the pass keeps\<close>

text \<open>The accounts of a pass that ends without an error.\<close>

inductive accounts :: "('t, 'x) ext_scheme \<Rightarrow> 't \<Rightarrow> (bytes \<times> bytes) list \<Rightarrow> StateInfo list \<Rightarrow> bool" for e txn where
  none: "accounts e txn [] []"
| delegate: "length k = SIZE \<Longrightarrow> IsDelegate (arr_of k) \<Longrightarrow> accounts e txn kvs xs \<Longrightarrow> accounts e txn ((k, v) # kvs) xs"
| account: "length k = SIZE \<Longrightarrow> \<not> IsDelegate (arr_of k) \<Longrightarrow> State_Deserialize v = (st, None) \<Longrightarrow>
    staked_with e txn (arr_of k) st = Inr staked \<Longrightarrow> accounts e txn kvs xs \<Longrightarrow>
    accounts e txn ((k, v) # kvs) (\<lparr>si_Address = Address_String (arr_of k), si_State = st, si_Staked = staked\<rparr> # xs)"

lemma rich_loop_fold: "accounts e txn kvs xs \<Longrightarrow> rich_loop e txn kvs richest = Inr (foldl rich_add richest xs)"
  by (induction arbitrary: richest rule: accounts.induct) simp_all

lemma get_rich_list_accounts:
  "accounts e txn (kvForEach e txn IdxState) xs \<Longrightarrow>
   get_rich_list e txn = SuccessResponse (sort_key (\<lambda>v. - sint (Total v)) (foldl rich_add [] xs))"
  by (simp add: get_rich_list_def rich_loop_fold)

lemma rich_length: "length richest \<le> COUNT \<Longrightarrow> length (foldl rich_add richest xs) \<le> COUNT"
proof (induction xs arbitrary: richest)
  case (Cons x xs)
  have "length (rich_add richest x) \<le> COUNT" using Cons.prems by (simp add: rich_add_def Let_def)
  then show ?case using Cons.IH by simp
qed simp

text \<open>Fewer than a hundred accounts are all in the list.\<close>

lemma rich_few: "length richest + length xs < COUNT \<Longrightarrow> foldl rich_add richest xs = richest @ xs"
  by (induction xs arbitrary: richest) (simp_all add: rich_add_def Let_def)

text \<open>
  A full list is right about the accounts that it has dropped when it is sorted by the totals. The first sort is by
  balances, which is the same only when nobody stakes.
\<close>

definition rich_ok :: "StateInfo list \<Rightarrow> StateInfo list \<Rightarrow> bool" where
  "rich_ok seen richest \<longleftrightarrow>
     (if length seen < COUNT then richest = seen
      else length richest = COUNT \<and> sorted_wrt (\<lambda>a b. Total b \<le> Total a) richest \<and>
        (\<exists>dropped. mset seen = mset richest + mset dropped \<and> (\<forall>d\<in>set dropped. \<forall>r\<in>set richest. Total d \<le> Total r)))"

lemma rich_okI:
  "\<not> length seen < COUNT \<Longrightarrow> length richest = COUNT \<Longrightarrow> sorted_wrt (\<lambda>a b. Total b \<le> Total a) richest \<Longrightarrow>
   mset seen = mset richest + mset dropped \<Longrightarrow> \<forall>d\<in>set dropped. \<forall>r\<in>set richest. Total d \<le> Total r \<Longrightarrow> rich_ok seen richest"
  unfolding rich_ok_def by auto

lemma sorted_totals: "sorted_wrt (\<lambda>a b. Total b \<le> Total a) (sort_key (\<lambda>v. - uint (Total v)) xs)"
proof -
  have "sorted (map (\<lambda>v. - uint (Total v)) (sort_key (\<lambda>v. - uint (Total v)) xs))" by simp
  then show ?thesis by (simp add: sorted_map word_le_def)
qed

lemma rich_ok_add:
  assumes ok: "rich_ok seen richest" and plain: "\<forall>s\<in>set (seen @ [x]). si_Staked s = 0"
  shows "rich_ok (seen @ [x]) (rich_add richest x)"
proof (cases "length seen < COUNT")
  case True
  then have r: "richest = seen" using ok by (simp add: rich_ok_def)
  show ?thesis
  proof (cases "Suc (length seen) = COUNT")
    case False
    then show ?thesis using True r by (simp add: rich_ok_def rich_add_def Let_def)
  next
    case full: True
    let ?s = "sort_key (\<lambda>v. - uint (Balance (si_State v))) (seen @ [x])"
    have "sorted (map (\<lambda>v. - uint (Balance (si_State v))) ?s)" by (rule sorted_sort_key)
    then have "sorted_wrt (\<lambda>a b. Balance (si_State b) \<le> Balance (si_State a)) ?s"
      unfolding sorted_map by (simp add: word_le_def)
    then have "sorted_wrt (\<lambda>a b. Total b \<le> Total a) ?s"
      using plain by (elim sorted_wrt_mono_rel [rotated]) (auto simp: Total_def)
    moreover have "rich_add richest x = ?s" using full r by (simp add: rich_add_def Let_def)
    ultimately show ?thesis using full by (simp add: rich_ok_def)
  qed
next
  case False
  then obtain dropped where len: "length richest = COUNT" and so: "sorted_wrt (\<lambda>a b. Total b \<le> Total a) richest"
    and ms: "mset seen = mset richest + mset dropped" and dr: "\<forall>d\<in>set dropped. \<forall>r\<in>set richest. Total d \<le> Total r"
    using ok by (auto simp: rich_ok_def)
  obtain front l where fl: "richest = front @ [l]" using len by (cases richest rule: rev_cases) (auto simp: COUNT_def)
  have last: "length front = COUNT - 1" "\<forall>r\<in>set richest. Total l \<le> Total r" using len so fl by (auto simp: sorted_wrt_append)
  show ?thesis
  proof (cases "Total x > Total l")
    case True
    have "rich_add richest x = sort_key (\<lambda>v. - uint (Total v)) (front @ [x])"
      using True len last(1) fl by (simp add: rich_add_def nth_append list_update_append)
    moreover have "\<forall>d\<in>set (l # dropped). \<forall>r\<in>set (front @ [x]). Total d \<le> Total r"
      using last(2) dr True fl by (auto intro: order_trans)
    moreover have "mset (seen @ [x]) = mset (front @ [x]) + mset (l # dropped)" using ms fl by simp
    ultimately show ?thesis
      using False len fl sorted_totals [of "front @ [x]"] by (intro rich_okI [where dropped = "l # dropped"]) simp_all
  next
    case small: False
    then have "rich_add richest x = richest" using len last(1) fl by (simp add: rich_add_def nth_append)
    moreover have "\<forall>d\<in>set (x # dropped). \<forall>r\<in>set richest. Total d \<le> Total r"
      using last(2) dr small by (auto intro: order_trans)
    moreover have "mset (seen @ [x]) = mset richest + mset (x # dropped)" using ms by simp
    ultimately show ?thesis using False len so by (intro rich_okI [where dropped = "x # dropped"]) simp_all
  qed
qed

lemma rich_list_top:
  assumes "\<forall>s\<in>set xs. si_Staked s = 0"
  shows "rich_ok xs (foldl rich_add [] xs)"
  using assms
proof (induction xs rule: rev_induct)
  case Nil
  show ?case by (simp add: rich_ok_def COUNT_def)
next
  case (snoc x xs)
  then show ?case using rich_ok_add [of xs "foldl rich_add [] xs" x] by simp
qed

text \<open>With stake, an account is refused although it is richer than another in the list: it is compared with the one of the
  least balance, which may have a large stake.\<close>

lemma rich_list_misses:
  assumes "length xs = COUNT" "last (sort_key (\<lambda>v. - uint (Balance (si_State v))) xs) = l" "Total x \<le> Total l"
  shows "mset (foldl rich_add [] (xs @ [x])) = mset xs"
proof -
  let ?s = "sort_key (\<lambda>v. - uint (Balance (si_State v))) xs"
  obtain ys y where xs: "xs = ys @ [y]" using assms(1) by (cases xs rule: rev_cases) (auto simp: COUNT_def)
  then have len: "length ys < COUNT" "Suc (length ys) = COUNT" using assms(1) by simp_all
  have "foldl rich_add [] ys = ys" using rich_few [of "[]" ys] len by simp
  then have "foldl rich_add [] xs = ?s" using len xs by (simp add: rich_add_def Let_def)
  moreover have "?s ! (COUNT - 1) = l" 
  proof -
    have "0 < length ?s" using assms(1) by (simp add: COUNT_def)
    then have "?s \<noteq> []" by (metis length_greater_0_conv)
    then show ?thesis using assms(1,2) last_conv_nth [of ?s] by simp
  qed
  then have "\<not> Total x > Total (?s ! (COUNT - 1))" using assms(3) by simp
  then have "rich_add ?s x = ?s" using assms(1) unfolding rich_add_def by (simp only: length_sort less_irrefl if_False)
  ultimately show ?thesis by simp
qed

end
