(* ===== verification/Uint128Text.thy ===== *)
theory Uint128Text
  imports Texts Uint128
begin

text \<open>
  The text forms of 128-bit numbers, \<open>String\<close>, \<open>MarshalJSON\<close>, \<open>UnmarshalJSON\<close> and \<open>FromString\<close> of
  \<^verbatim>\<open>src/util/uint128/uint128.go\<close>. \<open>String\<close> writes the digits of blocks of nineteen into a buffer of zeros, from the
  right; it gives the decimal text of the number. Of \<open>fmt.Sscan\<close> with \<open>big.Int\<close>, plain decimal numbers are modelled; what
  it makes of other texts (signs, prefixes, underscores, spaces) is an argument.
\<close>

section \<open>Writing\<close>

text \<open>\<open>buf[i-n] += byte(r % 10)\<close>; an index below zero panics.\<close>

definition add_digit :: "char \<Rightarrow> nat \<Rightarrow> char" where
  "add_digit ch d = char_of ((of_char ch + d) mod 256)"

function put_digits :: "nat \<Rightarrow> nat \<Rightarrow> nat \<Rightarrow> string \<Rightarrow> (nat \<times> string) res" where
  "put_digits i n r buf =
     (if r = 0 then Inr (n, buf)
      else if i < n + 1 then Inl (Panic ''index out of range'')
      else put_digits i (n + 1) (r div 10) (buf[i - (n + 1) := add_digit (buf ! (i - (n + 1))) (r mod 10)]))"
  by pat_completeness auto
termination by (relation "measure (\<lambda>(i, n, r, buf). r)") auto

declare put_digits.simps [simp del]

definition block19 :: u64 where "block19 = 10000000000000000000"

text \<open>A round of the loop: the text when the quotient is zero, and the quotient with the buffer otherwise.\<close>

definition String_round :: "nat \<Rightarrow> Uint128 \<Rightarrow> string \<Rightarrow> (string + Uint128 \<times> string) res" where
  "String_round i u buf =
     res_bind (U128_QuoRem64 u block19) (\<lambda>(q, r).
     res_bind (put_digits i 0 (unat r) buf) (\<lambda>(n, buf).
       if U128_IsZero q then Inr (Inl (drop (i - n) buf)) else Inr (Inr (q, buf))))"

text \<open>The counter is an integer of Go; here each round takes nineteen from it, and below zero the next index panics.\<close>

partial_function (option) String_loop :: "nat \<Rightarrow> Uint128 \<Rightarrow> string \<Rightarrow> string res option" where
  [code]: "String_loop i u buf =
     (case String_round i u buf of
        Inl err \<Rightarrow> Some (Inl err)
      | Inr (Inl s) \<Rightarrow> Some (Inr s)
      | Inr (Inr (q, buf)) \<Rightarrow> if i < 19 then Some (Inl (Panic ''index out of range'')) else String_loop (i - 19) q buf)"

definition U128_String :: "Uint128 \<Rightarrow> string res option" where
  "U128_String u = (if U128_IsZero u then Some (Inr ''0'') else String_loop 40 u (replicate 40 (CHR ''0'')))"

definition U128_MarshalJSON :: "Uint128 \<Rightarrow> string res option" where
  "U128_MarshalJSON u = U128_String u"

section \<open>Reading\<close>

definition plain_decimal :: "string \<Rightarrow> nat option" where
  "plain_decimal s =
     (if s = [] \<or> length s > 1 \<and> hd s = CHR ''0'' then None else parse_digits 10 0 s)"

definition U128_FromString :: "(string \<Rightarrow> Uint128 res) \<Rightarrow> string \<Rightarrow> Uint128 res" where
  "U128_FromString other s =
     (case plain_decimal s of
        None \<Rightarrow> other s
      | Some n \<Rightarrow> if n < 2 ^ 128 then Inr (of128 n) else Inl (Err ''value overflows Uint128''))"

definition U128_UnmarshalJSON :: "(string \<Rightarrow> Uint128 res) \<Rightarrow> string \<Rightarrow> Uint128 res" where
  "U128_UnmarshalJSON other b =
     U128_FromString other
       (if length b > 1 \<and> hd b = CHR 0x22 \<and> last b = CHR 0x22 then butlast (tl b) else b)"

section \<open>Digits\<close>

text \<open>The digits of a number, none for zero, and those with a fixed width.\<close>

definition digits :: "nat \<Rightarrow> string" where
  "digits r = (if r = 0 then [] else text_base 10 r)"

lemma digits_step: "r \<noteq> 0 \<Longrightarrow> digits r = digits (r div 10) @ [digit_char (r mod 10)]"
  using text_base.simps [of 10 r] by (cases "r < 10") (simp_all add: digits_def)

lemma digits_0 [simp]: "digits 0 = []"
  by (simp add: digits_def)

lemma digits_length: "r < 10 ^ m \<Longrightarrow> length (digits r) \<le> m"
proof (induction m arbitrary: r)
  case (Suc m)
  show ?case
  proof (cases "r = 0")
    case False
    have "r div 10 < 10 ^ m" using Suc.prems by (simp add: less_mult_imp_div_less mult.commute)
    then show ?thesis using Suc.IH digits_step [OF False] by simp
  qed simp
qed simp

definition padded :: "nat \<Rightarrow> nat \<Rightarrow> string" where
  "padded m r = replicate (m - length (digits r)) (CHR ''0'') @ digits r"

lemma digit_zero: "digit_char 0 = CHR ''0''"
  by (simp add: digit_char_def)

lemma padded_step: "r < 10 ^ Suc m \<Longrightarrow> padded (Suc m) r = padded m (r div 10) @ [digit_char (r mod 10)]"
proof (cases "r = 0")
  case True
  then show ?thesis by (simp add: padded_def digit_zero replicate_append_same)
next
  case False
  assume "r < 10 ^ Suc m"
  then show ?thesis using digits_step [OF False] by (simp add: padded_def)
qed

lemma text_blocks: "0 < q \<Longrightarrow> r < 10 ^ m \<Longrightarrow> text_base 10 (q * 10 ^ m + r) = text_base 10 q @ padded m r"
proof (induction m arbitrary: r)
  case (Suc m)
  let ?n = "q * 10 ^ Suc m + r"
  have r: "r div 10 < 10 ^ m" using Suc.prems by (simp add: less_mult_imp_div_less mult.commute)
  have n: "?n = 10 * (q * 10 ^ m) + r" by simp
  have "(10 * a + r) div 10 = a + r div 10" "(10 * a + r) mod 10 = r mod 10" for a by simp_all
  then have "?n div 10 = q * 10 ^ m + r div 10" "?n mod 10 = r mod 10" unfolding n by blast+
  moreover have "\<not> ?n < 10"
  proof -
    have "1 * 10 ^ Suc m \<le> q * 10 ^ Suc m" using Suc.prems(1) by (intro mult_right_mono) simp_all
    moreover have "(10::nat) \<le> 10 ^ Suc m" by simp
    ultimately show ?thesis by linarith
  qed
  ultimately have "text_base 10 ?n = text_base 10 (q * 10 ^ m + r div 10) @ [digit_char (r mod 10)]"
    using text_base.simps [of 10 ?n] by (simp only: if_False numeral_less_iff) simp
  then show ?case using Suc.IH [OF Suc.prems(1) r] padded_step [OF Suc.prems(2)] by simp
qed (simp add: padded_def)

section \<open>The buffer\<close>

lemma add_digit_zero: "d < 10 \<Longrightarrow> add_digit (CHR ''0'') d = digit_char d"
proof -
  assume "d < 10"
  then have "d \<in> {0, 1, 2, 3, 4, 5, 6, 7, 8, 9}" by auto
  then show ?thesis by (elim insertE) (simp_all add: add_digit_def digit_char_def char_of_def bit_0)
qed

text \<open>The digits are written to the left of what was written before, in front of which there are zeros.\<close>

lemma put_digits_ok:
  assumes "length (digits r) \<le> k"
  shows "put_digits (k + n) n r (replicate k (CHR ''0'') @ written) =
    Inr (n + length (digits r), replicate (k - length (digits r)) (CHR ''0'') @ digits r @ written)"
  using assms
proof (induction r arbitrary: k n written rule: less_induct)
  case (less r)
  show ?case
  proof (cases "r = 0")
    case True
    then show ?thesis by (simp add: put_digits.simps [of _ _ 0])
  next
    case False
    note step = digits_step [OF False]
    obtain k' where k: "k = Suc k'" using less.prems step by (cases k) auto
    let ?d = "digit_char (r mod 10)"
    have buf: "(replicate k (CHR ''0'') @ written)[k' := add_digit (CHR ''0'') (r mod 10)] =
        replicate k' (CHR ''0'') @ ?d # written"
    proof -
      have "replicate k (CHR ''0'') = replicate k' (CHR ''0'') @ [CHR ''0'']" by (simp add: k replicate_append_same)
      then show ?thesis by (simp add: add_digit_zero list_update_append)
    qed
    have "put_digits (k' + Suc n) (Suc n) (r div 10) (replicate k' (CHR ''0'') @ ?d # written) =
        Inr (Suc n + length (digits (r div 10)),
          replicate (k' - length (digits (r div 10))) (CHR ''0'') @ digits (r div 10) @ ?d # written)"
      using False less.prems step k by (intro less.IH) simp_all
    moreover have "(replicate k (CHR ''0'') @ written) ! k' = CHR ''0''" 
      using nth_append [of "replicate k (CHR ''0'')" written k'] by (simp add: k del: replicate_Suc)
    ultimately show ?thesis
      using False buf step k by (subst put_digits.simps) simp
  qed
qed

lemma block19_val: "unat block19 = 10 ^ 19" "block19 \<noteq> 0"
  by (simp_all add: block19_def)

lemma String_round_ok:
  assumes "u = of128 v" "v < 2 ^ 128" "length (digits (v mod 10 ^ 19)) \<le> k"
  shows "String_round k u (replicate k (CHR ''0'') @ written) =
    (if v div 10 ^ 19 = 0 then Inr (Inl (digits v @ written))
     else Inr (Inr (of128 (v div 10 ^ 19),
       replicate (k - length (digits (v mod 10 ^ 19))) (CHR ''0'') @ digits (v mod 10 ^ 19) @ written)))"
proof -
  have val: "val128 u = v" using assms(1,2) by simp
  have r: "unat (word_of_nat (v mod 10 ^ 19) :: u64) = v mod 10 ^ 19"
  proof -
    have "v mod 10 ^ 19 < 10 ^ 19" by simp
    also have "\<dots> < 2 ^ 64" by simp
    finally show ?thesis by (simp add: unat_of_nat64)
  qed
  have q: "v div 10 ^ 19 < 2 ^ 128" using assms(2) div_le_dividend [of v "10 ^ 19"] by linarith
  have zero: "U128_IsZero (of128 (v div 10 ^ 19)) \<longleftrightarrow> v div 10 ^ 19 = 0"
    using val128_of128_id [OF q] val128_zero_iff [of "of128 (v div 10 ^ 19)"] by (auto simp: U128_IsZero_def)
  have "String_round k u (replicate k (CHR ''0'') @ written) =
      res_bind (put_digits k 0 (v mod 10 ^ 19) (replicate k (CHR ''0'') @ written)) (\<lambda>(n, buf).
        if v div 10 ^ 19 = 0 then Inr (Inl (drop (k - n) buf)) else Inr (Inr (of128 (v div 10 ^ 19), buf)))"
    unfolding String_round_def by (simp only: U128_QuoRem64_val [OF block19_val(2)] val block19_val(1) res_bind.simps case_prod_conv r zero)
  moreover have "v div 10 ^ 19 = 0 \<Longrightarrow> v mod 10 ^ 19 = v" by (metis div_mult_mod_eq mult_zero_left add_0)
  ultimately show ?thesis using put_digits_ok [OF assms(3), of 0 written] by (simp del: power_Suc)
qed

text \<open>The optimised routine gives the decimal text.\<close>

lemma String_loop_ok:
  assumes "0 < v" "v < 2 ^ 128" "v < 10 ^ k"
  shows "String_loop k (of128 v) (replicate k (CHR ''0'') @ written) = Some (Inr (text_base 10 v @ written))"
  using assms
proof (induction v arbitrary: k written rule: less_induct)
  case (less v)
  let ?q = "v div 10 ^ 19" and ?r = "v mod 10 ^ 19"
  have "?r \<le> v" by (rule mod_less_eq_dividend)
  then have len: "length (digits ?r) \<le> k" using less.prems(3) by (intro digits_length) linarith
  note round = String_round_ok [OF refl less.prems(2) len, of written]
  show ?case
  proof (cases "?q = 0")
    case True
    then show ?thesis using round less.prems(1) by (subst String_loop.simps) (simp add: digits_def)
  next
    case False
    have r: "?r < 10 ^ 19" by simp
    have k: "19 \<le> k"
    proof (rule ccontr)
      assume "\<not> 19 \<le> k"
      then have "(10::nat) ^ k \<le> 10 ^ 19" by (intro power_increasing) simp_all
      then show False using less.prems(3) False by simp
    qed
    then have split: "(10::nat) ^ k = 10 ^ (k - 19) * 10 ^ 19" by (simp only: power_add [symmetric]) simp
    have q: "?q < v" "?q < 2 ^ 128" "?q < 10 ^ (k - 19)"
      using less.prems split by (simp_all add: less_mult_imp_div_less order_le_less_trans [OF div_le_dividend])
    have buf: "replicate (k - length (digits ?r)) (CHR ''0'') @ digits ?r @ written =
        replicate (k - 19) (CHR ''0'') @ padded 19 ?r @ written"
      using digits_length [OF r] k by (simp add: padded_def replicate_add [symmetric])
    have "text_base 10 v = text_base 10 ?q @ padded 19 ?r"
      using text_blocks [of ?q ?r 19] False r by simp
    moreover have "String_round k (of128 v) (replicate k (CHR ''0'') @ written) =
        Inr (Inr (of128 ?q, replicate (k - 19) (CHR ''0'') @ padded 19 ?r @ written))"
      unfolding round buf using False by (simp only: if_False)
    ultimately show ?thesis
      using False k less.IH [OF q(1) _ q(2,3), of "padded 19 ?r @ written"]
      by (subst String_loop.simps) simp
  qed
qed

lemma U128_String_text: "U128_String u = Some (Inr (text_base 10 (val128 u)))"
proof (cases "val128 u = 0")
  case True
  then show ?thesis
    by (simp add: U128_String_def U128_IsZero_def val128_zero_iff) (simp add: text_base.simps digit_zero val128_def)
next
  case False
  have v: "val128 u < 2 ^ 128" by (rule val128_bound)
  then have "val128 u < 10 ^ 40" by (rule less_trans) simp
  then show ?thesis
    using String_loop_ok [of "val128 u" 40 "[]"] False v
    by (simp add: U128_String_def U128_IsZero_def val128_zero_iff of128_val128)
qed

section \<open>Reading back\<close>

lemma text_base_first: "n \<noteq> 0 \<Longrightarrow> hd (text_base 10 n) \<noteq> CHR ''0''"
proof (induction n rule: less_induct)
  case (less n)
  show ?case
  proof (cases "n < 10")
    case True
    then have "n \<in> {1, 2, 3, 4, 5, 6, 7, 8, 9}" using less.prems by auto
    then show ?thesis using True by (subst text_base.simps) (auto simp: digit_char_def)
  next
    case False
    have "text_base 10 (n div 10) \<noteq> []" by (subst text_base.simps) simp
    moreover have "hd (text_base 10 (n div 10)) \<noteq> CHR ''0''" using False by (intro less.IH) simp_all
    ultimately show ?thesis using False by (subst text_base.simps) simp
  qed
qed

lemma plain_decimal_text: "plain_decimal (text_base 10 n) = Some n"
proof -
  have ne: "text_base 10 n \<noteq> []" by (subst text_base.simps) simp
  have "length (text_base 10 n) = 1" if "n = 0" using that by (subst text_base.simps) simp
  then show ?thesis using ne text_base_first [of n] parse_text_base [of 10 n] by (cases "n = 0") (auto simp: plain_decimal_def)
qed

text \<open>The text is read back, with or without quotes around it.\<close>

lemma text_base_unquoted: "hd (text_base 10 n) \<noteq> CHR 0x22"
proof -
  have ne: "text_base 10 n \<noteq> []" by (subst text_base.simps) simp
  then have "hd (text_base 10 n) \<in> digit_char ` {..<10}" using text_base_digits [of 10 n] hd_in_set by fastforce
  then have "char_digit (hd (text_base 10 n)) \<noteq> None" by (auto simp: char_digit_digit_char)
  then show ?thesis by (auto simp: char_digit_def)
qed

lemma U128_text_roundtrip:
  "U128_FromString other (text_base 10 (val128 u)) = Inr u"
  "U128_UnmarshalJSON other (text_base 10 (val128 u)) = Inr u"
  "U128_UnmarshalJSON other (quoted (text_base 10 (val128 u))) = Inr u"
  using text_base_unquoted [of "val128 u"] val128_bound [of u]
  by (simp_all add: U128_UnmarshalJSON_def U128_FromString_def plain_decimal_text)

end
