(* ===== verification/Spec2Isabelle.thy ===== *)
theory Spec2Isabelle
  imports StratumScenario StratumClient CliScenario RichList Uint128Text Difficulty Checkpoints BlockQueue
begin

text \<open>
  A verification of the node and wallet of the Virel blockchain (Go, under \<^verbatim>\<open>src/\<close>).

  \<^bold>\<open>The program.\<close> A node keeps a key-value store with the blocks, the topology of the main chain, the states of
  all addresses, the transactions, the delegates with their staked funds, the statistics and the mempool. Peers
  send packets with blocks, transactions, statistics, requests for blocks and stake signatures; blocks are
  decoded, prevalidated, put into a list of waiting blocks and added in the order of their heights; a block
  that makes another branch heavier causes a reorganisation. Miners ask for templates and return blocks. Wallets
  ask for the state of an account and submit transactions that they have built and signed.

  \<^bold>\<open>Theories and sources\<close>, from the bottom to the top.

  \<^item> \<open>Prelude\<close>: machine types, errors as values, the combinators for Go code that changes a state and may return
    an error, byte strings, 64-bit words as natural numbers. A Go error is \<open>Inl (Err m)\<close>, a panic or \<open>Log.Fatal\<close>
    is \<open>Inl (Panic m)\<close>; a method that changes its receiver returns the new state and an optional error.
  \<^item> \<open>Uint128\<close> (\<^verbatim>\<open>util/uint128\<close>), \<open>Binary\<close> (\<^verbatim>\<open>binary\<close>), \<open>Config\<close> (\<^verbatim>\<open>config\<close>), \<open>Address\<close> (\<^verbatim>\<open>address\<close>,
    \<^verbatim>\<open>bitcrypto\<close>), \<open>Transactions\<close> (\<^verbatim>\<open>transaction\<close>), \<open>ChainTypes\<close> (\<^verbatim>\<open>chaintype\<close>), \<open>Blocks\<close> and \<open>Decoded\<close>
    (\<^verbatim>\<open>block\<close>), \<open>Packets\<close> (\<^verbatim>\<open>p2p/packet\<close>): data and encodings; \<open>Texts\<close> (\<^verbatim>\<open>util/hash.go\<close>,
    \<^verbatim>\<open>util/enc/hex.go\<close>) and \<open>Uint128Text\<close>: their texts. The locale \<open>codec\<close> is the contract of an encoder
    with its decoder, the locale \<open>transaction_data\<close> that of the five kinds of transaction data.
  \<^item> \<open>Adb\<close> (\<^verbatim>\<open>adb/adb.go\<close>): the database transaction and the library \<open>encoding/gob\<close> are a record that the
    definitions take as an argument; the locale \<open>adb_txn\<close> states what the code relies on. \<open>AdbMem\<close> interprets it on
    a store of red-black trees, on which all concrete scenarios run.
  \<^item> \<open>ChainStore\<close>, \<open>Staking\<close>, \<open>StateApply\<close> (\<^verbatim>\<open>blockchain/blockchain.go\<close>, \<^verbatim>\<open>staking.go\<close>, \<^verbatim>\<open>bc-stateadd.go\<close>,
    \<^verbatim>\<open>bc-staterm.go\<close>): the accessors of the store, delegates and stake, applying transactions and blocks to the
    state and taking them back. \<open>Ledger\<close> has the laws of the coins, \<open>StakeLedger\<close> those of the stake.
  \<^item> \<open>Difficulty\<close>, \<open>Checkpoints\<close>, \<open>BlockQueue\<close> (the files of these names).
  \<^item> \<open>ChainOps\<close>, \<open>ChainFrame\<close>, \<open>ChainInv\<close> (\<^verbatim>\<open>blockchain/blockchain.go\<close>): checking and adding a block, alternative
    chains, reorganisations, the first block; what they leave alone; and the refinement of the store to the list
    of the hashes of the main chain.
  \<^item> \<open>Validator\<close> (\<^verbatim>\<open>bc-block.go\<close>, \<^verbatim>\<open>validator.go\<close>), \<open>NodeHandlers\<close> (\<^verbatim>\<open>bc-p2p.go\<close> and the synchronization),
    \<open>NodeRpc\<close> and \<open>RichList\<close> (\<^verbatim>\<open>cmd/virel-node/noderpc.go\<close>), \<open>NodeCli\<close> (\<^verbatim>\<open>cmd/virel-node/cmds.go\<close>), \<open>Network\<close>: prevalidation, the waiting blocks, the handlers of packets and
    of requests, the commands of the operator, and the runs of a node among peers that send what they like, as an inductive relation.
  \<^item> \<open>Peers\<close> (\<^verbatim>\<open>p2p/p2p.go\<close>, \<^verbatim>\<open>client.go\<close>, \<^verbatim>\<open>handshake.go\<close>, \<^verbatim>\<open>connection.go\<close>, \<^verbatim>\<open>bitcrypto/encryption.go\<close>): known
    peers, handshakes, connections and frames; the threads of the connections are an inductive relation in which their
    parts interleave.
  \<^item> \<open>MempoolCheck\<close> (\<^verbatim>\<open>bc-txn.go\<close>), \<open>Mining\<close> (\<^verbatim>\<open>mining.go\<close>), \<open>Stratum\<close>
    (\<^verbatim>\<open>bc-stratum.go\<close>, \<^verbatim>\<open>mergestratum.go\<close>, \<^verbatim>\<open>stratum/stratumsrv/server.go\<close>: miners, with a store of the blocks that their jobs
    share), \<open>StratumClient\<close> (\<^verbatim>\<open>stratum/stratumclient/client.go\<close>), \<open>Wallet\<close> (\<^verbatim>\<open>wallet/wallet.go\<close>), \<open>WalletRpc\<close> (\<^verbatim>\<open>cmd/virel-wallet-cli/walletrpc.go\<close>, \<^verbatim>\<open>staker.go\<close>,
    \<^verbatim>\<open>wallet/dbread.go\<close>): building blocks and transactions, and the programs that do it.
  \<^item> \<open>RpcServer\<close> (\<^verbatim>\<open>util/ratelimit\<close>, \<^verbatim>\<open>rpc/rpcserver\<close>): the limit on the requests of an address, and the checks that a
    request passes before its handler; the locale \<open>unwinding\<close> states when the actions of some clients may be left out for
    the others. \<open>WalletServer\<close> (\<open>startRpcServer\<close> of \<^verbatim>\<open>walletrpc.go\<close>): the wallet behind that server.
  \<^item> \<open>Amounts\<close> (\<open>FormatCoin\<close> of \<^verbatim>\<open>util/util.go\<close>, and the floating-point numbers through which typed amounts go),
    \<open>WalletCli\<close> (\<^verbatim>\<open>walletcmd.go\<close>: the commands of the wallet, as a state with a list of events), \<open>WalletFiles\<close>
    (\<^verbatim>\<open>bitcrypto/slip10\<close>, \<^verbatim>\<open>wallet/seed.go\<close>, the key files of \<^verbatim>\<open>wallet/wallet.go\<close> and the first prompt of
    \<^verbatim>\<open>virel-wallet-cli/wallet.go\<close>), \<open>WalletMain\<close> (its main function): the program of the wallet.
  \<^item> \<open>Scenario\<close>, \<open>ChainScenario\<close>, \<open>PoolScenario\<close>, \<open>RpcScenario\<close>, \<open>PeerScenario\<close>, \<open>StratumScenario\<close>, \<open>WalletScenario\<close>, \<open>CliScenario\<close>: concrete nodes, blocks, mempools,
    wallets and connections, on which the theorems of this theory are applied.

  \<^bold>\<open>What is shown.\<close> Coins: every block makes exactly its reward, so that the sum of all balances is the supply of the
  height on every chain; transactions move coins and raise one nonce. Stake: the staked amount is the sum of all
  funds, rewards are distributed without loss, a staker is always found. The chain: \<open>AddBlock\<close> and \<open>CheckReorgs\<close>
  end and implement an abstract chain that only gets heavier, and a node keeps it whatever arrives. The mempool and
  the wallet: what is accepted can be applied, and what the wallet builds from the answers of a node is accepted.
  Templates pass the check of blocks. Peers: however the threads of connections interleave, connections that serve have
  the agreed key and at most two belong to one peer; packets are delivered as sent. Miners: the
  node checks the hash that the miner has computed, for a block from a template. Clients: without the configured
  credentials they neither change the wallet nor disturb the clients of other addresses. Users:
  the wallet sends only what was confirmed, pays what was typed up to one unit, and is found again with its
  mnemonic. Encodings are read back; arithmetic does not wrap unnoticed. Where the code
  does not do what it means to do, a theorem says what it does (\<open>unstake_gap\<close>, \<open>tip_overwritten\<close>,
  \<open>unstake_hides_nonce\<close>, \<open>template_mempool\<close>, \<open>checkpoint_zero\<close>, \<open>wallet_recovered\<close>, \<open>remote_crash\<close>,
  \<open>stratum_shared_block\<close>, \<open>subaddress_incomplete\<close>, \<open>rpc_rate\<close>, \<open>wallet_answers\<close>, \<open>cli_transfer\<close>).

  \<^bold>\<open>Loops, bounds, parameters.\<close> Loops over data are structural; loops that follow the store or count a 64-bit height
  are \<open>partial_function (option)\<close> and are shown to return. A run is bounded only by \<open>2 ^ 64\<close> steps, because each
  step raises the greatest height by at most one. The hash function, the proof of work and the signature scheme
  are parameters; theorems name what they need of them: no block hashes to zero (\<open>no_zero_hash\<close>), a signature made with
  a key is verified with it (\<open>signs\<close>), a sealed message is opened with its key (\<open>aead_ok\<close>), BIP-39 and JSON read back what they write (\<open>seed_lib_ok\<close>), two sides agree on a key
  (\<open>ecdh_ok\<close>). The clock and random numbers are arguments. Go maps are lists, in the order
  of which the code iterates.

  \<^bold>\<open>Not modelled.\<close> Sockets, the transport of HTTP, JSON, files, logs, and, above the connections, threads and locks: a handler is one atomic step, as the code makes
  it by holding the database or a mutex. The databases behind the interface and the libraries of cryptography are
  not part of the repository. The lines of information that the command lines print, the statistics of the node in floating-point
  numbers and its start are left out.
\<close>

section \<open>Coins\<close>

text \<open>C1: on every chain of blocks of heights \<open>0 ... h\<close> that were applied one after the other, the
  sum of all balances that \<open>GetSupply\<close> computes is what \<open>GetSupplyAtHeight\<close> computes for the height of the
  chain, so that the node's \<open>CheckSupply\<close> never fails, and it never exceeds \<open>MAX_SUPPLY\<close>.\<close>

theorem chain_supply:
  assumes "adb_txn e" "chain_state e (unat h) s"
  shows "GetSupply e (cs_txn s) = GetSupplyAtHeight h \<and>
    total_balance e (cs_txn s) = (\<Sum>i\<le>unat h. unat (Reward (word_of_nat i))) \<and>
    unat (GetSupply e (cs_txn s)) \<le> MAX_SUPPLY"
proof (intro conjI)
  show sup: "GetSupply e (cs_txn s) = GetSupplyAtHeight h"
    using assms by (rule adb_txn.chain_state_GetSupply)
  show "unat (GetSupply e (cs_txn s)) \<le> MAX_SUPPLY"
    unfolding sup GetSupplyAtHeight_val by (rule supply_at_bound)
  show "total_balance e (cs_txn s) = (\<Sum>i\<le>unat h. unat (Reward (word_of_nat i)))"
    using adb_txn.chain_state_supply [OF assms] unat_lt64 [of h]
    by (simp add: supply_at_def unat_Reward unat_of_nat64)
qed

theorem chain_supply_witness:
  "\<exists>s. chain_state we (unat (1::u64)) s \<and> GetSupply we (cs_txn s) = GetSupplyAtHeight 1 \<and>
     total_balance we (cs_txn s) = (\<Sum>i\<le>1. unat (Reward (word_of_nat i)))"
proof -
  obtain s where s: "chain_state we (unat (1::u64)) s" using w_chain by auto
  from s chain_supply [OF mem.adb_txn_axioms s] show ?thesis by auto
qed

text \<open>C2: a block that \<open>ApplyBlockToState\<close> accepts raises the sum of all balances by exactly the
  reward of its height, whatever transactions, fees and payouts it contains.\<close>

theorem block_makes_reward:
  assumes "adb_txn e" "ApplyBlockToState e now bl bh s = (s', None)"
    and "states_ok e (cs_txn s)" "total_balance e (cs_txn s) < 2 ^ 64" "txs_ok e (cs_txn s)"
  shows "total_balance e (cs_txn s') = total_balance e (cs_txn s) + unat (Reward (Height bl)) \<and>
    states_ok e (cs_txn s') \<and> txs_ok e (cs_txn s')"
  using adb_txn.ApplyBlock_coins [OF assms] by simp_all

theorem block_makes_reward_witness:
  "\<exists>s'. ApplyBlockToState we 0 (w_block 0) 7 w_start = (s', None) \<and>
     total_balance we (cs_txn s') = 0 + unat (Reward 0)"
proof -
  obtain s' where s': "ApplyBlockToState we 0 (w_block 0) 7 w_start = (s', None)" using w_genesis by blast
  have "total_balance we (cs_txn w_start) < 2 ^ 64" using w_start_ok(2) by simp
  from block_makes_reward [OF mem.adb_txn_axioms s' w_start_ok(1) this w_start_ok(3)] s'
  show ?thesis using w_start_ok(2) by (auto simp: w_block_def)
qed

text \<open>C3: a transaction that \<open>ApplyTxToState\<close> accepts changes the balance of every address by exactly its
  state inputs and outputs, so that all balances together fall by the fee; it moves the nonce of its
  signer, and of nobody else, from one below the nonce of the transaction to that nonce.\<close>

theorem tx_ledger:
  assumes "adb_txn e" "ApplyTxToState e tx a bl bh txid s = (s', None)" "Tx_TotalAmount tx = Inr tot"
    and "states_ok e (cs_txn s)" "total_balance e (cs_txn s) < 2 ^ 64"
    and "StateOutputs (tx_Data tx) tx a = Inr outs"
  shows "balance_of e (cs_txn s') b + debits b (StateInputs e (tx_Data tx) tx a) =
      balance_of e (cs_txn s) b + credits b outs \<and>
    total_balance e (cs_txn s') + unat (tx_Fee tx) = total_balance e (cs_txn s) \<and>
    nonce_of e (cs_txn s) a + 1 = tx_Nonce tx \<and>
    nonce_of e (cs_txn s') b = (if b = a then tx_Nonce tx else nonce_of e (cs_txn s) b)"
  using adb_txn.ApplyTx_ledger [OF assms(1-5)] assms(6) by blast

theorem tx_ledger_witness:
  "\<exists>s'. ApplyTxToState we w_tx 1 (w_block 1) 7 9 w_rich = (s', None) \<and>
     total_balance we (cs_txn s') = 990 \<and> balance_of we (cs_txn s') 2 = balance_of we (cs_txn w_rich) 2 + 100"
proof -
  obtain s' where s': "ApplyTxToState we w_tx 1 (w_block 1) 7 9 w_rich = (s', None)" using w_tx_applies by blast
  have room: "total_balance we (cs_txn w_rich) < 2 ^ 64" using w_rich_ok(2) by simp
  have outs: "StateOutputs (tx_Data w_tx) w_tx 1 = Inr [normal_output \<lparr>Recipient = 2, PaymentId = 0, Amount = 100\<rparr>]"
    by (simp add: w_tx_def)
  note t = tx_ledger [OF mem.adb_txn_axioms s' w_tx_total w_rich_ok(1) room outs]
  have "debits 2 (StateInputs we (tx_Data w_tx) w_tx 1) = 0"
    by (simp add: debits_def w_tx_def inputs_sum_def)
  moreover have "credits 2 [normal_output \<lparr>Recipient = 2, PaymentId = 0, Amount = 100\<rparr>] = 100"
    by (simp add: credits_def normal_output_def outputs_sum_def)
  ultimately show ?thesis using s' t [of 2] w_rich_ok(2) by (auto simp: w_tx_def)
qed

text \<open>The coinbase outputs of a block of a known version pay out exactly the total reward, with no
  coin lost to rounding; another version makes the code panic.\<close>

lemma coinbase_sum_exact:
  "case CoinbaseTransaction b r of
     Inr outs \<Rightarrow> Version b \<le> 1 \<and> (\<Sum>out\<leftarrow>outs. unat (co_Amount out)) = unat r
   | Inl err \<Rightarrow> \<not> Version b \<le> 1 \<and> err = Panic ''unexpected block version''"
proof (cases "CoinbaseTransaction b r")
  case (Inr outs)
  then show ?thesis
    using CoinbaseTransaction_sum [OF Inr] CoinbaseTransaction_panics [of b r] by (auto simp: coinbase_sum_def)
next
  case (Inl err)
  then show ?thesis
    using CoinbaseTransaction_panics [of b r]
    by (auto simp: CoinbaseTransaction_def Let_def split: if_splits)
qed

text \<open>The closed form that \<open>GetSupplyAtHeight\<close> computes with wrapping arithmetic is the sum of the
  rewards of all heights, computed one by one; it never wraps and never exceeds \<open>MAX_SUPPLY\<close>.\<close>

lemma supply_closed_form:
  "unat (GetSupplyAtHeight h) = (\<Sum>i\<le>unat h. unat (Reward (word_of_nat i))) \<and>
   unat (GetSupplyAtHeight h) \<le> MAX_SUPPLY \<and> Reward h \<le> BLOCK_REWARD"
proof -
  have "supply_at (unat h) = (\<Sum>i\<le>unat h. unat (Reward (word_of_nat i)))"
    unfolding supply_at_def using unat_lt64 [of h]
    by (intro sum.cong) (simp_all add: unat_Reward unat_of_nat64)
  then show ?thesis using supply_at_bound [of "unat h"] Reward_le [of h] by (simp add: GetSupplyAtHeight_val)
qed

section \<open>Stake\<close>

text \<open>C24: applying a block keeps the invariant of the stake: \<open>StakedAmount\<close> is the sum of all funds of all
  delegates, and every delegate is stored under its id; each transaction and coinbase output adds at most
  one fund to a delegate.\<close>

theorem block_keeps_stake:
  assumes "adb_txn e" "ApplyBlockToState e now bl bh s = (s', None)" "stake_ok e n s" "txs_ok e (cs_txn s)"
    and "n + length (bl_Transactions bl) + 3 < 2 ^ 64"
  shows "stake_ok e (n + length (bl_Transactions bl) + 3) s' \<and>
    total_staked e (cs_txn s') = unat (StakedAmount (cs_stats s'))"
  using adb_txn.ApplyBlock_stake [OF assms] by (simp_all add: stake_ok_def staking_inv_def)

theorem block_keeps_stake_witness:
  "\<exists>s'. ApplyBlockToState we 0 (w_block 0) 7 w_start = (s', None) \<and> stake_ok we 3 s'"
proof -
  obtain s' where s': "ApplyBlockToState we 0 (w_block 0) 7 w_start = (s', None)" using w_genesis by blast
  have "0 + length (bl_Transactions (w_block 0)) + 3 < 2 ^ 64" by (simp add: w_block_def)
  from block_keeps_stake [OF mem.adb_txn_axioms s' w_start_ok(4,3) this] s'
  show ?thesis by (auto simp: w_block_def)
qed

text \<open>The same for a single transaction of any kind.\<close>

lemma tx_keeps_stake:
  assumes "adb_txn e" "ApplyTxToState e tx a bl bh txid s = (s', None)" "stake_ok e n s" "Suc n < 2 ^ 64"
    and "data_wf (tx_Data tx)"
  shows "stake_ok e (Suc n) s'"
  using assms by (rule adb_txn.ApplyTx_stake)

text \<open>C26: when something is staked, \<open>GetStaker\<close> always finds a delegate, which is a stored one: the first at
  which the stakes, in the order of the database, reach the coin that the hash selects. A delegate
  whose stake starts after \<open>k\<close> coins and is \<open>m\<close> coins wide is therefore chosen for exactly the coins
  \<open>k < i \<le> k + m\<close>.\<close>

theorem staker_found:
  assumes "adb_txn e" "staking_inv e s" "StakedAmount (cs_stats s) \<noteq> 0"
  shows "\<exists>d. GetStaker e (cs_txn s) h (cs_stats s) = Inr d \<and> GetDelegate e (cs_txn s) (d_Id d) = Inr d \<and>
    pick (coin_index h (unat (StakedAmount (cs_stats s)))) 0 (stored_delegates e (cs_txn s)) = Some d"
  using adb_txn.GetStaker_ok [OF assms, of h] by blast

theorem staker_found_witness:
  "\<exists>d. GetStaker we (cs_txn w_staked) 77 (cs_stats w_staked) = Inr d \<and> d = w_delegate"
proof -
  have "StakedAmount (cs_stats w_staked) \<noteq> 0" by (simp add: w_staked_def)
  from staker_found [OF mem.adb_txn_axioms w_staked_ok(1) this, of 77]
  show ?thesis using w_staked_ok(4) by (auto split: if_splits)
qed

text \<open>C25: \<open>ApplyPosReward\<close> for a delegate with stake never fails: its rounding of the shares always leaves
  a remainder for the owner, it adds exactly the reward to the delegate's funds and to the counter, and
  it keeps the previous delegate as the history of the block.\<close>

theorem pos_reward_exact:
  assumes "adb_txn e" "staking_inv e s" "few_funds e (cs_txn s)" "so_ExtraData out \<noteq> 0"
    and "GetDelegate e (cs_txn s) (so_ExtraData out) = Inr d" "funds_sum (d_Funds d) \<noteq> 0"
    and "unat (StakedAmount (cs_stats s)) + unat (so_Amount out) < 2 ^ 64"
  shows "\<exists>s' d'. ApplyPosReward e blockhash out s = (s', None) \<and> staking_inv e s' \<and>
    GetDelegate e (cs_txn s') (so_ExtraData out) = Inr d' \<and>
    funds_sum (d_Funds d') = funds_sum (d_Funds d) + unat (so_Amount out) \<and>
    GetDelegateHistory e (cs_txn s') blockhash = Inr d \<and>
    StakedAmount (cs_stats s') = StakedAmount (cs_stats s) + so_Amount out"
  by (rule adb_txn.ApplyPosReward_ok [OF assms, of blockhash]) auto

theorem pos_reward_exact_witness:
  "\<exists>s' d'. ApplyPosReward we 7 \<lparr>so_Type = OUT_COINBASE_POS, so_Amount = 1000, so_Recipient = 0,
      so_PaymentId = 0, so_ExtraData = 1\<rparr> w_staked = (s', None) \<and>
    GetDelegate we (cs_txn s') 1 = Inr d' \<and> funds_sum (d_Funds d') = 1050"
proof -
  let ?out = "\<lparr>so_Type = OUT_COINBASE_POS, so_Amount = 1000, so_Recipient = 0, so_PaymentId = 0, so_ExtraData = 1\<rparr>"
  have "so_ExtraData ?out \<noteq> 0" "GetDelegate we (cs_txn w_staked) (so_ExtraData ?out) = Inr w_delegate"
    "unat (StakedAmount (cs_stats w_staked)) + unat (so_Amount ?out) < 2 ^ 64"
    by (simp_all add: w_staked_ok(4)) (simp add: w_staked_def)
  moreover have f: "funds_sum (d_Funds w_delegate) = 50" by (simp add: w_delegate_def)
  ultimately show ?thesis
    using pos_reward_exact [OF mem.adb_txn_axioms w_staked_ok(1,2), of ?out w_delegate 7] by auto
qed

text \<open>Taking back a stake restores the funds as they were, both when the staker already had a fund
  and when the stake made a new one.\<close>

lemma stake_reversed:
  assumes "stake_funds signer amount prev txid hgt False fs = Inr (fs', staked)"
    and "txid \<noteq> stake_exception" "\<forall>f\<in>set fs. df_Amount f \<noteq> 0"
  shows "unstake_funds signer amount hgt' True prev
    (if staked then fs' else fs' @ [\<lparr>df_Owner = signer, df_Amount = amount, df_Unlock = u\<rparr>]) = Inr fs"
proof (cases staked)
  case True
  then show ?thesis using unstake_after_stake [OF _ assms(2,3)] assms(1) by simp
next
  case False
  then show ?thesis
    using stake_funds_sum [OF assms(1)] by (simp add: unstake_after_first_stake)
qed

section \<open>Transactions\<close>

text \<open>What \<open>Prevalidate\<close> accepts, in full. Its last check, that the outputs and the fee give the total
  amount, can never fail after the others.\<close>

lemma prevalidate_exact:
  "Tx_Prevalidate c t height = None \<longleftrightarrow>
     GetVirtualSize t \<le> max_tx_size \<and>
     version_error height (tx_Version t) = None \<and>
     FromPubKey c (tx_Signer t) \<noteq> INVALID_ADDRESS \<and>
     (if height \<ge> HARDFORK_V3_HEIGHT then FEE_PER_BYTE_V2 else FEE_PER_BYTE) * GetVirtualSize t
       \<le> tx_Fee t \<and>
     VerifySignature c (tx_Signer t) (SignatureData t) (tx_Signature t) \<and>
     Data_Prevalidate (tx_Data t) t = None \<and>
     (\<exists>tot. Tx_TotalAmount t = Inr tot)"
  by (rule Tx_Prevalidate_None)

text \<open>For a transaction whose total amount does not overflow, the inputs are the total amount and the
  outputs are the total amount without the fee, as the interface \<open>TransactionData\<close> requires of every kind of
  data; the outputs then do not panic.\<close>

lemma tx_balanced:
  assumes "Tx_TotalAmount t = Inr tot"
  shows "\<exists>outs. StateOutputs (tx_Data t) t s = Inr outs \<and>
    inputs_sum (StateInputs c (tx_Data t) t s) = unat tot \<and>
    outputs_sum outs + unat (tx_Fee t) = unat tot"
  using Tx_balanced [OF assms, of s c] by blast

text \<open>C28: a transaction is read back from its encoding, and what is read always carries the data of its
  version.\<close>

theorem tx_roundtrip:
  "(data_wf (tx_Data t) \<and> tx_matches t \<longrightarrow> Tx_Deserialize (Tx_Serialize t) (tx_Version t \<noteq> 0) = Inr t) \<and>
   (Tx_Deserialize b hv = Inr t \<longrightarrow> tx_matches t)"
  using Tx_codec Tx_Deserialize_matches by blast

theorem tx_roundtrip_witness: "Tx_Deserialize (Tx_Serialize w_tx) True = Inr w_tx"
  using tx_roundtrip [of w_tx "[]" True]
  by (simp add: w_tx_def tx_matches_def tx_versions config_defs)

section \<open>Blocks\<close>

text \<open>A well-formed block is read back from its encoding; the encoding is therefore injective, so that
  two different blocks are hashed from different bytes.\<close>

lemma block_roundtrip:
  assumes "block_wf b"
  shows "Block_Deserialize (Block_Serialize b) = Inr b \<and>
    (block_wf b' \<and> Block_Serialize b' = Block_Serialize b \<longrightarrow> b' = b)"
  using Block_codec [OF assms] Block_codec [of b'] by auto

text \<open>C29: the proof of work is accepted exactly when the upper half of the hash, read as a little-endian number,
  times the difficulty is below \<open>2 ^ 128\<close>.\<close>

theorem pow_check:
  assumes "val128 diff \<noteq> 0"
  shows "ValidPowHash32 h diff = Inr (le_val (drop 16 (arr_bytes h)) * val128 diff < 2 ^ 128)"
proof -
  have "le_val (drop 16 (arr_bytes h)) * val128 diff \<le> 2 ^ 128 - 1 \<longleftrightarrow>
      le_val (drop 16 (arr_bytes h)) * val128 diff < 2 ^ 128" by auto
  then show ?thesis unfolding ValidPowHash32_iff [OF assms] by simp
qed

theorem pow_check_witness: "ValidPowHash32 0 (U128_From64 1) = Inr True"
  using pow_check [of "U128_From64 1" 0] le_val_bound [of "drop 16 (arr_bytes (0::hash))"]
  by (simp add: val128_def U128_From64_def U128_New_def)

text \<open>A block adds its difficulty to the cumulative difficulty, two thirds of it for each side block,
  and half of everything when it carries no stake signature although it should.\<close>

lemma cumulative_contribution:
  assumes "length (SideBlocks b) \<le> MAX_SIDE_BLOCKS" "4 * val128 (Difficulty b) < 2 ^ 128"
  shows "ContributionToCumulativeDiff b =
    Inr (of128 (let d = val128 (Difficulty b); total = d + d * (2 * length (SideBlocks b)) div 3
                in if Version b > 0 \<and> StakeSignature b = BlankSignature then total div 2 else total))"
  using ContributionToCumulativeDiff_val [OF assms] by (simp add: contribution_def)

text \<open>What the node writes through a database transaction it reads back: the state of an address, a
  delegate, a block and its place in the main chain, leaving the other entries alone.\<close>

lemma store_reads_back:
  assumes "adb_txn e"
  shows "GetState e (fst (SetState e t a st)) b = (if b = a then Inr st else GetState e t b) \<and>
    (delegate_wf d \<longrightarrow> GetDelegate e (fst (bc_SetDelegate e t d)) did =
      (if did = d_Id d then Inr d else GetDelegate e t did)) \<and>
    (block_wf bl \<longrightarrow> GetBlock e (fst (insertBlock e t bl h)) h' = (if h' = h then Inr bl else GetBlock e t h')) \<and>
    GetTopo e (fst (insertBlockMain e t bl)) n =
      (if n = Height bl then Inr (Block_Hash e bl) else GetTopo e t n) \<and>
    GetStats e (fst (SetStats e t stats)) = Inr stats"
proof (intro conjI impI)
  show "GetState e (fst (SetState e t a st)) b = (if b = a then Inr st else GetState e t b)"
    using adb_txn.GetState_put [OF assms] adb_txn.SetState_eq [OF assms] by (metis fst_conv)
  show "GetDelegate e (fst (bc_SetDelegate e t d)) did = (if did = d_Id d then Inr d else GetDelegate e t did)"
    if "delegate_wf d"
    using adb_txn.GetDelegate_put [OF assms that] adb_txn.kvPut_eq [OF assms]
    by (simp add: bc_SetDelegate_def)
  show "GetBlock e (fst (insertBlock e t bl h)) h' = (if h' = h then Inr bl else GetBlock e t h')"
    if "block_wf bl" using assms that by (rule adb_txn.GetBlock_insertBlock)
  show "GetTopo e (fst (insertBlockMain e t bl)) n =
      (if n = Height bl then Inr (Block_Hash e bl) else GetTopo e t n)"
    using assms by (rule adb_txn.GetTopo_insertBlockMain)
  show "GetStats e (fst (SetStats e t stats)) = Inr stats"
    unfolding SetStats_def using assms by (rule adb_txn.GetStats_setStats)
qed

section \<open>Difficulty, checkpoints and the block queue\<close>

text \<open>C30: on a block whose timestamps are in order and below \<open>2^62\<close> milliseconds and whose difficulty is below
  \<open>2^107\<close>, \<open>GetNextDifficulty\<close> does not panic; the next difficulty is at least the minimum, at most 0.84
  percent above the difficulty of the block, and not below what a block half again as slow would give.\<close>

theorem difficulty_bounds:
  assumes "GetBlock e tx (PrevHash bl) = Inr prev" "\<not> Height bl < 2"
    and "Timestamp prev \<le> Timestamp bl" "unat (Timestamp bl) < 2 ^ 62" "val128 (Difficulty bl) < 2 ^ 107"
  shows "\<exists>d. GetNextDifficulty e tx bl = Inr d \<and> MIN_DIFFICULTY \<le> val128 d \<and>
    val128 d \<le> max MIN_DIFFICULTY (ema 66 (val128 (Difficulty bl))) \<and>
    ema (max 150 ((unat (Timestamp bl) - unat (Timestamp prev)) * 3 div 2)) (val128 (Difficulty bl)) \<le> val128 d"
proof -
  obtain d s where d: "GetNextDifficulty e tx bl = Inr d"
    and v: "val128 d = max MIN_DIFFICULTY (ema s (val128 (Difficulty bl)))"
    and s: "66 \<le> s" "s \<le> max 150 ((unat (Timestamp bl) - unat (Timestamp prev)) * 3 div 2)"
    by (rule GetNextDifficulty_ok [OF assms]) blast
  show ?thesis
    using d v ema_mono [OF s(1), of "val128 (Difficulty bl)"] ema_mono [OF s(2), of "val128 (Difficulty bl)"]
    by (intro exI [of _ d]) (auto simp: max_def)
qed

theorem difficulty_bounds_witness:
  "\<exists>d. GetNextDifficulty we (fst (insertBlock we mem_empty w_wf_block 6))
      (w_wf_block\<lparr>bl_Ancestors := [6, 0, 0], Timestamp := 15000\<rparr>) = Inr d \<and> MIN_DIFFICULTY \<le> val128 d"
proof -
  let ?b = "w_wf_block\<lparr>bl_Ancestors := [6, 0, 0], Timestamp := 15000\<rparr>"
  have b: "PrevHash ?b = 6" "\<not> Height ?b < 2" "Timestamp w_wf_block \<le> Timestamp ?b"
    "unat (Timestamp ?b) < 2 ^ 62" "val128 (Difficulty ?b) < 2 ^ 107"
    by (simp_all add: w_wf_block_def w_block_def PrevHash_def U128_From64_def U128_New_def val128_def)
  have g: "GetBlock we (fst (insertBlock we mem_empty w_wf_block 6)) (PrevHash ?b) = Inr w_wf_block"
    unfolding b(1) using mem.GetBlock_insertBlock [OF w_wf_block_wf, of toy_crypto mem_empty 6 6] by simp
  from difficulty_bounds [OF g b(2-)] show ?thesis by blast
qed

text \<open>C31: if the main chain has a block at every multiple of the interval up to the height,
  \<open>CreateCheckpoints\<close> ends with a file that the checkpoints package loads and whose entry at every
  checkpointed height is the hash of the block there.\<close>

theorem checkpoints_roundtrip:
  assumes "interval \<noteq> 0" "unat interval < 2 ^ 32" "unat maxHeight + unat interval < 2 ^ 64"
    and "\<And>k. 1 \<le> k \<Longrightarrow> k \<le> unat maxHeight div unat interval \<Longrightarrow>
      GetTopo e tx (word_of_nat (k * unat interval)) = Inr (hash_at k)"
    and "32 * (unat maxHeight div unat interval) + 4 < 2 ^ 64"
  shows "\<exists>bin c. CreateCheckpoints e tx maxHeight interval = Some (Inr bin) \<and> checkpoints_init bin = Inr c \<and>
    unat (MaxCheckpoint c) = unat maxHeight div unat interval \<and>
    (\<forall>k. 1 \<le> k \<and> k \<le> unat maxHeight div unat interval \<longrightarrow>
      GetCheckpoint c (word_of_nat (k * unat interval)) = Inr (hash_at k))"
  using assms by (rule CreateCheckpoints_ok)

theorem checkpoints_roundtrip_witness:
  "\<exists>bin. CreateCheckpoints we (fst (insertBlockMain we mem_empty (w_block 1))) 1 1 = Some (Inr bin)"
proof -
  have t: "GetTopo we (fst (insertBlockMain we mem_empty (w_block 1))) (word_of_nat (k * unat (1::u64))) =
      Inr (Block_Hash we (w_block 1))" if "1 \<le> k" "k \<le> unat (1::u64) div unat (1::u64)" for k
  proof -
    have "k = 1" using that by simp
    then show ?thesis
      unfolding mem.GetTopo_insertBlockMain by (simp add: w_block_def del: mem_ext_simps)
  qed
  have "(1::u64) \<noteq> 0" "unat (1::u64) < 2 ^ 32" "unat (1::u64) + unat (1::u64) < 2 ^ 64"
    "32 * (unat (1::u64) div unat (1::u64)) + 4 < 2 ^ 64" by simp_all
  from checkpoints_roundtrip [OF this(1-3) t this(4)] show ?thesis by blast
qed

text \<open>With any checkpoint file that is not empty, the reader returns a hash at every checkpointed height
  above zero; height zero counts as checkpointed, and there the reader panics.\<close>

lemma checkpoint_zero:
  assumes "checkpoints_init bin = Inr c" "MaxCheckpoint c \<noteq> 0" "length bin < 2 ^ 63"
  shows "(IsCheckpoint c h \<and> h \<noteq> 0 \<longrightarrow> (\<exists>x. GetCheckpoint c h = Inr x)) \<and>
    IsCheckpoint c 0 \<and> GetCheckpoint c 0 = Inl (Panic ''slice bounds out of range'')"
proof -
  have "CheckpointInterval c \<noteq> 0"
    using assms by (auto simp: checkpoints_init_def Let_def word_less_1 split: if_splits)
  then show ?thesis
    using GetCheckpoint_safe [OF assms(1) _ _ assms(3)] GetCheckpoint_zero assms(2)
    by (simp add: IsCheckpoint_def)
qed

text \<open>The block queue is a map from hashes to blocks: \<open>SetBlock\<close> adds or replaces exactly the block of its
  hash and says whether there was one, \<open>RemoveBlock\<close> takes out exactly that block and those that have
  expired, and neither leaves a hash queued twice.\<close>

lemma queue_is_map:
  assumes "queue_ok q" "0 < t"
  shows "queue_ok (fst (SetBlock b r q)) \<and> (snd (SetBlock b r q) \<longleftrightarrow> queued q (qb_Hash b) \<noteq> None) \<and>
    queued (fst (SetBlock b r q)) h =
      (if h = qb_Hash b \<and> (r \<or> queued q h = None) then Some b else queued q h) \<and>
    queue_ok (RemoveBlock t h q) \<and>
    queued (RemoveBlock t h q) h' =
      (case queued q h' of None \<Rightarrow> None | Some b \<Rightarrow> if h' = h \<or> qb_Expires b < t then None else Some b)"
  using bq.set_ok [OF assms(1)] bq.set_known bq.lookup_set [OF assms(1)] bq.remove_ok [OF assms(1)]
    bq.lookup_remove [OF assms] by (intro conjI)

text \<open>A block that \<open>RequestableBlock\<close> has handed out is not handed out again until the re-request time
  has passed, and a call finds no block only if every queued block has been requested that recently.\<close>

lemma requested_once:
  assumes "queue_ok q" "RequestableBlock t q = (q', Some b)" "t \<le> t'" "t' \<le> t + rerequest_time"
  shows "(case snd (RequestableBlock t' q') of None \<Rightarrow> \<forall>v\<in>set q'. t' - qb_LastRequest v \<le> rerequest_time
    | Some b' \<Rightarrow> qb_Hash b' \<noteq> qb_Hash b)"
  using RequestableBlock_once [OF assms] RequestableBlock_None [of t' q']
  by (cases "RequestableBlock t' q'") (auto split: option.split)

section \<open>The chain\<close>

text \<open>C4: adding any well-formed block to a node whose statistics describe a main chain ends. When the
  block is accepted it is stored, and the statistics again describe a main chain that starts with the
  same first block, is at least as heavy as the old one, and has no heavier tip beside it; a block on top
  of the main chain is appended to it.\<close>

theorem add_block_chain:
  assumes "adb_txn e" "node_inv e n stats cs" "block_wf bl" "Block_Hash e bl \<noteq> 0" "Height bl \<noteq> 0"
  shows "\<exists>n' err. AddBlock e now bl (Block_Hash e bl) n = Some (n', err) \<and>
    (err = None \<longrightarrow>
      (\<forall>x. GetBlock e (nd_txn n') x = (if x = Block_Hash e bl then Inr bl else GetBlock e (nd_txn n) x)) \<and>
      (\<exists>stats' cs'. node_inv e n' stats' cs' \<and> extends_chain bl (Block_Hash e bl) stats cs stats' cs'))"
  using adb_txn.AddBlock_ok [OF assms(1-3) refl assms(4,5)] by blast

theorem add_block_chain_witness:
  "\<exists>n n' stats'. addGenesis wg 0 GENESIS_TIMESTAMP wg_node = (n, None) \<and>
     AddBlock wg 0 wg_block (Block_Hash wg wg_block) n = Some (n', None) \<and> node_inv wg n' stats' [5, 6]"
proof -
  obtain n n' stats where w: "addGenesis wg 0 GENESIS_TIMESTAMP wg_node = (n, None)" "node_inv wg n stats [5]"
    "AddBlock wg 0 wg_block 6 n = Some (n', None)" by (rule wg_two_blocks)
  have "Height wg_block \<noteq> 0" "PrevHash wg_block = 5" by (simp_all add: wg_block_def PrevHash_def)
  with add_block_chain [OF mem.adb_txn_axioms w(2) wg_block_wf, of 0] w(3) obtain stats' cs' where
    "node_inv wg n' stats' cs'" "extends_chain wg_block 6 stats [5] stats' cs'"
    by (auto simp: wg_hashes simp del: mem_ext_simps)
  with w \<open>PrevHash wg_block = 5\<close> show ?thesis
    by (auto simp: wg_hashes extends_chain_def simp del: mem_ext_simps)
qed



text \<open>On an empty store \<open>addGenesis\<close> succeeds once the time of the first block has come, and leaves the
  chain of the first block alone, whose reward is all there is, with an empty list of tips.\<close>

lemma genesis_starts:
  assumes "adb_txn e" "\<forall>i k. kvGet e (nd_txn n) i k = None" "GENESIS_TIMESTAMP \<le> time" "Block_Hash e genesis \<noteq> 0"
  shows "\<exists>n' stats. addGenesis e now time n = (n', None) \<and> node_inv e n' stats [Block_Hash e genesis] \<and>
    total_balance e (nd_txn n') = unat (Reward 0) \<and> states_ok e (nd_txn n') \<and>
    CumulativeDiff stats = Difficulty genesis"
  by (rule adb_txn.addGenesis_ok [OF assms(1), of n time now]) (use assms in auto)

text \<open>C7: a run of the postprocessor on well-formed blocks handles every waiting block exactly once, in the
  order of the heights, and ends; unless the program panics it leaves a node behind whose statistics describe
  a main chain, at least as heavy as before.\<close>

theorem postprocess_chain:
  assumes "adb_txn e" "node_inv e n stats cs" "\<forall>p\<in>set ps. pp_ok e p"
  shows "\<exists>xs n' err. mset xs = mset ps \<and> sorted (map (\<lambda>p. Height (pp_Block p)) xs) \<and>
    selectAndPostprocess e now ps n = process_all e now xs n \<and>
    selectAndPostprocess e now ps n = Some (n', err) \<and> (err = None \<longrightarrow> grows e stats cs n')"
proof -
  obtain xs where xs: "mset xs = mset ps" "sorted (map (\<lambda>p. Height (pp_Block p)) xs)"
    "\<And>n. selectAndPostprocess e now ps n = process_all e now xs n" using selectAndPostprocess_order [of ps e now] by blast
  have "\<forall>p\<in>set xs. pp_ok e p" using assms(3) mset_eq_setD [OF xs(1)] by blast
  from adb_txn.process_all_ok [OF assms(1,2) this, of now] xs show ?thesis by metis
qed

theorem postprocess_chain_witness:
  "\<exists>n n' err. addGenesis wg 0 GENESIS_TIMESTAMP wg_node = (n, None) \<and>
     selectAndPostprocess wg 0 [\<lparr>pp_Block = wg_block, pp_Hash = 6, pp_Txs = []\<rparr>] n = Some (n', err)"
proof -
  obtain n n' stats where w: "addGenesis wg 0 GENESIS_TIMESTAMP wg_node = (n, None)" "node_inv wg n stats [5]"
    by (rule wg_two_blocks)
  have "pp_ok wg \<lparr>pp_Block = wg_block, pp_Hash = 6, pp_Txs = []\<rparr>"
    using wg_block_wf wg_hashes by (simp add: pp_ok_def del: mem_ext_simps) (simp add: wg_block_def)
  then have "\<forall>p\<in>set [\<lparr>pp_Block = wg_block, pp_Hash = 6, pp_Txs = []\<rparr>]. pp_ok wg p" by simp
  from postprocess_chain [OF mem.adb_txn_axioms w(2) this, of 0] w(1) show ?thesis by blast
qed

text \<open>C40: a tip keeps the hash it was made with as its key. Two blocks on that first block, one after the
  other, both change the same entry: the first of them is no longer the tip of anything, and the recorded
  height is one too high.\<close>

theorem tip_overwritten:
  assumes "map_of tips (PrevHash b1) = Some tip" "PrevHash b2 = PrevHash b1"
  shows "map_of (extend_tips b2 h2 (extend_tips b1 h1 tips)) = (map_of tips)(PrevHash b1 \<mapsto>
    tip\<lparr>tip_Hash := h2, tip_Height := tip_Height tip + 2, tip_CumulativeDiff := bl_CumulativeDiff b2\<rparr>)"
  using assms by (simp add: extend_tips_def update_conv' add.commute)

theorem tip_overwritten_witness:
  "map_of (extend_tips wg_block 8 (extend_tips wg_block 7
     [(5, \<lparr>tip_Hash = 5, tip_Height = 4, tip_CumulativeDiff = U128_Zero\<rparr>)])) 5 =
   Some \<lparr>tip_Hash = 8, tip_Height = 6, tip_CumulativeDiff = bl_CumulativeDiff wg_block\<rparr>"
  using tip_overwritten [of "[(5, \<lparr>tip_Hash = 5, tip_Height = 4, tip_CumulativeDiff = U128_Zero\<rparr>)]" wg_block _ wg_block 8 7]
  by (simp add: wg_block_def PrevHash_def)

section \<open>The node on the network\<close>

text \<open>C6: a node that starts on an empty store and then, in any order, handles whatever packets peers send,
  processes the waiting blocks, synchronizes, accepts blocks of miners, transactions and stake
  signatures, and runs the commands of its operator, always has statistics that describe a main chain from the first block,
  with no heavier tip known and no orphan recorded; no stored block is higher than the number of steps, and every
  command that the operator may type next returns.\<close>

theorem network_safe:
  assumes "adb_txn e" "no_zero_hash e" "\<forall>i k. kvGet e (nd_txn n0) i k = None" "GENESIS_TIMESTAMP \<le> time"
    and "addGenesis e now time n0 = (n, None)"
    and "node_run e cp \<lparr>pn_node = n, pn_postprocess = [], pn_peers = ps\<rparr> k pn" "k < 2 ^ 64"
  shows "\<exists>stats cs. node_inv e (pn_node pn) stats cs \<and> hd cs = Block_Hash e genesis \<and>
    heights_below e (nd_txn (pn_node pn)) k \<and>
    (k + 64 < 2 ^ 64 \<longrightarrow> (\<forall>now line. \<exists>r. node_command e now line pn = Some r))"
proof -
  let ?g = "Block_Hash e genesis"
  obtain n' stats m where g: "addGenesis e now time n0 = (n', None)" "node_inv e n' stats [?g]"
    "\<forall>x. GetBlock e (nd_txn n') x = (if x = ?g then Inr genesis else Inl (Err ''block not found''))"
    by (rule adb_txn.addGenesis_ok [OF assms(1), of n0 time now])
      (use assms(2-4) in \<open>auto simp: no_zero_hash_def\<close>)
  then have "heights_below e (nd_txn n') 0" by (auto simp: heights_below_def split: if_splits)
  with g have "net_inv e ?g 0 0 \<lparr>pn_node = n, pn_postprocess = [], pn_peers = ps\<rparr>"
    using assms(5) by (auto simp: net_inv_def chain_from_def intro!: exI [of _ stats] exI [of _ "[?g]"])
  from adb_txn.node_run_inv [OF assms(1,6) this assms(2)] assms(7) have "chain_from e ?g 0 k (pn_node pn)"
    by (simp add: net_inv_def)
  then show ?thesis using node_command_ends [of e ?g 0 k pn] by (auto simp: chain_from_def)
qed

theorem network_safe_witness:
  "\<exists>n n' stats cs. addGenesis wg 0 GENESIS_TIMESTAMP wg_node = (n, None) \<and>
     node_run wg wn_checkpoints (wn_start n) 1 ((wn_start n)\<lparr>pn_node := n'\<rparr>) \<and> node_inv wg n' stats cs \<and> hd cs = 5"
proof -
  obtain n n' stats where w: "addGenesis wg 0 GENESIS_TIMESTAMP wg_node = (n, None)"
    "AddBlock wg 0 wg_block 6 n = Some (n', None)" by (rule wg_two_blocks)
  note run = wn_run [OF w(2)]
  from network_safe [OF mem.adb_txn_axioms wg_no_zero_hash _ _ w(1) run [unfolded wn_start_def]] wg_empty
  obtain stats cs where "node_inv wg n' stats cs" "hd cs = 5" by (auto simp: wg_hashes simp del: mem_ext_simps)
  with w(1) run show ?thesis by blast
qed







section \<open>The mempool and blocks from peers\<close>

text \<open>C8: a prevalidated transaction that neither stakes nor unstakes and that \<open>AddTransaction\<close> accepted into
  an empty mempool is stored, is the only entry, and can be applied next: no block that a miner builds of it fails because of it.\<close>

theorem mempool_applies:
  assumes "adb_txn e" "AddTransaction e now tx h True height (cs_txn s) = (t', None)"
    and "kvGet e (cs_txn s) IdxTx (arr_bytes h) = None" "GetMempool e (cs_txn s) = Inr []"
    and "Tx_Prevalidate e tx height = None" "tx_matches tx"
    "tx_Version tx \<noteq> TX_VERSION_STAKE" "tx_Version tx \<noteq> TX_VERSION_UNSTAKE"
  shows "(\<exists>s'. ApplyTxToState e tx (FromPubKey e (tx_Signer tx)) bl bh h (s\<lparr>cs_txn := t'\<rparr>) = (s', None)) \<and>
    (\<exists>en. mempool_entry e now tx h = Inr en \<and> GetMempool e t' = Inr (Mempool_expire now [en]))"
proof -
  obtain en where en: "validateMempoolTx e (cs_txn s) tx h [] height = Inr ()" "mempool_entry e now tx h = Inr en"
    "only_writes e {IdxTx, IdxInfo} (cs_txn s) t'" "GetMempool e t' = Inr (Mempool_expire now ([] @ [en]))"
    "kvGet e t' IdxTx (arr_bytes h) = Some (AddUint64 0 @ AddFixedByteArray (Tx_Serialize tx))"
    by (rule adb_txn.AddTransaction_parts [OF assms(1-4)])
  have "validateMempoolTx e (cs_txn (s\<lparr>cs_txn := t'\<rparr>)) tx h [] height = Inr ()"
    using adb_txn.validate_cong [OF assms(1) en(3), of tx h height] en(1) by simp
  from adb_txn.validated_applies [OF assms(1) this assms(5-8)] en show ?thesis
    by (simp add: AddUint64_def)
qed

theorem mempool_applies_witness:
  "\<exists>t' s'. AddTransaction wp 0 wp_tx 9 True 100000 (cs_txn wp_start) = (t', None) \<and>
     ApplyTxToState wp wp_tx (FromPubKey wp (tx_Signer wp_tx)) (w_block 1) 7 9 (wp_start\<lparr>cs_txn := t'\<rparr>) = (s', None)"
proof -
  obtain t' where t': "AddTransaction wp 0 wp_tx 9 True 100000 (cs_txn wp_start) = (t', None)" using wp_accepted by blast
  have "tx_matches wp_tx" "tx_Version wp_tx \<noteq> TX_VERSION_STAKE" "tx_Version wp_tx \<noteq> TX_VERSION_UNSTAKE"
    by (simp_all add: wp_tx_def tx_matches_def tx_versions)
  from mempool_applies [OF mem.adb_txn_axioms t' wp_start_reads(2,3) wp_tx_prevalidated this, of "w_block 1" 7] t'
  show ?thesis by blast
qed

text \<open>C37: an unstake of a fund that unlocks one block above the top passes the mempool's check of unstakes, which
  compares with the next height, but \<open>ApplyTxToState\<close>, which compares with the top height, refuses it.\<close>

theorem unstake_gap:
  assumes "adb_txn e" "tx_Version tx = TX_VERSION_UNSTAKE" "tx_Data tx = Unstake amount did"
    and "GetDelegate e (cs_txn s) did = Inr d" "own_fund a d = Some f"
    and "df_Unlock f = TopHeight (cs_stats s) + 1" "TopHeight (cs_stats s) < df_Unlock f"
    and "st_DelegateId st = did" "amount \<le> df_Amount f" "sim_delegates m did = None"
  shows "check_unstake_tx e (cs_txn s) (tx_Data tx) a st (TopHeight (cs_stats s) + 1) m = Inr () \<and>
    snd (ApplyTxToState e tx a bl bh txid s) \<noteq> None"
proof
  show "check_unstake_tx e (cs_txn s) (tx_Data tx) a st (TopHeight (cs_stats s) + 1) m = Inr ()"
    using assms by (auto simp: check_unstake_tx_def getOrLoadDelegate_def require_def)
  show "snd (ApplyTxToState e tx a bl bh txid s) \<noteq> None"
    by (rule adb_txn.unstake_rejected [OF assms(1-5,7)])
qed

theorem unstake_gap_witness:
  "validateMempoolTx wp (cs_txn wu_start) wu_tx 9 [] (TopHeight (cs_stats wu_start) + 1) = Inr () \<and>
   snd (ApplyTxToState wp wu_tx (FromPubKey wp (tx_Signer wu_tx)) (w_block 1) 7 9 wu_start) \<noteq> None"
proof
  have top: "TopHeight (cs_stats wu_start) = 300000" by (simp add: wu_start_def)
  then show "validateMempoolTx wp (cs_txn wu_start) wu_tx 9 [] (TopHeight (cs_stats wu_start) + 1) = Inr ()"
    using wu_accepted by simp
  have "own_fund wp_addr wu_delegate = Some \<lparr>df_Owner = wp_addr, df_Amount = 2000000000, df_Unlock = 300001\<rparr>"
    by (simp add: own_fund_def wu_delegate_def)
  from unstake_gap [OF mem.adb_txn_axioms _ _ wu_start_reads(3) this, of wu_tx 2000000000
      "State_zero\<lparr>st_DelegateId := 1\<rparr>" "\<lparr>sim_states = (\<lambda>_. None), sim_delegates = (\<lambda>_. None)\<rparr>"] top
  show "snd (ApplyTxToState wp wu_tx (FromPubKey wp (tx_Signer wu_tx)) (w_block 1) 7 9 wu_start) \<noteq> None"
    by (simp add: wu_tx_def wp_addr del: mem_ext_simps)
qed

text \<open>A block with its transactions, as \<open>SerializeFullBlock\<close> writes it for a peer, is read back by
  \<open>DeserializeFull\<close> with the same transactions, when the store holds them under their hashes in the
  encoding of the block's height.\<close>

lemma full_block_roundtrip:
  assumes "block_wf b" "SerializeFullBlock e txn b = Inr bs"
    and "\<forall>v\<in>set (bl_Transactions b). \<forall>tx m. GetTx e txn v (Height b) = Inr (tx, m) \<longrightarrow>
      tx_sendable (Height b \<ge> HARDFORK_V2_HEIGHT) tx \<and> Tx_Hash e tx = v"
  shows "\<exists>ts. Block_DeserializeFull e bs = Inr (b, ts) \<and> map (Tx_Hash e) ts = bl_Transactions b"
  using assms by (intro FullBlock_codec) blast+

lemma full_block_sent:
  "\<exists>bs ts. SerializeFullBlock we wf_store wf_block = Inr bs \<and> Block_DeserializeFull we bs = Inr (wf_block, ts) \<and>
     map (Tx_Hash we) ts = [Tx_Hash we wf_tx]"
proof -
  obtain bs where bs: "SerializeFullBlock we wf_store wf_block = Inr bs" using wf_block_ok(3) by blast
  have "bl_Transactions wf_block = [Tx_Hash we wf_tx]" "Height wf_block = HARDFORK_V2_HEIGHT"
    by (simp_all add: wf_block_def)
  with full_block_roundtrip [OF wf_block_ok(1) bs] bs wf_block_ok(2,4) show ?thesis
    by (simp del: mem_ext_simps)
qed

text \<open>C27: what a block has that \<open>PrevalidateBlock\<close> accepts: the version of its height, at least the minimum
  difficulty, other chains that are pairwise different and not this network, valid transactions, and
  either enough proof of work or, below the last checkpoint, the checkpoint's hash at every checkpointed
  height.\<close>

theorem prevalidate_block:
  assumes "PrevalidateBlock c cp time b txs = Inr ()"
  shows "Version b = (if Height b \<ge> HARDFORK_V3_HEIGHT then 1 else 0) \<and>
    unat (MIN_DIFFICULTY :: u64) \<le> val128 (Difficulty b) \<and>
    NETWORK_ID \<notin> set (map NetworkID (OtherChains b)) \<and> distinct (map hid_Hash (OtherChains b)) \<and>
    distinct (map NetworkID (OtherChains b)) \<and> (\<forall>tx\<in>set txs. Tx_Prevalidate c tx (Height b) = None) \<and>
    (\<not> IsSecured cp (Height b) \<longrightarrow> (\<exists>mb. Commitment_MiningBlob c (Block_Commitment c b) = Inr mb \<and>
       le_val (drop 16 (arr_bytes (randomvirel_PowHash c (GetSeed c mb) (MiningBlob_Serialize mb)))) *
         val128 (Difficulty b) < 2 ^ 128)) \<and>
    (IsSecured cp (Height b) \<and> IsCheckpoint cp (Height b) \<longrightarrow> GetCheckpoint cp (Height b) = Inr (Block_Hash c b))"
proof -
  note s = PrevalidateBlock_sound [OF assms]
  have "val128 (Difficulty b) \<noteq> 0" using s(2) by (simp add: config_defs)
  with s prevalidate_pow_sound other_chain_error_iff prevalidate_txs_iff show ?thesis by blast
qed

theorem prevalidate_block_witness:
  "\<exists>mb. Commitment_MiningBlob wh_crypto (Block_Commitment wh_crypto wg_block) = Inr mb \<and>
     le_val (drop 16 (arr_bytes (randomvirel_PowHash wh_crypto (GetSeed wh_crypto mb) (MiningBlob_Serialize mb)))) *
       val128 (Difficulty wg_block) < 2 ^ 128"
  using prevalidate_block [OF wh_prevalidated] by (simp add: IsSecured_def)

section \<open>The wallet\<close>

text \<open>C10: a transfer built by the wallet from the state of its account reaches the ledger. With a signature scheme that
  verifies its own signatures, and outputs that fit one transaction and 63 bits, the transaction is valid at the next height, an
  empty mempool accepts it, it can be applied next, and then every recipient has exactly the coins that were asked for and the
  wallet paid them and the fee.\<close>

theorem wallet_transfer:
  assumes "adb_txn e" "Wallet_Transfer e (ManualRefresh st topHeight w) outs (height \<ge> HARDFORK_V2_HEIGHT) = Inr tx"
    and "wal_Address w = FromPubKey e (Privkey_Public (wal_PrivateKey w))" "wal_Address w \<noteq> INVALID_ADDRESS"
    and "signs e (wal_PrivateKey w)"
    and "outs \<noteq> []" "length (merge_outputs outs) \<le> MAX_OUTPUTS" "coins_to (\<lambda>_. True) outs < 2 ^ 63"
    and "states_ok e (cs_txn s)" "total_balance e (cs_txn s) < 2 ^ 64" "GetState e (cs_txn s) (wal_Address w) = Inr st"
    and "GetMempool e (cs_txn s) = Inr []" "kvGet e (cs_txn s) IdxTx (arr_bytes h) = None"
  shows "Tx_Prevalidate e tx height = None \<and>
    (\<exists>t' s'. AddTransaction e now tx h True height (cs_txn s) = (t', None) \<and>
       ApplyTxToState e tx (wal_Address w) bl bh h (s\<lparr>cs_txn := t'\<rparr>) = (s', None) \<and>
       (\<forall>a. balance_of e (cs_txn s') a + (if a = wal_Address w then coins_to (\<lambda>_. True) outs + unat (tx_Fee tx) else 0) =
            balance_of e (cs_txn s) a + coins_to (\<lambda>r. r = a) outs))"
  by (rule adb_txn.wallet_transfer_lands [OF assms, of now bl bh]) blast

theorem wallet_transfer_witness:
  "\<exists>tx t' s'. Wallet_Transfer wp (ManualRefresh ww_state 99999 ww_wallet) ww_outs True = Inr tx \<and>
     AddTransaction wp 0 tx 9 True 100000 (cs_txn wp_start) = (t', None) \<and>
     ApplyTxToState wp tx wp_addr (w_block 1) 7 9 (wp_start\<lparr>cs_txn := t'\<rparr>) = (s', None) \<and>
     balance_of wp (cs_txn s') 2 = 100"
proof -
  obtain tx where tx: "Wallet_Transfer wp (ManualRefresh ww_state 99999 ww_wallet) ww_outs True = Inr tx"
    using ww_transfer by blast
  have h: "(100000 \<ge> (HARDFORK_V2_HEIGHT :: u64)) = True" by (simp add: config_defs)
  have "GetState wp (cs_txn wp_start) (wal_Address ww_wallet) = Inr ww_state"
    by (simp add: wp_start_reads ww_wallet_def ww_state_def del: mem_ext_simps)
  from wallet_transfer [OF mem.adb_txn_axioms, where height = 100000, unfolded h, OF tx ww_wallet_ok ww_outs_ok wp_start_ok
      this wp_start_reads(3,2), of 0 9 "w_block 1" 7]
  obtain t' s' where r: "AddTransaction wp 0 tx 9 True 100000 (cs_txn wp_start) = (t', None)"
    "ApplyTxToState wp tx (wal_Address ww_wallet) (w_block 1) 7 9 (wp_start\<lparr>cs_txn := t'\<rparr>) = (s', None)"
    and b: "balance_of wp (cs_txn s') 2 + (if 2 = wal_Address ww_wallet then coins_to (\<lambda>_. True) ww_outs + unat (tx_Fee tx) else 0) =
            balance_of wp (cs_txn wp_start) 2 + coins_to (\<lambda>r. r = 2) ww_outs"
    by blast
  have "balance_of wp (cs_txn s') 2 = 100"
    using b wp_addr(3) wp_start_reads(1) [of 2]
    by (simp add: ww_wallet_def ww_outs_def coins_to_def balance_of_def del: mem_ext_simps)
  then show ?thesis using tx r by (auto simp: ww_wallet_def)
qed

section \<open>The requests of a wallet\<close>



text \<open>C38: while an unstake of an account is waiting, the node answers a nonce that is one too small: the input of an
  unstake belongs to the delegate, and \<open>get_address\<close> counts inputs where the mempool counts entries of the signer. Every transaction
  with the next nonce after the answered one is refused.\<close>

theorem unstake_hides_nonce:
  assumes "adb_txn e" "mempool_entry e now utx uh = Inr en" "tx_Data utx = Unstake amount did" "FromPubKey e (tx_Signer utx) = a"
      "a \<noteq> NewDelegateAddress did"
    and "GetStats e txn = Inr stats" "GetState e txn a = Inr st" "GetMempool e txn = Inr [en]"
      "FromString (Address_String a) = Inr (Address_Integrated a)"
    and "FromPubKey e (tx_Signer tx) = a" "get_address e txn (Address_String a) = SuccessResponse res"
      "tx_Nonce tx = ga_MempoolNonce res + 1"
  shows "validateMempoolTx e txn tx h [en] height \<noteq> Inr ()"
  by (rule adb_txn.waiting_unstake_hides_nonce [OF assms])

theorem unstake_hides_nonce_witness:
  "ga_MempoolNonce wx_response = 0 \<and> validateMempoolTx wp wx_txn wp_tx 10 [wx_entry] 100000 \<noteq> Inr ()"
proof
  show n: "ga_MempoolNonce wx_response = 0"
    using wp_no_delegate by (auto simp: wx_response_def address_entry_at wx_entry_def wu_tx_def)
  have "tx_Data wu_tx = Unstake 2000000000 1" "tx_Nonce wp_tx = ga_MempoolNonce wx_response + 1"
    using n by (simp_all add: wu_tx_def wp_tx_def)
  from unstake_hides_nonce [OF mem.adb_txn_axioms wx_entry this(1) wp_addr(1) wp_no_delegate wx_reads(1,3,2) wp_text wp_addr(1)
      wx_get_address this(2)]
  show "validateMempoolTx wp wx_txn wp_tx 10 [wx_entry] 100000 \<noteq> Inr ()" .
qed

text \<open>C32: the pages of \<open>get_tx_list\<close> hold every incoming transaction of an account exactly once: each page has at most 25, the
  last page is the one that is answered as such, and the pages from the last to the first, joined, are all of them in order.\<close>

theorem tx_list_pages:
  assumes "GetState e txn a = Inr st" "unat (LastIncoming st) < 2 ^ 63"
    and "\<forall>k < unat (LastIncoming st). GetTxTopoInc e txn a (of_nat k + 1) = Inr (f k)"
  shows "\<exists>pages. (\<forall>p \<le> (unat (LastIncoming st) - 1) div 25.
      get_tx_list e txn a ''incoming'' (of_nat p) =
        SuccessResponse \<lparr>gl_Transactions = pages p, gl_MaxPage = of_nat ((unat (LastIncoming st) - 1) div 25)\<rparr> \<and>
      length (pages p) \<le> 25) \<and>
    concat (map pages (rev [0..<Suc ((unat (LastIncoming st) - 1) div 25)])) = map f [0..<unat (LastIncoming st)]"
proof -
  let ?n = "unat (LastIncoming st)" and ?m = "(unat (LastIncoming st) - 1) div 25"
  let ?pages = "\<lambda>p. map f [page_end ?n (p + 1)..<page_end ?n p]"
  have page: "get_tx_list e txn a ''incoming'' (of_nat p) = SuccessResponse \<lparr>gl_Transactions = ?pages p, gl_MaxPage = of_nat ?m\<rparr>"
    if "p \<le> ?m" for p by (rule get_tx_list_page [OF assms(1,2) that assms(3)])
  have "page_end ?n (Suc ?m) = 0" by (simp add: page_end_def)
  then have "concat (map ?pages (rev [0..<Suc ?m])) = map f [0..<?n]" using pages_concat [of f ?n "Suc ?m"] by simp
  moreover have "length (?pages p) \<le> 25" for p by (simp add: page_end_def)
  ultimately show ?thesis using page by (intro exI [of _ ?pages]) blast
qed

theorem tx_list_pages_witness:
  "\<exists>page0 page1. get_tx_list wp (wq_store 30) wp_addr ''incoming'' 0 = SuccessResponse \<lparr>gl_Transactions = page0, gl_MaxPage = 1\<rparr> \<and>
     get_tx_list wp (wq_store 30) wp_addr ''incoming'' 1 = SuccessResponse \<lparr>gl_Transactions = page1, gl_MaxPage = 1\<rparr> \<and>
     page1 @ page0 = map of_nat [0..<30]"
proof -
  let ?st = "State_zero\<lparr>LastIncoming := 30\<rparr>"
  have n: "unat (LastIncoming ?st) = 30" by simp
  from tx_list_pages [OF wq_reads(1), of 30 of_nat] wq_reads(2) [of 30] obtain pages where
    p: "\<forall>p \<le> 1. get_tx_list wp (wq_store 30) wp_addr ''incoming'' (of_nat p) = SuccessResponse \<lparr>gl_Transactions = pages p, gl_MaxPage = of_nat 1\<rparr> \<and>
       length (pages p) \<le> 25" and all: "concat (map pages (rev [0..<Suc 1])) = map of_nat [0..<30]"
    unfolding n by auto
  have "pages 1 @ pages 0 = map of_nat [0..<30]" using all by simp
  then show ?thesis using p [rule_format, of 0] p [rule_format, of 1] by auto
qed

section \<open>Encodings and arithmetic\<close>


text \<open>The variable-length encoding of every 64-bit number has at most ten bytes, is read back whatever
  follows it, and no encoding is a prefix of another.\<close>

lemma uvarint_roundtrip:
  "length (AddUvarint x) \<le> 10 \<and> ReadUvarint (NewDes (AddUvarint x @ rest)) = (x, NewDes rest) \<and>
   (AddUvarint x @ rest = AddUvarint y @ rest' \<longrightarrow> x = y \<and> rest = rest')"
proof (intro conjI impI)
  show "length (AddUvarint x) \<le> 10" using length_AppendUvarint [of x] by (simp add: AddUvarint_def)
  show "ReadUvarint (NewDes (AddUvarint x @ rest)) = (x, NewDes rest)" by (rule ReadUvarint_AddUvarint)
  assume "AddUvarint x @ rest = AddUvarint y @ rest'"
  from uvarint.enc_prefix_free [OF _ _ this] show "x = y" "rest = rest'" by simp_all
qed

text \<open>The text of an address that names no delegate is read back exactly when the first byte of its
  checksum is not zero: a zero there is lost in the number of which the text is written.\<close>

lemma address_text:
  assumes "\<not> IsDelegate a"
  shows "FromString (Address_String a) =
    (if hd (checksum (arr_bytes a)) = 0 then Inl (Err ''invalid address size'')
     else Inr (Address_Integrated a))"
proof (cases "hd (checksum (arr_bytes a)) = 0")
  case False
  obtain x y where "checksum (arr_bytes a) = [x, y]" by (rule checksum_cases)
  then have "hd (Integrated_bytes (Address_Integrated a)) \<noteq> 0"
    using False compact_Nil [of 0] by (simp add: Integrated_bytes_def Address_Integrated_def)
  then show ?thesis
    using FromString_String_ok [of "Address_Integrated a"] assms False
    by (simp add: Address_String_def Address_Integrated_def)
qed (use FromString_String_leading_zero [OF assms] in simp)

text \<open>The addresses of delegates are exactly those that \<open>NewDelegateAddress\<close> makes, each with its own
  id, and the text of one with a nonzero id is read back.\<close>

lemma delegate_addresses:
  "(IsDelegate a \<longleftrightarrow> (\<exists>did. a = NewDelegateAddress did)) \<and> DecodeDelegateId (NewDelegateAddress n) = n \<and>
   (n \<noteq> 0 \<longrightarrow> FromString (Address_String (NewDelegateAddress n)) =
      Inr (Address_Integrated (NewDelegateAddress n)))"
  using IsDelegate_iff FromString_delegate by simp

text \<open>The packets for statistics, stake signatures and block requests are read back by the peer.\<close>

lemma packets_roundtrip:
  "PacketStats_Deserialize (PacketStats_Serialize p) = Inr p \<and>
   PacketStakeSignature_Deserialize (PacketStakeSignature_Serialize q) = Inr q \<and>
   ((if br_Height r = 0 then br_Count r = 0 else br_Hash r = 0) \<longrightarrow>
      PacketBlockRequest_Deserialize (PacketBlockRequest_Serialize r) = Inr r)"
  using PacketStats_codec PacketStakeSignature_codec PacketBlockRequest_codec by blast

text \<open>A boolean is never read back as it was written: \<open>true\<close> is read as an error and \<open>false\<close> as \<open>true\<close>.\<close>

lemma bool_broken:
  "ReadBool (NewDes (AddBool True @ rest)) =
     (False, des_fail ''invalid boolean value'' (NewDes rest)) \<and>
   ReadBool (NewDes (AddBool False @ rest)) = (True, NewDes rest)"
  by (rule ReadBool_AddBool)

section \<open>Peers\<close>

text \<open>C22: however the threads of the connections interleave, whatever handshakes and lists of peers arrive and whichever
  connections are dropped, no address is twice among the known peers, none has port zero, at most two connections that
  serve packets belong to the same peer and none to the node itself, and each has the key agreed with its peer.\<close>

theorem p2p_connections:
  assumes "p2p_run c ParseIP p pc"
  shows "distinct (map kp_IP (p2_KnownPeers p)) \<and> (\<forall>kp\<in>set (p2_KnownPeers p). kp_Port kp \<noteq> 0) \<and>
    distinct (map fst (p2_Connections p)) \<and>
    (\<forall>pid. length (filter (\<lambda>(k, v). pc k = Some Serving \<and> cd_PeerId v = pid) (p2_Connections p)) \<le> 2) \<and>
    (\<forall>(k, v)\<in>set (p2_Connections p). pc k = Some Serving \<longrightarrow> cd_PeerId v \<noteq> PeerId c p \<and>
       (\<exists>key. cd_Cipher v = Some key \<and> session_key c (p2_Privkey p) (cd_PeerId v) = Inr key))"
proof -
  have inv: "peerlist_ok (p2_KnownPeers p)" "conns_ok c (p2_Privkey p) (p2_Connections p) pc"
    using p2p_run_inv [OF assms] by (simp_all add: p2p_inv_def)
  have "cd_PeerId v \<noteq> PeerId c p \<and> (\<exists>key. cd_Cipher v = Some key \<and> session_key c (p2_Privkey p) (cd_PeerId v) = Inr key)"
    if "(k, v) \<in> set (p2_Connections p)" "pc k = Some Serving" for k v
  proof -
    have "conn_ok c (p2_Privkey p) (pc k) v" using inv(2) that(1) by (auto simp: conns_ok_def)
    then show ?thesis using that(2) by (auto simp: conn_ok_def keyed_ok_def PeerId_def split: option.splits)
  qed
  then show ?thesis using inv unfolding peerlist_ok_def conns_ok_def serving_with_def by blast
qed

theorem p2p_connections_witness:
  "p2p_run nc nc_ParseIP tw_end tw_pc \<and>
   length (filter (\<lambda>(k, v). tw_pc k = Some Serving \<and> cd_PeerId v = 7) (p2_Connections tw_end)) = 2 \<and>
   (\<exists>key. cd_Cipher tw_conn = Some key \<and> session_key nc (p2_Privkey tw_end) 7 = Inr key)"
proof -
  have "(''a'', tw_conn) \<in> set (p2_Connections tw_end)" "tw_pc ''a'' = Some Serving" "cd_PeerId tw_conn = 7"
    by (simp_all add: tw_end_def tw_pc_def tw_conn_def)
  moreover have "length (filter (\<lambda>(k, v). tw_pc k = Some Serving \<and> cd_PeerId v = 7) (p2_Connections tw_end)) = 2"
    by (simp add: tw_end_def tw_pc_def tw_conn_def)
  ultimately show ?thesis using tw_run p2p_connections [OF tw_run] by fastforce
qed



text \<open>C35: two ways in which a remote party crashes the node. A list of peers with an entry whose length does not fit a
  signed 64-bit number, which any peer that has finished the handshake can send, and a submission with a nonce of
  fewer than four bytes, which any miner that is logged in can send.\<close>

theorem remote_crash:
  assumes "port \<noteq> 0" "2 ^ 63 \<le> len" "length rest < 2 ^ 63"
    and "pack_Type pk = 1" "pack_Data pk = AddUint16 port @ AppendUvarint len @ rest" "length nonce < 4"
  shows "snd (fst (onPacketReceived ParseIP now k pk p)) = Some (Panic ''slice bounds out of range'') \<and>
    submit e cp now time reply k' (Some (plain_submit jobid nonce)) sv n = Some (n, Crashed ''index out of range'')"
  using AddPeer_crash [OF assms(1-5)] submit_short_nonce [OF assms(6)] by blast

theorem remote_crash_witness:
  "snd (fst (onPacketReceived nc_ParseIP 0 ''p'' \<lparr>pack_Type = 1, pack_Data = AddUint16 1 @ AppendUvarint (2 ^ 63) @ []\<rparr> dl_q')) =
     Some (Panic ''slice bounds out of range'') \<and>
   submit we wj_cp 0 0 (\<lambda>_ _. None) ''a'' (Some (plain_submit ''x'' [])) wj_server wg_node = Some (wg_node, Crashed ''index out of range'')"
  using remote_crash [of 1 "2 ^ 63" "[]" "\<lparr>pack_Type = 1, pack_Data = AddUint16 1 @ AppendUvarint (2 ^ 63) @ []\<rparr>" "[]"]
  by simp

section \<open>Miners\<close>





text \<open>C34: the jobs of one template share the block. When a second miner is sent the job after the first, a submission of the
  first is checked against the job of the second: its hash is taken of the second miner's blob, and a block that is found
  pays the second miner.\<close>

theorem stratum_shared_block:
  assumes "SendJob_conn e ref diff extra jobid k sv = Inr (sv', Some job)" "sv_conn k sv = Some v"
    and "SendJob_conn e ref diff extra' jobid' k' sv' = Inr (sv'', Some job')" "sv_conn k' sv = Some v'"
    and "ref < length (sv_Blocks sv)" "jobid \<notin> mj_JobID ` set (mc_Jobs v)" "length nonce = 4" "k \<noteq> k'"
  shows "submit e cp now time reply k (Some (plain_submit (job_JobID job) nonce)) sv'' n =
    check_submitted e cp now time reply (sv_Merges sv)
      ((sv_Blocks sv ! ref)\<lparr>NonceExtra := extra', bl_Recipient := mc_Address v', Nonce := word_of_nat (le_val nonce)\<rparr>)
      (pow_half (randomvirel_PowHash e (job_SeedHash job') (with_nonce (job_Blob job') nonce))) n"
  by (rule submit_shared_block [OF assms])

theorem stratum_shared_block_witness:
  "\<exists>sv' job sv'' job'. SendJob_conn we 0 (U128_From64 10000) 9 ''x'' ''a'' wj_server = Inr (sv', Some job) \<and>
     SendJob_conn we 0 (U128_From64 10000) 8 ''y'' ''b'' sv' = Inr (sv'', Some job') \<and>
     submit we wj_cp 0 0 (\<lambda>_ _. None) ''a'' (Some (plain_submit (job_JobID job) [1, 2, 3, 4])) sv'' wg_node =
       check_submitted we wj_cp 0 0 (\<lambda>_ _. None) [] (wj_block\<lparr>NonceExtra := 8, bl_Recipient := 2, Nonce := 0x04030201\<rparr>)
         (pow_half (randomvirel_PowHash we (job_SeedHash job') (with_nonce (job_Blob job') [1, 2, 3, 4]))) wg_node"
proof -
  obtain sv' job where s: "SendJob_conn we 0 (U128_From64 10000) 9 ''x'' ''a'' wj_server = Inr (sv', Some job)"
    using wj_send by blast
  obtain sv'' job' where s': "SendJob_conn we 0 (U128_From64 10000) 8 ''y'' ''b'' sv' = Inr (sv'', Some job')"
    using wj_send2 [OF s] by blast
  have v: "sv_conn ''a'' wj_server = Some \<lparr>mc_Address = 1, mc_Jobs = []\<rparr>" "sv_conn ''b'' wj_server = Some \<lparr>mc_Address = 2, mc_Jobs = []\<rparr>"
    by (simp_all add: wj_server_def sv_conn_def)
  show ?thesis
    using s s' stratum_shared_block [OF s v(1) s' v(2), of "[1, 2, 3, 4]"] by (auto simp: wj_server_def)
qed

section \<open>Wallet programs\<close>



text \<open>C36: the total that the wallet reports for a subaddress leaves out the oldest transactions as soon as the account has more than
  25 incoming ones: the loop over the pages of the node ends before the last page. What it counts are the
  transactions from number \<open>n - 25 * ((n - 1) div 25)\<close> on, each once, and that number is at least one.\<close>

theorem subaddress_incomplete:
  assumes "GetState e txn (wal_Address w) = Inr st" "unat (LastIncoming st) = n" "25 < n" "n < 2 ^ 63"
    and "\<forall>k < n. GetTxTopoInc e txn (wal_Address w) (of_nat k + 1) = Inr (f k)"
    and "wal_Address w \<noteq> INVALID_ADDRESS" "wallet_Refresh dm w = (w', None)"
    and "dm_GetTxList dm = (\<lambda>a ty p. client (get_tx_list e txn a ty p))"
    and "gs_Subaddress r = None" "gs_PaymentId r \<noteq> 0" "gs_MaxPage r = 0"
  shows "1 \<le> n - 25 * ((n - 1) div 25) \<and> (\<exists>ks. distinct ks \<and> set ks = {n - 25 * ((n - 1) div 25)..<n} \<and> get_subaddress dm w r =
    Some (w', SuccessResponse (received_txs dm (wal_Address w) (gs_PaymentId r)
      (if gs_Confirmations r = 0 then 1 else gs_Confirmations r) (wal_height w') (map f ks) received_none)))"
proof
  have "25 * ((n - 1) div 25) \<le> n - 1" by simp
  then show "1 \<le> n - 25 * ((n - 1) div 25)" using assms(3) by linarith
qed (rule get_subaddress_node [OF assms])

theorem subaddress_incomplete_witness:
  "\<exists>w' ks. set ks = {5..<30} \<and>
     get_subaddress sa_daemon sk_wallet \<lparr>gs_PaymentId = 7, gs_Subaddress = None, gs_Confirmations = 1, gs_MaxPage = 0\<rparr> =
       Some (w', SuccessResponse (received_txs sa_daemon wp_addr 7 1 (wal_height w') (map of_nat ks) received_none))"
proof -
  obtain w' where w': "wallet_Refresh sa_daemon sk_wallet = (w', None)" using sa_refresh by blast
  let ?r = "\<lparr>gs_PaymentId = 7, gs_Subaddress = None, gs_Confirmations = 1, gs_MaxPage = 0\<rparr>"
  have a: "wal_Address sk_wallet = wp_addr" by (simp add: sk_wallet_def)
  have inc: "unat (LastIncoming (State_zero\<lparr>LastIncoming := 30\<rparr>)) = 30" "(25::nat) < 30" "(30::nat) < 2 ^ 63" by simp_all
  have known: "\<forall>k < 30. GetTxTopoInc wp (wq_store 30) wp_addr (of_nat k + 1) = Inr (of_nat k)" using wq_reads(2) [of 30] by simp
  have v: "wp_addr \<noteq> INVALID_ADDRESS" using wp_addr(2) by (simp add: INVALID_ADDRESS_def)
  have dm: "dm_GetTxList sa_daemon = (\<lambda>a ty p. client (get_tx_list wp (wq_store 30) a ty p))" by (simp add: sa_daemon_def)
  have r: "gs_Subaddress ?r = None" "gs_PaymentId ?r \<noteq> 0" "gs_MaxPage ?r = 0" by simp_all
  from subaddress_incomplete [where w = sk_wallet, unfolded a, OF wq_reads(1) inc known v w' dm r]
  show ?thesis by auto
qed

section \<open>The server in front of the requests\<close>

text \<open>C17: whatever calls of \<open>CanAct\<close> the threads of the server make, in whatever order and for whatever addresses, an
  address is granted at most \<open>2 * maxPerMinute + 1\<close> actions in any 60 seconds. The count is cleared at most once in that
  time, and the action that clears it is not counted.\<close>

theorem rpc_rate:
  assumes "0 \<le> m" and "\<forall>(t, ip, n)\<in>set before. 1 \<le> n"
    and "\<forall>(t, ip, n)\<in>set acts. T \<le> t \<and> t \<le> T + 60 \<and> 1 \<le> n"
  shows "int (length (filter (\<lambda>granted. granted) (outputs_of (\<lambda>(t, ip', n). ip' = ip) acts
           (snd (run can_act acts (fst (run can_act before (ratelimit_New m)))))))) \<le> 2 * m + 1"
  using rate_in_minute [OF assms, of ip] by (simp add: split_def)

theorem rpc_rate_witness:
  "let before = [(1000, ''a'', 1)];
       acts = [(1060, ''a'', 1), (1060, ''b'', 9), (1060, ''a'', 1), (1061, ''a'', 1), (1061, ''a'', 1), (1061, ''a'', 1), (1062, ''a'', 1)];
       granted = filter (\<lambda>granted. granted) (outputs_of (\<lambda>(t, ip', n). ip' = ''a'') acts
         (snd (run can_act acts (fst (run can_act before (ratelimit_New 2))))))
   in length granted = 5 \<and> int (length granted) \<le> 2 * 2 + 1"
proof -
  let ?before = "[(1000, ''a'', 1)] :: act list"
  let ?acts = "[(1060, ''a'', 1), (1060, ''b'', 9), (1060, ''a'', 1), (1061, ''a'', 1), (1061, ''a'', 1), (1061, ''a'', 1), (1062, ''a'', 1)] :: act list"
  let ?granted = "filter (\<lambda>granted. granted) (outputs_of (\<lambda>(t, ip', n). ip' = ''a'') ?acts
         (snd (run can_act ?acts (fst (run can_act ?before (ratelimit_New 2))))))"
  have "length ?granted = 5" by (simp add: CanAct_def ratelimit_New_def info_of_def)
  moreover have "int (length ?granted) \<le> 2 * 2 + 1" by (rule rpc_rate [where T = 1010]) simp_all
  ultimately show ?thesis by simp
qed

text \<open>C12: with credentials configured, clients without them do not exist for the others. When the addresses
  outside \<open>P\<close> never send the credentials, the wallet and every response to an address in \<open>P\<close> are the same as if the
  requests of the other addresses had not been made: they neither change the wallet nor use up the limit of the others.\<close>

theorem wallet_guarded:
  assumes "snd (wallet_main_rpc e dm js w port auth) = Some s" "auth \<noteq> []"
    and "\<forall>(t, t', req)\<in>set rs. P (request_ip req) \<or> \<not> authorized auth req"
  shows "let own = (\<lambda>(t, t', req). P (request_ip req));
             (s1, out1) = run (handler (wj_request js)) rs s;
             (s2, out2) = run (handler (wj_request js)) (filter own rs) s
         in sv_state s1 = sv_state s2 \<and> outputs_of own rs out1 = out2"
proof -
  have "s = startRpcServer e dm js w auth"
    using assms(1) by (simp add: wallet_main_rpc_def split: if_splits)
  then have "Authentication (sv_config s) = auth" by (simp add: wallet_server)
  from handler_purged [OF this assms(2,3), of "wj_request js"] show ?thesis by (simp add: Let_def split_beta)
qed

theorem wallet_guarded_witness:
  "let s = startRpcServer wp ws_daemon ws_json ww_wallet ''user:pass'';
       intruder = (1000, 1000, ws_request ''10.0.0.2'' None);
       owner = (1001, 1001, ws_request ''10.0.0.1'' (Some (''user'', ''pass'')));
       (s1, out1) = run (handler (wj_request ws_json)) [intruder, intruder, owner, intruder] s;
       (s2, out2) = run (handler (wj_request ws_json)) [owner] s
   in sv_state s1 = sv_state s2 \<and> out1 ! 2 = out2 ! 0"
proof -
  let ?i = "(1000, 1000, ws_request ''10.0.0.2'' None) :: int \<times> int \<times> HttpRequest"
  let ?o = "(1001, 1001, ws_request ''10.0.0.1'' (Some (''user'', ''pass''))) :: int \<times> int \<times> HttpRequest"
  have "snd (wallet_main_rpc wp ws_daemon ws_json ww_wallet 1 ''user:pass'') =
      Some (startRpcServer wp ws_daemon ws_json ww_wallet ''user:pass'')"
    by (simp add: wallet_main_rpc_def)
  moreover have "\<forall>(t, t', req)\<in>set [?i, ?i, ?o, ?i]. request_ip req = ''10.0.0.1'' \<or> \<not> authorized ''user:pass'' req"
    by (simp add: ws_call) (simp add: ws_request_def authorized_def)
  ultimately show ?thesis
    using wallet_guarded [of wp ws_daemon ws_json ww_wallet 1 "''user:pass''" _ "[?i, ?i, ?o, ?i]" "\<lambda>ip. ip = ''10.0.0.1''"]
    by (simp add: ws_call Let_def split_beta)
qed

text \<open>C13: the first request of a client to create a transaction is answered with exactly one document, which has the
  id of the request and the transaction that the wallet has made and signed, or the error. Credentials are asked
  for only when they are configured: with the empty text, which is the default and makes the program log an error and go on,
  anyone who reaches the port can spend the coins of the wallet.\<close>

theorem wallet_answers:
  assumes "snd (wallet_main_rpc e dm js w port auth) = Some s"
    and "hr_Method req = ''POST''" "origin_ok (hr_Origin req)" "auth \<noteq> [] \<longrightarrow> authorized auth req"
    and "hr_Body req = Some body" "2 \<le> length body" "wj_request js body = (r, True)" "in_JsonRpc r = ''2.0''"
    and "strings_ToLower (in_Method r) = ''create_transaction''"
      "wj_create_transaction js (case in_Params r of None \<Rightarrow> [] | Some p \<Rightarrow> p) = Some outputs"
    and "create_transaction e dm w outputs = (w', resp)" "0 \<le> t"
  shows "\<exists>s' res. handler (wj_request js) (t, t', req) s = (s', res, None) \<and> sv_state s' = w' \<and>
    rs_Body res = (case resp of
       SuccessResponse x \<Rightarrow>
         [\<lparr>out_JsonRpc = ''2.0'', out_Result = wj_CreateTransactionResponse js x, out_Error = None, out_Id = in_Id r\<rparr>]
     | ErrorResponse code m \<Rightarrow>
         [\<lparr>out_JsonRpc = ''2.0'', out_Result = Nil_any, out_Error = Some \<lparr>er_Code = code, er_Message = m\<rparr>, out_Id = in_Id r\<rparr>]
     | Crashed m \<Rightarrow> [])"
proof -
  have "s = startRpcServer e dm js w auth"
    using assms(1) by (simp add: wallet_main_rpc_def split: if_splits)
  then show ?thesis
    using create_transaction_answered [OF assms(2-12), of t'] by (cases resp) (simp_all add: error_out_def)
qed

theorem wallet_answers_witness:
  "\<exists>s s' res fee. wallet_main_rpc wp ws_daemon ws_json ww_wallet 6313 [] = ([''rpc-auth is invalid or too short''], Some s) \<and>
     handler (wj_request ws_json) (1000, 1000, ws_request ''10.0.0.2'' None) s = (s', res, None) \<and>
     rs_Body res = [\<lparr>out_JsonRpc = ''2.0'', out_Result = Json_any fee, out_Error = None, out_Id = Json_any 3\<rparr>]"
proof -
  let ?r = "\<lparr>in_JsonRpc = ''2.0'', in_Method = ''Create_Transaction'', in_Params = None, in_Id = Json_any 3\<rparr> :: nat RequestIn"
  let ?q = "ws_request ''10.0.0.2'' None"
  obtain s where s: "wallet_main_rpc wp ws_daemon ws_json ww_wallet 6313 [] = ([''rpc-auth is invalid or too short''], Some s)"
    by (simp add: wallet_main_rpc_def)
  obtain x where x: "create_transaction wp ws_daemon ww_wallet [(60, Integrated 2 0), (40, Integrated 2 0)] = (wr_wallet, SuccessResponse x)"
    using ws_created by blast
  have main: "snd (wallet_main_rpc wp ws_daemon ws_json ww_wallet 6313 []) = Some s" using s by simp
  have req: "hr_Method ?q = ''POST''" "origin_ok (hr_Origin ?q)" "[] \<noteq> [] \<longrightarrow> authorized [] ?q" "hr_Body ?q = Some ''{}''"
    by (simp_all add: ws_request_def origin_ok_def)
  have body: "2 \<le> length ''{}''" "wj_request ws_json ''{}'' = (?r, True)" "in_JsonRpc ?r = ''2.0''"
    "strings_ToLower (in_Method ?r) = ''create_transaction''"
    "wj_create_transaction ws_json (case in_Params ?r of None \<Rightarrow> [] | Some p \<Rightarrow> p) = Some [(60, Integrated 2 0), (40, Integrated 2 0)]"
    by (simp_all add: ws_json_def ws_method)
  from wallet_answers [OF main req body x, of 1000 1000] s show ?thesis by (auto simp: ws_json_def)
qed

section \<open>The program of the wallet\<close>



text \<open>C16: the amounts of the command \<open>transfer\<close> go through floating-point numbers. For texts with the exact values of at least
  two and fewer than \<open>2 ^ 52\<close> units, which the balance covers, the user is asked for a transfer to the recipients as typed, in the
  order as typed, in which each amount is the typed one or one unit less. The witness sends 2.01 coins as 2.009999999.\<close>

theorem cli_transfer:
  assumes "ps \<noteq> []" "list_all typed ps" "(\<Sum>p\<leftarrow>ps. py_units p) \<le> unat (wal_balance (cli_wallet s))"
    and "wallet_Refresh dm (cli_wallet s) = (w, None)"
  shows "\<exists>outs. list_all2 pays ps outs \<and>
    cmd_transfer c g dm (concat (map typed_args ps)) s =
      (case Wallet_Transfer c w outs (wal_height w \<ge> HARDFORK_V2_HEIGHT) of
         Inl _ \<Rightarrow> say ''no transaction'' (s\<lparr>cli_wallet := w\<rparr>)
       | Inr txn \<Rightarrow> ask_submit dm txn (s\<lparr>cli_wallet := w\<rparr>))"
  using cmd_transfer_asks [OF assms, of c g] by (simp add: with_ok_def)

theorem cli_transfer_witness:
  "let p = \<lparr>py_address = ''burnaddress'', py_amount = ''2.01'', py_to = Integrated 0 0, py_units = 2010000000\<rparr>;
       s = \<lparr>cli_wallet = cs_wallet cs_key, cli_input = [], cli_events = [], cli_exited = False\<rparr>
   in typed p \<and> pays p cs_out \<and> unat (Amount cs_out) = 2009999999 \<and>
      transfer_outputs cs_float (wal_balance (cli_wallet s)) 0 (typed_args p) = Inr [cs_out] \<and>
      (\<exists>out. pays p out \<and> cmd_transfer cs_crypto cs_float cs_daemon (typed_args p) s =
        (case Wallet_Transfer cs_crypto (cs_wallet cs_key) [out] False of
           Inl _ \<Rightarrow> say ''no transaction'' s | Inr txn \<Rightarrow> ask_submit cs_daemon txn s))"
proof -
  define p where "p = \<lparr>py_address = ''burnaddress'', py_amount = ''2.01'', py_to = Integrated 0 0, py_units = 2010000000\<rparr>"
  define s where "s = \<lparr>cli_wallet = cs_wallet cs_key, cli_input = [], cli_events = [], cli_exited = False\<rparr>"
  have p: "typed p" by (simp add: p_def typed_def cs_typed)
  have bal: "wal_balance (cs_wallet cs_key) = 9000000000" "wal_height (cs_wallet cs_key) = 99999" by (simp_all add: cs_wallet_def)
  have refresh: "wallet_Refresh cs_daemon (cli_wallet s) = (cs_wallet cs_key, None)" by (simp add: s_def cs_refresh cs_wallet_def)
  have s_same: "s\<lparr>cli_wallet := cs_wallet cs_key\<rparr> = s" by (simp add: s_def)
  have "(\<Sum>p\<leftarrow>[p]. py_units p) \<le> unat (wal_balance (cli_wallet s))" by (simp add: p_def s_def bal)
  from cli_transfer [OF _ _ this refresh, of cs_crypto cs_float, unfolded s_same] p
  obtain out where out: "pays p out" "cmd_transfer cs_crypto cs_float cs_daemon (typed_args p) s =
      (case Wallet_Transfer cs_crypto (cs_wallet cs_key) [out] False of
         Inl _ \<Rightarrow> say ''no transaction'' s | Inr txn \<Rightarrow> ask_submit cs_daemon txn s)"
    by (auto simp: list_all2_Cons1 bal HARDFORK_V2_HEIGHT_def)
  moreover have "pays p cs_out" "unat (Amount cs_out) = 2009999999" by (simp_all add: p_def pays_def cs_out_def)
  moreover have "transfer_outputs cs_float (wal_balance (cli_wallet s)) 0 (typed_args p) = Inr [cs_out]"
    using cs_outputs by (simp add: s_def p_def typed_args_def bal)
  ultimately show ?thesis using p unfolding p_def s_def Let_def by blast
qed

text \<open>C15: what a user has of a wallet after \<open>create\<close> at the first prompt. Its mnemonic, typed after \<open>restore\<close> with another
  name and password, on another computer, gives the same wallet, but without its public key until the file is opened. Either
  file is opened with its password and gives the wallet that was created, exactly when the first byte of the
  checksum of the address is not zero; otherwise the files can never be opened, because the address in them is not read back.\<close>

theorem wallet_recovered:
  assumes "aead_ok c" "seed_lib_ok lib" "random_ok (snd (rnds 4))" "random_ok (snd (rnds' 5))"
    and "length (fst (rnds 4)) = SEED_ENTROPY" "derived_key lib (fst (rnds 4)) = Inr key"
    and "addr = FromPubKey c (Privkey_Public key)" "\<not> IsDelegate addr"
    and "name \<noteq> []" "name' \<noteq> []" "fs (name @ ''.keys'') = None" "fs' (name' @ ''.keys'') = None"
  shows "\<exists>fs1 fs1' info. db_Address info = Address_Integrated addr \<and> db_PrivateKey info = key \<and>
    initialPrompt c lib rnds fs [Some ''create'', Some name, Some pass, Some pass] = (fs1, Some info) \<and>
    initialPrompt c lib rnds' fs' [Some ''restore'', Some name', Some pass', Some pass', Some (db_Mnemonic info)] =
      (fs1', Some (info\<lparr>db_PubKey := 0\<rparr>)) \<and>
    (let opened = (if hd (checksum (arr_bytes addr)) = 0 then None else Some info)
     in initialPrompt c lib rnds'' fs1 [Some ''open'', Some name, Some pass] = (fs1, opened) \<and>
        initialPrompt c lib rnds'' fs1' [Some ''open'', Some name', Some pass'] = (fs1', opened))"
proof -
  obtain m k db where db: "derived_key lib (fst (rnds 4)) = Inr k" "decodeMnemonic lib m = Inr k"
    "CreateWalletFile c lib (fst (rnds 4)) (snd (rnds 4)) fs (name @ ''.keys'') pass =
       (fs(name @ ''.keys'' \<mapsto> db), Inr (wallet_info c m k (Privkey_Public k)))"
    "OpenWallet c lib db pass = res_bind (FromString (Address_String (FromPubKey c (Privkey_Public k)))) (\<lambda>a.
         Inr ((wallet_info c m k (Privkey_Public k))\<lparr>db_Address := a\<rparr>))"
    by (rule created_wallet [where fs = fs and name = "name @ ''.keys''" and pass = pass, OF assms(1-3,5,11)])
  have k: "k = key" using db(1) assms(6) by simp
  obtain db' where db': "CreateWalletFileFromMnemonic c lib (snd (rnds' 5)) fs' (name' @ ''.keys'') m pass' =
       (fs'(name' @ ''.keys'' \<mapsto> db'), Inr (wallet_info c m k 0))"
    "OpenWallet c lib db' pass' = res_bind (FromString (Address_String (FromPubKey c (Privkey_Public k)))) (\<lambda>a.
         Inr ((wallet_info c m k (Privkey_Public k))\<lparr>db_Address := a\<rparr>))"
    by (rule restored_wallet [where fs = fs' and name = "name' @ ''.keys''" and pass = pass', OF assms(1,2,4) db(2) assms(12)])
  have addr: "FromString (Address_String addr) =
      (if hd (checksum (arr_bytes addr)) = 0 then Inl (Err ''invalid address size'') else Inr (Address_Integrated addr))"
    by (rule address_text [OF assms(8)])
  show ?thesis
    using db(3,4) db' addr assms(7)
    by (intro exI [of _ "fs(name @ ''.keys'' \<mapsto> db)"] exI [of _ "fs'(name' @ ''.keys'' \<mapsto> db')"]
          exI [of _ "wallet_info c m k (Privkey_Public k)"])
      (simp add: prompt_lines [OF assms(9)] prompt_lines [OF assms(10)] prompt_result_def OpenWalletFile_def wallet_info_def k)
qed

theorem wallet_recovered_witness:
  "\<exists>fs1 info. initialPrompt cs_crypto cs_lib (\<lambda>_. (replicate 24 0, cs_random)) Map.empty
      [Some ''create'', Some ''a'', Some ''pw'', Some ''pw''] = (fs1, Some info) \<and> db_PrivateKey info = cs_key \<and>
     initialPrompt cs_crypto cs_lib (\<lambda>_. ([], [], [])) fs1 [Some ''open'', Some ''a'', Some ''pw''] = (fs1, Some info)"
proof -
  obtain key where key: "derived_key cs_lib (replicate 24 0) = Inr key" using derived_key_total by blast
  have nd: "\<not> IsDelegate wp_addr" by (simp add: IsDelegate_def wp_addr_def arr_bytes_arr_of SIZE_def list_all_iff)
  have len: "length (replicate 24 0) = SEED_ENTROPY" by (simp add: SEED_ENTROPY_def)
  have hyps: "random_ok (snd ((\<lambda>_. (replicate 24 0, cs_random)) 4))" "random_ok (snd ((\<lambda>_. (replicate 24 0, cs_random)) 5))"
    "length (fst ((\<lambda>_. (replicate 24 0, cs_random)) 4)) = SEED_ENTROPY"
    "derived_key cs_lib (fst ((\<lambda>_. (replicate 24 0, cs_random)) 4)) = Inr cs_key"
    using cs_random_ok len key by (simp_all add: cs_key_def)
  have names: "''a'' \<noteq> []" "''b'' \<noteq> []" "Map.empty (''a'' @ ''.keys'') = None" "Map.empty (''b'' @ ''.keys'') = None" by simp_all
  from wallet_recovered [OF cs_crypto_ok cs_lib_ok hyps cs_address [symmetric] nd names, of "''pw''" "''qw''" "\<lambda>_. ([], [], [])"]
  show ?thesis using wp_checksum by (auto simp: Let_def)
qed

end
